(* ===== verification/Prelude.thy ===== *)
theory Prelude
  imports Main "HOL-Library.Word"
begin

text \<open>
  Shared vocabulary of the development: the machine integers of the Rust sources, the
  error monad on sums that models \<open>Result\<close> and the \<open>?\<close> operator, the string primitives of
  Rust's standard library that the components use, and insertion-ordered association
  lists for the hash maps of the sources.

  A Rust \<open>String\<close> is modelled as the list of its characters, the type \<open>string\<close>; the
  characters are the 256 code points of type \<open>char\<close>. Character classes
  (\<open>is_whitespace\<close>, \<open>is_ascii_alphanumeric\<close>) are those of the Rust standard library on
  these code points.
\<close>

named_theorems res_simps \<open>rewrite rules of the error monad\<close>
named_theorems str_simps \<open>definitions of the string primitives, for closed evaluation\<close>

section \<open>Machine integers\<close>

type_synonym u8 = "8 word"
type_synonym u16 = "16 word"
type_synonym u32 = "32 word"
type_synonym u64 = "64 word"
type_synonym u128 = "128 word"
type_synonym i32 = "32 word"
type_synonym i64 = "64 word"
type_synonym bytes = "u8 list"

text \<open>Signed integers are words read by \<open>sint\<close>.\<close>

lemma unat_bound: "unat (w :: 'a::len word) < 2 ^ LENGTH('a)"
  by simp

section \<open>The error monad\<close>

text \<open>\<open>Inl e\<close> is \<open>Err(e)\<close>, \<open>Inr a\<close> is \<open>Ok(a)\<close>; \<open>res_bind\<close> is the \<open>?\<close> operator.\<close>

definition res_bind :: "'e + 'a \<Rightarrow> ('a \<Rightarrow> 'e + 'b) \<Rightarrow> 'e + 'b" where
  "res_bind r f = (case r of Inl e \<Rightarrow> Inl e | Inr a \<Rightarrow> f a)"

lemma res_bind_Inl [simp, res_simps]: "res_bind (Inl e) f = Inl e"
  by (simp add: res_bind_def)

lemma res_bind_Inr [simp, res_simps]: "res_bind (Inr a) f = f a"
  by (simp add: res_bind_def)

lemma res_bind_eq_Inr:
  "res_bind r f = Inr b \<longleftrightarrow> (\<exists>a. r = Inr a \<and> f a = Inr b)"
  by (cases r) auto

lemma res_bind_eq_Inl:
  "res_bind r f = Inl e \<longleftrightarrow> r = Inl e \<or> (\<exists>a. r = Inr a \<and> f a = Inl e)"
  by (cases r) auto

lemma res_bind_cong [fundef_cong]:
  "\<lbrakk>r = r'; \<And>a. r' = Inr a \<Longrightarrow> f a = g a\<rbrakk> \<Longrightarrow> res_bind r f = res_bind r' g"
  by (cases r') auto

definition ok_or :: "'e \<Rightarrow> 'a option \<Rightarrow> 'e + 'a" where
  "ok_or e o' = (case o' of None \<Rightarrow> Inl e | Some a \<Rightarrow> Inr a)"

lemma ok_or_simps [simp, res_simps]: "ok_or e None = Inl e" "ok_or e (Some a) = Inr a"
  by (simp_all add: ok_or_def)

lemma ok_or_eq_Inr [simp]: "ok_or e x = Inr a \<longleftrightarrow> x = Some a"
  by (cases x) auto

definition guard_or :: "bool \<Rightarrow> 'e \<Rightarrow> 'e + unit" where
  "guard_or b e = (if b then Inr () else Inl e)"

lemma guard_or_simps [simp, res_simps]: "guard_or True e = Inr ()" "guard_or False e = Inl e"
  by (simp_all add: guard_or_def)

lemma guard_or_eq_Inr [simp]: "guard_or b e = Inr u \<longleftrightarrow> b"
  by (cases b) auto

text \<open>\<open>Option<Result>::transpose\<close> after a \<open>map\<close>: nothing stays nothing.\<close>

definition opt_res :: "'a option \<Rightarrow> ('a \<Rightarrow> 'e + 'b) \<Rightarrow> 'e + 'b option" where
  "opt_res v f = (case v of None \<Rightarrow> Inr None | Some a \<Rightarrow> res_bind (f a) (\<lambda>b. Inr (Some b)))"

lemma opt_res_simps [simp, res_simps]:
  "opt_res None f = Inr None" "opt_res (Some a) f = res_bind (f a) (\<lambda>b. Inr (Some b))"
  by (simp_all add: opt_res_def)

lemma opt_res_eq_Inr:
  "opt_res v f = Inr r \<longleftrightarrow>
     (case v of None \<Rightarrow> r = None | Some a \<Rightarrow> \<exists>b. f a = Inr b \<and> r = Some b)"
  by (cases v) (auto simp: res_bind_eq_Inr)

text \<open>A loop that pushes one result per element and leaves at the first error.\<close>

fun res_map :: "('a \<Rightarrow> 'e + 'b) \<Rightarrow> 'a list \<Rightarrow> 'e + 'b list" where
  "res_map f [] = Inr []"
| "res_map f (x # xs) = res_bind (f x) (\<lambda>y. res_bind (res_map f xs) (\<lambda>ys. Inr (y # ys)))"

lemma res_map_cong [fundef_cong]:
  "\<lbrakk>xs = ys; \<And>x. x \<in> set ys \<Longrightarrow> f x = g x\<rbrakk> \<Longrightarrow> res_map f xs = res_map g ys"
  by (induction ys arbitrary: xs) auto

lemma res_map_length: "res_map f xs = Inr ys \<Longrightarrow> length ys = length xs"
  by (induction xs arbitrary: ys) (auto simp: res_bind_eq_Inr)

lemma res_map_Inr_iff:
  "res_map f xs = Inr ys \<longleftrightarrow> list_all2 (\<lambda>x y. f x = Inr y) xs ys"
  by (induction xs arbitrary: ys) (auto simp: res_bind_eq_Inr list_all2_Cons1)

lemma res_map_all_Inr:
  assumes "\<And>x. x \<in> set xs \<Longrightarrow> f x = Inr (g x)"
  shows "res_map f xs = Inr (map g xs)"
  using assms by (induction xs) auto

lemma res_map_set:
  "res_map f xs = Inr ys \<Longrightarrow> y \<in> set ys \<Longrightarrow> \<exists>x \<in> set xs. f x = Inr y"
  by (induction xs arbitrary: ys) (auto simp: res_bind_eq_Inr)

section \<open>Least recently used entries\<close>

text \<open>The entries of an LRU cache from the least to the most recently used: storing a key moves it
  to the end and drops the first entry of a full cache.\<close>

definition lru_insert :: "nat \<Rightarrow> ('k \<times> 'v) list \<Rightarrow> 'k \<Rightarrow> 'v \<Rightarrow> ('k \<times> 'v) list" where
  "lru_insert cap es k t =
    (let es' = filter (\<lambda>e. fst e \<noteq> k) es @ [(k, t)]
     in if cap < length es' then tl es' else es')"

lemma lru_insert_mem: "0 < cap \<Longrightarrow> (k, t) \<in> set (lru_insert cap es k t)"
  by (cases "filter (\<lambda>e. fst e \<noteq> k) es") (auto simp: lru_insert_def Let_def)

lemma lru_insert_sub: "set (lru_insert cap es k t) \<subseteq> insert (k, t) {e \<in> set es. fst e \<noteq> k}"
proof -
  let ?xs = "filter (\<lambda>e. fst e \<noteq> k) es @ [(k, t)]"
  have "set ?xs = insert (k, t) {e \<in> set es. fst e \<noteq> k}" by auto
  moreover have "set (tl ?xs) \<subseteq> set ?xs" by (cases ?xs) auto
  moreover have "lru_insert cap es k t = (if cap < length ?xs then tl ?xs else ?xs)" by (simp add: lru_insert_def Let_def)
  ultimately show ?thesis by (simp only: split: if_split) blast
qed

lemma lru_insert_distinct:
  assumes "distinct (map fst es)"
  shows "distinct (map fst (lru_insert cap es k t))"
proof -
  have "distinct (map fst (filter (\<lambda>e. fst e \<noteq> k) es @ [(k, t)]))" using assms by (auto simp: distinct_map_filter)
  then show ?thesis by (simp add: lru_insert_def Let_def map_tl distinct_tl)
qed

section \<open>Step relations and invariants\<close>

inductive reachable :: "('s \<Rightarrow> bool) \<Rightarrow> ('s \<Rightarrow> 's \<Rightarrow> bool) \<Rightarrow> 's \<Rightarrow> bool"
  for init :: "'s \<Rightarrow> bool" and step :: "'s \<Rightarrow> 's \<Rightarrow> bool" where
  start: "init s \<Longrightarrow> reachable init step s"
| move: "reachable init step s \<Longrightarrow> step s t \<Longrightarrow> reachable init step t"

text \<open>What a component promises of its state: it holds at the start and every step keeps it.\<close>

locale invariant =
  fixes init :: "'s \<Rightarrow> bool"
    and step :: "'s \<Rightarrow> 's \<Rightarrow> bool"
    and inv :: "'s \<Rightarrow> bool"
  assumes inv_init: "init s \<Longrightarrow> inv s"
    and inv_step: "inv s \<Longrightarrow> step s t \<Longrightarrow> inv t"
begin

lemma reachable_inv: "reachable init step s \<Longrightarrow> inv s"
  by (induction rule: reachable.induct) (auto intro: inv_init inv_step)

lemma steps_inv: "step\<^sup>*\<^sup>* s t \<Longrightarrow> inv s \<Longrightarrow> inv t"
  by (induction rule: rtranclp_induct) (auto intro: inv_step)

end

end
