(* ===== verification/Rust_Str.thy ===== *)
theory Rust_Str
  imports Prelude
begin

text \<open>
  The string primitives of Rust's standard library that the sources call: \<open>trim\<close>,
  \<open>strip_prefix\<close>, \<open>strip_suffix\<close>, \<open>split_once\<close>, \<open>split\<close>, \<open>contains\<close>, the ASCII case
  folding and the character classes. The laws proved here are the ones the components
  rely on: what a trim leaves, what a prefix split takes off, that a substring search
  finds exactly the substrings.
\<close>

section \<open>Character classes\<close>

definition is_whitespace :: "char \<Rightarrow> bool" where
  "is_whitespace c = (let n = (of_char c :: nat) in
     (9 \<le> n \<and> n \<le> 13) \<or> n = 32 \<or> n = 133 \<or> n = 160)"

definition is_ascii_digit :: "char \<Rightarrow> bool" where
  "is_ascii_digit c = (let n = (of_char c :: nat) in 48 \<le> n \<and> n \<le> 57)"

definition is_ascii_upper :: "char \<Rightarrow> bool" where
  "is_ascii_upper c = (let n = (of_char c :: nat) in 65 \<le> n \<and> n \<le> 90)"

definition is_ascii_lower :: "char \<Rightarrow> bool" where
  "is_ascii_lower c = (let n = (of_char c :: nat) in 97 \<le> n \<and> n \<le> 122)"

definition is_ascii_alphanumeric :: "char \<Rightarrow> bool" where
  "is_ascii_alphanumeric c = (is_ascii_digit c \<or> is_ascii_upper c \<or> is_ascii_lower c)"

definition ascii_lower :: "char \<Rightarrow> char" where
  "ascii_lower c = (if is_ascii_upper c then char_of ((of_char c :: nat) + 32) else c)"

definition to_ascii_lowercase :: "string \<Rightarrow> string" where
  "to_ascii_lowercase s = map ascii_lower s"

definition ascii_upper :: "char \<Rightarrow> char" where
  "ascii_upper c = (if is_ascii_lower c then char_of ((of_char c :: nat) - 32) else c)"

lemmas char_class_defs =
  is_whitespace_def is_ascii_digit_def is_ascii_upper_def is_ascii_lower_def
  is_ascii_alphanumeric_def ascii_lower_def ascii_upper_def

declare char_class_defs [str_simps] to_ascii_lowercase_def [str_simps]

lemma of_char_ascii_lower:
  "(of_char (ascii_lower c) :: nat) = (if is_ascii_upper c then of_char c + 32 else of_char c)"
  by (auto simp: ascii_lower_def is_ascii_upper_def Let_def of_char_of)

lemma ascii_lower_not_upper [simp]: "\<not> is_ascii_upper (ascii_lower c)"
  by (simp add: is_ascii_upper_def Let_def of_char_ascii_lower split: if_splits)

lemma ascii_lower_idem [simp]: "ascii_lower (ascii_lower c) = ascii_lower c"
  using ascii_lower_not_upper [of c] by (simp add: ascii_lower_def [of "ascii_lower c"])

lemma to_ascii_lowercase_idem [simp]:
  "to_ascii_lowercase (to_ascii_lowercase s) = to_ascii_lowercase s"
  by (simp add: to_ascii_lowercase_def)

lemma length_to_ascii_lowercase [simp]: "length (to_ascii_lowercase s) = length s"
  by (simp add: to_ascii_lowercase_def)

lemma to_ascii_lowercase_append [simp]:
  "to_ascii_lowercase (s @ t) = to_ascii_lowercase s @ to_ascii_lowercase t"
  by (simp add: to_ascii_lowercase_def)

lemma to_ascii_lowercase_Nil_iff [simp]: "to_ascii_lowercase s = [] \<longleftrightarrow> s = []"
  by (simp add: to_ascii_lowercase_def)

section \<open>Trimming\<close>

definition trim_start :: "string \<Rightarrow> string" where
  "trim_start s = dropWhile is_whitespace s"

definition trim_end :: "string \<Rightarrow> string" where
  "trim_end s = rev (dropWhile is_whitespace (rev s))"

definition trim :: "string \<Rightarrow> string" where
  "trim s = trim_end (trim_start s)"

declare trim_def [str_simps] trim_start_def [str_simps] trim_end_def [str_simps]

lemma trim_end_Cons:
  "trim_end (c # s) = (if trim_end s = [] \<and> is_whitespace c then [] else c # trim_end s)"
proof (cases "\<forall>x \<in> set s. is_whitespace x")
  case True
  then have "dropWhile is_whitespace (rev s @ [c]) = dropWhile is_whitespace [c]"
    by (intro dropWhile_append2) simp
  moreover from True have "dropWhile is_whitespace (rev s) = []" by simp
  ultimately show ?thesis by (simp add: trim_end_def)
next
  case False
  then obtain x where x: "x \<in> set (rev s)" "\<not> is_whitespace x" by auto
  then have "trim_end s \<noteq> []" by (auto simp: trim_end_def)
  moreover from x have "dropWhile is_whitespace (rev s @ [c]) = dropWhile is_whitespace (rev s) @ [c]"
    by (rule dropWhile_append1)
  ultimately show ?thesis by (simp add: trim_end_def)
qed

lemma trim_end_eq_Nil: "trim_end s = [] \<longleftrightarrow> (\<forall>c \<in> set s. is_whitespace c)"
  by (auto simp: trim_end_def)

lemma trim_start_eq_Nil: "trim_start s = [] \<longleftrightarrow> (\<forall>c \<in> set s. is_whitespace c)"
  by (auto simp: trim_start_def)

lemma trim_eq_Nil: "trim s = [] \<longleftrightarrow> (\<forall>c \<in> set s. is_whitespace c)"
proof
  assume "trim s = []"
  then have ws: "\<forall>c \<in> set (trim_start s). is_whitespace c"
    by (simp add: trim_def trim_end_eq_Nil)
  have "trim_start s = []"
  proof (rule ccontr)
    assume ne: "trim_start s \<noteq> []"
    then have "\<not> is_whitespace (hd (trim_start s))"
      by (simp add: trim_start_def hd_dropWhile)
    with ws ne show False by (simp add: list.set_sel)
  qed
  then show "\<forall>c \<in> set s. is_whitespace c" by (simp add: trim_start_eq_Nil)
next
  assume "\<forall>c \<in> set s. is_whitespace c"
  then have "trim_start s = []" by (simp add: trim_start_eq_Nil)
  then show "trim s = []" by (simp add: trim_def trim_end_def)
qed

text \<open>A string with no white space at either end is its own trim.\<close>

lemma trim_id:
  assumes "s = [] \<or> (\<not> is_whitespace (hd s) \<and> \<not> is_whitespace (last s))"
  shows "trim s = s"
proof (cases "s = []")
  case True
  then show ?thesis by (simp add: trim_def trim_start_def trim_end_def)
next
  case False
  with assms have h: "\<not> is_whitespace (hd s)" and l: "\<not> is_whitespace (last s)" by auto
  from False h have st: "trim_start s = s"
    by (cases s) (auto simp: trim_start_def)
  from False l have "dropWhile is_whitespace (rev s) = rev s"
    by (cases s rule: rev_cases) auto
  then show ?thesis by (simp add: trim_def st trim_end_def)
qed

lemma last_trim_end: "trim_end s \<noteq> [] \<Longrightarrow> \<not> is_whitespace (last (trim_end s))"
  by (metis hd_dropWhile last_rev rev_is_Nil_conv trim_end_def)

lemma hd_trim_end: "trim_end s \<noteq> [] \<Longrightarrow> hd (trim_end s) = hd s"
  by (cases s) (auto simp: trim_end_Cons trim_end_def [of "[]"] split: if_splits)

lemma trim_ends:
  assumes "trim s \<noteq> []"
  shows "\<not> is_whitespace (hd (trim s))" and "\<not> is_whitespace (last (trim s))"
proof -
  from assms have te: "trim_end (trim_start s) \<noteq> []" by (simp add: trim_def)
  from te show "\<not> is_whitespace (last (trim s))"
    unfolding trim_def by (rule last_trim_end)
  from te have ts: "trim_start s \<noteq> []" by (auto simp: trim_end_def)
  have "hd (trim s) = hd (trim_start s)"
    unfolding trim_def using te by (rule hd_trim_end)
  moreover from ts have "\<not> is_whitespace (hd (trim_start s))"
    by (simp add: trim_start_def hd_dropWhile)
  ultimately show "\<not> is_whitespace (hd (trim s))" by simp
qed

lemma trim_idem [simp]: "trim (trim s) = trim s"
  by (rule trim_id) (use trim_ends in blast)

lemma set_trim: "set (trim s) \<subseteq> set s"
proof -
  have "set (trim s) \<subseteq> set (trim_start s)"
    using set_dropWhileD by (fastforce simp: trim_def trim_end_def)
  also have "\<dots> \<subseteq> set s"
    using set_dropWhileD by (fastforce simp: trim_start_def)
  finally show ?thesis .
qed

text \<open>White space around a text does not change its trim.\<close>

lemma trim_start_pad: "\<forall>c \<in> set a. is_whitespace c \<Longrightarrow> trim_start (a @ s) = trim_start s"
  unfolding trim_start_def by (rule dropWhile_append2) simp

lemma trim_end_pad: "\<forall>c \<in> set b. is_whitespace c \<Longrightarrow> trim_end (s @ b) = trim_end s"
  unfolding trim_end_def rev_append by (subst dropWhile_append2) auto

lemma trim_pad:
  assumes a: "\<forall>c \<in> set a. is_whitespace c" and b: "\<forall>c \<in> set b. is_whitespace c"
  shows "trim (a @ s @ b) = trim s"
proof (cases "\<forall>c \<in> set s. is_whitespace c")
  case True
  with a b have "trim (a @ s @ b) = []" "trim s = []" by (auto simp: trim_eq_Nil)
  then show ?thesis by simp
next
  case False
  then obtain x where "x \<in> set s" "\<not> is_whitespace x" by auto
  then have "trim_start (s @ b) = trim_start s @ b"
    unfolding trim_start_def by (rule dropWhile_append1)
  then show ?thesis using trim_start_pad [OF a, of "s @ b"] trim_end_pad [OF b, of "trim_start s"]
    by (simp add: trim_def)
qed

section \<open>Prefixes, suffixes and splits\<close>

fun strip_prefix :: "string \<Rightarrow> string \<Rightarrow> string option" where
  "strip_prefix [] s = Some s"
| "strip_prefix (p # ps) [] = None"
| "strip_prefix (p # ps) (c # cs) = (if p = c then strip_prefix ps cs else None)"

definition strip_suffix :: "string \<Rightarrow> string \<Rightarrow> string option" where
  "strip_suffix p s = map_option rev (strip_prefix (rev p) (rev s))"

declare strip_suffix_def [str_simps]

lemma strip_prefix_iff: "strip_prefix p s = Some r \<longleftrightarrow> s = p @ r"
  by (induction p s rule: strip_prefix.induct) auto

lemma strip_prefix_append [simp]: "strip_prefix p (p @ r) = Some r"
  by (simp add: strip_prefix_iff)

lemma strip_suffix_iff: "strip_suffix p s = Some r \<longleftrightarrow> s = r @ p"
proof -
  have "strip_suffix p s = Some r \<longleftrightarrow> rev s = rev p @ rev r"
    by (auto simp: strip_suffix_def strip_prefix_iff)
  also have "\<dots> \<longleftrightarrow> s = r @ p"
    by (metis rev_append rev_rev_ident)
  finally show ?thesis .
qed

lemma strip_suffix_append [simp]: "strip_suffix p (r @ p) = Some r"
  by (simp add: strip_suffix_iff)

definition starts_with :: "string \<Rightarrow> string \<Rightarrow> bool" where
  "starts_with p s = (strip_prefix p s \<noteq> None)"

declare starts_with_def [str_simps]

lemma starts_with_iff: "starts_with p s \<longleftrightarrow> (\<exists>r. s = p @ r)"
  by (auto simp: starts_with_def strip_prefix_iff)

text \<open>\<open>str::split_once\<close>: the text before and after the first occurrence of the needle.\<close>

fun split_once :: "string \<Rightarrow> string \<Rightarrow> (string \<times> string) option" where
  "split_once needle [] = (if needle = [] then Some ([], []) else None)"
| "split_once needle (c # cs) =
     (case strip_prefix needle (c # cs) of
        Some rest \<Rightarrow> Some ([], rest)
      | None \<Rightarrow> map_option (\<lambda>(l, r). (c # l, r)) (split_once needle cs))"

lemma split_once_Some:
  "split_once needle s = Some (l, r) \<Longrightarrow> s = l @ needle @ r"
  by (induction s arbitrary: l r)
     (auto simp: strip_prefix_iff split: if_splits option.splits)

lemma split_once_None_iff:
  "split_once needle s = None \<longleftrightarrow> (\<forall>l r. s \<noteq> l @ needle @ r)"
proof (induction s)
  case Nil
  then show ?case by auto
next
  case (Cons c cs)
  show ?case
  proof (cases "strip_prefix needle (c # cs)")
    case None
    then have "\<And>r. c # cs \<noteq> needle @ r" by (metis option.distinct(1) strip_prefix_append)
    then have "(\<forall>l r. c # cs \<noteq> l @ needle @ r) \<longleftrightarrow> (\<forall>l r. cs \<noteq> l @ needle @ r)"
      by (metis append_Cons append_Nil list.exhaust list.inject)
    with None Cons.IH show ?thesis by simp
  next
    case (Some rest)
    then have "c # cs = [] @ needle @ rest" by (simp add: strip_prefix_iff)
    with Some show ?thesis by (metis option.distinct(1) option.simps(5) split_once.simps(2))
  qed
qed

text \<open>No earlier occurrence: the part before the split does not contain the needle.\<close>

lemma split_once_first:
  "split_once needle s = Some (l, r) \<Longrightarrow> needle \<noteq> [] \<Longrightarrow> split_once needle l = None"
proof (induction s arbitrary: l r)
  case Nil
  then show ?case by simp
next
  case (Cons c cs)
  show ?case
  proof (cases "strip_prefix needle (c # cs)")
    case None
    with Cons.prems obtain l' where l: "l = c # l'" and sp: "split_once needle cs = Some (l', r)"
      by auto
    have "cs = l' @ needle @ r" using sp by (rule split_once_Some)
    have "strip_prefix needle (c # l') = None"
    proof (rule ccontr)
      assume "strip_prefix needle (c # l') \<noteq> None"
      then obtain t where "c # l' = needle @ t" by (auto simp: strip_prefix_iff)
      with \<open>cs = l' @ needle @ r\<close> have "c # cs = needle @ (t @ needle @ r)"
        by (metis append.assoc append_Cons)
      with None show False by simp
    qed
    moreover have "split_once needle l' = None" using sp Cons.prems(2) by (rule Cons.IH)
    ultimately show ?thesis using l by simp
  next
    case (Some rest)
    with Cons.prems show ?thesis by simp
  qed
qed

lemma split_once_shortest:
  "split_once needle s = Some (l, r) \<Longrightarrow> s = l' @ needle @ r' \<Longrightarrow> length l \<le> length l'"
proof (induction s arbitrary: l r l')
  case Nil
  then show ?case by (auto split: if_splits)
next
  case (Cons c cs)
  show ?case
  proof (cases "strip_prefix needle (c # cs)")
    case (Some rest)
    then show ?thesis using Cons.prems(1) by simp
  next
    case None
    then obtain m where m: "l = c # m" "split_once needle cs = Some (m, r)"
      using Cons.prems(1) by auto
    from None Cons.prems(2) obtain m' where m': "l' = c # m'" "cs = m' @ needle @ r'"
      by (cases l') auto
    from Cons.IH [OF m(2) m'(2)] m m' show ?thesis by simp
  qed
qed

lemma split_once_char_free:
  "c \<notin> set l \<Longrightarrow> split_once [c] (l @ c # r) = Some (l, r)"
  by (induction l) auto

lemma split_once_char_None: "split_once [c] s = None \<longleftrightarrow> c \<notin> set s"
  by (induction s) auto

lemma split_once_char_before: "split_once [c] s = Some (l, r) \<Longrightarrow> c \<notin> set l"
  using split_once_first [of "[c]" s l r] by (simp add: split_once_char_None)

definition str_contains :: "string \<Rightarrow> string \<Rightarrow> bool" where
  "str_contains hay needle = (split_once needle hay \<noteq> None)"

declare str_contains_def [str_simps]

lemma str_contains_iff: "str_contains hay needle \<longleftrightarrow> (\<exists>l r. hay = l @ needle @ r)"
  by (simp add: str_contains_def split_once_None_iff)

text \<open>\<open>str::split\<close> on one character: always at least one part.\<close>

fun split_char :: "char \<Rightarrow> string \<Rightarrow> string list" where
  "split_char d [] = [[]]"
| "split_char d (c # cs) =
     (if c = d then [] # split_char d cs
      else (case split_char d cs of
              [] \<Rightarrow> [[c]]
            | p # ps \<Rightarrow> (c # p) # ps))"

lemma split_char_nonempty [simp]: "split_char d s \<noteq> []"
  by (induction s) (auto split: list.splits)

lemma split_char_no_delim: "d \<notin> set s \<Longrightarrow> split_char d s = [s]"
  by (induction s) auto

lemma split_char_one: "d \<notin> set l \<Longrightarrow> split_char d (l @ d # r) = l # split_char d r"
  by (induction l) auto

lemma split_char_parts: "p \<in> set (split_char d s) \<Longrightarrow> d \<notin> set p"
  by (induction s arbitrary: p) (auto split: if_splits list.splits)

text \<open>Joining the parts with the delimiter gives the string back.\<close>

fun join_char :: "char \<Rightarrow> string list \<Rightarrow> string" where
  "join_char d [] = []"
| "join_char d [p] = p"
| "join_char d (p # q # ps) = p @ d # join_char d (q # ps)"

lemma join_split_char: "join_char d (split_char d s) = s"
proof (induction s)
  case (Cons c cs)
  obtain p ps where sp: "split_char d cs = p # ps"
    using split_char_nonempty by (cases "split_char d cs") auto
  with Cons.IH have "join_char d (p # ps) = cs" by simp
  then show ?case by (cases ps) (simp_all add: sp)
qed simp

text \<open>\<open>Vec<String>::join(", ")\<close>.\<close>

fun join_str :: "string \<Rightarrow> string list \<Rightarrow> string" where
  "join_str sep [] = []"
| "join_str sep [p] = p"
| "join_str sep (p # q # ps) = p @ sep @ join_str sep (q # ps)"

text \<open>\<open>str::split\<close> with a predicate: the parts between the characters that satisfy it.\<close>

fun split_where :: "(char \<Rightarrow> bool) \<Rightarrow> string \<Rightarrow> string list" where
  "split_where P [] = [[]]"
| "split_where P (c # cs) =
    (if P c then [] # split_where P cs else (c # hd (split_where P cs)) # tl (split_where P cs))"

lemma split_where_not_Nil [simp]: "split_where P s \<noteq> []"
  by (cases s) auto

lemma split_where_code [code]:
  "split_where P [] = [[]]"
  "split_where P (c # cs) =
    (if P c then [] # split_where P cs else (case split_where P cs of p # ps \<Rightarrow> (c # p) # ps | [] \<Rightarrow> [[c]]))"
  using split_where_not_Nil [of P cs] by (auto split: list.split)

lemma split_where_run:
  "\<forall>c \<in> set a. \<not> P c \<Longrightarrow> split_where P (a @ s) = (a @ hd (split_where P s)) # tl (split_where P s)"
  by (induction a) simp_all

lemma split_where_cons: "split_where P (a @ d # s) = split_where P a @ split_where P s" if "P d"
  using that by (induction a) simp_all

lemma split_where_parts: "p \<in> set (split_where P s) \<Longrightarrow> c \<in> set p \<Longrightarrow> \<not> P c"
proof (induction s arbitrary: p c)
  case (Cons d s)
  have hd: "\<not> P c" if "c \<in> set (hd (split_where P s))" for c
    using Cons.IH that by (meson hd_in_set split_where_not_Nil)
  have tl: "\<not> P c" if "p \<in> set (tl (split_where P s))" "c \<in> set p" for p c
    using Cons.IH that by (meson list.set_sel(2) split_where_not_Nil)
  show ?case using Cons.prems Cons.IH hd tl by (auto split: if_splits)
qed simp

text \<open>\<open>str::split_whitespace\<close>.\<close>

definition split_whitespace :: "string \<Rightarrow> string list" where
  "split_whitespace s = filter (\<lambda>p. p \<noteq> []) (split_where is_whitespace s)"

lemma split_whitespace_word:
  assumes "w \<noteq> []" "\<forall>c \<in> set w. \<not> is_whitespace c"
  shows "split_whitespace w = [w]" "is_whitespace d \<Longrightarrow> split_whitespace (w @ d # s) = w # split_whitespace s"
  using split_where_run [OF assms(2), of "[]"] assms(1)
  by (simp_all add: split_whitespace_def split_where_cons)

lemma split_whitespace_join:
  assumes "set ws \<subseteq> set (split_whitespace s)"
  shows "split_whitespace (join_str '' '' ws) = ws"
  using assms
proof (induction ws rule: induct_list012)
  case (2 p)
  then show ?case using split_where_parts [of p is_whitespace s] split_whitespace_word(1) [of p]
    by (auto simp: split_whitespace_def)
next
  case (3 p q ps)
  have "is_whitespace (CHR '' '')" by (simp add: is_whitespace_def)
  moreover have "p \<noteq> []" "\<forall>c \<in> set p. \<not> is_whitespace c"
    using 3(3) split_where_parts [of p is_whitespace s] by (auto simp: split_whitespace_def)
  ultimately show ?case using 3 split_whitespace_word(2) [of p "CHR '' ''" "join_str '' '' (q # ps)"] by simp
qed (simp add: split_whitespace_def)

text \<open>\<open>str::to_lowercase\<close> on the code points up to 255.\<close>

definition unicode_lower :: "char \<Rightarrow> char" where
  "unicode_lower c = (let n = (of_char c :: nat) in
     if 65 \<le> n \<and> n \<le> 90 \<or> 192 \<le> n \<and> n \<le> 222 \<and> n \<noteq> 215 then char_of (n + 32) else c)"

definition to_lowercase :: "string \<Rightarrow> string" where
  "to_lowercase s = map unicode_lower s"

section \<open>UTF-8 and hexadecimal digits\<close>

definition utf8_bytes :: "string \<Rightarrow> bytes" where
  "utf8_bytes s = concat (map (\<lambda>c. if (of_char c :: nat) < 128 then [of_nat (of_char c)]
      else [of_nat (192 + of_char c div 64), of_nat (128 + of_char c mod 64)]) s)"

definition hex_digit :: "nat \<Rightarrow> char" where
  "hex_digit d = char_of (if d < 10 then 48 + d else 87 + d)"

definition to_hex :: "bytes \<Rightarrow> string" where
  "to_hex bs = concat (map (\<lambda>b. [hex_digit (unat b div 16), hex_digit (unat b mod 16)]) bs)"

definition quoted :: "string \<Rightarrow> string" where
  "quoted s = [CHR 0x27] @ s @ [CHR 0x27]"

text \<open>\<open>PathBuf::join\<close> on Unix paths: an absolute second path replaces the first.\<close>

definition path_join :: "string \<Rightarrow> string \<Rightarrow> string" where
  "path_join base p =
    (if starts_with ''/'' p then p
     else if base = [] \<or> last base = CHR ''/'' then base @ p
     else base @ ''/'' @ p)"

text \<open>\<open>String::from_utf8\<close> on the sequences of code points up to 255; larger ones are outside the model.\<close>

fun utf8_decode :: "bytes \<Rightarrow> string option" where
  "utf8_decode [] = Some []"
| "utf8_decode (b # bs) =
     (if unat b < 128 then map_option (\<lambda>s. char_of (unat b) # s) (utf8_decode bs)
      else case bs of
        [] \<Rightarrow> None
      | c # cs \<Rightarrow> if unat b div 2 = 97 \<and> unat c div 64 = 2
                  then map_option (\<lambda>s. char_of ((unat b - 192) * 64 + (unat c - 128)) # s) (utf8_decode cs)
                  else None)"

lemma utf8_bytes_simps [simp]:
  "utf8_bytes [] = []"
  "utf8_bytes (c # s) = (if (of_char c :: nat) < 128 then [of_nat (of_char c)]
      else [of_nat (192 + of_char c div 64), of_nat (128 + of_char c mod 64)]) @ utf8_bytes s"
  by (simp_all add: utf8_bytes_def)

lemma utf8_decode_append: "utf8_decode (utf8_bytes s @ bs) = map_option ((@) s) (utf8_decode bs)"
proof (induction s)
  case Nil
  then show ?case by (simp add: option.map_ident)
next
  case (Cons c s)
  let ?n = "of_char c :: nat"
  have n: "?n < 256" by (rule nat_of_char_less_256)
  have b: "unat (of_nat m :: u8) = m" if "m < 256" for m using that by (simp add: unat_of_nat)
  show ?case
  proof (cases "?n < 128")
    case True
    then show ?thesis using Cons.IH b [of ?n] by (simp add: option.map_comp o_def)
  next
    case False
    have 4: "?n div 64 < 4" by (rule less_mult_imp_div_less) (use n in linarith)
    have 1: "192 + ?n div 64 < 256" "128 + ?n mod 64 < 256" using 4 mod_less_divisor [of 64 ?n] by linarith+
    have 2: "(192 + ?n div 64) div 2 = 97" "(128 + ?n mod 64) div 64 = 2" using 4 False mod_less_divisor [of 64 ?n] by linarith+
    have 3: "?n div 64 * 64 + ?n mod 64 = ?n" by simp
    show ?thesis using Cons.IH False 1 2 3 4 b [OF 1(1)] b [OF 1(2)] by (simp add: option.map_comp o_def)
  qed
qed

lemma utf8_decode_bytes [simp]: "utf8_decode (utf8_bytes s) = Some s"
  using utf8_decode_append [of s "[]"] by simp

text \<open>UTF-8 synchronises itself: the bytes of a text occur only where the text does.\<close>

lemma utf8_prefix:
  assumes "utf8_bytes s = utf8_bytes p @ bs"
  shows "\<exists>t. s = p @ t"
proof -
  have "Some s = map_option ((@) p) (utf8_decode bs)"
    by (metis assms utf8_decode_append utf8_decode_bytes)
  then show ?thesis by (cases "utf8_decode bs") auto
qed

lemma utf8_append [simp]: "utf8_bytes (s @ t) = utf8_bytes s @ utf8_bytes t"
  by (simp add: utf8_bytes_def)

lemma utf8_char_bytes:
  "(\<exists>b. utf8_bytes [c] = [b]) \<or> (\<exists>b b'. utf8_bytes [c] = [b, b'] \<and> 128 \<le> unat b' \<and> unat b' < 192)"
proof -
  have "128 + (of_char c :: nat) mod 64 < 192" by simp
  then have "unat (of_nat (128 + of_char c mod 64) :: u8) = 128 + of_char c mod 64" by (simp add: unat_of_nat del: of_nat_add)
  then show ?thesis by (simp del: of_nat_add)
qed

lemma utf8_head:
  assumes "utf8_bytes p = b # bs"
  shows "unat b < 128 \<or> 192 \<le> unat b"
proof -
  obtain c s where p: "p = c # s" using assms by (cases p) auto
  have "(of_char c :: nat) < 256" by (rule nat_of_char_less_256)
  then have "192 + (of_char c :: nat) div 64 < 256" by linarith
  then have "unat (of_nat (192 + of_char c div 64) :: u8) = 192 + of_char c div 64" by (simp add: unat_of_nat del: of_nat_add)
  then show ?thesis using assms p by (auto simp: unat_of_nat simp del: of_nat_add split: if_splits)
qed

lemma utf8_occurs:
  assumes "p \<noteq> []" "utf8_bytes s = l @ utf8_bytes p @ r"
  shows "\<exists>x y. s = x @ p @ y"
  using assms(2)
proof (induction s arbitrary: l)
  case Nil
  then show ?case using assms(1) by (cases p) (auto split: if_splits)
next
  case (Cons c s)
  have cs: "utf8_bytes (c # s) = utf8_bytes [c] @ utf8_bytes s" using utf8_append [of "[c]" s] by simp
  have later: "\<exists>x y. c # s = x @ p @ y" if "utf8_bytes s = l' @ utf8_bytes p @ r" for l'
    using Cons.IH [OF that] by (metis append_Cons)
  show ?case
  proof (cases l)
    case Nil
    then show ?thesis using utf8_prefix [of "c # s" p r] Cons.prems by (metis append_Nil)
  next
    case (Cons b l')
    from utf8_char_bytes [of c] show ?thesis
    proof (elim disjE exE conjE)
      fix b assume "utf8_bytes [c] = [b]"
      then show ?thesis using later [of l'] Cons.prems cs Cons by simp
    next
      fix b b' assume b: "utf8_bytes [c] = [b, b']" "128 \<le> unat b'" "unat b' < 192"
      show ?thesis
      proof (cases l')
        case Nil
        have "utf8_bytes p \<noteq> []" using assms(1) by (cases p) simp_all
        then obtain d q where "utf8_bytes p = d # q" by (cases "utf8_bytes p") simp_all
        moreover have "d = b'" using Cons.prems cs Cons Nil b(1) calculation by simp
        ultimately have False using utf8_head [of p d q] b(2,3) by auto
        then show ?thesis ..
      next
        case (Cons d l'')
        then show ?thesis using later [of l''] Cons.prems cs \<open>l = _ # l'\<close> b(1) by simp
      qed
    qed
  qed
qed

end
