(* ===== verification/Rust_Num.thy ===== *)
theory Rust_Num
  imports Rust_Str
begin

text \<open>
  Numbers as text and floats of the Rust standard library: \<open>parse::<i64>\<close>, \<open>parse::<u64>\<close>,
  \<open>parse::<f64>\<close>, the integer to float and float to float casts, and the comparisons of
  \<open>f64\<close>. A float is its IEEE 754 bits; every conversion is exact rational arithmetic
  followed by one rounding to nearest, ties to even (\<open>round_ratio\<close>), which is what the
  standard library specifies.
\<close>

type_synonym f64 = "64 word"
type_synonym f32 = "32 word"
type_synonym i64 = "64 word"

section \<open>Decimal text\<close>

definition digit_char :: "nat \<Rightarrow> char" where
  "digit_char d = char_of (48 + d)"

fun decimal :: "nat \<Rightarrow> string" where
  "decimal n = (if n < 10 then [digit_char n] else decimal (n div 10) @ [digit_char (n mod 10)])"

declare decimal.simps [simp del]

definition digit_value :: "char \<Rightarrow> nat" where
  "digit_value c = of_char c - 48"

definition digits_value :: "string \<Rightarrow> nat" where
  "digits_value ds = foldl (\<lambda>acc c. 10 * acc + digit_value c) 0 ds"

definition all_digits :: "string \<Rightarrow> bool" where
  "all_digits ds = (ds \<noteq> [] \<and> list_all is_ascii_digit ds)"

lemma digit_char_props:
  assumes "d < 10"
  shows "is_ascii_digit (digit_char d)" "digit_value (digit_char d) = d"
  using assms by (auto simp: is_ascii_digit_def digit_char_def digit_value_def)

lemma decimal_digits: "all_digits (decimal n)"
proof (induction n rule: decimal.induct)
  case (1 n)
  then show ?case by (subst decimal.simps) (auto simp: all_digits_def digit_char_props)
qed

lemma digits_value_decimal [simp]: "digits_value (decimal n) = n"
proof (induction n rule: decimal.induct)
  case (1 n)
  then show ?case
    by (subst decimal.simps) (auto simp: digits_value_def digit_char_props)
qed

lemma decimal_inject [simp]: "decimal m = decimal n \<longleftrightarrow> m = n"
  by (metis digits_value_decimal)

text \<open>\<open>FromStr\<close> of the integer types: an optional sign, at least one digit, no overflow.\<close>

definition parse_nat_lt :: "nat \<Rightarrow> string \<Rightarrow> nat option" where
  "parse_nat_lt bound s =
    (let ds = (case s of CHR ''+'' # r \<Rightarrow> r | _ \<Rightarrow> s)
     in if all_digits ds \<and> digits_value ds < bound then Some (digits_value ds) else None)"

definition parse_i64 :: "string \<Rightarrow> int option" where
  "parse_i64 s =
    (case s of
       CHR ''-'' # ds \<Rightarrow>
         if all_digits ds \<and> digits_value ds \<le> 2 ^ 63 then Some (- int (digits_value ds)) else None
     | _ \<Rightarrow> map_option int (parse_nat_lt (2 ^ 63) s))"

definition parse_bool :: "string \<Rightarrow> bool option" where
  "parse_bool s = (if s = ''true'' then Some True else if s = ''false'' then Some False else None)"

lemma all_digits_hd:
  assumes "all_digits (c # cs)" shows "c \<noteq> CHR ''+''" "c \<noteq> CHR ''-''"
  using assms by (auto simp: all_digits_def is_ascii_digit_def)

lemma parse_nat_lt_digits:
  "all_digits ds \<Longrightarrow> parse_nat_lt bound ds = (if digits_value ds < bound then Some (digits_value ds) else None)"
  by (cases ds) (auto simp: parse_nat_lt_def all_digits_hd split: char.splits bool.splits)

lemma parse_nat_lt_decimal:
  "n < bound \<Longrightarrow> parse_nat_lt bound (decimal n) = Some n"
  using parse_nat_lt_digits [OF decimal_digits] by simp

lemma parse_nat_lt_bound: "parse_nat_lt bound s = Some n \<Longrightarrow> n < bound"
  by (auto simp: parse_nat_lt_def Let_def split: if_splits)

lemma parse_i64_bounds: "parse_i64 s = Some i \<Longrightarrow> - (2 ^ 63) \<le> i \<and> i < 2 ^ 63"
proof (cases "\<exists>ds. s = CHR ''-'' # ds")
  case True
  assume p: "parse_i64 s = Some i"
  from True obtain ds where "s = CHR ''-'' # ds" by blast
  with p have "digits_value ds \<le> 2 ^ 63" "i = - int (digits_value ds)"
    by (auto simp: parse_i64_def split: if_splits)
  then show ?thesis by simp
next
  case False
  assume p: "parse_i64 s = Some i"
  with False have "map_option int (parse_nat_lt (2 ^ 63) s) = Some i"
    by (auto simp: parse_i64_def split: list.splits if_splits char.splits bool.splits)
  then obtain n where "parse_nat_lt (2 ^ 63) s = Some n" "i = int n" by auto
  with parse_nat_lt_bound show ?thesis by fastforce
qed

section \<open>Floats\<close>

fun floor_log2 :: "nat \<Rightarrow> nat" where
  "floor_log2 n = (if n < 2 then 0 else Suc (floor_log2 (n div 2)))"

declare floor_log2.simps [simp del]

text \<open>The exponent \<open>e\<close> with \<open>2 ^ e \<le> a / b < 2 ^ (e + 1)\<close>.\<close>

definition ratio_log2 :: "nat \<Rightarrow> nat \<Rightarrow> int" where
  "ratio_log2 a b =
    (let k = int (floor_log2 a) - int (floor_log2 b)
     in if b * 2 ^ nat k \<le> a * 2 ^ nat (- k) then k else k - 1)"

definition div_half_even :: "nat \<Rightarrow> nat \<Rightarrow> nat" where
  "div_half_even a b =
    (let q = a div b; r = a mod b
     in if 2 * r < b then q else if b < 2 * r then Suc q else if even q then q else Suc q)"

text \<open>
  The magnitude bits of \<open>a / b\<close> in the format with \<open>m\<close> mantissa bits and exponent bias
  \<open>bias\<close>; a subnormal has exponent field 0, a value too large becomes infinity.
\<close>

definition round_ratio :: "nat \<Rightarrow> nat \<Rightarrow> nat \<Rightarrow> nat \<Rightarrow> nat" where
  "round_ratio m bias a b =
    (if a = 0 then 0
     else let e = max (ratio_log2 a b) (1 - int bias);
              s = int m - e;
              q = div_half_even (a * 2 ^ nat s) (b * 2 ^ nat (- s))
          in min (nat (e + int bias - 1) * 2 ^ m + q) ((2 * bias + 1) * 2 ^ m))"

definition f64_sign :: "f64 \<Rightarrow> bool" where
  "f64_sign f = (2 ^ 63 \<le> unat f)"

definition f64_magnitude :: "f64 \<Rightarrow> nat" where
  "f64_magnitude f = unat f mod 2 ^ 63"

definition f64_infinity :: nat where
  "f64_infinity = 2047 * 2 ^ 52"

definition f64_is_nan :: "f64 \<Rightarrow> bool" where
  "f64_is_nan f = (f64_infinity < f64_magnitude f)"

definition f64_make :: "bool \<Rightarrow> nat \<Rightarrow> f64" where
  "f64_make neg mag = of_nat ((if neg then 2 ^ 63 else 0) + mag)"

text \<open>The magnitude of a finite float as a fraction.\<close>

definition f64_fraction :: "f64 \<Rightarrow> nat \<times> nat" where
  "f64_fraction f =
    (let x = f64_magnitude f div 2 ^ 52; frac = f64_magnitude f mod 2 ^ 52;
         sig = (if x = 0 then frac else 2 ^ 52 + frac); e = int (max x 1) - 1075
     in (sig * 2 ^ nat e, 2 ^ nat (- e)))"

text \<open>Comparisons: a NaN is not equal to, below or above anything; zeros are equal.\<close>

definition f64_key :: "f64 \<Rightarrow> int" where
  "f64_key f = (if f64_sign f then - int (f64_magnitude f) else int (f64_magnitude f))"

definition f64_le :: "f64 \<Rightarrow> f64 \<Rightarrow> bool" where
  "f64_le a b = (\<not> f64_is_nan a \<and> \<not> f64_is_nan b \<and> f64_key a \<le> f64_key b)"

definition f64_lt :: "f64 \<Rightarrow> f64 \<Rightarrow> bool" where
  "f64_lt a b = (\<not> f64_is_nan a \<and> \<not> f64_is_nan b \<and> f64_key a < f64_key b)"

definition f64_eq :: "f64 \<Rightarrow> f64 \<Rightarrow> bool" where
  "f64_eq a b = (\<not> f64_is_nan a \<and> \<not> f64_is_nan b \<and> f64_key a = f64_key b)"

lemma f64_le_trans: "f64_le a b \<Longrightarrow> f64_le b c \<Longrightarrow> f64_le a c"
  by (auto simp: f64_le_def)

lemma f64_le_total: "\<not> f64_is_nan a \<Longrightarrow> \<not> f64_is_nan b \<Longrightarrow> f64_le a b \<or> f64_le b a"
  by (auto simp: f64_le_def)

lemma f64_le_iff: "f64_le a b \<longleftrightarrow> f64_lt a b \<or> f64_eq a b"
  by (auto simp: f64_le_def f64_lt_def f64_eq_def)

lemma f64_lt_not_le: "f64_lt a b \<Longrightarrow> \<not> f64_le b a"
  by (auto simp: f64_le_def f64_lt_def)

definition f64_one :: f64 where "f64_one = 0x3FF0000000000000"

definition f64_of_int :: "int \<Rightarrow> f64" where
  "f64_of_int i = f64_make (i < 0) (round_ratio 52 1023 (nat \<bar>i\<bar>) 1)"

definition f64_to_f32 :: "f64 \<Rightarrow> f32" where
  "f64_to_f32 f =
    (let s = (if f64_sign f then 2 ^ 31 else 0)
     in if f64_is_nan f then of_nat (s + 255 * 2 ^ 23 + 2 ^ 22 + (f64_magnitude f mod 2 ^ 51) div 2 ^ 29)
        else if f64_magnitude f = f64_infinity then of_nat (s + 255 * 2 ^ 23)
        else case f64_fraction f of (a, b) \<Rightarrow> of_nat (s + round_ratio 23 127 a b))"

text \<open>\<open>parse::<f64>\<close>: an optional sign, then a name or digits with a point and an exponent.\<close>

definition parse_exponent :: "string \<Rightarrow> int option" where
  "parse_exponent s =
    (case s of
       [] \<Rightarrow> None
     | c # r \<Rightarrow>
         let (neg, ds) = (if c = CHR ''-'' then (True, r) else if c = CHR ''+'' then (False, r) else (False, s))
         in if all_digits ds then Some (if neg then - int (digits_value ds) else int (digits_value ds)) else None)"

definition parse_decimal :: "string \<Rightarrow> (nat \<times> nat) option" where
  "parse_decimal s =
    (let whole = takeWhile is_ascii_digit s; r1 = dropWhile is_ascii_digit s;
         (frac, r2) = (case r1 of
             CHR ''.'' # r \<Rightarrow> (takeWhile is_ascii_digit r, dropWhile is_ascii_digit r)
           | _ \<Rightarrow> ([], r1));
         digits = whole @ frac
     in if digits = [] then None
        else map_option (\<lambda>x. let e = x - int (length frac) in
               (digits_value digits * 10 ^ nat e, 10 ^ nat (- e)))
             (case r2 of [] \<Rightarrow> Some 0
              | c # r \<Rightarrow> if c = CHR ''e'' \<or> c = CHR ''E'' then parse_exponent r else None))"

definition parse_f64 :: "string \<Rightarrow> f64 option" where
  "parse_f64 s =
    (let (neg, body) = (case s of [] \<Rightarrow> (False, s)
        | c # r \<Rightarrow> if c = CHR ''-'' then (True, r) else if c = CHR ''+'' then (False, r) else (False, s));
         name = to_ascii_lowercase body
     in if name = ''nan'' then Some (f64_make neg (f64_infinity + 2 ^ 51))
        else if name = ''inf'' \<or> name = ''infinity'' then Some (f64_make neg f64_infinity)
        else map_option (\<lambda>(a, b). f64_make neg (round_ratio 52 1023 a b)) (parse_decimal body))"

end
