(* ===== verification/Opening_Values.thy ===== *)
theory Opening_Values
  imports Rust_Num "HOL-Library.AList"
begin

text \<open>
  The values the opening language is built from: \<open>serde_json::Value\<close> and
  \<open>serde_yaml::Value\<close> as data, and the intermediate representation of an opening
  (\<open>crates/openings/src/parser.rs\<close>, the structs and enums, \<open>crates/core/src/agents.rs\<close>).
  A JSON object is an association list with distinct keys in insertion order, as
  \<open>serde_json\<close> keeps it with the \<open>preserve_order\<close> feature the binaries enable.
\<close>

section \<open>JSON and YAML values\<close>


text \<open>\<open>Number\<close>: a non-negative integer, a negative integer, or a float.\<close>

datatype number = PosInt u64 | NegInt i64 | Float f64

datatype json =
    JNull
  | JBool bool
  | JNumber number
  | JString string
  | JArray "json list"
  | JObject "(string \<times> json) list"

type_synonym json_map = "(string \<times> json) list"

datatype yaml =
    YNull
  | YBool bool
  | YNumber number
  | YString string
  | YSequence "yaml list"
  | YMapping "(yaml \<times> yaml) list"
  | YTagged string yaml

type_synonym mapping = "(yaml \<times> yaml) list"

fun as_mapping :: "yaml \<Rightarrow> mapping option" where
  "as_mapping (YMapping m) = Some m"
| "as_mapping (YTagged t v) = as_mapping v"
| "as_mapping v = None"

fun as_sequence :: "yaml \<Rightarrow> yaml list option" where
  "as_sequence (YSequence vs) = Some vs"
| "as_sequence (YTagged t v) = as_sequence v"
| "as_sequence v = None"

fun as_str :: "yaml \<Rightarrow> string option" where
  "as_str (YString s) = Some s"
| "as_str (YTagged t v) = as_str v"
| "as_str v = None"

fun untag :: "yaml \<Rightarrow> yaml" where
  "untag (YTagged t v) = untag v"
| "untag v = v"

fun as_bool :: "yaml \<Rightarrow> bool option" where
  "as_bool (YBool b) = Some b"
| "as_bool (YTagged t v) = as_bool v"
| "as_bool v = None"

text \<open>\<open>Number::as_i64\<close>, \<open>as_u64\<close>: the integer if it fits, nothing for a float.\<close>

fun number_as_i64 :: "number \<Rightarrow> int option" where
  "number_as_i64 (PosInt n) = (if uint n < 2 ^ 63 then Some (uint n) else None)"
| "number_as_i64 (NegInt n) = Some (sint n)"
| "number_as_i64 (Float f) = None"

fun number_as_u64 :: "number \<Rightarrow> u64 option" where
  "number_as_u64 (PosInt n) = Some n"
| "number_as_u64 (NegInt n) = None"
| "number_as_u64 (Float f) = None"

fun as_i64 :: "yaml \<Rightarrow> int option" where
  "as_i64 (YNumber n) = number_as_i64 n"
| "as_i64 (YTagged t v) = as_i64 v"
| "as_i64 v = None"

fun as_u64 :: "yaml \<Rightarrow> u64 option" where
  "as_u64 (YNumber n) = number_as_u64 n"
| "as_u64 (YTagged t v) = as_u64 v"
| "as_u64 v = None"

fun json_as_bool :: "json \<Rightarrow> bool option" where
  "json_as_bool (JBool b) = Some b"
| "json_as_bool v = None"

section \<open>The intermediate representation\<close>

record source_location =
  loc_line :: nat
  loc_column :: nat

datatype parse_error =
    ParseErr string nat nat
  | ValidationErr string nat nat

definition validation :: "string \<Rightarrow> source_location \<Rightarrow> parse_error" where
  "validation msg loc = ValidationErr msg (max (loc_line loc) 1) (max (loc_column loc) 1)"

record policy =
  pol_budget_tokens :: "u32 option"
  pol_timeout_ms :: "u64 option"
  pol_confirm_external :: "bool option"

definition default_policy :: policy where
  "default_policy =
    \<lparr>pol_budget_tokens = None, pol_timeout_ms = None, pol_confirm_external = None\<rparr>"

record agent_ref =
  ar_name :: string
  ar_variant :: "string option"

definition agent_ref_spec :: "agent_ref \<Rightarrow> string" where
  "agent_ref_spec r = (case ar_variant r of
     Some v \<Rightarrow> if v \<noteq> [] then ar_name r @ ''@'' @ v else ar_name r
   | None \<Rightarrow> ar_name r)"

datatype node_kind = AgentNode agent_ref | OpeningNode string

record retry =
  rt_max_attempts :: u32
  rt_initial_backoff_ms :: u64
  rt_max_backoff_ms :: "u64 option"
  rt_multiplier :: f32
  rt_jitter :: f32

definition default_retry :: retry where
  "default_retry =
    \<lparr>rt_max_attempts = 0, rt_initial_backoff_ms = 0, rt_max_backoff_ms = None, rt_multiplier = 0, rt_jitter = 0\<rparr>"

datatype schema_hint_fragment = HintRaw json | HintProperties json_map

record node =
  nd_id :: string
  nd_kind :: node_kind
  nd_with :: json_map
  nd_schema_hints :: "schema_hint_fragment option"
  nd_retry :: retry
  nd_timeout_ms :: "u64 option"
  nd_budget_tokens :: "u32 option"
  nd_tags :: "string list"
  nd_location :: source_location

record port_reference =
  pr_node :: string
  pr_port :: string

datatype literal = LitBool bool | LitInteger int | LitFloat f64 | LitString string

datatype comparison_op = OpEq | OpNotEq | OpGt | OpGte | OpLt | OpLte

fun comparison_symbol :: "comparison_op \<Rightarrow> string" where
  "comparison_symbol OpEq = ''==''"
| "comparison_symbol OpNotEq = ''!=''"
| "comparison_symbol OpGt = ''>''"
| "comparison_symbol OpGte = ''>=''"
| "comparison_symbol OpLt = ''<''"
| "comparison_symbol OpLte = ''<=''"

record predicate =
  pred_op :: comparison_op
  pred_value :: literal

record edge =
  ed_from :: port_reference
  ed_predicate :: "predicate option"
  ed_to :: port_reference
  ed_location :: source_location

datatype expression = Exists port_reference | Comparison port_reference predicate

datatype success_condition = AnyOf "expression list" | AllOf "expression list"

record opening_ir =
  op_version :: u32
  op_name :: string
  op_goals :: "string list"
  op_params :: json_map
  op_policy :: policy
  op_nodes :: "node list"
  op_edges :: "edge list"
  op_success :: "success_condition option"
  op_artifacts :: "port_reference list"

text \<open>\<open>Opening::agent_refs\<close>: the agent references in node order, each once.\<close>

fun agent_refs_from :: "agent_ref list \<Rightarrow> node list \<Rightarrow> agent_ref list" where
  "agent_refs_from seen [] = []"
| "agent_refs_from seen (n # ns) =
     (case nd_kind n of
        AgentNode r \<Rightarrow>
          if r \<in> set seen then agent_refs_from seen ns
          else r # agent_refs_from (r # seen) ns
      | OpeningNode _ \<Rightarrow> agent_refs_from seen ns)"

definition agent_refs :: "opening_ir \<Rightarrow> agent_ref list" where
  "agent_refs oi = agent_refs_from [] (op_nodes oi)"

lemma agent_refs_from_distinct:
  "distinct (agent_refs_from seen ns) \<and> set (agent_refs_from seen ns) \<inter> set seen = {}"
  by (induction seen ns rule: agent_refs_from.induct) (auto split: node_kind.splits)

lemma agent_refs_from_set:
  "set (agent_refs_from seen ns) \<union> set seen = {r. \<exists>n \<in> set ns. nd_kind n = AgentNode r} \<union> set seen"
  by (induction seen ns rule: agent_refs_from.induct) (auto split: node_kind.splits)

section \<open>Schema hints as JSON Schema\<close>

text \<open>\<open>build_hint_schema\<close>: the shorthand \<open>required: true\<close> of a property moves to the list.\<close>

text \<open>\<open>Map::remove\<close>: the last entry takes the place of the removed one.\<close>

definition swap_remove :: "string \<Rightarrow> json_map \<Rightarrow> json_map" where
  "swap_remove k m =
    (if k \<in> fst ` set m
     then (if fst (last m) = k then butlast m else map (\<lambda>e. if fst e = k then last m else e) (butlast m))
     else m)"

definition hint_required :: "json \<Rightarrow> bool" where
  "hint_required fragment = (case fragment of
     JObject obj \<Rightarrow> (case map_of obj ''required'' of
         Some flag \<Rightarrow> json_as_bool flag = Some True
       | None \<Rightarrow> False)
   | _ \<Rightarrow> False)"

definition hint_cleaned :: "json \<Rightarrow> json" where
  "hint_cleaned fragment = (case fragment of
     JObject obj \<Rightarrow> JObject (swap_remove ''required'' obj)
   | other \<Rightarrow> other)"

definition build_hint_schema :: "json_map \<Rightarrow> json" where
  "build_hint_schema props =
    (let required = map (JString \<circ> fst) (filter (hint_required \<circ> snd) props);
         normalized = foldl (\<lambda>m (name, fragment). AList.update name (hint_cleaned fragment) m) [] props;
         schema = [(''type'', JString ''object''), (''properties'', JObject normalized)]
     in JObject (if required \<noteq> [] then schema @ [(''required'', JArray required)] else schema))"

fun with_schema :: "schema_hint_fragment option \<Rightarrow> json option" where
  "with_schema (Some (HintRaw v)) = Some v"
| "with_schema (Some (HintProperties props)) = Some (build_hint_schema props)"
| "with_schema None = None"

end
