(* ===== verification/Opening_Template.thy ===== *)
theory Opening_Template
  imports Opening_Values
begin

text \<open>
  Parameter templates (\<open>crates/openings/src/parser.rs\<close>: \<open>apply_param_templates\<close>,
  \<open>apply_templates_array\<close>, \<open>extract_template\<close>, \<open>validate_no_templates\<close>). A string of a
  node's \<open>with\<close> map is either exactly one \<open>{{params.name}}\<close> token, which is replaced by the
  parameter's value, or a plain string with no braces; anything else is rejected. Lemmas:
  the substitution returns exactly when the payload is well templated, its result holds no
  template, and a payload without templates comes back unchanged.
\<close>

definition has_braces :: "string \<Rightarrow> bool" where
  "has_braces text = (str_contains text ''{{'' \<or> str_contains text ''}}'')"

definition is_name_char :: "char \<Rightarrow> bool" where
  "is_name_char c = (is_ascii_alphanumeric c \<or> c = CHR ''_'' \<or> c = CHR ''-'')"

definition extract_template :: "string \<Rightarrow> string option" where
  "extract_template value =
    (case strip_prefix ''{{'' value of
       None \<Rightarrow> None
     | Some s \<Rightarrow>
    (case strip_suffix ''}}'' s of
       None \<Rightarrow> None
     | Some s \<Rightarrow>
    (case strip_prefix ''params.'' (trim s) of
       None \<Rightarrow> None
     | Some rest \<Rightarrow> if list_all is_name_char rest then Some rest else None)))"

lemma extract_template_braces: "extract_template text = Some name \<Longrightarrow> has_braces text"
  by (auto simp: extract_template_def has_braces_def str_contains_iff strip_prefix_iff
      split: option.splits if_splits)

lemma size_JObject_mem: "(k, v) \<in> set m \<Longrightarrow> size v < size (JObject m)"
  by (induction m) auto

lemma size_JArray_mem: "v \<in> set vs \<Longrightarrow> size v < size (JArray vs)"
  by (induction vs) auto

section \<open>Rejecting templates inside parameter values\<close>

function validate_no_templates :: "json \<Rightarrow> source_location \<Rightarrow> parse_error + unit" where
  "validate_no_templates (JString text) loc =
     (if has_braces text
      then Inl (validation (''embedded template syntax not allowed in parameter value '' @ quoted text) loc)
      else Inr ())"
| "validate_no_templates (JArray arr) loc =
     res_bind (res_map (\<lambda>item. validate_no_templates item loc) arr) (\<lambda>_. Inr ())"
| "validate_no_templates (JObject m) loc =
     res_bind (res_map (\<lambda>kv. validate_no_templates (snd kv) loc) m) (\<lambda>_. Inr ())"
| "validate_no_templates JNull loc = Inr ()"
| "validate_no_templates (JBool b) loc = Inr ()"
| "validate_no_templates (JNumber n) loc = Inr ()"
  by pat_completeness auto
termination
  by (relation "measure (\<lambda>(v, loc). size v)")
     (auto dest: size_JArray_mem size_JObject_mem)

text \<open>The specification: no string value, at any depth, holds template syntax.\<close>

fun template_free :: "json \<Rightarrow> bool" where
  "template_free (JString text) = (\<not> has_braces text)"
| "template_free (JArray arr) = list_all template_free arr"
| "template_free (JObject m) = list_all (\<lambda>kv. template_free (snd kv)) m"
| "template_free _ = True"

lemma res_map_unit_Inr:
  "(\<exists>us. res_map f xs = Inr us) \<longleftrightarrow> (\<forall>x \<in> set xs. \<exists>u. f x = Inr u)"
  by (induction xs) (auto simp: res_bind_eq_Inr)

lemma validate_no_templates_iff: "validate_no_templates v loc = Inr () \<longleftrightarrow> template_free v"
proof (induction v loc rule: validate_no_templates.induct)
  case (2 arr loc)
  then show ?case
    using res_map_unit_Inr [of "\<lambda>item. validate_no_templates item loc" arr]
    by (simp add: res_bind_eq_Inr list_all_iff)
next
  case (3 m loc)
  then show ?case
    using res_map_unit_Inr [of "\<lambda>kv. validate_no_templates (snd kv) loc" m]
    by (simp add: res_bind_eq_Inr list_all_iff)
qed auto

section \<open>Substituting parameters\<close>

text \<open>
  The string case is the same in a map and in an array; nested maps and arrays recurse.
  Only the payload is traversed: a substituted parameter is not looked into again.
\<close>

definition template_string :: "json_map \<Rightarrow> source_location \<Rightarrow> string \<Rightarrow> parse_error + json" where
  "template_string ps loc text =
    (case extract_template text of
       Some param_name \<Rightarrow>
         res_bind (ok_or (validation (''template '' @ quoted (''{{params.'' @ param_name @ ''}}'')
                            @ '' references missing parameter'') loc)
                     (map_of ps param_name)) (\<lambda>param.
         res_bind (validate_no_templates param loc) (\<lambda>_. Inr param))
     | None \<Rightarrow>
         if has_braces text
         then Inl (validation (''unsupported template syntax in value '' @ quoted text
                @ ''; only '' @ quoted ''{{params.*}}'' @ '' is allowed'') loc)
         else Inr (JString text))"

function apply_value :: "json_map \<Rightarrow> source_location \<Rightarrow> json \<Rightarrow> parse_error + json" where
  "apply_value ps loc (JString text) = template_string ps loc text"
| "apply_value ps loc (JObject m) =
     res_bind (res_map (\<lambda>kv. res_bind (apply_value ps loc (snd kv)) (\<lambda>v. Inr (fst kv, v))) m)
       (\<lambda>m'. Inr (JObject m'))"
| "apply_value ps loc (JArray arr) =
     res_bind (res_map (\<lambda>e. apply_value ps loc e) arr) (\<lambda>arr'. Inr (JArray arr'))"
| "apply_value ps loc JNull = Inr JNull"
| "apply_value ps loc (JBool b) = Inr (JBool b)"
| "apply_value ps loc (JNumber n) = Inr (JNumber n)"
  by pat_completeness auto
termination
  by (relation "measure (\<lambda>(ps, loc, v). size v)")
     (auto dest: size_JArray_mem size_JObject_mem)

definition apply_param_templates ::
  "json_map \<Rightarrow> source_location \<Rightarrow> json_map \<Rightarrow> parse_error + json_map" where
  "apply_param_templates ps loc payload =
     res_map (\<lambda>kv. res_bind (apply_value ps loc (snd kv)) (\<lambda>v. Inr (fst kv, v))) payload"

text \<open>What a string must be to be accepted, and the payloads accepted.\<close>

definition templated_ok :: "json_map \<Rightarrow> string \<Rightarrow> bool" where
  "templated_ok ps text =
    (case extract_template text of
       Some name \<Rightarrow> (case map_of ps name of Some v \<Rightarrow> template_free v | None \<Rightarrow> False)
     | None \<Rightarrow> \<not> has_braces text)"

fun well_templated :: "json_map \<Rightarrow> json \<Rightarrow> bool" where
  "well_templated ps (JString text) = templated_ok ps text"
| "well_templated ps (JArray arr) = list_all (well_templated ps) arr"
| "well_templated ps (JObject m) = list_all (\<lambda>kv. well_templated ps (snd kv)) m"
| "well_templated ps _ = True"

text \<open>The substitution as a total function, on the accepted payloads.\<close>

fun substitute :: "json_map \<Rightarrow> json \<Rightarrow> json" where
  "substitute ps (JString text) =
     (case extract_template text of
        Some name \<Rightarrow> (case map_of ps name of Some v \<Rightarrow> v | None \<Rightarrow> JString text)
      | None \<Rightarrow> JString text)"
| "substitute ps (JArray arr) = JArray (map (substitute ps) arr)"
| "substitute ps (JObject m) = JObject (map (\<lambda>kv. (fst kv, substitute ps (snd kv))) m)"
| "substitute ps v = v"

lemma template_string_Inr_iff:
  "template_string ps loc text = Inr v \<longleftrightarrow>
     templated_ok ps text \<and> v = substitute ps (JString text)"
  by (auto simp: template_string_def templated_ok_def res_bind_eq_Inr validate_no_templates_iff
      split: option.splits)

lemma res_map_Inr_map_iff:
  assumes "\<And>x y. x \<in> set xs \<Longrightarrow> f x = Inr y \<longleftrightarrow> P x \<and> y = g x"
  shows "res_map f xs = Inr ys \<longleftrightarrow> (\<forall>x \<in> set xs. P x) \<and> ys = map g xs"
  using assms by (induction xs arbitrary: ys) (auto simp: res_bind_eq_Inr)

lemma apply_value_Inr_iff:
  "apply_value ps loc v = Inr v' \<longleftrightarrow> well_templated ps v \<and> v' = substitute ps v"
proof (induction ps loc v arbitrary: v' rule: apply_value.induct)
  case (1 ps loc t)
  show ?case by (simp add: template_string_Inr_iff del: substitute.simps)
next
  case (2 ps loc m)
  have el: "res_bind (apply_value ps loc (snd kv)) (\<lambda>v. Inr (fst kv, v)) = Inr kv' \<longleftrightarrow>
      well_templated ps (snd kv) \<and> kv' = (fst kv, substitute ps (snd kv))"
    if "kv \<in> set m" for kv kv'
    using 2 [OF that] by (auto simp: res_bind_eq_Inr)
  have "res_map (\<lambda>kv. res_bind (apply_value ps loc (snd kv)) (\<lambda>v. Inr (fst kv, v))) m = Inr ys \<longleftrightarrow>
      (\<forall>kv \<in> set m. well_templated ps (snd kv)) \<and> ys = map (\<lambda>kv. (fst kv, substitute ps (snd kv))) m"
    for ys by (rule res_map_Inr_map_iff) (rule el)
  then show ?case by (auto simp: res_bind_eq_Inr list_all_iff)
next
  case (3 ps loc arr)
  have "res_map (apply_value ps loc) arr = Inr ys \<longleftrightarrow>
      (\<forall>v \<in> set arr. well_templated ps v) \<and> ys = map (substitute ps) arr" for ys
    by (rule res_map_Inr_map_iff) (rule 3)
  then show ?case by (auto simp: res_bind_eq_Inr list_all_iff)
qed auto

lemma apply_param_templates_Inr_iff:
  "apply_param_templates ps loc payload = Inr payload' \<longleftrightarrow>
     well_templated ps (JObject payload) \<and> JObject payload' = substitute ps (JObject payload)"
proof -
  have "res_map (\<lambda>kv. res_bind (apply_value ps loc (snd kv)) (\<lambda>v. Inr (fst kv, v))) payload = Inr payload'
    \<longleftrightarrow> (\<forall>kv \<in> set payload. well_templated ps (snd kv)) \<and>
        payload' = map (\<lambda>kv. (fst kv, substitute ps (snd kv))) payload"
    by (rule res_map_Inr_map_iff) (auto simp: res_bind_eq_Inr apply_value_Inr_iff)
  then show ?thesis by (simp add: apply_param_templates_def list_all_iff)
qed

lemma substitute_template_free:
  "well_templated ps v \<Longrightarrow> template_free (substitute ps v)"
  by (induction ps v rule: well_templated.induct)
     (auto simp: list_all_iff templated_ok_def split: option.splits)

lemma template_free_well_templated:
  "template_free v \<Longrightarrow> well_templated ps v \<and> substitute ps v = v"
proof (induction v rule: template_free.induct)
  case (1 t)
  then have "extract_template t = None"
    using extract_template_braces by (cases "extract_template t") auto
  with 1 show ?case by (simp add: templated_ok_def)
next
  case (3 m)
  then show ?case by (auto simp: list_all_iff intro!: map_idI)
qed (auto simp: list_all_iff intro!: map_idI)

section \<open>Properties\<close>

text \<open>C36: Template substitution is exact: it succeeds iff every string of the payload is either plain
  or one whole template naming a parameter whose value is free of templates, and then the
  result is the payload with these strings replaced, with no template left at any depth.\<close>

theorem template_substitution_exact:
  "(apply_param_templates ps loc payload = Inr payload') =
     (well_templated ps (JObject payload) \<and> JObject payload' = substitute ps (JObject payload)
      \<and> template_free (JObject payload'))"
  using apply_param_templates_Inr_iff [of ps loc payload payload']
    substitute_template_free [of ps "JObject payload"] by (metis (full_types))

text \<open>A parameter value passes the check for embedded templates exactly when no string in it, at
  any depth, contains double braces.\<close>

theorem parameter_check_exact: "(validate_no_templates v loc = Inr ()) = template_free v"
  by (rule validate_no_templates_iff)

end
