(* ===== verification/Opening_Locate.thy ===== *)
theory Opening_Locate
  imports Opening_Values
begin

text \<open>
  Source locations of validation errors (\<open>crates/openings/src/parser.rs\<close>:
  \<open>locate_pattern\<close>, \<open>locate_index\<close>, \<open>index_to_location\<close> and the helpers on them).
  \<open>str::find\<close> returns a byte offset, while \<open>index_to_location\<close> counts characters: the two
  agree on ASCII sources only, where the location is the line and column of the first
  occurrence of the pattern.
\<close>

text \<open>UTF-8 length of a character of the model and of a string.\<close>

definition utf8_width :: "char \<Rightarrow> nat" where
  "utf8_width c = (if (of_char c :: nat) < 128 then 1 else 2)"

definition utf8_length :: "string \<Rightarrow> nat" where
  "utf8_length s = sum_list (map utf8_width s)"

definition is_ascii :: "string \<Rightarrow> bool" where
  "is_ascii s = list_all (\<lambda>c. (of_char c :: nat) < 128) s"

lemma utf8_length_ascii: "is_ascii s \<Longrightarrow> utf8_length s = length s"
  by (induction s) (auto simp: utf8_length_def is_ascii_def utf8_width_def)

definition locate_index :: "string \<Rightarrow> string \<Rightarrow> nat option" where
  "locate_index source pattern = map_option (\<lambda>(l, r). utf8_length l) (split_once pattern source)"

fun index_loop :: "nat \<Rightarrow> nat \<Rightarrow> nat \<Rightarrow> nat \<Rightarrow> string \<Rightarrow> source_location" where
  "index_loop index idx ln col [] = \<lparr>loc_line = ln, loc_column = col\<rparr>"
| "index_loop index idx ln col (ch # chs) =
     (if idx = index then \<lparr>loc_line = ln, loc_column = col\<rparr>
      else if ch = CHR 0x0A then index_loop index (Suc idx) (Suc ln) 1 chs
      else index_loop index (Suc idx) ln (Suc col) chs)"

definition index_to_location :: "string \<Rightarrow> nat \<Rightarrow> source_location" where
  "index_to_location source index = index_loop index 0 1 1 source"

definition locate_pattern :: "string \<Rightarrow> string \<Rightarrow> source_location" where
  "locate_pattern source pattern =
    (case locate_index source pattern of
       Some index \<Rightarrow> index_to_location source index
     | None \<Rightarrow> \<lparr>loc_line = 1, loc_column = 1\<rparr>)"

definition locate_key :: "string \<Rightarrow> string \<Rightarrow> source_location" where
  "locate_key source key = locate_pattern source (key @ '':'')"

definition locate_child :: "string \<Rightarrow> source_location \<Rightarrow> string \<Rightarrow> source_location" where
  "locate_child source parent key = locate_pattern source (key @ '':'')"

section \<open>Correctness on ASCII sources\<close>

definition line_of :: "string \<Rightarrow> nat" where
  "line_of before = Suc (length (filter (\<lambda>c. c = CHR 0x0A) before))"

definition column_of :: "string \<Rightarrow> nat" where
  "column_of before = Suc (length (takeWhile (\<lambda>c. c \<noteq> CHR 0x0A) (rev before)))"

lemma index_loop_before:
  "index_loop (idx + length pre) idx ln col (pre @ rest) =
    \<lparr>loc_line = ln + length (filter (\<lambda>c. c = CHR 0x0A) pre),
     loc_column = (if CHR 0x0A \<in> set pre then column_of pre else col + length pre)\<rparr>"
proof (induction pre arbitrary: idx ln col)
  case Nil
  then show ?case by (cases rest) auto
next
  case (Cons c cs)
  have ne: "idx \<noteq> idx + length (c # cs)" by simp
  have shift: "idx + length (c # cs) = Suc idx + length cs" by simp
  show ?case
  proof (cases "c = CHR 0x0A")
    case True
    have tw: "takeWhile (\<lambda>c. c \<noteq> CHR 0x0A) (rev cs @ [CHR 0x0A]) =
        (if CHR 0x0A \<in> set cs then takeWhile (\<lambda>c. c \<noteq> CHR 0x0A) (rev cs) else rev cs)"
    proof (cases "CHR 0x0A \<in> set cs")
      case True
      then have "CHR 0x0A \<in> set (rev cs)" by simp
      then show ?thesis using True by (subst takeWhile_append1) auto
    next
      case False
      then have "\<forall>x \<in> set (rev cs). x \<noteq> CHR 0x0A" by auto
      then show ?thesis using False by (subst takeWhile_append2) auto
    qed
    have "index_loop (idx + length (c # cs)) idx ln col ((c # cs) @ rest)
        = index_loop (Suc idx + length cs) (Suc idx) (Suc ln) 1 (cs @ rest)"
      using True by simp
    also have "\<dots> = \<lparr>loc_line = Suc ln + length (filter (\<lambda>c. c = CHR 0x0A) cs),
     loc_column = (if CHR 0x0A \<in> set cs then column_of cs else 1 + length cs)\<rparr>"
      by (rule Cons.IH)
    finally show ?thesis using True by (simp add: column_of_def tw)
  next
    case False
    have tw: "CHR 0x0A \<in> set cs \<Longrightarrow> takeWhile (\<lambda>c. c \<noteq> CHR 0x0A) (rev cs @ [c]) =
        takeWhile (\<lambda>c. c \<noteq> CHR 0x0A) (rev cs)"
      by (subst takeWhile_append1) auto
    have "index_loop (idx + length (c # cs)) idx ln col ((c # cs) @ rest)
        = index_loop (Suc idx + length cs) (Suc idx) ln (Suc col) (cs @ rest)"
      using False by simp
    also have "\<dots> = \<lparr>loc_line = ln + length (filter (\<lambda>c. c = CHR 0x0A) cs),
     loc_column = (if CHR 0x0A \<in> set cs then column_of cs else Suc col + length cs)\<rparr>"
      by (rule Cons.IH)
    finally show ?thesis using False by (auto simp: column_of_def tw)
  qed
qed

lemma column_of_no_newline: "CHR 0x0A \<notin> set pre \<Longrightarrow> column_of pre = Suc (length pre)"
proof -
  assume "CHR 0x0A \<notin> set pre"
  then have "takeWhile (\<lambda>c. c \<noteq> CHR 0x0A) (rev pre) = rev pre"
    by (subst takeWhile_eq_all_conv) auto
  then show ?thesis by (simp only: column_of_def length_rev)
qed

lemma index_to_location_prefix:
  "index_to_location (pre @ rest) (length pre) = \<lparr>loc_line = line_of pre, loc_column = column_of pre\<rparr>"
  using index_loop_before [of 0 pre 1 1 rest] column_of_no_newline [of pre]
  by (cases "CHR 0x0A \<in> set pre") (simp_all add: index_to_location_def line_of_def)

lemma locate_pattern_ascii:
  assumes "is_ascii source" and "split_once pattern source = Some (l, r)"
  shows "locate_pattern source pattern = \<lparr>loc_line = line_of l, loc_column = column_of l\<rparr>"
proof -
  have src: "source = l @ pattern @ r" using assms(2) by (rule split_once_Some)
  with assms(1) have "utf8_length l = length l"
    by (intro utf8_length_ascii) (simp add: is_ascii_def)
  moreover have "index_to_location source (length l) = \<lparr>loc_line = line_of l, loc_column = column_of l\<rparr>"
    using index_to_location_prefix [of l "pattern @ r"] src by simp
  ultimately show ?thesis using assms(2)
    by (simp add: locate_pattern_def locate_index_def)
qed

section \<open>Properties\<close>

text \<open>On an ASCII source the location of a pattern is the line and the column of its first
  occurrence, both counted from 1.\<close>

theorem location_of_first_occurrence:
  assumes "is_ascii source" "source = l @ pattern @ r"
    and "\<And>l' r'. source = l' @ pattern @ r' \<Longrightarrow> length l \<le> length l'"
  shows "locate_pattern source pattern = \<lparr>loc_line = line_of l, loc_column = column_of l\<rparr>"
proof -
  have "split_once pattern source \<noteq> None" using assms(2) by (auto simp: split_once_None_iff)
  then obtain l' r' where s: "split_once pattern source = Some (l', r')" by auto
  then have e: "source = l' @ pattern @ r'" by (rule split_once_Some)
  have le: "length l \<le> length l'" using assms(3) [OF e] .
  have "length l' \<le> length l" by (rule split_once_shortest [OF s assms(2)])
  with le e assms(2) have "l' = l" by (simp add: append_eq_append_conv)
  with locate_pattern_ascii [OF assms(1) s] show ?thesis by simp
qed

theorem location_of_first_occurrence_witness:
  "locate_pattern ([CHR 0x0A] @ ''name: x'') ''name:'' = \<lparr>loc_line = 2, loc_column = 1\<rparr>"
proof -
  have "length [CHR 0x0A] \<le> length l'" if "[CHR 0x0A] @ ''name: x'' = l' @ ''name:'' @ r'" for l' r' :: string
    using that by (cases l') auto
  from location_of_first_occurrence [of "[CHR 0x0A] @ ''name: x''" "[CHR 0x0A]" "''name:''" "'' x''", OF _ _ this] show ?thesis
    by (simp add: is_ascii_def line_of_def column_of_def)
qed

end
