(* ===== verification/Opening_Graph.thy ===== *)
theory Opening_Graph
  imports Opening_Locate
begin

text \<open>
  Validation of the opening graph (\<open>crates/openings/src/parser.rs\<close>: \<open>validate_graph\<close>):
  every edge names known nodes, and Kahn's algorithm must visit every node. The specification
  is acyclicity of the edge relation on node identifiers; the correctness proof follows the
  queue with the list of nodes already visited as ghost state. An \<open>usize\<close> subtraction below
  zero or an index out of range would panic; the model makes that \<open>None\<close>, and the lemmas
  show that it does not happen.
\<close>

section \<open>The algorithm\<close>

definition id_to_index :: "node list \<Rightarrow> string \<Rightarrow> nat option" where
  "id_to_index ns = foldl (\<lambda>m (idx, n). m(nd_id n \<mapsto> idx)) Map.empty (enumerate 0 ns)"

fun check_edges :: "(string \<Rightarrow> nat option) \<Rightarrow> edge list \<Rightarrow> parse_error + unit" where
  "check_edges idx [] = Inr ()"
| "check_edges idx (e # es) =
     (if idx (pr_node (ed_from e)) = None
      then Inl (validation (''edge references unknown node '' @ [CHR 0x27] @ pr_node (ed_from e) @ [CHR 0x27])
                  (ed_location e))
      else if idx (pr_node (ed_to e)) = None
      then Inl (validation (''edge references unknown node '' @ [CHR 0x27] @ pr_node (ed_to e) @ [CHR 0x27])
                  (ed_location e))
      else check_edges idx es)"

text \<open>The loop that fills \<open>indegree\<close> and \<open>adjacency\<close>, over index pairs.\<close>

fun build_graph :: "(nat \<times> nat) list \<Rightarrow> nat list \<Rightarrow> nat list list \<Rightarrow> nat list \<times> nat list list" where
  "build_graph [] indegree adjacency = (indegree, adjacency)"
| "build_graph ((i, j) # es) indegree adjacency =
     build_graph es (indegree[j := Suc (indegree ! j)]) (adjacency[i := adjacency ! i @ [j]])"

text \<open>The inner loop of Kahn's algorithm.\<close>

fun relax :: "nat list \<Rightarrow> nat list \<Rightarrow> nat list \<Rightarrow> (nat list \<times> nat list) option" where
  "relax [] indegree queue = Some (indegree, queue)"
| "relax (s # ss) indegree queue =
     (if s < length indegree \<and> 0 < indegree ! s
      then let indegree = indegree[s := indegree ! s - 1] in
           relax ss indegree (if indegree ! s = 0 then queue @ [s] else queue)
      else None)"

lemma sum_list_update_pred:
  "s < length (d :: nat list) \<Longrightarrow> 0 < d ! s \<Longrightarrow> Suc (sum_list (d[s := d ! s - 1])) = sum_list d"
proof (induction d arbitrary: s)
  case (Cons x d)
  then show ?case by (cases s) auto
qed simp

lemma relax_measure:
  "relax ss deg q = Some (deg', q') \<Longrightarrow> length q' + sum_list deg' \<le> length q + sum_list deg"
proof (induction ss deg q rule: relax.induct)
  case (2 s ss deg q)
  then have s: "s < length deg" "0 < deg ! s" by (auto split: if_splits)
  have "length q' + sum_list deg' \<le>
      length (if deg[s := deg ! s - 1] ! s = 0 then q @ [s] else q) + sum_list (deg[s := deg ! s - 1])"
    using 2 s by (auto simp: Let_def)
  also have "\<dots> \<le> length q + sum_list deg"
    using sum_list_update_pred [OF s] by (auto split: if_splits)
  finally show ?case .
qed auto

function kahn :: "nat list list \<Rightarrow> nat list \<Rightarrow> nat list \<Rightarrow> nat \<Rightarrow> nat option" where
  "kahn adjacency [] indegree visited = Some visited"
| "kahn adjacency (idx # queue) indegree visited =
     (case relax (adjacency ! idx) indegree queue of
        None \<Rightarrow> None
      | Some (indegree', queue') \<Rightarrow> kahn adjacency queue' indegree' (Suc visited))"
  by pat_completeness auto
termination
  by (relation "measure (\<lambda>(adj, q, deg, v). length q + sum_list deg)")
     (auto dest!: relax_measure simp: less_Suc_eq_le)

definition edge_indices :: "(string \<Rightarrow> nat option) \<Rightarrow> edge list \<Rightarrow> (nat \<times> nat) list" where
  "edge_indices idx es =
     map (\<lambda>e. (the (idx (pr_node (ed_from e))), the (idx (pr_node (ed_to e))))) es"

definition kahn_visited :: "node list \<Rightarrow> (nat \<times> nat) list \<Rightarrow> nat option" where
  "kahn_visited ns es =
    (let (indegree, adjacency) =
           build_graph es (replicate (length ns) 0) (replicate (length ns) []);
         queue = filter (\<lambda>i. indegree ! i = 0) [0..<length indegree]
     in kahn adjacency queue indegree 0)"

text \<open>The whole check; the outer \<open>None\<close> is a panic.\<close>

definition validate_graph :: "node list \<Rightarrow> edge list \<Rightarrow> string \<Rightarrow> (parse_error + unit) option" where
  "validate_graph ns es source =
    (let idx = id_to_index ns in
     case check_edges idx es of
       Inl e \<Rightarrow> Some (Inl e)
     | Inr _ \<Rightarrow>
         (case kahn_visited ns (edge_indices idx es) of
            None \<Rightarrow> None
          | Some visited \<Rightarrow> Some
              (if visited \<noteq> length ns
               then Inl (validation ''opening graph contains a cycle; ensure edges form a DAG''
                           (locate_key source ''edges''))
               else Inr ())))"

section \<open>The inner loop\<close>

lemma relax_spec:
  assumes "\<And>j. j \<in> set ss \<Longrightarrow> j < length deg \<and> count_list ss j \<le> deg ! j"
  shows "\<exists>deg' new. relax ss deg q = Some (deg', q @ new) \<and> length deg' = length deg
    \<and> (\<forall>j < length deg. deg' ! j = deg ! j - count_list ss j)
    \<and> distinct new \<and> set new = {j \<in> set ss. deg ! j = count_list ss j}"
  using assms
proof (induction ss arbitrary: deg q)
  case Nil
  then show ?case by auto
next
  case (Cons s ss)
  from Cons.prems [of s] have s: "s < length deg" "Suc (count_list ss s) \<le> deg ! s" by auto
  let ?d = "deg[s := deg ! s - 1]"
  let ?q = "if ?d ! s = 0 then q @ [s] else q"
  have pre: "j < length ?d \<and> count_list ss j \<le> ?d ! j" if "j \<in> set ss" for j
    using Cons.prems [of j] that s by (auto simp: nth_list_update split: if_splits)
  have "\<exists>deg' new. relax ss ?d ?q = Some (deg', ?q @ new) \<and> length deg' = length ?d
    \<and> (\<forall>j < length ?d. deg' ! j = ?d ! j - count_list ss j)
    \<and> distinct new \<and> set new = {j \<in> set ss. ?d ! j = count_list ss j}"
    by (rule Cons.IH) (rule pre)
  then obtain deg' new where
    r: "relax ss ?d ?q = Some (deg', ?q @ new)" and l: "length deg' = length ?d" and
    v: "\<forall>j < length ?d. deg' ! j = ?d ! j - count_list ss j" and
    n: "distinct new" "set new = {j \<in> set ss. ?d ! j = count_list ss j}"
    by (elim exE conjE) (rule that)
  have rel: "relax (s # ss) deg q = relax ss ?d ?q" using s by (simp add: Let_def)
  have vals: "\<forall>j < length deg. deg' ! j = deg ! j - count_list (s # ss) j"
    using v s by (auto simp: nth_list_update)
  show ?case
  proof (cases "?d ! s = 0")
    case True
    then have z: "deg ! s = 1" "count_list ss s = 0" using s by auto
    then have ns: "s \<notin> set ss" by (simp add: count_list_0_iff)
    then have "s \<notin> set new" using n(2) by auto
    moreover have "set (s # new) = {j \<in> set (s # ss). deg ! j = count_list (s # ss) j}"
    proof -
      have "?d ! j = deg ! j" if "j \<in> set ss" for j using that ns by (cases "j = s") auto
      then have E: "j \<in> set new \<longleftrightarrow> j \<in> set ss \<and> deg ! j = count_list ss j" for j
        using n(2) by auto
      show ?thesis
      proof (rule set_eqI)
        fix j
        show "j \<in> set (s # new) \<longleftrightarrow> j \<in> {j \<in> set (s # ss). deg ! j = count_list (s # ss) j}"
          using E [of j] z ns by (cases "j = s") simp_all
      qed
    qed
    moreover have "relax (s # ss) deg q = Some (deg', q @ (s # new))"
      using r rel True by simp
    moreover have "length deg' = length deg" using l by simp
    moreover have "distinct (s # new)" using n(1) \<open>s \<notin> set new\<close> by simp
    ultimately show ?thesis using vals by (intro exI [of _ deg'] exI [of _ "s # new"] conjI)
  next
    case False
    then have "deg ! s \<noteq> 1" using s by auto
    have "set new = {j \<in> set (s # ss). deg ! j = count_list (s # ss) j}"
    proof (intro set_eqI iffI)
      fix j assume "j \<in> set new"
      then show "j \<in> {j \<in> set (s # ss). deg ! j = count_list (s # ss) j}"
        using n(2) s by (auto simp: nth_list_update split: if_splits)
    next
      fix j assume j: "j \<in> {j \<in> set (s # ss). deg ! j = count_list (s # ss) j}"
      show "j \<in> set new"
      proof (cases "j = s")
        case True
        with j have "deg ! s = Suc (count_list ss s)" by auto
        with \<open>deg ! s \<noteq> 1\<close> have "0 < count_list ss s" by simp
        then have "s \<in> set ss" by (metis count_list_0_iff neq0_conv)
        then show ?thesis using True n(2) s \<open>deg ! s = Suc (count_list ss s)\<close> by simp
      next
        case False
        then show ?thesis using j n(2) by auto
      qed
    qed
    moreover have "relax (s # ss) deg q = Some (deg', q @ new)"
      using r rel False by simp
    moreover have "length deg' = length deg" using l by simp
    ultimately show ?thesis using vals n(1) by (intro exI [of _ deg'] exI [of _ new] conjI)
  qed
qed

section \<open>The outer loop\<close>

text \<open>Edges into \<open>j\<close> from nodes outside \<open>P\<close>, and the successors of \<open>i\<close>, off the edge list.\<close>

definition pending :: "(nat \<times> nat) list \<Rightarrow> nat set \<Rightarrow> nat \<Rightarrow> nat" where
  "pending E P j = length (filter (\<lambda>e. snd e = j \<and> fst e \<notin> P) E)"

definition succs :: "(nat \<times> nat) list \<Rightarrow> nat \<Rightarrow> nat list" where
  "succs E i = map snd (filter (\<lambda>e. fst e = i) E)"

lemma set_succs: "set (succs E i) = {j. (i, j) \<in> set E}"
  by (force simp: succs_def)

lemma pending_insert:
  "i \<notin> P \<Longrightarrow> pending E P j = count_list (succs E i) j + pending E (insert i P) j"
  by (induction E) (auto simp: pending_def succs_def)

lemma pending_eq_0: "pending E P j = 0 \<longleftrightarrow> (\<forall>a. (a, j) \<in> set E \<longrightarrow> a \<in> P)"
  by (auto simp: pending_def filter_empty_conv)

text \<open>\<open>ps\<close> is a topological order: the sources of an edge into \<open>ps ! k\<close> come before it.\<close>

definition topo :: "(nat \<times> nat) list \<Rightarrow> nat list \<Rightarrow> bool" where
  "topo E ps = (\<forall>k < length ps. \<forall>a. (a, ps ! k) \<in> set E \<longrightarrow> a \<in> set (take k ps))"

lemma topo_Nil: "topo E []"
  by (simp add: topo_def)

lemma topo_snoc: "topo E ps \<Longrightarrow> (\<forall>a. (a, i) \<in> set E \<longrightarrow> a \<in> set ps) \<Longrightarrow> topo E (ps @ [i])"
  by (auto simp: topo_def nth_append less_Suc_eq)

definition kahn_inv :: "nat \<Rightarrow> (nat \<times> nat) list \<Rightarrow> nat list \<Rightarrow> nat list \<Rightarrow> nat list \<Rightarrow> bool" where
  "kahn_inv n E ps q deg =
    (length deg = n \<and> distinct (ps @ q) \<and> (\<forall>j < n. deg ! j = pending E (set ps) j)
     \<and> set (ps @ q) = {j. j < n \<and> deg ! j = 0} \<and> topo E ps)"

lemma kahn_step:
  assumes inv: "kahn_inv n E ps (i # q) deg" and E: "\<And>a b. (a, b) \<in> set E \<Longrightarrow> b < n"
  shows "\<exists>deg' q'. relax (succs E i) deg q = Some (deg', q') \<and> kahn_inv n E (ps @ [i]) q' deg'"
proof -
  have len: "length deg = n" and dist: "distinct (ps @ i # q)"
    and deg: "\<And>j. j < n \<Longrightarrow> deg ! j = pending E (set ps) j"
    and zero: "\<And>j. j \<in> set (ps @ i # q) \<longleftrightarrow> j < n \<and> deg ! j = 0" and topo: "topo E ps"
    using inv by (auto simp: kahn_inv_def)
  have i: "i < n" "deg ! i = 0" "i \<notin> set ps" using zero [of i] dist by auto
  have split: "deg ! j = count_list (succs E i) j + pending E (insert i (set ps)) j" if "j < n" for j
    using pending_insert [OF i(3)] deg [OF that] by simp
  have "\<exists>deg' new. relax (succs E i) deg q = Some (deg', q @ new) \<and> length deg' = length deg
    \<and> (\<forall>j < length deg. deg' ! j = deg ! j - count_list (succs E i) j)
    \<and> distinct new \<and> set new = {j \<in> set (succs E i). deg ! j = count_list (succs E i) j}"
    by (rule relax_spec) (auto simp: set_succs len split E)
  then obtain deg' new where
    r: "relax (succs E i) deg q = Some (deg', q @ new)" and l: "length deg' = n" and
    v: "\<And>j. j < n \<Longrightarrow> deg' ! j = pending E (insert i (set ps)) j" and
    n: "distinct new" and
    sn: "\<And>j. j \<in> set new \<longleftrightarrow> (i, j) \<in> set E \<and> deg ! j = count_list (succs E i) j"
    by (auto simp: len split set_succs)
  have pos: "0 < deg ! j" if "j \<in> set new" for j
  proof -
    have "j \<in> set (succs E i)" using that sn by (simp add: set_succs)
    then have "count_list (succs E i) j \<noteq> 0" by (simp add: count_list_0_iff)
    then show ?thesis using that sn by simp
  qed
  have disj: "distinct ((ps @ [i]) @ (q @ new))"
    using dist n pos zero by fastforce
  have "j \<in> set ((ps @ [i]) @ (q @ new)) \<longleftrightarrow> j < n \<and> deg' ! j = 0" for j
  proof (cases "j < n")
    case True
    show ?thesis
    proof (cases "deg ! j = 0")
      case True
      then show ?thesis using zero [of j] \<open>j < n\<close> v [of j] split [of j] by auto
    next
      case False
      then have "j \<notin> set (ps @ i # q)" using zero by simp
      moreover have "j \<in> set new \<longleftrightarrow> deg' ! j = 0"
        using sn [of j] v [OF \<open>j < n\<close>] split [OF \<open>j < n\<close>] False
        by (metis add_cancel_left_right count_notin mem_Collect_eq set_succs)
      ultimately show ?thesis using \<open>j < n\<close> by auto
    qed
  next
    case False
    then show ?thesis using zero [of j] sn [of j] E [of i j] by auto
  qed
  then have "set ((ps @ [i]) @ (q @ new)) = {j. j < n \<and> deg' ! j = 0}" by blast
  moreover have "\<forall>a. (a, i) \<in> set E \<longrightarrow> a \<in> set ps"
    using deg [OF i(1)] i(2) by (simp add: pending_eq_0)
  then have "topo E (ps @ [i])" using topo by (intro topo_snoc) auto
  ultimately have "kahn_inv n E (ps @ [i]) (q @ new) deg'"
    unfolding kahn_inv_def using l disj v by auto
  with r show ?thesis by blast
qed

lemma kahn_loop:
  assumes "kahn_inv n E ps q deg" and "\<And>a b. (a, b) \<in> set E \<Longrightarrow> b < n"
    and "\<And>i. i < n \<Longrightarrow> adj ! i = succs E i"
  shows "\<exists>ps' deg'. kahn adj q deg (length ps) = Some (length ps') \<and> kahn_inv n E ps' [] deg'"
  using assms
proof (induction adj q deg "length ps" arbitrary: ps rule: kahn.induct)
  case (1 adj deg)
  then show ?case by auto
next
  case (2 adj i q deg)
  have "i < n" using "2.prems"(1) by (auto simp: kahn_inv_def)
  with "2.prems"(3) have adj: "adj ! i = succs E i" by simp
  obtain deg' q' where r: "relax (adj ! i) deg q = Some (deg', q')"
    and inv: "kahn_inv n E (ps @ [i]) q' deg'"
    using kahn_step [OF "2.prems"(1)] "2.prems"(2) unfolding adj by blast
  have "\<exists>ps' deg''. kahn adj q' deg' (length (ps @ [i])) = Some (length ps') \<and> kahn_inv n E ps' [] deg''"
    by (rule "2.hyps" [OF r refl _ inv "2.prems"(2,3)]) simp_all
  then show ?case by (simp add: r)
qed

text \<open>A complete topological order exists exactly when the edge relation is acyclic.\<close>

lemma topo_trancl:
  assumes "topo E ps" and "(a, b) \<in> (set E)\<^sup>+"
  shows "k < length ps \<Longrightarrow> b = ps ! k \<Longrightarrow> a \<in> set (take k ps)"
  using assms(2)
proof (induction arbitrary: k rule: trancl_induct)
  case (base b)
  then show ?case using assms(1) by (auto simp: topo_def)
next
  case (step b c)
  from step.hyps(2) step.prems assms(1) have "b \<in> set (take k ps)" by (auto simp: topo_def)
  then obtain j where j: "j < k" "b = ps ! j" using step.prems(1) by (auto simp: in_set_conv_nth)
  then have "a \<in> set (take j ps)" using step.IH step.prems(1) by auto
  then show ?case using j(1) set_take_subset_set_take [of j k ps] by auto
qed

lemma topo_complete_acyclic:
  assumes "topo E ps" "distinct ps" "\<And>a b. (a, b) \<in> set E \<Longrightarrow> b \<in> set ps"
  shows "acyclic (set E)"
proof (rule acyclicI, rule allI, rule notI)
  fix x assume xx: "(x, x) \<in> (set E)\<^sup>+"
  then have "x \<in> set ps" using assms(3) by (metis tranclE)
  then obtain k where k: "k < length ps" "x = ps ! k" by (auto simp: in_set_conv_nth)
  then have "x \<in> set (take k ps)" using topo_trancl [OF assms(1) xx] by blast
  then obtain j where "j < k" "x = ps ! j" using k(1) by (auto simp: in_set_conv_nth)
  with k assms(2) show False by (metis nth_eq_iff_index_eq less_trans nat_neq_iff)
qed

text \<open>If every node of a non-empty finite set has a predecessor in it, there is a cycle.\<close>

lemma acyclic_has_source:
  assumes "acyclic (set E)" "R \<noteq> {}"
  shows "\<exists>j \<in> R. \<forall>a. (a, j) \<in> set E \<longrightarrow> a \<notin> R"
proof -
  have "wf (set E)" using assms(1) by (simp add: finite_acyclic_wf)
  then show ?thesis using assms(2) by (metis wf_eq_minimal ex_in_conv)
qed

lemma kahn_final:
  assumes inv: "kahn_inv n E ps [] deg" and E: "\<And>a b. (a, b) \<in> set E \<Longrightarrow> a < n \<and> b < n"
  shows "length ps = n \<longleftrightarrow> acyclic (set E)"
proof -
  have dist: "distinct ps" and topo: "topo E ps" and sub: "set ps \<subseteq> {..<n}"
    and deg: "\<And>j. j < n \<Longrightarrow> j \<in> set ps \<longleftrightarrow> pending E (set ps) j = 0"
    using inv by (auto simp: kahn_inv_def)
  have len: "length ps = n \<longleftrightarrow> set ps = {..<n}"
    using dist sub by (metis card_lessThan card_subset_eq distinct_card finite_lessThan)
  show ?thesis
  proof
    assume "length ps = n"
    with len E topo dist show "acyclic (set E)" by (intro topo_complete_acyclic) auto
  next
    assume ac: "acyclic (set E)"
    have "{..<n} - set ps = {}"
    proof (rule ccontr)
      assume "{..<n} - set ps \<noteq> {}"
      from acyclic_has_source [OF ac this] obtain j where
        j: "j < n" "j \<notin> set ps" and src: "\<And>a. (a, j) \<in> set E \<Longrightarrow> a \<notin> {..<n} - set ps" by auto
      from src E have "\<forall>a. (a, j) \<in> set E \<longrightarrow> a \<in> set ps" by blast
      with j deg show False by (simp add: pending_eq_0)
    qed
    with sub len show "length ps = n" by blast
  qed
qed

section \<open>The index maps and the initial state\<close>

lemma build_graph_spec:
  "\<lbrakk>build_graph E deg adj = (deg', adj'); \<forall>(i, j) \<in> set E. i < length adj \<and> j < length deg\<rbrakk> \<Longrightarrow>
    length deg' = length deg \<and> length adj' = length adj
    \<and> (\<forall>j < length deg. deg' ! j = deg ! j + pending E {} j)
    \<and> (\<forall>i < length adj. adj' ! i = adj ! i @ succs E i)"
proof (induction E deg adj rule: build_graph.induct)
  case (1 deg adj)
  then show ?case by (simp add: pending_def succs_def)
next
  case (2 i j es deg adj)
  let ?deg = "deg[j := Suc (deg ! j)]" and ?adj = "adj[i := adj ! i @ [j]]"
  have IH: "length deg' = length ?deg \<and> length adj' = length ?adj
    \<and> (\<forall>k < length ?deg. deg' ! k = ?deg ! k + pending es {} k)
    \<and> (\<forall>k < length ?adj. adj' ! k = ?adj ! k @ succs es k)"
    by (rule 2) (use 2 in auto)
  have "deg' ! k = deg ! k + pending ((i, j) # es) {} k" if "k < length deg" for k
    using IH that by (cases "k = j") (auto simp: pending_def)
  moreover have "adj' ! k = adj ! k @ succs ((i, j) # es) k" if "k < length adj" for k
    using IH that by (cases "k = i") (auto simp: succs_def)
  ultimately show ?case using IH by simp
qed

lemma kahn_inv_initial:
  assumes "length deg = n" "\<And>j. j < n \<Longrightarrow> deg ! j = pending E {} j"
  shows "kahn_inv n E [] (filter (\<lambda>i. deg ! i = 0) [0..<n]) deg"
  using assms by (auto simp: kahn_inv_def topo_Nil)

lemma kahn_visited_total:
  assumes "\<And>a b. (a, b) \<in> set E \<Longrightarrow> a < length ns \<and> b < length ns"
  shows "\<exists>v. kahn_visited ns E = Some v \<and> (v = length ns \<longleftrightarrow> acyclic (set E))"
proof -
  let ?n = "length ns"
  obtain deg adj where b: "build_graph E (replicate ?n 0) (replicate ?n []) = (deg, adj)"
    by (cases "build_graph E (replicate ?n 0) (replicate ?n [])")
  have spec: "length deg = ?n" "\<And>j. j < ?n \<Longrightarrow> deg ! j = pending E {} j"
    "\<And>i. i < ?n \<Longrightarrow> adj ! i = succs E i"
    using build_graph_spec [OF b] assms by fastforce+
  let ?q = "filter (\<lambda>i. deg ! i = 0) [0..<?n]"
  have "\<exists>ps' deg'. kahn adj ?q deg (length ([] :: nat list)) = Some (length ps') \<and> kahn_inv ?n E ps' [] deg'"
    by (rule kahn_loop [OF kahn_inv_initial [OF spec(1,2)]]) (use assms spec(3) in auto)
  then obtain ps' deg' where k: "kahn adj ?q deg 0 = Some (length ps')"
    and i: "kahn_inv ?n E ps' [] deg'" by auto
  show ?thesis
    using kahn_final [OF i assms] by (simp add: kahn_visited_def b k spec(1))
qed

lemma id_to_index_from:
  "foldl (\<lambda>m (idx, n). m(nd_id n \<mapsto> idx)) m (enumerate k ns) x = Some i \<Longrightarrow>
     (k \<le> i \<and> i < k + length ns \<and> nd_id (ns ! (i - k)) = x) \<or> m x = Some i"
proof (induction ns arbitrary: m k)
  case (Cons n ns)
  from Cons.prems Cons.IH [of "m(nd_id n \<mapsto> k)" "Suc k"]
  consider "Suc k \<le> i" "i < Suc k + length ns" "nd_id (ns ! (i - Suc k)) = x"
    | "(m(nd_id n \<mapsto> k)) x = Some i" by auto
  then show ?case
  proof cases
    case 1
    then have "i - k = Suc (i - Suc k)" by simp
    then show ?thesis using 1 by simp
  next
    case 2
    then show ?thesis by (auto split: if_splits)
  qed
qed simp

lemma id_to_index_dom_from:
  "foldl (\<lambda>m (idx, n). m(nd_id n \<mapsto> idx)) m (enumerate k ns) x = None \<longleftrightarrow>
     m x = None \<and> x \<notin> nd_id ` set ns"
  by (induction ns arbitrary: m k) auto

lemma id_to_index_Some:
  "id_to_index ns x = Some i \<Longrightarrow> i < length ns \<and> nd_id (ns ! i) = x"
  using id_to_index_from [of Map.empty 0 ns x i] by (auto simp: id_to_index_def)

lemma id_to_index_None: "id_to_index ns x = None \<longleftrightarrow> x \<notin> nd_id ` set ns"
  unfolding id_to_index_def id_to_index_dom_from by simp

lemma check_edges_Inr:
  "check_edges idx es = Inr () \<longleftrightarrow>
     (\<forall>e \<in> set es. idx (pr_node (ed_from e)) \<noteq> None \<and> idx (pr_node (ed_to e)) \<noteq> None)"
  by (induction es) auto

section \<open>The relation on node identifiers\<close>

definition edge_relation :: "edge list \<Rightarrow> (string \<times> string) set" where
  "edge_relation es = (\<lambda>e. (pr_node (ed_from e), pr_node (ed_to e))) ` set es"

definition known_ends :: "node list \<Rightarrow> edge list \<Rightarrow> bool" where
  "known_ends ns es = (\<forall>e \<in> set es. pr_node (ed_from e) \<in> nd_id ` set ns \<and> pr_node (ed_to e) \<in> nd_id ` set ns)"

lemma acyclic_map_pair:
  assumes "acyclic (map_prod f f ` R)" shows "acyclic R"
proof (rule acyclicI, rule allI, rule notI)
  fix x assume "(x, x) \<in> R\<^sup>+"
  have "(f a, f b) \<in> (map_prod f f ` R)\<^sup>+" if "(a, b) \<in> R\<^sup>+" for a b
    using that
  proof (induction rule: trancl_induct)
    case (base y)
    then show ?case by (metis map_prod_imageI r_into_trancl')
  next
    case (step y z)
    then show ?case by (metis map_prod_imageI trancl.trancl_into_trancl)
  qed
  from this [OF \<open>(x, x) \<in> R\<^sup>+\<close>] show False using assms by (auto simp: acyclic_def)
qed

lemma acyclic_edge_indices:
  assumes "known_ends ns es"
  shows "acyclic (set (edge_indices (id_to_index ns) es)) \<longleftrightarrow> acyclic (edge_relation es)"
proof -
  let ?f = "\<lambda>x. the (id_to_index ns x)" and ?g = "\<lambda>i. nd_id (ns ! i)"
  have gf: "?g (?f x) = x" if "x \<in> nd_id ` set ns" for x
  proof -
    from that obtain i where "id_to_index ns x = Some i"
      using id_to_index_None [of ns x] by auto
    then show ?thesis using id_to_index_Some by simp
  qed
  have fwd: "set (edge_indices (id_to_index ns) es) = map_prod ?f ?f ` edge_relation es"
    by (simp add: edge_indices_def edge_relation_def image_image)
  have "map_prod ?g ?g ` (map_prod ?f ?f ` edge_relation es) = edge_relation es"
    using assms gf by (force simp: edge_relation_def known_ends_def image_image)
  then show ?thesis
    unfolding fwd using acyclic_map_pair [of ?f "edge_relation es"]
      acyclic_map_pair [of ?g "map_prod ?f ?f ` edge_relation es"] by auto
qed

lemma validate_graph_spec:
  "\<exists>r. validate_graph ns es src = Some r
     \<and> (r = Inr () \<longleftrightarrow> known_ends ns es \<and> acyclic (edge_relation es))"
proof (cases "check_edges (id_to_index ns) es")
  case (Inl e)
  then have "\<not> known_ends ns es"
    using check_edges_Inr [of "id_to_index ns" es]
    by (auto simp: id_to_index_None known_ends_def simp del: not_None_eq)
  then show ?thesis using Inl by (simp add: validate_graph_def)
next
  case (Inr u)
  then have ends: "known_ends ns es"
    using check_edges_Inr [of "id_to_index ns" es]
    by (auto simp: id_to_index_None known_ends_def simp del: not_None_eq)
  have "a < length ns \<and> b < length ns" if "(a, b) \<in> set (edge_indices (id_to_index ns) es)" for a b
  proof -
    from that obtain e where e: "e \<in> set es" "a = the (id_to_index ns (pr_node (ed_from e)))"
      "b = the (id_to_index ns (pr_node (ed_to e)))" by (auto simp: edge_indices_def)
    with Inr check_edges_Inr [of "id_to_index ns" es] obtain i j where
      "id_to_index ns (pr_node (ed_from e)) = Some i" "id_to_index ns (pr_node (ed_to e)) = Some j"
      by fastforce
    with e show ?thesis using id_to_index_Some by simp
  qed
  then obtain v where "kahn_visited ns (edge_indices (id_to_index ns) es) = Some v"
    "v = length ns \<longleftrightarrow> acyclic (set (edge_indices (id_to_index ns) es))"
    using kahn_visited_total by blast
  with Inr ends show ?thesis
    by (auto simp: validate_graph_def acyclic_edge_indices)
qed

section \<open>Properties\<close>

text \<open>C31: Graph validation never panics and accepts exactly the openings whose edges connect known
  nodes and whose edge relation on node identifiers is acyclic.\<close>

theorem validate_graph_iff_acyclic:
  "\<exists>r. validate_graph ns es source = Some r
     \<and> (r = Inr () \<longleftrightarrow> known_ends ns es \<and> acyclic (edge_relation es))"
  by (rule validate_graph_spec)

end
