(* ===== verification/Opening_Ports.thy ===== *)
theory Opening_Ports
  imports Opening_Values
begin

text \<open>
  Port references, literals, edge predicates and success expressions
  (\<open>crates/openings/src/parser.rs\<close>: \<open>parse_port_reference\<close>, \<open>parse_literal\<close>,
  \<open>parse_port_predicate\<close>, \<open>parse_expression\<close>, \<open>parse_expression_list\<close>). The six operators are
  searched for one after the other in the whole text, two-character ones first. Lemmas: a
  comparison printed from its parts parses back to them when the parts hold no operator
  character; a parsed reference has a node without a dot and non-empty parts.
\<close>

definition parse_port_reference :: "string \<Rightarrow> source_location \<Rightarrow> parse_error + port_reference" where
  "parse_port_reference raw loc =
    (case split_once ''.'' (trim raw) of
       None \<Rightarrow> Inl (validation (''port reference must be of the form '' @ [CHR 0x27] @ ''<node>.<port>'' @ [CHR 0x27]) loc)
     | Some (n, port) \<Rightarrow>
         if n = [] \<or> port = []
         then Inl (validation ''node and port identifiers must be non-empty'' loc)
         else Inr \<lparr>pr_node = n, pr_port = port\<rparr>)"

definition parse_literal :: "string \<Rightarrow> source_location \<Rightarrow> parse_error + literal" where
  "parse_literal raw loc =
    (case parse_bool raw of
       Some b \<Rightarrow> Inr (LitBool b)
     | None \<Rightarrow>
    (case parse_i64 raw of
       Some i \<Rightarrow> Inr (LitInteger i)
     | None \<Rightarrow>
    (case parse_f64 raw of
       Some f \<Rightarrow> Inr (LitFloat f)
     | None \<Rightarrow>
    (case Option.bind (strip_prefix [CHR 0x22] raw) (strip_suffix [CHR 0x22]) of
       Some stripped \<Rightarrow> Inr (LitString stripped)
     | None \<Rightarrow> Inl (validation ''unsupported literal value; use booleans, numbers, or quoted strings'' loc)))))"

definition operators :: "(string \<times> comparison_op) list" where
  "operators = [(''>='', OpGte), (''<='', OpLte), (''=='', OpEq), (''!='', OpNotEq), (''>'', OpGt), (''<'', OpLt)]"

fun port_predicate_loop ::
  "(string \<times> comparison_op) list \<Rightarrow> string \<Rightarrow> source_location \<Rightarrow> parse_error + (port_reference \<times> predicate option)" where
  "port_predicate_loop [] raw loc =
     res_bind (parse_port_reference (trim raw) loc) (\<lambda>r. Inr (r, None))"
| "port_predicate_loop ((symbol, op) # ops) raw loc =
     (case split_once symbol raw of
        Some (left, right) \<Rightarrow>
          res_bind (parse_port_reference (trim left) loc) (\<lambda>r.
          res_bind (parse_literal (trim right) loc) (\<lambda>lit.
          Inr (r, Some \<lparr>pred_op = op, pred_value = lit\<rparr>)))
      | None \<Rightarrow> port_predicate_loop ops raw loc)"

definition parse_port_predicate ::
  "string \<Rightarrow> source_location \<Rightarrow> parse_error + (port_reference \<times> predicate option)" where
  "parse_port_predicate raw loc = port_predicate_loop operators raw loc"

definition parse_expression :: "string \<Rightarrow> source_location \<Rightarrow> parse_error + expression" where
  "parse_expression raw loc =
    (case Option.bind (strip_prefix ''exists('' raw) (strip_suffix '')'') of
       Some inner \<Rightarrow> res_bind (parse_port_reference (trim inner) loc) (\<lambda>r. Inr (Exists r))
     | None \<Rightarrow>
         res_bind (parse_port_predicate raw loc) (\<lambda>(r, p).
         res_bind (ok_or (validation ''comparison expression must include an operator (==, !=, >, >=, <, <=)'' loc) p)
           (\<lambda>p. Inr (Comparison r p))))"

definition parse_expression_list :: "yaml list \<Rightarrow> source_location \<Rightarrow> parse_error + expression list" where
  "parse_expression_list seq loc =
    res_bind (guard_or (seq \<noteq> []) (validation ''success expressions must not be empty'' loc)) (\<lambda>_.
    res_map (\<lambda>v. res_bind (ok_or (validation ''success expressions must be strings'' loc) (as_str v))
       (\<lambda>s. parse_expression s loc)) seq)"

section \<open>What a parsed reference is\<close>

lemma parse_port_reference_Inr:
  assumes "parse_port_reference raw loc = Inr r"
  shows "trim raw = pr_node r @ ''.'' @ pr_port r \<and> CHR ''.'' \<notin> set (pr_node r)
    \<and> pr_node r \<noteq> [] \<and> pr_port r \<noteq> []"
proof -
  from assms obtain n p where s: "split_once ''.'' (trim raw) = Some (n, p)"
    and r: "r = \<lparr>pr_node = n, pr_port = p\<rparr>" "n \<noteq> []" "p \<noteq> []"
    by (auto simp: parse_port_reference_def split: option.splits prod.splits if_splits)
  then show ?thesis using split_once_Some [OF s] split_once_char_before [OF s] by simp
qed

definition port_text :: "port_reference \<Rightarrow> string" where
  "port_text r = pr_node r @ ''.'' @ pr_port r"

text \<open>Identifiers that survive printing: no white space and no operator character.\<close>

definition op_chars :: "string" where
  "op_chars = ''<>=!''"

definition plain_text :: "string \<Rightarrow> bool" where
  "plain_text s = (s \<noteq> [] \<and> list_all (\<lambda>c. \<not> is_whitespace c \<and> c \<notin> set op_chars) s)"

definition plain_port :: "port_reference \<Rightarrow> bool" where
  "plain_port r = (plain_text (pr_node r) \<and> plain_text (pr_port r) \<and> CHR ''.'' \<notin> set (pr_node r))"

lemma plain_port_trim: "plain_port r \<Longrightarrow> trim (port_text r) = port_text r"
  by (rule trim_id) (auto simp: port_text_def plain_port_def plain_text_def list_all_iff hd_append)

lemma parse_port_reference_text:
  "plain_port r \<Longrightarrow> parse_port_reference (port_text r) loc = Inr r"
  using split_once_char_free [of "CHR ''.''" "pr_node r" "pr_port r"] plain_port_trim [of r]
  by (simp add: parse_port_reference_def port_text_def plain_port_def plain_text_def)

section \<open>Printing and parsing a comparison\<close>

lemma split_once_skip:
  assumes "list_all (\<lambda>c. c \<notin> set op_chars) l" "p \<in> set op_chars"
  shows "split_once (p # ps) (l @ x) = map_option (\<lambda>(a, b). (l @ a, b)) (split_once (p # ps) x)"
  using assms
proof (induction l)
  case Nil
  then show ?case by (cases "split_once (p # ps) x") auto
next
  case (Cons c l)
  then have "p \<noteq> c" by auto
  with Cons show ?case by (cases "split_once (p # ps) x") auto
qed

lemma split_once_op_free:
  "list_all (\<lambda>c. c \<notin> set op_chars) r \<Longrightarrow> p \<in> set op_chars \<Longrightarrow> split_once (p # ps) r = None"
  using split_once_skip [of r p ps "[]"] by simp

definition literal_text :: "string \<Rightarrow> bool" where
  "literal_text lit = (list_all (\<lambda>c. c \<notin> set op_chars) lit \<and> trim lit = lit)"

definition comparison_text :: "port_reference \<Rightarrow> comparison_op \<Rightarrow> string \<Rightarrow> string" where
  "comparison_text r op lit = port_text r @ '' '' @ comparison_symbol op @ '' '' @ lit"

lemma plain_port_op_free: "plain_port r \<Longrightarrow> list_all (\<lambda>c. c \<notin> set op_chars) (port_text r @ '' '')"
  by (auto simp: port_text_def plain_port_def plain_text_def list_all_iff op_chars_def)

text \<open>The search stops at the operator that was printed and nowhere else.\<close>

lemma port_predicate_loop_split:
  assumes l: "list_all (\<lambda>c. c \<notin> set op_chars) l" and r: "list_all (\<lambda>c. c \<notin> set op_chars) (CHR '' '' # r)"
  shows "port_predicate_loop operators (l @ comparison_symbol op @ CHR '' '' # r) loc =
    res_bind (parse_port_reference (trim l) loc) (\<lambda>ref.
    res_bind (parse_literal (trim (CHR '' '' # r)) loc) (\<lambda>lit.
    Inr (ref, Some \<lparr>pred_op = op, pred_value = lit\<rparr>)))"
proof -
  have sk: "split_once (p # ps) (l @ x) = map_option (\<lambda>(a, b). (l @ a, b)) (split_once (p # ps) x)"
    if "p \<in> {CHR ''<'', CHR ''>'', CHR ''='', CHR ''!''}" for p ps x
    using split_once_skip [OF l, of p] that by (auto simp: op_chars_def)
  have nr: "split_once (p # ps) r = None"
    if "p \<in> {CHR ''<'', CHR ''>'', CHR ''='', CHR ''!''}" for p ps
    using split_once_op_free [of r p] r that by (auto simp: op_chars_def)
  show ?thesis by (cases op) (simp_all add: operators_def sk nr)
qed

lemma parse_comparison_text:
  assumes "plain_port r" "literal_text lit" "parse_literal lit loc = Inr v"
  shows "parse_port_predicate (comparison_text r op lit) loc = Inr (r, Some \<lparr>pred_op = op, pred_value = v\<rparr>)"
proof -
  have ws: "is_whitespace CHR '' ''" by (simp add: is_whitespace_def)
  have l: "trim (port_text r @ '' '') = port_text r"
    using trim_pad [of "[]" "'' ''" "port_text r"] plain_port_trim [OF assms(1)] ws by simp
  have v: "trim ('' '' @ lit) = lit"
    using trim_pad [of "'' ''" "[]" lit] assms(2) ws by (simp add: literal_text_def)
  have "list_all (\<lambda>c. c \<notin> set op_chars) (CHR '' '' # lit)"
    using assms(2) by (simp add: literal_text_def op_chars_def)
  from port_predicate_loop_split [OF plain_port_op_free [OF assms(1)] this, of op loc]
  show ?thesis using l v parse_port_reference_text [OF assms(1)] assms(3)
    by (simp add: parse_port_predicate_def comparison_text_def)
qed

text \<open>A text with no operator is a bare reference.\<close>

lemma parse_port_predicate_bare:
  assumes "plain_port r"
  shows "parse_port_predicate (port_text r) loc = Inr (r, None)"
proof -
  have f: "list_all (\<lambda>c. c \<notin> set op_chars) (port_text r)"
    using plain_port_op_free [OF assms] by simp
  have "split_once (p # ps) (port_text r) = None"
    if "p \<in> {CHR ''<'', CHR ''>'', CHR ''='', CHR ''!''}" for p ps
    using split_once_op_free [OF f, of p] that by (auto simp: op_chars_def)
  then show ?thesis using plain_port_trim [OF assms] parse_port_reference_text [OF assms]
    by (simp add: parse_port_predicate_def operators_def)
qed

lemma parse_expression_list_nonempty [simp]: "parse_expression_list seq loc \<noteq> Inr []"
  by (cases seq) (auto simp: parse_expression_list_def res_bind_eq_Inr)

section \<open>Properties\<close>

text \<open>A comparison written as \<open>node.port op literal\<close> parses to exactly its parts, for each of the
  six operators, when the names hold no white space and no operator character and the literal
  is a literal of the language without operator characters.\<close>

theorem comparison_text_parses:
  assumes "plain_port r" "literal_text lit" "parse_literal lit loc = Inr v"
  shows "parse_port_predicate (comparison_text r op lit) loc = Inr (r, Some \<lparr>pred_op = op, pred_value = v\<rparr>)"
  using assms by (rule parse_comparison_text)

theorem comparison_text_parses_witness:
  "parse_port_predicate ''critic.ok >= true'' \<lparr>loc_line = 1, loc_column = 1\<rparr> =
     Inr (\<lparr>pr_node = ''critic'', pr_port = ''ok''\<rparr>, Some \<lparr>pred_op = OpGte, pred_value = LitBool True\<rparr>)"
  using comparison_text_parses [of "\<lparr>pr_node = ''critic'', pr_port = ''ok''\<rparr>" "''true''" "\<lparr>loc_line = 1, loc_column = 1\<rparr>" "LitBool True" OpGte]
  by (simp add: plain_port_def plain_text_def literal_text_def op_chars_def is_whitespace_def
      parse_literal_def parse_bool_def comparison_text_def port_text_def
      trim_def trim_start_def trim_end_def)

text \<open>The operators are searched for in the whole text, inside quoted literals too: a comparison
  of a port with a quoted \<open>>=\<close> is split inside the quotes and rejected.\<close>

theorem quoted_operator_rejected:
  "parse_port_predicate (''a.b == '' @ [CHR 0x22] @ ''>='' @ [CHR 0x22]) loc =
     Inl (validation ''unsupported literal value; use booleans, numbers, or quoted strings'' loc)"
  by (simp add: parse_port_predicate_def operators_def parse_port_reference_def
      trim_def trim_start_def trim_end_def is_whitespace_def parse_literal_def parse_bool_def
      parse_i64_def parse_nat_lt_def all_digits_def is_ascii_digit_def parse_f64_def Let_def
      to_ascii_lowercase_def ascii_lower_def is_ascii_upper_def parse_decimal_def strip_suffix_def)

end
