(* ===== verification/Opening_Parser.thy ===== *)
theory Opening_Parser
  imports Opening_Template Opening_Graph Opening_Ports
begin

text \<open>
  The opening parser (\<open>crates/openings/src/parser.rs\<close>: \<open>parse_opening_str\<close> and the functions
  it calls). The YAML reader is third-party code and a parameter: \<open>yc_from_str\<close> is
  \<open>serde_yaml::from_str\<close> into a value, with its message and location on failure, and
  \<open>yc_to_json\<close> is \<open>serde_yaml::from_value\<close> into a JSON value. No hypothesis on either is used.
\<close>

record yaml_codec =
  yc_from_str :: "string \<Rightarrow> (string \<times> (nat \<times> nat) option) + yaml"
  yc_to_json :: "yaml \<Rightarrow> string + json"

definition saturating_succ :: "nat \<Rightarrow> nat" where
  "saturating_succ n = min (Suc n) (2 ^ 64 - 1)"

definition error_parse :: "string \<times> (nat \<times> nat) option \<Rightarrow> parse_error" where
  "error_parse err =
    (case snd err of
       Some (ln, col) \<Rightarrow> ParseErr (fst err) (saturating_succ ln) (saturating_succ col)
     | None \<Rightarrow> ParseErr (fst err) (saturating_succ 0) (saturating_succ 0))"

section \<open>Reading fields\<close>

definition mapping_get :: "mapping \<Rightarrow> string \<Rightarrow> yaml option" where
  "mapping_get m key = map_of m (YString key)"

definition u32_of_int :: "int \<Rightarrow> u32 option" where
  "u32_of_int raw = (if 0 \<le> raw \<and> raw < 2 ^ 32 then Some (of_int raw) else None)"

definition expect_u32_value :: "yaml \<Rightarrow> u32 option" where
  "expect_u32_value value =
    (case Option.bind (as_i64 value) (\<lambda>raw. if 0 \<le> raw then u32_of_int raw else None) of
       Some n \<Rightarrow> Some n
     | None \<Rightarrow> Option.bind (as_u64 value) (\<lambda>v. u32_of_int (uint v)))"

definition expect_u64_value :: "yaml \<Rightarrow> u64 option" where
  "expect_u64_value value =
    (case as_u64 value of
       Some n \<Rightarrow> Some n
     | None \<Rightarrow> Option.bind (as_i64 value) (\<lambda>i. if 0 \<le> i then Some (of_int i) else None))"

definition expect_u32 :: "mapping \<Rightarrow> string \<Rightarrow> u32 option" where
  "expect_u32 m key =
    Option.bind (mapping_get m key) (\<lambda>value.
      case as_i64 value of
        Some raw \<Rightarrow> if 0 \<le> raw then u32_of_int raw else None
      | None \<Rightarrow> Option.bind (as_u64 value) (\<lambda>v. u32_of_int (uint v)))"

definition expect_string :: "mapping \<Rightarrow> string \<Rightarrow> string option" where
  "expect_string m key = Option.bind (mapping_get m key) as_str"

definition as_f64 :: "yaml \<Rightarrow> f64 option" where
  "as_f64 v = (let number_as_f64 = (\<lambda>n. case n of
       PosInt n \<Rightarrow> f64_of_int (uint n) | NegInt n \<Rightarrow> f64_of_int (sint n) | Float f \<Rightarrow> f)
     in (case untag v of YNumber n \<Rightarrow> Some (number_as_f64 n) | _ \<Rightarrow> None))"

definition string_items :: "(nat \<Rightarrow> parse_error) \<Rightarrow> yaml list \<Rightarrow> parse_error + string list" where
  "string_items err items =
     res_map (\<lambda>(idx, entry). ok_or (err idx) (as_str entry)) (enumerate 0 items)"

definition expect_string_list :: "mapping \<Rightarrow> string \<Rightarrow> string \<Rightarrow> parse_error + string list option" where
  "expect_string_list m key source =
    (case mapping_get m key of
       None \<Rightarrow> Inr None
     | Some value \<Rightarrow>
         let loc = locate_key source key in
         res_bind (ok_or (validation (key @ '' must be a sequence'') loc) (as_sequence value)) (\<lambda>items.
         res_bind (string_items (\<lambda>idx. validation (key @ ''['' @ decimal idx @ ''] must be a string'') loc) items)
           (\<lambda>strs. Inr (Some strs))))"

definition expect_string_in ::
  "mapping \<Rightarrow> string \<Rightarrow> string \<Rightarrow> source_location \<Rightarrow> parse_error + string" where
  "expect_string_in m key source fallback =
    (case mapping_get m key of
       None \<Rightarrow> Inl (validation (''missing required field '' @ quoted key) (locate_child source fallback key))
     | Some value \<Rightarrow>
         ok_or (validation (''field '' @ quoted key @ '' must be a string'') (locate_child source fallback key))
           (as_str value))"

fun json_map_loop :: "yaml_codec \<Rightarrow> source_location \<Rightarrow> json_map \<Rightarrow> mapping \<Rightarrow> parse_error + json_map" where
  "json_map_loop yc loc acc [] = Inr acc"
| "json_map_loop yc loc acc ((key, value) # rest) =
     res_bind (ok_or (validation ''parameter keys must be strings'' loc) (as_str key)) (\<lambda>key_str.
       case yc_to_json yc value of
         Inl err \<Rightarrow> Inl (validation (''unsupported value type for key '' @ quoted key_str @ '': '' @ err) loc)
       | Inr json_value \<Rightarrow> json_map_loop yc loc (AList.update key_str json_value acc) rest)"

definition yaml_map_to_json_map :: "yaml_codec \<Rightarrow> mapping \<Rightarrow> source_location \<Rightarrow> parse_error + json_map" where
  "yaml_map_to_json_map yc m loc = json_map_loop yc loc [] m"

text \<open>An optional field read by a partial reader, with its error.\<close>

definition optional_field :: "mapping \<Rightarrow> string \<Rightarrow> (yaml \<Rightarrow> 'a option) \<Rightarrow> parse_error \<Rightarrow> parse_error + 'a option" where
  "optional_field m key rd err = opt_res (mapping_get m key) (\<lambda>v. ok_or err (rd v))"

section \<open>Policy\<close>

definition parse_policy :: "yaml option \<Rightarrow> string \<Rightarrow> parse_error + policy" where
  "parse_policy value source =
    (case value of
       None \<Rightarrow> Inr default_policy
     | Some value \<Rightarrow>
         let loc = locate_key source ''policy'' in
         res_bind (ok_or (validation ''policy must be a mapping'' loc) (as_mapping value)) (\<lambda>m.
         res_bind (optional_field m ''budget_tokens'' expect_u32_value
             (validation ''policy.budget_tokens must be a non-negative integer''
                (locate_child source loc ''budget_tokens''))) (\<lambda>budget.
         res_bind (optional_field m ''timeout_ms'' expect_u64_value
             (validation ''policy.timeout_ms must be a non-negative integer''
                (locate_child source loc ''timeout_ms''))) (\<lambda>timeout.
         res_bind (optional_field m ''confirm_external'' as_bool
             (validation ''policy.confirm_external must be a boolean''
                (locate_child source loc ''confirm_external''))) (\<lambda>confirm.
         Inr \<lparr>pol_budget_tokens = budget, pol_timeout_ms = timeout, pol_confirm_external = confirm\<rparr>)))))"

section \<open>Nodes\<close>

definition valid_identifier :: "string \<Rightarrow> bool" where
  "valid_identifier value = list_all is_name_char value"

definition parse_agent_reference :: "string \<Rightarrow> string \<Rightarrow> source_location \<Rightarrow> parse_error + agent_ref" where
  "parse_agent_reference raw source loc =
    (let trimmed = trim raw in
     if trimmed = [] then Inl (validation ''agent reference cannot be empty'' loc)
     else let (name, variant) =
            (case split_once ''@'' trimmed of
               Some (name, variant) \<Rightarrow> (trim name, Some (trim variant))
             | None \<Rightarrow> (trimmed, None))
     in if name = [] then Inl (validation ''agent name cannot be empty'' loc)
        else if \<not> valid_identifier name
        then Inl (validation (''agent name must contain only alphanumeric characters, '' @ quoted ''-'' @ '' or '' @ quoted ''_'')
               (locate_pattern source (''use: agent:'' @ raw)))
        else (case variant of
            Some variant \<Rightarrow>
              if variant = [] then Inl (validation ''agent variant cannot be empty'' loc)
              else if \<not> valid_identifier variant
              then Inl (validation (''agent variant must contain only alphanumeric characters, '' @ quoted ''-'' @ '' or '' @ quoted ''_'')
                     (locate_pattern source (''use: agent:'' @ raw)))
              else Inr \<lparr>ar_name = name, ar_variant = Some variant\<rparr>
          | None \<Rightarrow> Inr \<lparr>ar_name = name, ar_variant = None\<rparr>))"

definition parse_use :: "string \<Rightarrow> string \<Rightarrow> source_location \<Rightarrow> parse_error + node_kind" where
  "parse_use raw source loc =
    (case split_char CHR '':'' raw of
       [kind, rest] \<Rightarrow>
         if kind = ''agent''
         then res_bind (parse_agent_reference rest source loc) (\<lambda>r. Inr (AgentNode r))
         else if kind = ''opening'' then Inr (OpeningNode rest)
         else Inl (validation (''unknown use prefix '' @ quoted kind) (locate_pattern source (''use: '' @ raw)))
     | _ \<Rightarrow> Inl (validation (''node.use must be of the form '' @ quoted ''agent:<name>'' @ '' or '' @ quoted ''opening:<name>'') loc))"

definition parse_retry :: "yaml \<Rightarrow> string \<Rightarrow> source_location \<Rightarrow> parse_error + retry" where
  "parse_retry value source node_loc =
    (let loc = locate_child source node_loc ''retry'' in
     res_bind (ok_or (validation ''retry must be a mapping'' loc) (as_mapping value)) (\<lambda>m.
     res_bind (optional_field m ''max_attempts'' expect_u32_value
         (validation ''retry.max_attempts must be a non-negative integer'' loc)) (\<lambda>attempts.
     res_bind (optional_field m ''backoff_ms'' expect_u64_value
         (validation ''retry.backoff_ms must be a non-negative integer'' loc)) (\<lambda>backoff.
     res_bind (optional_field m ''initial_ms'' expect_u64_value
         (validation ''retry.initial_ms must be a non-negative integer'' loc)) (\<lambda>initial.
     res_bind (optional_field m ''max_ms'' expect_u64_value
         (validation ''retry.max_ms must be a non-negative integer'' loc)) (\<lambda>max_ms.
     res_bind (optional_field m ''multiplier'' as_f64
         (validation ''retry.multiplier must be a floating point number'' loc)) (\<lambda>multiplier.
     res_bind (optional_field m ''jitter'' as_f64
         (validation ''retry.jitter must be a floating point number'' loc)) (\<lambda>jitter.
     res_bind (case jitter of
         None \<Rightarrow> Inr ()
       | Some j \<Rightarrow> guard_or (f64_le 0 j \<and> f64_le j f64_one)
            (validation ''retry.jitter must be between 0.0 and 1.0'' loc)) (\<lambda>_.
     Inr \<lparr>rt_max_attempts = (case attempts of Some n \<Rightarrow> n | None \<Rightarrow> 0),
       rt_initial_backoff_ms = (case initial of Some i \<Rightarrow> i
          | None \<Rightarrow> (case backoff of Some b \<Rightarrow> b | None \<Rightarrow> 100)),
       rt_max_backoff_ms = max_ms,
       rt_multiplier = (case multiplier of Some x \<Rightarrow> f64_to_f32 x | None \<Rightarrow> 0x40000000),
       rt_jitter = (case jitter of Some x \<Rightarrow> f64_to_f32 x | None \<Rightarrow> 0x3E4CCCCD)\<rparr>)))))))))"

definition SCHEMA_KEYS :: "string list" where
  "SCHEMA_KEYS = [''type'', ''$schema'', ''properties'', ''required'', ''allOf'', ''anyOf'', ''oneOf'',
     ''not'', ''items'', ''const'', ''$defs'', ''definitions'', ''$ref'']"

definition is_schema_like :: "mapping \<Rightarrow> bool" where
  "is_schema_like m =
     list_ex (\<lambda>kv. case as_str (fst kv) of Some c \<Rightarrow> c \<in> set SCHEMA_KEYS | None \<Rightarrow> False) m"

fun hint_props_loop :: "yaml_codec \<Rightarrow> source_location \<Rightarrow> json_map \<Rightarrow> mapping \<Rightarrow> parse_error + json_map" where
  "hint_props_loop yc loc acc [] = Inr acc"
| "hint_props_loop yc loc acc ((key, fragment) # rest) =
     res_bind (ok_or (validation ''schema_hints.with keys must be strings'' loc) (as_str key)) (\<lambda>key_str.
       case yc_to_json yc fragment of
         Inl err \<Rightarrow> Inl (validation (''invalid schema hint for '' @ quoted key_str @ '': '' @ err) loc)
       | Inr json_value \<Rightarrow> hint_props_loop yc loc (AList.update key_str json_value acc) rest)"

definition parse_with_hint_fragment ::
  "yaml_codec \<Rightarrow> yaml \<Rightarrow> source_location \<Rightarrow> parse_error + schema_hint_fragment" where
  "parse_with_hint_fragment yc value loc =
    (case as_mapping value of
       Some m \<Rightarrow>
         if is_schema_like m
         then (case yc_to_json yc value of
             Inl err \<Rightarrow> Inl (validation (''invalid schema_hints.with entry: '' @ err) loc)
           | Inr v \<Rightarrow> Inr (HintRaw v))
         else res_bind (hint_props_loop yc loc [] m) (\<lambda>props. Inr (HintProperties props))
     | None \<Rightarrow>
         (case yc_to_json yc value of
             Inl err \<Rightarrow> Inl (validation (''invalid schema_hints.with value: '' @ err) loc)
           | Inr v \<Rightarrow> Inr (HintRaw v)))"

definition parse_schema_hints ::
  "yaml_codec \<Rightarrow> yaml option \<Rightarrow> string \<Rightarrow> source_location \<Rightarrow> parse_error + schema_hint_fragment option" where
  "parse_schema_hints yc value source node_loc =
    (case value of
       None \<Rightarrow> Inr None
     | Some value \<Rightarrow>
         let loc = locate_child source node_loc ''schema_hints'' in
         res_bind (ok_or (validation ''schema_hints must be a mapping'' loc) (as_mapping value)) (\<lambda>m.
           opt_res (mapping_get m ''with'')
             (\<lambda>v. parse_with_hint_fragment yc v (locate_child source loc ''with''))))"

definition locate_node :: "string \<Rightarrow> yaml \<Rightarrow> source_location" where
  "locate_node source value =
    (case Option.bind (Option.bind (as_mapping value) (\<lambda>m. mapping_get m ''id'')) as_str of
       Some i \<Rightarrow> locate_pattern source (''id: '' @ i)
     | None \<Rightarrow> locate_key source ''nodes'')"

definition locate_edge :: "string \<Rightarrow> yaml \<Rightarrow> source_location" where
  "locate_edge source value =
    (case Option.bind (Option.bind (as_mapping value) (\<lambda>m. mapping_get m ''from'')) as_str of
       Some raw \<Rightarrow> locate_pattern source (''from: '' @ raw)
     | None \<Rightarrow> locate_key source ''edges'')"

definition disables_confirmation :: "node_kind \<Rightarrow> json_map \<Rightarrow> bool" where
  "disables_confirmation kind payload =
    ((case kind of AgentNode r \<Rightarrow> ar_name r = ''mailer'' | OpeningNode _ \<Rightarrow> False)
     \<and> map_of payload ''require_human_confirm'' = Some (JBool False))"

definition parse_with :: "yaml_codec \<Rightarrow> string \<Rightarrow> json_map \<Rightarrow> source_location \<Rightarrow> mapping \<Rightarrow> parse_error + json_map" where
  "parse_with yc source ps node_loc m =
    (let with_loc = locate_child source node_loc ''with'' in
     res_bind (opt_res (mapping_get m ''with'') (\<lambda>v.
         res_bind (ok_or (validation ''node.with must be a mapping'' with_loc) (as_mapping v)) (\<lambda>m'.
           yaml_map_to_json_map yc m' with_loc))) (\<lambda>w.
     apply_param_templates ps with_loc (case w of Some w \<Rightarrow> w | None \<Rightarrow> [])))"

definition parse_tags :: "string \<Rightarrow> source_location \<Rightarrow> mapping \<Rightarrow> parse_error + string list" where
  "parse_tags source node_loc m =
    (let tag_loc = locate_child source node_loc ''tags'' in
     res_bind (opt_res (mapping_get m ''tags'') (\<lambda>value.
         res_bind (ok_or (validation ''tags must be a sequence of strings'' tag_loc) (as_sequence value)) (\<lambda>ts.
           string_items (\<lambda>_. validation ''tags entries must be strings'' tag_loc) ts))) (\<lambda>ts.
     Inr (case ts of Some ts \<Rightarrow> ts | None \<Rightarrow> [])))"

definition parse_node ::
  "yaml_codec \<Rightarrow> string \<Rightarrow> json_map \<Rightarrow> bool \<Rightarrow> string list \<Rightarrow> yaml \<Rightarrow> parse_error + node" where
  "parse_node yc source ps confirm_external seen entry =
    (let node_loc = locate_node source entry in
     res_bind (ok_or (validation ''node entry must be a mapping'' node_loc) (as_mapping entry)) (\<lambda>m.
     res_bind (expect_string_in m ''id'' source node_loc) (\<lambda>i.
     res_bind (guard_or (i \<notin> set seen) (validation (''duplicate node id '' @ quoted i) node_loc)) (\<lambda>_.
     res_bind (expect_string_in m ''use'' source node_loc) (\<lambda>use_value.
     res_bind (parse_use use_value source node_loc) (\<lambda>kind.
     res_bind (parse_with yc source ps node_loc m) (\<lambda>w.
     res_bind (parse_schema_hints yc (mapping_get m ''schema_hints'') source node_loc) (\<lambda>hints.
     res_bind (guard_or (\<not> (confirm_external \<and> disables_confirmation kind w))
         (validation ''policy.confirm_external=true forbids nodes from disabling confirmation''
            (locate_child source node_loc ''with''))) (\<lambda>_.
     res_bind (opt_res (mapping_get m ''retry'') (\<lambda>v. parse_retry v source node_loc)) (\<lambda>r.
     res_bind (optional_field m ''timeout_ms'' expect_u64_value
         (validation ''timeout_ms must be a non-negative integer'' (locate_child source node_loc ''timeout_ms''))) (\<lambda>timeout.
     res_bind (optional_field m ''budget_tokens'' expect_u32_value
         (validation ''budget_tokens must be a non-negative integer'' (locate_child source node_loc ''budget_tokens''))) (\<lambda>budget.
     res_bind (parse_tags source node_loc m) (\<lambda>tags.
     Inr \<lparr>nd_id = i, nd_kind = kind, nd_with = w, nd_schema_hints = hints,
       nd_retry = (case r of Some r \<Rightarrow> r | None \<Rightarrow> default_retry),
       nd_timeout_ms = timeout, nd_budget_tokens = budget, nd_tags = tags, nd_location = node_loc\<rparr>)))))))))))))"

fun parse_node_entries ::
  "yaml_codec \<Rightarrow> string \<Rightarrow> json_map \<Rightarrow> bool \<Rightarrow> string list \<Rightarrow> yaml list \<Rightarrow> parse_error + node list" where
  "parse_node_entries yc source ps confirm seen [] = Inr []"
| "parse_node_entries yc source ps confirm seen (e # es) =
     res_bind (parse_node yc source ps confirm seen e) (\<lambda>n.
     res_bind (parse_node_entries yc source ps confirm (nd_id n # seen) es) (\<lambda>ns. Inr (n # ns)))"

definition parse_nodes ::
  "yaml_codec \<Rightarrow> yaml \<Rightarrow> string \<Rightarrow> json_map \<Rightarrow> bool \<Rightarrow> parse_error + node list" where
  "parse_nodes yc value source ps confirm_external =
    (let loc = locate_key source ''nodes'' in
     res_bind (ok_or (validation ''nodes must be a sequence'' loc) (as_sequence value)) (\<lambda>seq.
     res_bind (guard_or (seq \<noteq> []) (validation ''nodes must contain at least one entry'' loc)) (\<lambda>_.
     parse_node_entries yc source ps confirm_external [] seq)))"

section \<open>Edges, success and artifacts\<close>

definition parse_edge :: "string \<Rightarrow> yaml \<Rightarrow> parse_error + edge" where
  "parse_edge source entry =
    (let edge_loc = locate_edge source entry in
     case as_mapping entry of
       None \<Rightarrow> Inl (validation (''edge entries must be mappings with '' @ quoted ''from'' @ '' and '' @ quoted ''to'') edge_loc)
     | Some m \<Rightarrow>
         res_bind (expect_string_in m ''from'' source edge_loc) (\<lambda>from_raw.
         res_bind (expect_string_in m ''to'' source edge_loc) (\<lambda>to_raw.
         res_bind (parse_port_predicate from_raw edge_loc) (\<lambda>(from_ref, predicate).
         res_bind (parse_port_reference to_raw edge_loc) (\<lambda>to_ref.
         Inr \<lparr>ed_from = from_ref, ed_predicate = predicate, ed_to = to_ref, ed_location = edge_loc\<rparr>)))))"

definition parse_edges :: "yaml \<Rightarrow> string \<Rightarrow> parse_error + edge list" where
  "parse_edges value source =
    res_bind (ok_or (validation ''edges must be a sequence'' (locate_key source ''edges'')) (as_sequence value))
      (\<lambda>seq. res_map (parse_edge source) seq)"

definition parse_success :: "yaml option \<Rightarrow> string \<Rightarrow> parse_error + success_condition option" where
  "parse_success value source =
    (case value of
       None \<Rightarrow> Inr None
     | Some value \<Rightarrow>
         let loc = locate_key source ''success'' in
         res_bind (ok_or (validation ''success must be a mapping'' loc) (as_mapping value)) (\<lambda>m.
         case (mapping_get m ''any_of'', mapping_get m ''all_of'') of
           (Some _, Some _) \<Rightarrow>
             Inl (validation (''success must define either '' @ quoted ''any_of'' @ '' or '' @ quoted ''all_of'' @ '', not both'') loc)
         | (Some v, None) \<Rightarrow>
             res_bind (ok_or (validation ''success.any_of must be a sequence'' loc) (as_sequence v)) (\<lambda>seq.
             res_bind (parse_expression_list seq loc) (\<lambda>es. Inr (Some (AnyOf es))))
         | (None, Some v) \<Rightarrow>
             res_bind (ok_or (validation ''success.all_of must be a sequence'' loc) (as_sequence v)) (\<lambda>seq.
             res_bind (parse_expression_list seq loc) (\<lambda>es. Inr (Some (AllOf es))))
         | (None, None) \<Rightarrow>
             Inl (validation (''success must specify '' @ quoted ''any_of'' @ '' or '' @ quoted ''all_of'') loc)))"

definition parse_artifacts :: "yaml option \<Rightarrow> string \<Rightarrow> parse_error + port_reference list" where
  "parse_artifacts value source =
    (case value of
       None \<Rightarrow> Inr []
     | Some value \<Rightarrow>
         let loc = locate_key source ''artifacts'' in
         res_bind (ok_or (validation ''artifacts must be a mapping'' loc) (as_mapping value)) (\<lambda>m.
         case mapping_get m ''save'' of
           None \<Rightarrow> Inr []
         | Some save_value \<Rightarrow>
             let save_loc = locate_child source loc ''save'' in
             res_bind (ok_or (validation ''artifacts.save must be a sequence'' save_loc) (as_sequence save_value)) (\<lambda>seq.
             res_map (\<lambda>(idx, entry).
               res_bind (ok_or (validation (''artifacts.save entry '' @ decimal idx @ '' must be a string'') save_loc)
                  (as_str entry)) (\<lambda>spec. parse_port_reference spec save_loc)) (enumerate 0 seq))))"

section \<open>The whole opening\<close>

text \<open>\<open>None\<close> is a panic in the graph check.\<close>

definition parse_params :: "yaml_codec \<Rightarrow> mapping \<Rightarrow> string \<Rightarrow> parse_error + json_map" where
  "parse_params yc m source =
    (case mapping_get m ''params'' of
       None \<Rightarrow> Inr []
     | Some value \<Rightarrow>
         let loc = locate_key source ''params'' in
         res_bind (ok_or (validation ''params must be a mapping'' loc) (as_mapping value)) (\<lambda>m'.
           yaml_map_to_json_map yc m' loc))"

text \<open>Everything up to the graph check, and everything after it.\<close>

definition parse_header :: "yaml_codec \<Rightarrow> string \<Rightarrow> parse_error + (mapping \<times> u32 \<times> string \<times> string list \<times> json_map \<times> policy)" where
  "parse_header yc source =
    res_bind (case yc_from_str yc source of Inl err \<Rightarrow> Inl (error_parse err) | Inr v \<Rightarrow> Inr v) (\<lambda>top.
    let top_loc = \<lparr>loc_line = 1, loc_column = 1\<rparr> in
    res_bind (ok_or (validation ''opening must be a YAML mapping'' top_loc) (as_mapping top)) (\<lambda>m.
    res_bind (ok_or (validation (''missing required field '' @ quoted ''version'') top_loc) (expect_u32 m ''version'')) (\<lambda>version.
    res_bind (guard_or (version = 0)
        (validation (''unsupported DSL version '' @ decimal (unat version) @ ''; expected 0'') (locate_key source ''version''))) (\<lambda>_.
    res_bind (ok_or (validation (''missing required field '' @ quoted ''name'') top_loc) (expect_string m ''name'')) (\<lambda>name.
    res_bind (expect_string_list m ''goals'' source) (\<lambda>goals.
    res_bind (parse_params yc m source) (\<lambda>ps.
    res_bind (parse_policy (mapping_get m ''policy'') source) (\<lambda>pol.
    Inr (m, version, name, (case goals of Some g \<Rightarrow> g | None \<Rightarrow> []), ps, pol)))))))))"

definition parse_graph :: "yaml_codec \<Rightarrow> string \<Rightarrow> mapping \<Rightarrow> json_map \<Rightarrow> policy \<Rightarrow> parse_error + (node list \<times> edge list)" where
  "parse_graph yc source m ps pol =
    res_bind (ok_or (validation (''missing required field '' @ quoted ''nodes'') (locate_key source ''nodes''))
        (mapping_get m ''nodes'')) (\<lambda>nodes_value.
    res_bind (parse_nodes yc nodes_value source ps (pol_confirm_external pol = Some True)) (\<lambda>nodes.
    res_bind (ok_or (validation (''missing required field '' @ quoted ''edges'') (locate_key source ''edges''))
        (mapping_get m ''edges'')) (\<lambda>edges_value.
    res_bind (parse_edges edges_value source) (\<lambda>edges.
    Inr (nodes, edges)))))"

definition parse_opening_str :: "yaml_codec \<Rightarrow> string \<Rightarrow> (parse_error + opening_ir) option" where
  "parse_opening_str yc source =
    (case parse_header yc source of
       Inl e \<Rightarrow> Some (Inl e)
     | Inr (m, version, name, goals, ps, pol) \<Rightarrow>
    (case parse_graph yc source m ps pol of
       Inl e \<Rightarrow> Some (Inl e)
     | Inr (nodes, edges) \<Rightarrow>
    (case validate_graph nodes edges source of
       None \<Rightarrow> None
     | Some (Inl e) \<Rightarrow> Some (Inl e)
     | Some (Inr _) \<Rightarrow> Some (
         res_bind (parse_success (mapping_get m ''success'') source) (\<lambda>success.
         res_bind (parse_artifacts (mapping_get m ''artifacts'') source) (\<lambda>artifacts.
         Inr \<lparr>op_version = version, op_name = name, op_goals = goals, op_params = ps, op_policy = pol,
           op_nodes = nodes, op_edges = edges, op_success = success, op_artifacts = artifacts\<rparr>))))))"

section \<open>Well-formed openings\<close>

definition valid_agent_ref :: "agent_ref \<Rightarrow> bool" where
  "valid_agent_ref r =
    (ar_name r \<noteq> [] \<and> valid_identifier (ar_name r)
     \<and> (case ar_variant r of Some v \<Rightarrow> v \<noteq> [] \<and> valid_identifier v | None \<Rightarrow> True))"

definition wf_node :: "bool \<Rightarrow> node \<Rightarrow> bool" where
  "wf_node confirm n =
    ((case nd_kind n of AgentNode r \<Rightarrow> valid_agent_ref r | OpeningNode _ \<Rightarrow> True)
     \<and> template_free (JObject (nd_with n))
     \<and> \<not> (confirm \<and> disables_confirmation (nd_kind n) (nd_with n)))"

definition wf_success :: "success_condition option \<Rightarrow> bool" where
  "wf_success s = (case s of None \<Rightarrow> True | Some (AnyOf es) \<Rightarrow> es \<noteq> [] | Some (AllOf es) \<Rightarrow> es \<noteq> [])"

definition wf_opening :: "opening_ir \<Rightarrow> bool" where
  "wf_opening oi =
    (op_version oi = 0 \<and> op_nodes oi \<noteq> [] \<and> distinct (map nd_id (op_nodes oi))
     \<and> list_all (wf_node (pol_confirm_external (op_policy oi) = Some True)) (op_nodes oi)
     \<and> known_ends (op_nodes oi) (op_edges oi) \<and> acyclic (edge_relation (op_edges oi))
     \<and> wf_success (op_success oi))"

lemma parse_agent_reference_Inr:
  "parse_agent_reference raw source loc = Inr r \<Longrightarrow> valid_agent_ref r"
  by (auto simp: parse_agent_reference_def valid_agent_ref_def Let_def
      split: if_splits option.splits prod.splits)

lemma parse_use_Inr:
  "parse_use raw source loc = Inr k \<Longrightarrow> (case k of AgentNode r \<Rightarrow> valid_agent_ref r | OpeningNode _ \<Rightarrow> True)"
  by (auto simp: parse_use_def res_bind_eq_Inr dest: parse_agent_reference_Inr
      split: list.splits if_splits)

lemma parse_with_template_free:
  assumes "parse_with yc source ps loc m = Inr w"
  shows "template_free (JObject w)"
proof -
  obtain w0 loc' where "apply_param_templates ps loc' w0 = Inr w"
    using assms by (auto simp: parse_with_def Let_def res_bind_eq_Inr)
  then have "well_templated ps (JObject w0)" "JObject w = substitute ps (JObject w0)"
    unfolding apply_param_templates_Inr_iff by blast+
  then show ?thesis using substitute_template_free by metis
qed

lemma parse_node_Inr:
  assumes "parse_node yc source ps confirm seen e = Inr n"
  shows "nd_id n \<notin> set seen \<and> wf_node confirm n"
proof -
  obtain u loc m where "parse_use u source loc = Inr (nd_kind n)"
    and "parse_with yc source ps loc m = Inr (nd_with n)"
    and "\<not> (confirm \<and> disables_confirmation (nd_kind n) (nd_with n))"
    and "nd_id n \<notin> set seen"
    using assms unfolding parse_node_def Let_def res_bind_eq_Inr guard_or_eq_Inr
    by (elim exE conjE) (rule that, (erule sum.inject(2) [THEN iffD1, THEN subst], simp)+)
  then show ?thesis using parse_use_Inr parse_with_template_free unfolding wf_node_def by blast
qed

lemma parse_node_entries_Inr:
  "parse_node_entries yc source ps confirm seen es = Inr ns \<Longrightarrow>
     distinct (map nd_id ns) \<and> nd_id ` set ns \<inter> set seen = {} \<and> list_all (wf_node confirm) ns
     \<and> length ns = length es"
proof (induction es arbitrary: seen ns)
  case (Cons e es)
  then obtain n ns' where n: "parse_node yc source ps confirm seen e = Inr n"
    and ns': "parse_node_entries yc source ps confirm (nd_id n # seen) es = Inr ns'" and "ns = n # ns'"
    by (auto simp: res_bind_eq_Inr)
  with Cons.IH [OF ns'] parse_node_Inr [OF n] show ?case by auto
qed simp

lemma parse_nodes_Inr:
  assumes "parse_nodes yc v source ps confirm = Inr ns"
  shows "ns \<noteq> [] \<and> distinct (map nd_id ns) \<and> list_all (wf_node confirm) ns"
  using assms by (auto simp: parse_nodes_def Let_def res_bind_eq_Inr dest!: parse_node_entries_Inr)

lemma parse_success_Inr: "parse_success v source = Inr s \<Longrightarrow> wf_success s"
  by (auto simp: parse_success_def Let_def wf_success_def res_bind_eq_Inr split: option.splits)

lemma parse_header_version: "parse_header yc source = Inr (m, version, rest) \<Longrightarrow> version = 0"
  by (auto simp: parse_header_def Let_def res_bind_eq_Inr)

lemma parse_opening_spec:
  "\<exists>r. parse_opening_str yc source = Some r \<and> (\<forall>oi. r = Inr oi \<longrightarrow> wf_opening oi)"
proof (cases "parse_header yc source")
  case (Inr h)
  obtain m version name goals ps pol where h: "h = (m, version, name, goals, ps, pol)"
    by (cases h)
  have hv: "version = 0" using Inr h parse_header_version by blast
  show ?thesis
  proof (cases "parse_graph yc source m ps pol")
    case g: (Inr ne)
    obtain nodes edges where ne: "ne = (nodes, edges)" by (cases ne)
    have nodes: "nodes \<noteq> [] \<and> distinct (map nd_id nodes)
        \<and> list_all (wf_node (pol_confirm_external pol = Some True)) nodes"
      using g ne parse_nodes_Inr by (fastforce simp: parse_graph_def res_bind_eq_Inr)
    obtain r where r: "validate_graph nodes edges source = Some r"
      "r = Inr () \<longleftrightarrow> known_ends nodes edges \<and> acyclic (edge_relation edges)"
      using validate_graph_spec by blast
    show ?thesis
    proof (cases r)
      case (Inl e)
      then show ?thesis using Inr h g ne r(1) by (simp add: parse_opening_str_def)
    next
      case r': (Inr u)
      have graph: "known_ends nodes edges" "acyclic (edge_relation edges)" using r(2) r' by auto
      show ?thesis
        using Inr h g ne r(1) r' nodes hv graph
        by (auto simp: parse_opening_str_def res_bind_eq_Inr wf_opening_def dest: parse_success_Inr)
    qed
  next
    case (Inl e)
    then show ?thesis using Inr h by (simp add: parse_opening_str_def)
  qed
qed (simp add: parse_opening_str_def)

end
