(* ===== verification/Opening_Exec.thy ===== *)
theory Opening_Exec
  imports Opening_Locate "HOL-Library.Char_ord" "HOL-Library.List_Lexorder"
begin

text \<open>
  What the runner evaluates on node outputs (\<open>crates/openings/src/runner.rs\<close>):
  \<open>NodeInputs::push\<close>, \<open>NodeOutputs::hash\<close>, \<open>evaluate_predicate\<close> and the comparisons under it,
  \<open>evaluate_success\<close>, \<open>evaluate_expression\<close>. The hash function and the JSON serialiser are
  parameters. A port map is an association list in insertion order; only the text of log
  lines depends on that order. Rust compares strings by their UTF-8 bytes, which is the
  lexicographic order on characters.
\<close>

type_synonym ports = "(string \<times> json list) list"

definition push_port :: "string \<Rightarrow> json \<Rightarrow> ports \<Rightarrow> ports" where
  "push_port port value ps =
    AList.update port ((case map_of ps port of Some vs \<Rightarrow> vs | None \<Rightarrow> []) @ [value]) ps"

section \<open>Hashing\<close>

text \<open>The bytes fed to the hasher: ports by name, each followed by its serialised values.\<close>

definition port_bytes :: "(json \<Rightarrow> bytes) \<Rightarrow> ports \<Rightarrow> bytes" where
  "port_bytes ser ps =
     concat (map (\<lambda>(port, values). utf8_bytes port @ concat (map ser values)) (sort_key fst ps))"

definition outputs_hash :: "(bytes \<Rightarrow> bytes) \<Rightarrow> (json \<Rightarrow> bytes) \<Rightarrow> ports \<Rightarrow> bytes" where
  "outputs_hash blake3 ser ps = blake3 (port_bytes ser ps)"

section \<open>Predicates\<close>

definition compare_order :: "'a::linorder \<Rightarrow> 'a \<Rightarrow> comparison_op \<Rightarrow> bool" where
  "compare_order actual expected op =
    (case op of
       OpEq \<Rightarrow> actual = expected | OpNotEq \<Rightarrow> actual \<noteq> expected
     | OpGt \<Rightarrow> expected < actual | OpGte \<Rightarrow> expected \<le> actual
     | OpLt \<Rightarrow> actual < expected | OpLte \<Rightarrow> actual \<le> expected)"

definition compare_i128 :: "int \<Rightarrow> int \<Rightarrow> comparison_op \<Rightarrow> bool" where
  "compare_i128 = compare_order"

definition compare_string :: "string \<Rightarrow> string \<Rightarrow> comparison_op \<Rightarrow> bool" where
  "compare_string = compare_order"

definition compare_bool :: "bool \<Rightarrow> bool \<Rightarrow> comparison_op \<Rightarrow> bool" where
  "compare_bool actual expected op =
    (case op of OpEq \<Rightarrow> actual = expected | OpNotEq \<Rightarrow> actual \<noteq> expected | _ \<Rightarrow> False)"

text \<open>\<open>(a - b).abs()\<close>: exact subtraction and one rounding; a NaN if there is none.\<close>

definition f64_nan :: f64 where "f64_nan = 0x7FF8000000000000"
definition f64_epsilon :: f64 where "f64_epsilon = 0x3CB0000000000000"

definition signed_num :: "f64 \<Rightarrow> int \<times> nat" where
  "signed_num f = (case f64_fraction f of (a, b) \<Rightarrow> (if f64_sign f then - int a else int a, b))"

definition f64_abs_diff :: "f64 \<Rightarrow> f64 \<Rightarrow> f64" where
  "f64_abs_diff a b =
    (let ia = (f64_magnitude a = f64_infinity); ib = (f64_magnitude b = f64_infinity) in
     if f64_is_nan a \<or> f64_is_nan b then f64_nan
     else if ia \<and> ib \<and> f64_sign a = f64_sign b then f64_nan
     else if ia \<or> ib then of_nat f64_infinity
     else case (signed_num a, signed_num b) of
       ((na, da), (nb, db)) \<Rightarrow>
         of_nat (round_ratio 52 1023 (nat \<bar>na * int db - nb * int da\<bar>) (da * db)))"

definition compare_f64 :: "f64 \<Rightarrow> f64 \<Rightarrow> comparison_op \<Rightarrow> bool" where
  "compare_f64 actual expected op =
    (case op of
       OpEq \<Rightarrow> f64_lt (f64_abs_diff actual expected) f64_epsilon
     | OpNotEq \<Rightarrow> f64_le f64_epsilon (f64_abs_diff actual expected)
     | OpGt \<Rightarrow> f64_lt expected actual | OpGte \<Rightarrow> f64_le expected actual
     | OpLt \<Rightarrow> f64_lt actual expected | OpLte \<Rightarrow> f64_le actual expected)"

fun number_as_f64 :: "number \<Rightarrow> f64" where
  "number_as_f64 (PosInt n) = f64_of_int (uint n)"
| "number_as_f64 (NegInt n) = f64_of_int (sint n)"
| "number_as_f64 (Float f) = f"

definition compare_integer_literal :: "number \<Rightarrow> int \<Rightarrow> comparison_op \<Rightarrow> bool" where
  "compare_integer_literal num expected op =
    (case number_as_i64 num of
       Some actual \<Rightarrow> compare_i128 actual expected op
     | None \<Rightarrow>
    (case number_as_u64 num of
       Some actual \<Rightarrow> compare_i128 (uint actual) expected op
     | None \<Rightarrow> compare_f64 (number_as_f64 num) (f64_of_int expected) op))"

fun literal_matches :: "literal \<Rightarrow> comparison_op \<Rightarrow> json \<Rightarrow> bool" where
  "literal_matches (LitBool expected) op (JBool actual) = compare_bool actual expected op"
| "literal_matches (LitString expected) op (JString actual) = compare_string actual expected op"
| "literal_matches (LitInteger expected) op (JNumber num) = compare_integer_literal num expected op"
| "literal_matches (LitFloat expected) op (JNumber num) = compare_f64 (number_as_f64 num) expected op"
| "literal_matches _ op _ = False"

definition evaluate_predicate :: "predicate \<Rightarrow> string \<Rightarrow> ports \<Rightarrow> bool" where
  "evaluate_predicate p port outputs =
    (case map_of outputs port of
       None \<Rightarrow> False
     | Some values \<Rightarrow> list_ex (literal_matches (pred_value p) (pred_op p)) values)"

definition evaluate_expression :: "expression \<Rightarrow> (string \<Rightarrow> ports option) \<Rightarrow> bool" where
  "evaluate_expression e outputs =
    (case e of
       Exists r \<Rightarrow>
         (case Option.bind (outputs (pr_node r)) (\<lambda>o'. map_of o' (pr_port r)) of
            Some values \<Rightarrow> values \<noteq> []
          | None \<Rightarrow> False)
     | Comparison r p \<Rightarrow>
         (case outputs (pr_node r) of
            Some o' \<Rightarrow> evaluate_predicate p (pr_port r) o'
          | None \<Rightarrow> False))"

definition evaluate_success :: "success_condition option \<Rightarrow> (string \<Rightarrow> ports option) \<Rightarrow> bool" where
  "evaluate_success s outputs =
    (case s of
       None \<Rightarrow> True
     | Some (AnyOf es) \<Rightarrow> list_ex (\<lambda>e. evaluate_expression e outputs) es
     | Some (AllOf es) \<Rightarrow> list_all (\<lambda>e. evaluate_expression e outputs) es)"

section \<open>Integers are compared exactly\<close>

definition number_int :: "number \<Rightarrow> int option" where
  "number_int n = (case n of PosInt w \<Rightarrow> Some (uint w) | NegInt w \<Rightarrow> Some (sint w) | Float _ \<Rightarrow> None)"

lemma compare_integer_literal_exact:
  "number_int num = Some i \<Longrightarrow> compare_integer_literal num expected op = compare_order i expected op"
  by (cases num) (auto simp: number_int_def compare_integer_literal_def compare_i128_def)

lemma compare_order_negations:
  "compare_order a b OpNotEq = (\<not> compare_order a b OpEq)"
  "compare_order a b OpGte = (\<not> compare_order a b OpLt)"
  "compare_order a b OpLte = (\<not> compare_order a b OpGt)"
  by (auto simp: compare_order_def)

lemma map_of_push_port:
  "map_of (push_port port v ps) =
     (map_of ps)(port \<mapsto> (case map_of ps port of Some vs \<Rightarrow> vs | None \<Rightarrow> []) @ [v])"
  by (simp add: push_port_def update_conv')

lemma push_port_nonempty [simp]: "push_port port v ps \<noteq> []"
  unfolding push_port_def by (cases ps) auto

end
