(* ===== verification/Opening_Runner.thy ===== *)
theory Opening_Runner
  imports Opening_Exec Opening_Graph
begin

text \<open>
  The opening runner (\<open>crates/openings/src/runner.rs\<close>: \<open>Runner::run\<close>). The executor together
  with the tokio timer is a parameter: for a node, its inputs, the attempt number and the
  timeout it says how the attempt ends. An executor that keeps state is covered, since a run
  calls it at most once for a node and attempt number. Time stamps, the random backoff between
  attempts and the identifiers of the run are not part of the state. \<open>None\<close> as the result of
  a loop is the panic of \<open>expect("node present")\<close>.
\<close>

datatype exec_outcome =
    ExecCompleted ports
  | ExecFailed bool string
  | ExecError string
  | ExecTimeout

type_synonym executor = "node \<Rightarrow> ports \<Rightarrow> nat \<Rightarrow> u64 \<Rightarrow> exec_outcome"

datatype node_state = Pending | Running | Succeeded | Failed string | Skipped | Cancelled

record attempt_record =
  at_attempt :: nat
  at_inputs :: ports
  at_output :: "ports option"
  at_error :: "string option"

record node_record =
  nr_id :: string
  nr_state :: node_state
  nr_attempts :: "attempt_record list"

record attempt_trace =
  att_attempt :: nat
  att_inputs :: ports
  att_outputs :: "ports option"
  att_output_hash :: "string option"
  att_error :: "string option"

record node_trace =
  nt_id :: string
  nt_state :: node_state
  nt_final_attempt :: "attempt_trace option"

text \<open>A run trace without its identifiers and the ladder, which the runner leaves empty.\<close>

record run_trace =
  rc_nodes :: "node_trace list"
  rc_final_hash :: string
  rc_success :: bool

datatype run_event =
    EvNodeState string node_state nat
  | EvLogLine string string string
  | EvTraceLine string
  | EvCompleted run_trace

record run_state =
  rs_records :: "string \<Rightarrow> node_record option"
  rs_remaining :: "string \<Rightarrow> nat option"
  rs_blocked :: "string list"
  rs_queue :: "string list"
  rs_buffers :: "string \<Rightarrow> ports option"
  rs_outputs :: "string \<Rightarrow> ports option"
  rs_processed :: "string \<Rightarrow> bool option"
  rs_failed :: bool
  rs_events :: "run_event list"

section \<open>The initial state\<close>

definition fresh_record :: "string \<Rightarrow> node_record" where
  "fresh_record i = \<lparr>nr_id = i, nr_state = Pending, nr_attempts = []\<rparr>"

definition inbound_total :: "opening_ir \<Rightarrow> string \<Rightarrow> nat option" where
  "inbound_total oi =
    foldl (\<lambda>m e. case m (pr_node (ed_to e)) of
        Some counter \<Rightarrow> m(pr_node (ed_to e) \<mapsto> Suc counter)
      | None \<Rightarrow> m)
      (foldl (\<lambda>m n. m(nd_id n \<mapsto> 0)) Map.empty (op_nodes oi)) (op_edges oi)"

definition outgoing :: "opening_ir \<Rightarrow> string \<Rightarrow> edge list" where
  "outgoing oi i = filter (\<lambda>e. pr_node (ed_from e) = i) (op_edges oi)"

definition or_zero :: "nat option \<Rightarrow> nat" where
  "or_zero c = (case c of Some n \<Rightarrow> n | None \<Rightarrow> 0)"

definition roots :: "opening_ir \<Rightarrow> string list" where
  "roots oi = filter (\<lambda>i. or_zero (inbound_total oi i) = 0) (map nd_id (op_nodes oi))"

definition initial_state :: "opening_ir \<Rightarrow> run_state" where
  "initial_state oi =
    \<lparr>rs_records = foldl (\<lambda>m n. m(nd_id n \<mapsto> fresh_record (nd_id n))) Map.empty (op_nodes oi),
     rs_remaining = inbound_total oi,
     rs_blocked = [],
     rs_queue = roots oi,
     rs_buffers = foldl (\<lambda>m i. m(i \<mapsto> [])) Map.empty (roots oi),
     rs_outputs = Map.empty,
     rs_processed = Map.empty,
     rs_failed = False,
     rs_events = []\<rparr>"

section \<open>The attempts of one node\<close>

datatype node_outcome = Done ports | Broken string

definition effective_timeout :: "opening_ir \<Rightarrow> node \<Rightarrow> u64" where
  "effective_timeout oi n =
    (case nd_timeout_ms n of
       Some t \<Rightarrow> t
     | None \<Rightarrow> (case pol_timeout_ms (op_policy oi) of Some t \<Rightarrow> t | None \<Rightarrow> 30000))"

definition max_attempts :: "node \<Rightarrow> nat" where
  "max_attempts n = (if rt_max_attempts (nd_retry n) = 0 then 1 else unat (rt_max_attempts (nd_retry n)))"

definition start_events :: "node \<Rightarrow> nat \<Rightarrow> run_event list" where
  "start_events n used =
    [EvNodeState (nd_id n) Running used,
     EvLogLine (nd_id n) ''info'' (''node '' @ [CHR 0x27] @ nd_id n @ [CHR 0x27] @ '' attempt '' @ decimal used @ '' started'')]"

definition success_events :: "node \<Rightarrow> nat \<Rightarrow> ports \<Rightarrow> run_event list" where
  "success_events n used outputs =
    [EvNodeState (nd_id n) Succeeded used,
     EvLogLine (nd_id n) ''info'' (''node '' @ [CHR 0x27] @ nd_id n @ [CHR 0x27] @ '' succeeded on attempt '' @ decimal used),
     EvTraceLine (nd_id n @ '' -> succeeded (attempt '' @ decimal used @ '', outputs=''
        @ join_str '', '' (map fst outputs) @ '')'')]"

definition attempt_log :: "node \<Rightarrow> string \<Rightarrow> string \<Rightarrow> run_event" where
  "attempt_log n level what = EvLogLine (nd_id n) level (''node '' @ [CHR 0x27] @ nd_id n @ [CHR 0x27] @ what)"

text \<open>How an attempt that did not complete is reported: the error, its log line, may it be retried.\<close>

definition attempt_failure :: "node \<Rightarrow> u64 \<Rightarrow> nat \<Rightarrow> exec_outcome \<Rightarrow> string \<times> run_event \<times> bool" where
  "attempt_failure n timeout used outcome =
    (case outcome of
       ExecCompleted outputs \<Rightarrow> ([], attempt_log n [] [], False)
     | ExecFailed retryable reason \<Rightarrow>
         (reason, attempt_log n ''warn'' ('' failed on attempt '' @ decimal used @ '' ('' @ reason @ '')''), retryable)
     | ExecError err \<Rightarrow>
         (err, attempt_log n ''error'' ('' error on attempt '' @ decimal used @ '': '' @ err), False)
     | ExecTimeout \<Rightarrow>
         (''timeout after '' @ decimal (unat timeout) @ '' ms'',
          attempt_log n ''warn'' ('' timed out on attempt '' @ decimal used @ '' after '' @ decimal (unat timeout) @ '' ms''),
          True))"

definition failed_attempt :: "nat \<Rightarrow> ports \<Rightarrow> string \<Rightarrow> attempt_record" where
  "failed_attempt used inputs err =
    \<lparr>at_attempt = used, at_inputs = inputs, at_output = None, at_error = Some err\<rparr>"

text \<open>The \<open>loop\<close> over attempts; \<open>used\<close> is the number of attempts before this round.\<close>

function attempt_loop ::
  "executor \<Rightarrow> node \<Rightarrow> u64 \<Rightarrow> ports \<Rightarrow> nat \<Rightarrow> attempt_record list \<times> run_event list \<times> node_outcome" where
  "attempt_loop exec n timeout inputs used =
    (case exec n inputs (Suc used) timeout of
       ExecCompleted outputs \<Rightarrow>
         ([\<lparr>at_attempt = Suc used, at_inputs = inputs, at_output = Some outputs, at_error = None\<rparr>],
          start_events n (Suc used) @ success_events n (Suc used) outputs, Done outputs)
     | outcome \<Rightarrow>
         case attempt_failure n timeout (Suc used) outcome of (err, ev, retryable) \<Rightarrow>
         if retryable \<and> Suc used < max_attempts n
         then (case attempt_loop exec n timeout inputs (Suc used) of
             (atts, evs, r) \<Rightarrow> (failed_attempt (Suc used) inputs err # atts, start_events n (Suc used) @ ev # evs, r))
         else ([failed_attempt (Suc used) inputs err],
               start_events n (Suc used) @ [ev, EvNodeState (nd_id n) (Failed err) (Suc used)], Broken err))"
  by pat_completeness auto
termination
  by (relation "measure (\<lambda>(exec, n, timeout, inputs, used). max_attempts n - used)") auto

declare attempt_loop.simps [simp del]

section \<open>Handing outputs to the successors\<close>

definition edge_passes :: "edge \<Rightarrow> ports \<Rightarrow> bool" where
  "edge_passes e outputs =
    (case ed_predicate e of
       Some p \<Rightarrow> evaluate_predicate p (pr_port (ed_from e)) outputs
     | None \<Rightarrow> True)"

definition edge_values :: "edge \<Rightarrow> ports \<Rightarrow> json list" where
  "edge_values e outputs = (case map_of outputs (pr_port (ed_from e)) of Some vs \<Rightarrow> vs | None \<Rightarrow> [])"

definition feed :: "edge \<Rightarrow> ports \<Rightarrow> ports option \<Rightarrow> ports option" where
  "feed e outputs buffer =
    (if edge_passes e outputs \<and> edge_values e outputs \<noteq> []
     then Some (foldl (\<lambda>ps v. push_port (pr_port (ed_to e)) v ps)
                 (case buffer of Some ps \<Rightarrow> ps | None \<Rightarrow> []) (edge_values e outputs))
     else buffer)"

definition skip_node :: "string \<Rightarrow> run_state \<Rightarrow> run_state" where
  "skip_node i st = st\<lparr>rs_records := (rs_records st)(i := map_option (\<lambda>r. r\<lparr>nr_state := Skipped\<rparr>) (rs_records st i)),
                       rs_processed := (rs_processed st)(i \<mapsto> False)\<rparr>"

definition had_inbound :: "opening_ir \<Rightarrow> string \<Rightarrow> bool" where
  "had_inbound oi i = (0 < or_zero (inbound_total oi i))"

text \<open>The last inbound edge of \<open>i\<close> has been seen: run it, or skip it.\<close>

definition release :: "opening_ir \<Rightarrow> string \<Rightarrow> run_state \<Rightarrow> run_state" where
  "release oi i st =
    (if i \<in> set (rs_blocked st)
     then (skip_node i st)\<lparr>rs_blocked := removeAll i (rs_blocked st)\<rparr>
     else if (case rs_buffers st i of Some ps \<Rightarrow> ps \<noteq> [] | None \<Rightarrow> False) \<or> \<not> had_inbound oi i
     then st\<lparr>rs_queue := rs_queue st @ [i]\<rparr>
     else if rs_records st i \<noteq> None then skip_node i st else st)"

definition deliver_edge :: "opening_ir \<Rightarrow> ports \<Rightarrow> run_state \<Rightarrow> edge \<Rightarrow> run_state" where
  "deliver_edge oi outputs st e =
    (let i = pr_node (ed_to e);
         st = (if edge_passes e outputs then st
               else st\<lparr>rs_blocked := List.insert i (rs_blocked st)\<rparr>);
         st = st\<lparr>rs_buffers := (rs_buffers st)(i := feed e outputs (rs_buffers st i))\<rparr>
     in case rs_remaining st i of
          Some (Suc c) \<Rightarrow>
            let st = st\<lparr>rs_remaining := (rs_remaining st)(i \<mapsto> c)\<rparr>
            in if c = 0 then release oi i st else st
        | _ \<Rightarrow> st)"

section \<open>One round and the run loop\<close>

definition set_record :: "string \<Rightarrow> node_state \<Rightarrow> attempt_record list \<Rightarrow> run_state \<Rightarrow> run_state" where
  "set_record i s atts st =
     st\<lparr>rs_records := (rs_records st)(i := map_option
          (\<lambda>r. r\<lparr>nr_state := s, nr_attempts := nr_attempts r @ atts\<rparr>) (rs_records st i))\<rparr>"

definition run_node :: "opening_ir \<Rightarrow> executor \<Rightarrow> node \<Rightarrow> run_state \<Rightarrow> run_state" where
  "run_node oi exec n st =
    (let i = nd_id n;
         inputs = (case rs_buffers st i of Some ps \<Rightarrow> ps | None \<Rightarrow> []);
         st = st\<lparr>rs_buffers := (rs_buffers st)(i := None)\<rparr>
     in case attempt_loop exec n (effective_timeout oi n) inputs 0 of
          (atts, evs, Done outputs) \<Rightarrow>
            let st = (set_record i Succeeded atts st)\<lparr>
                        rs_outputs := (rs_outputs st)(i \<mapsto> outputs), rs_events := rs_events st @ evs\<rparr>;
                st = foldl (deliver_edge oi outputs) st (outgoing oi i)
            in st\<lparr>rs_processed := (rs_processed st)(i \<mapsto> True)\<rparr>
        | (atts, evs, Broken reason) \<Rightarrow>
            (set_record i (Failed reason) atts st)\<lparr>rs_failed := True, rs_events := rs_events st @ evs\<rparr>)"

definition pending_work :: "opening_ir \<Rightarrow> run_state \<Rightarrow> nat" where
  "pending_work oi st =
     length (rs_queue st) + (\<Sum>i \<in> (pr_node \<circ> ed_to) ` set (op_edges oi). or_zero (rs_remaining st i))"

lemma release_queue:
  "length (rs_queue (release oi i st)) \<le> Suc (length (rs_queue st))"
  "rs_remaining (release oi i st) = rs_remaining st"
  by (simp_all add: release_def skip_node_def)

lemma deliver_edge_work:
  assumes "e \<in> set (op_edges oi)"
  shows "pending_work oi (deliver_edge oi outputs st e) \<le> pending_work oi st"
proof -
  let ?i = "pr_node (ed_to e)" and ?S = "(pr_node \<circ> ed_to) ` set (op_edges oi)"
  show ?thesis
  proof (cases "rs_remaining st ?i")
    case (Some k)
    show ?thesis
    proof (cases k)
      case (Suc c)
      have i: "?i \<in> ?S" "finite ?S" using assms by auto
      have "Suc (\<Sum>i \<in> ?S. or_zero (((rs_remaining st)(?i \<mapsto> c)) i)) = (\<Sum>i \<in> ?S. or_zero (rs_remaining st i))"
        using i Some Suc by (simp only: sum.remove [of ?S ?i]) (simp add: or_zero_def)
      then show ?thesis using Some Suc
        by (auto simp: deliver_edge_def Let_def pending_work_def release_queue le_SucI
            intro!: order.trans [OF add_right_mono [OF release_queue(1)]])
    qed (use Some in \<open>simp add: deliver_edge_def Let_def pending_work_def\<close>)
  qed (simp add: deliver_edge_def Let_def pending_work_def)
qed

lemma deliver_edges_work:
  "set es \<subseteq> set (op_edges oi) \<Longrightarrow> pending_work oi (foldl (deliver_edge oi outputs) st es) \<le> pending_work oi st"
proof (induction es arbitrary: st)
  case (Cons e es)
  then show ?case using deliver_edge_work [of e oi outputs st] by (auto intro: order.trans)
qed simp

lemma run_node_work: "pending_work oi (run_node oi exec n st) \<le> pending_work oi st"
proof -
  have w: "pending_work oi (st\<lparr>rs_processed := p\<rparr>) = pending_work oi st"
    "pending_work oi (st\<lparr>rs_buffers := b\<rparr>) = pending_work oi st"
    "pending_work oi (st\<lparr>rs_outputs := o', rs_events := v\<rparr>) = pending_work oi st"
    "pending_work oi (st\<lparr>rs_failed := f, rs_events := v\<rparr>) = pending_work oi st"
    "pending_work oi (set_record i s a st) = pending_work oi st" for p b o' v f i s a st
    by (simp_all add: pending_work_def set_record_def)
  have "set (outgoing oi (nd_id n)) \<subseteq> set (op_edges oi)" by (auto simp: outgoing_def)
  note d = deliver_edges_work [OF this]
  show ?thesis
    by (auto simp: run_node_def Let_def w split: prod.splits node_outcome.splits
        intro!: order.trans [OF d])
qed

function run_loop :: "opening_ir \<Rightarrow> executor \<Rightarrow> run_state \<Rightarrow> run_state option" where
  "run_loop oi exec st =
    (case rs_queue st of
       [] \<Rightarrow> Some st
     | i # queue \<Rightarrow>
         let st = st\<lparr>rs_queue := queue\<rparr> in
         if rs_failed st then Some st
         else (case find (\<lambda>n. nd_id n = i) (op_nodes oi) of
             None \<Rightarrow> None
           | Some n \<Rightarrow> run_loop oi exec (run_node oi exec n st)))"
  by pat_completeness auto
termination
proof (relation "measure (\<lambda>(oi, exec, st). pending_work oi st)")
  fix oi exec and st :: run_state and i queue n and st' :: run_state
  assume "rs_queue st = i # queue" "st' = st\<lparr>rs_queue := queue\<rparr>"
  then have "pending_work oi st' < pending_work oi st" by (simp add: pending_work_def)
  then show "((oi, exec, run_node oi exec n st'), oi, exec, st) \<in> measure (\<lambda>(oi, exec, st). pending_work oi st)"
    using run_node_work [of oi exec n st'] by simp
qed simp

declare run_loop.simps [simp del]

section \<open>The final states and the report\<close>

definition settled :: "node_state \<Rightarrow> bool" where
  "settled s = (case s of Succeeded \<Rightarrow> True | Failed _ \<Rightarrow> True | _ \<Rightarrow> False)"

definition final_state :: "run_state \<Rightarrow> node_record \<Rightarrow> node_state" where
  "final_state st r =
    (if settled (nr_state r) then nr_state r
     else if rs_failed st then Skipped
     else if rs_processed st (nr_id r) = Some True then Succeeded else Skipped)"

definition finish :: "run_state \<Rightarrow> run_state" where
  "finish st = st\<lparr>rs_records := (\<lambda>i. map_option (\<lambda>r. r\<lparr>nr_state := final_state st r\<rparr>) (rs_records st i))\<rparr>"

record run_report =
  rr_nodes :: "node_trace list"
  rr_final_hash :: string
  rr_success :: bool
  rr_records :: "node_record list"
  rr_events :: "run_event list"

definition trace_attempt :: "(ports \<Rightarrow> bytes) \<Rightarrow> attempt_record \<Rightarrow> attempt_trace" where
  "trace_attempt hash a =
    \<lparr>att_attempt = at_attempt a, att_inputs = at_inputs a, att_outputs = at_output a,
     att_output_hash = map_option (\<lambda>o'. to_hex (hash o')) (at_output a), att_error = at_error a\<rparr>"

definition last_attempt :: "node_record \<Rightarrow> attempt_record option" where
  "last_attempt r = (if nr_attempts r = [] then None else Some (last (nr_attempts r)))"

definition attempt_digest :: "(ports \<Rightarrow> bytes) \<Rightarrow> attempt_record \<Rightarrow> bytes" where
  "attempt_digest hash a =
    (case at_output a of Some o' \<Rightarrow> hash o' | None \<Rightarrow> [])
    @ (case at_error a of Some e \<Rightarrow> utf8_bytes e | None \<Rightarrow> [])"

definition record_digest :: "(ports \<Rightarrow> bytes) \<Rightarrow> node_record \<Rightarrow> bytes" where
  "record_digest hash r = (case last_attempt r of Some a \<Rightarrow> attempt_digest hash a | None \<Rightarrow> [])"

definition node_trace_of :: "(ports \<Rightarrow> bytes) \<Rightarrow> node_record \<Rightarrow> node_trace" where
  "node_trace_of hash r =
    \<lparr>nt_id = nr_id r, nt_state = nr_state r, nt_final_attempt = map_option (trace_attempt hash) (last_attempt r)\<rparr>"

definition final_events :: "run_state \<Rightarrow> node_record list \<Rightarrow> run_event list" where
  "final_events st rs = map (\<lambda>r. EvNodeState (nr_id r) (final_state st r) 0)
     (filter (\<lambda>r. \<not> settled (nr_state r)) rs)"

definition run_state_of :: "opening_ir \<Rightarrow> executor \<Rightarrow> run_state option" where
  "run_state_of oi exec = run_loop oi exec (initial_state oi)"

definition run :: "(bytes \<Rightarrow> bytes) \<Rightarrow> (json \<Rightarrow> bytes) \<Rightarrow> opening_ir \<Rightarrow> executor \<Rightarrow> run_report option" where
  "run blake3 ser oi exec =
    (case run_state_of oi exec of
       None \<Rightarrow> None
     | Some st \<Rightarrow>
         let hash = outputs_hash blake3 ser;
             before = map (\<lambda>n. the (rs_records st (nd_id n))) (op_nodes oi);
             records = map (\<lambda>n. the (rs_records (finish st) (nd_id n))) (op_nodes oi);
             trace = \<lparr>rc_nodes = map (node_trace_of hash) records,
               rc_final_hash = to_hex (blake3 (concat (map (record_digest hash) records))),
               rc_success = (\<not> rs_failed st \<and> evaluate_success (op_success oi) (rs_outputs st))\<rparr>
         in Some \<lparr>rr_nodes = rc_nodes trace, rr_final_hash = rc_final_hash trace, rr_success = rc_success trace,
              rr_records = records, rr_events = rs_events st @ final_events st before @ [EvCompleted trace]\<rparr>)"

end
