(* ===== verification/Opening_Runner_Inv.thy ===== *)
theory Opening_Runner_Inv
  imports Opening_Runner
begin

text \<open>
  The invariant of the run loop (\<open>crates/openings/src/runner.rs\<close>: \<open>Runner::run\<close>). The ghost
  state is the list \<open>ord\<close> of the nodes executed so far; every component of the runner's state
  is a closed form of \<open>ord\<close> and of the outputs of its nodes. \<open>feed_inv\<close> is the same closed
  form in the middle of handing out a node's outputs, when the edges \<open>C\<close> are consumed and
  the edges \<open>P\<close> are not.
\<close>

abbreviation src :: "edge \<Rightarrow> string" where "src e \<equiv> pr_node (ed_from e)"
abbreviation dst :: "edge \<Rightarrow> string" where "dst e \<equiv> pr_node (ed_to e)"

definition node_ids :: "opening_ir \<Rightarrow> string set" where
  "node_ids oi = nd_id ` set (op_nodes oi)"

definition into :: "edge list \<Rightarrow> string \<Rightarrow> edge list" where
  "into es y = filter (\<lambda>e. dst e = y) es"

definition src_outputs :: "(string \<Rightarrow> ports option) \<Rightarrow> edge \<Rightarrow> ports" where
  "src_outputs outs e = (case outs (src e) of Some o' \<Rightarrow> o' | None \<Rightarrow> [])"

definition passes :: "(string \<Rightarrow> ports option) \<Rightarrow> edge \<Rightarrow> bool" where
  "passes outs e = edge_passes e (src_outputs outs e)"

definition delivers :: "(string \<Rightarrow> ports option) \<Rightarrow> edge \<Rightarrow> bool" where
  "delivers outs e = (passes outs e \<and> edge_values e (src_outputs outs e) \<noteq> [])"

text \<open>The buffer of \<open>y\<close> after the edges of \<open>es\<close>, and whether \<open>y\<close> may run after them.\<close>

definition feed_all :: "(string \<Rightarrow> ports option) \<Rightarrow> ports option \<Rightarrow> edge list \<Rightarrow> ports option" where
  "feed_all outs b es = foldl (\<lambda>b e. feed e (src_outputs outs e) b) b es"

definition ready :: "(string \<Rightarrow> ports option) \<Rightarrow> edge list \<Rightarrow> bool" where
  "ready outs es = (list_all (passes outs) es \<and> (es = [] \<or> list_ex (delivers outs) es))"

definition buffer_of :: "opening_ir \<Rightarrow> (string \<Rightarrow> ports option) \<Rightarrow> edge list \<Rightarrow> string \<Rightarrow> ports option" where
  "buffer_of oi outs C y = feed_all outs (if into (op_edges oi) y = [] then Some [] else None) (into C y)"

lemma into_simps [simp]:
  "into [] y = []" "into (e # es) y = (if dst e = y then e # into es y else into es y)"
  "into (es @ fs) y = into es y @ into fs y" "set (into es y) = {e \<in> set es. dst e = y}"
  by (auto simp: into_def)

lemma feed_nonempty: "(\<exists>ps. feed e o' b = Some ps \<and> ps \<noteq> []) \<longleftrightarrow>
    (edge_passes e o' \<and> edge_values e o' \<noteq> []) \<or> (\<exists>ps. b = Some ps \<and> ps \<noteq> [])"
proof (cases "edge_passes e o' \<and> edge_values e o' \<noteq> []")
  case True
  then obtain v vs where "edge_values e o' = v # vs" by (cases "edge_values e o'") auto
  moreover have "foldl (\<lambda>ps v. push_port p v ps) ps vs \<noteq> []" if "ps \<noteq> []" for p ps and vs :: "json list"
    using that by (induction vs arbitrary: ps) auto
  ultimately show ?thesis using True by (simp add: feed_def)
qed (auto simp: feed_def)

lemma feed_all_nonempty:
  "(\<exists>ps. feed_all outs b es = Some ps \<and> ps \<noteq> []) \<longleftrightarrow>
     list_ex (delivers outs) es \<or> (\<exists>ps. b = Some ps \<and> ps \<noteq> [])"
proof (induction es arbitrary: b)
  case (Cons e es)
  show ?case using Cons.IH [of "feed e (src_outputs outs e) b"] feed_nonempty [of e "src_outputs outs e" b]
    by (auto simp: feed_all_def delivers_def passes_def)
qed (auto simp: feed_all_def)

lemma src_outputs_cong:
  "(\<And>e. e \<in> set es \<Longrightarrow> outs (src e) = outs' (src e)) \<Longrightarrow>
     feed_all outs b es = feed_all outs' b es \<and> ready outs es = ready outs' es"
proof (induction es arbitrary: b)
  case (Cons e es)
  then have h: "src_outputs outs e = src_outputs outs' e" by (simp add: src_outputs_def)
  have "\<forall>f \<in> set es. src_outputs outs f = src_outputs outs' f" using Cons.prems by (simp add: src_outputs_def)
  then have "list_all (passes outs) es = list_all (passes outs') es"
    "list_ex (delivers outs) es = list_ex (delivers outs') es"
    by (auto simp: list_all_iff list_ex_iff passes_def delivers_def)
  then show ?case using Cons.IH [of "feed e (src_outputs outs e) b"] Cons.prems h
    by (simp add: feed_all_def ready_def passes_def delivers_def)
qed (simp add: feed_all_def ready_def)

section \<open>Closed forms of the initial maps\<close>

lemma zero_counters:
  "foldl (\<lambda>m n. m(nd_id n \<mapsto> c)) m ns y = (if y \<in> nd_id ` set ns then Some c else m y)"
  by (induction ns arbitrary: m) auto

lemma fresh_records:
  "foldl (\<lambda>m n. m(nd_id n \<mapsto> fresh_record (nd_id n))) m ns y =
     (if y \<in> nd_id ` set ns then Some (fresh_record y) else m y)"
  by (induction ns arbitrary: m) auto

lemma empty_buffers:
  "foldl (\<lambda>m i. m(i \<mapsto> [])) m is y = (if y \<in> set is then Some [] else m y)"
  by (induction "is" arbitrary: m) auto

lemma count_inbound:
  "foldl (\<lambda>m e. case m (dst e) of Some c \<Rightarrow> m(dst e \<mapsto> Suc c) | None \<Rightarrow> m) m es y =
     map_option (\<lambda>c. c + length (into es y)) (m y)"
  by (induction es arbitrary: m) (auto split: option.splits simp: option.map_ident)

lemma inbound_total_eq:
  "inbound_total oi y = (if y \<in> node_ids oi then Some (length (into (op_edges oi) y)) else None)"
  by (simp add: inbound_total_def count_inbound zero_counters node_ids_def)

lemma set_roots: "set (roots oi) = {y \<in> node_ids oi. into (op_edges oi) y = []}"
  by (auto simp: roots_def inbound_total_eq node_ids_def or_zero_def)

section \<open>The invariant between edges\<close>

definition feed_inv :: "opening_ir \<Rightarrow> string set \<Rightarrow> edge list \<Rightarrow> edge list \<Rightarrow> run_state \<Rightarrow> bool" where
  "feed_inv oi X C P st =
    (let outs = rs_outputs st in
     (\<forall>y. rs_remaining st y = (if y \<in> node_ids oi then Some (length (into P y)) else None))
     \<and> (\<forall>y. y \<in> set (rs_blocked st) \<longleftrightarrow> into P y \<noteq> [] \<and> \<not> list_all (passes outs) (into C y))
     \<and> (\<forall>y \<in> node_ids oi - X. rs_buffers st y = buffer_of oi outs C y)
     \<and> distinct (rs_queue st)
     \<and> set (rs_queue st) = {y \<in> node_ids oi - X. into P y = [] \<and> ready outs (into C y)}
     \<and> (\<forall>y \<in> node_ids oi - X. rs_records st y = Some \<lparr>nr_id = y,
           nr_state = (if into P y = [] \<and> \<not> ready outs (into C y) then Skipped else Pending), nr_attempts = []\<rparr>)
     \<and> (\<forall>y. rs_processed st y = Some True \<longrightarrow> y \<in> X)
     \<and> (\<forall>y \<in> X. into P y = []) \<and> \<not> rs_failed st)"

lemma ready_snoc_blocked: "\<not> list_all (passes outs) es \<Longrightarrow> \<not> ready outs es"
  by (simp add: ready_def)

lemma deliver_edge_other:
  "rs_outputs (deliver_edge oi o' st e) = rs_outputs st"
  "y \<noteq> dst e \<Longrightarrow> rs_records (deliver_edge oi o' st e) y = rs_records st y"
  "rs_failed (deliver_edge oi o' st e) = rs_failed st"
  "rs_events (deliver_edge oi o' st e) = rs_events st"
  by (simp_all add: deliver_edge_def Let_def release_def skip_node_def split: option.splits nat.splits)

lemma deliver_edge_inv:
  assumes inv: "feed_inv oi X C (e # P) st"
    and o': "rs_outputs st (src e) = Some o'" and d: "dst e \<in> node_ids oi"
    and E: "e \<in> set (op_edges oi)"
  shows "feed_inv oi X (C @ [e]) P (deliver_edge oi o' st e)"
proof -
  let ?outs = "rs_outputs st" and ?i = "dst e"
  have rem: "\<And>y. rs_remaining st y = (if y \<in> node_ids oi then Some (length (into (e # P) y)) else None)"
    and blk: "\<And>y. y \<in> set (rs_blocked st) \<longleftrightarrow> into (e # P) y \<noteq> [] \<and> \<not> list_all (passes ?outs) (into C y)"
    and buf: "\<And>y. y \<in> node_ids oi - X \<Longrightarrow> rs_buffers st y = buffer_of oi ?outs C y"
    and que: "distinct (rs_queue st)"
      "set (rs_queue st) = {y \<in> node_ids oi - X. into (e # P) y = [] \<and> ready ?outs (into C y)}"
    and rec: "\<And>y. y \<in> node_ids oi - X \<Longrightarrow> rs_records st y = Some \<lparr>nr_id = y,
         nr_state = (if into (e # P) y = [] \<and> \<not> ready ?outs (into C y) then Skipped else Pending), nr_attempts = []\<rparr>"
    and pr: "\<And>y. rs_processed st y = Some True \<Longrightarrow> y \<in> X"
    and X: "\<And>y. y \<in> X \<Longrightarrow> into (e # P) y = []" and nf: "\<not> rs_failed st"
    using inv unfolding feed_inv_def Let_def by blast+
  have iX: "?i \<notin> X" using X [of ?i] by auto
  have so: "src_outputs ?outs e = o'" using o' by (simp add: src_outputs_def)
  define b where "b = feed e o' (rs_buffers st ?i)"
  have bi: "b = buffer_of oi ?outs (C @ [e]) ?i"
    using buf [of ?i] iX d so by (simp add: b_def buffer_of_def feed_all_def)
  define blk' where "blk' = (if passes ?outs e then rs_blocked st else List.insert ?i (rs_blocked st))"
  have hi: "had_inbound oi ?i" using E by (auto simp: had_inbound_def inbound_total_eq d or_zero_def into_def filter_empty_conv)
  have bne: "(case b of Some ps \<Rightarrow> ps \<noteq> [] | None \<Rightarrow> False) \<longleftrightarrow> list_ex (delivers ?outs) (into (C @ [e]) ?i)"
    using feed_all_nonempty [of ?outs "if into (op_edges oi) ?i = [] then Some [] else None" "into (C @ [e]) ?i"]
    unfolding bi buffer_of_def by (auto split: option.splits if_splits)
  define s1 where "s1 = st\<lparr>rs_blocked := blk', rs_buffers := (rs_buffers st)(?i := b),
      rs_remaining := (rs_remaining st)(?i \<mapsto> length (into P ?i))\<rparr>"
  have del: "deliver_edge oi o' st e = (if into P ?i = [] then release oi ?i s1 else s1)"
    using rem [of ?i] d so
    by (auto simp: deliver_edge_def Let_def s1_def blk'_def b_def passes_def)
  have bl': "y \<in> set blk' \<longleftrightarrow> (if y = ?i then \<not> list_all (passes ?outs) (into (C @ [e]) ?i)
      else y \<in> set (rs_blocked st))" for y
    using blk [of ?i] by (auto simp: blk'_def)
  have rdy: "ready ?outs (into (C @ [e]) ?i) \<longleftrightarrow>
      list_all (passes ?outs) (into (C @ [e]) ?i) \<and> list_ex (delivers ?outs) (into (C @ [e]) ?i)"
    by (simp add: ready_def)
  have same: "y \<noteq> ?i \<Longrightarrow> buffer_of oi ?outs (C @ [e]) y = buffer_of oi ?outs C y" for y
    by (simp add: buffer_of_def)
  have qi: "?i \<notin> set (rs_queue st)" using que(2) by simp
  have ri: "rs_records st ?i = Some (fresh_record ?i)"
    using rec [of ?i] d iX by (simp add: fresh_record_def)
  let ?s2 = "deliver_edge oi o' st e" and ?R = "ready ?outs (into (C @ [e]) ?i)"
  have step: "rs_remaining ?s2 = (rs_remaining st)(?i \<mapsto> length (into P ?i))
    \<and> rs_buffers ?s2 = (rs_buffers st)(?i := b)
    \<and> (\<forall>y. y \<in> set (rs_blocked ?s2) \<longleftrightarrow> (if y = ?i then into P ?i \<noteq> [] \<and> \<not> list_all (passes ?outs) (into (C @ [e]) ?i)
         else y \<in> set (rs_blocked st)))
    \<and> rs_queue ?s2 = (if into P ?i = [] \<and> ?R then rs_queue st @ [?i] else rs_queue st)
    \<and> rs_records ?s2 = (rs_records st)(?i \<mapsto> \<lparr>nr_id = ?i,
         nr_state = (if into P ?i = [] \<and> \<not> ?R then Skipped else Pending), nr_attempts = []\<rparr>)
    \<and> (\<forall>y. rs_processed ?s2 y = Some True \<longrightarrow> rs_processed st y = Some True)"
  proof -
    consider (more) "into P ?i \<noteq> []"
      | (blocked) "into P ?i = []" "\<not> list_all (passes ?outs) (into (C @ [e]) ?i)"
      | (run) "into P ?i = []" "list_all (passes ?outs) (into (C @ [e]) ?i)"
          "list_ex (delivers ?outs) (into (C @ [e]) ?i)" ?R
      | (starved) "into P ?i = []" "list_all (passes ?outs) (into (C @ [e]) ?i)"
          "\<not> list_ex (delivers ?outs) (into (C @ [e]) ?i)" "\<not> ?R"
      using rdy by blast
    then show ?thesis
    proof cases
      case more
      have "rs_records st = (rs_records st)(?i \<mapsto> fresh_record ?i)" using ri by (metis fun_upd_triv)
      with more del bl' show ?thesis by (simp add: s1_def fresh_record_def)
    next
      case blocked
      have nr: "\<not> ?R" using blocked(2) by (rule ready_snoc_blocked)
      have "?i \<in> set blk'" using bl' [of ?i] blocked(2) by simp
      then have "?s2 = (skip_node ?i s1)\<lparr>rs_blocked := removeAll ?i blk'\<rparr>"
        using del blocked(1) by (simp add: release_def s1_def)
      then show ?thesis using ri bl' blocked nr
        by (simp add: s1_def skip_node_def fresh_record_def del: into_simps)
    next
      case run
      have "?i \<notin> set blk'" using bl' [of ?i] run(2) by simp
      moreover have bs: "case b of Some ps \<Rightarrow> ps \<noteq> [] | None \<Rightarrow> False" using run(3) bne by blast
      ultimately have s2: "?s2 = s1\<lparr>rs_queue := rs_queue st @ [?i]\<rparr>"
        using del run(1) by (simp add: release_def s1_def)
      have "rs_records st = (rs_records st)(?i \<mapsto> fresh_record ?i)" using ri by (metis fun_upd_triv)
      then show ?thesis using s2 bl' run
        by (simp add: s1_def fresh_record_def del: into_simps)
    next
      case starved
      have "?i \<notin> set blk'" using bl' [of ?i] starved(2) by simp
      moreover have bs: "\<not> (case b of Some ps \<Rightarrow> ps \<noteq> [] | None \<Rightarrow> False)" using starved(3) bne by blast
      ultimately have "?s2 = skip_node ?i s1"
        using del starved(1) hi ri by (simp add: release_def s1_def)
      then show ?thesis using ri bl' starved
        by (simp add: s1_def skip_node_def fresh_record_def del: into_simps)
    qed
  qed
  have other: "into (e # P) y = into P y" "into (C @ [e]) y = into C y" if "y \<noteq> ?i" for y
    using that by auto
  have c1: "rs_remaining ?s2 y = (if y \<in> node_ids oi then Some (length (into P y)) else None)" for y
    using step rem [of y] d other(1) [of y] by (cases "y = ?i") simp_all
  have c2: "y \<in> set (rs_blocked ?s2) \<longleftrightarrow> into P y \<noteq> [] \<and> \<not> list_all (passes ?outs) (into (C @ [e]) y)" for y
    using step blk [of y] other [of y] by (cases "y = ?i") simp_all
  have c3: "rs_buffers ?s2 y = buffer_of oi ?outs (C @ [e]) y" if "y \<in> node_ids oi - X" for y
    using step buf [OF that] bi same [of y] by (cases "y = ?i") simp_all
  have c4: "distinct (rs_queue ?s2)" using step que(1) qi by (simp split: if_splits)
  have c5: "y \<in> set (rs_queue ?s2) \<longleftrightarrow> y \<in> node_ids oi - X \<and> into P y = [] \<and> ready ?outs (into (C @ [e]) y)" for y
    using step que(2) other [of y] d iX qi by (cases "y = ?i") simp_all
  have c6: "rs_records ?s2 y = Some \<lparr>nr_id = y,
      nr_state = (if into P y = [] \<and> \<not> ready ?outs (into (C @ [e]) y) then Skipped else Pending), nr_attempts = []\<rparr>"
    if "y \<in> node_ids oi - X" for y
    using step rec [OF that] other [of y] by (cases "y = ?i") simp_all
  have c7: "into P y = []" if "y \<in> X" for y
    using X [OF that] other(1) [of y] iX that by (cases "y = ?i") simp_all
  show ?thesis unfolding feed_inv_def Let_def deliver_edge_other
    using c1 c2 c3 c4 c5 c6 c7 step pr nf by blast
qed

lemma feed_inv_cong:
  assumes "\<And>y. length (into P y) = length (into P' y)" and "feed_inv oi X C P st"
  shows "feed_inv oi X C P' st"
proof -
  have "\<And>y. into P y = [] \<longleftrightarrow> into P' y = []" using assms(1) by (metis length_0_conv)
  then show ?thesis using assms(2) by (simp add: feed_inv_def Let_def assms(1))
qed

lemma deliver_edges_inv:
  assumes "feed_inv oi X C (es @ P) st"
    and "\<And>e. e \<in> set es \<Longrightarrow> rs_outputs st (src e) = Some o' \<and> dst e \<in> node_ids oi \<and> e \<in> set (op_edges oi)"
  shows "feed_inv oi X (C @ es) P (foldl (deliver_edge oi o') st es)
    \<and> rs_outputs (foldl (deliver_edge oi o') st es) = rs_outputs st
    \<and> (\<forall>y \<in> X. rs_records (foldl (deliver_edge oi o') st es) y = rs_records st y)"
  using assms
proof (induction es arbitrary: C st)
  case (Cons e es)
  let ?s = "deliver_edge oi o' st e"
  have i: "feed_inv oi X (C @ [e]) (es @ P) ?s"
    using deliver_edge_inv [of oi X C e "es @ P" st o'] Cons.prems by simp
  have "into (e # es @ P) y = []" if "y \<in> X" for y
    using Cons.prems(1) that by (simp add: feed_inv_def Let_def del: into_simps)
  then have "dst e \<notin> X" by (metis into_simps(2) list.distinct(1))
  then have "\<forall>y \<in> X. rs_records ?s y = rs_records st y"
    by (intro ballI deliver_edge_other(2)) auto
  moreover have "feed_inv oi X ((C @ [e]) @ es) P (foldl (deliver_edge oi o') ?s es)
    \<and> rs_outputs (foldl (deliver_edge oi o') ?s es) = rs_outputs ?s
    \<and> (\<forall>y \<in> X. rs_records (foldl (deliver_edge oi o') ?s es) y = rs_records ?s y)"
    by (rule Cons.IH [OF i]) (use Cons.prems(2) deliver_edge_other(1) in \<open>metis list.set_intros(2)\<close>)
  ultimately show ?case unfolding foldl_Cons append.assoc append_Cons append_Nil deliver_edge_other(1)
    by metis
qed simp

lemma feed_inv_processed:
  "feed_inv oi X C P st \<Longrightarrow> x \<in> X \<Longrightarrow> feed_inv oi X C P (st\<lparr>rs_processed := (rs_processed st)(x \<mapsto> True)\<rparr>)"
  by (simp add: feed_inv_def Let_def del: into_simps)

section \<open>The invariant of the loop\<close>

definition consumed :: "opening_ir \<Rightarrow> string list \<Rightarrow> edge list" where
  "consumed oi ord = concat (map (outgoing oi) ord)"

definition unconsumed :: "opening_ir \<Rightarrow> string list \<Rightarrow> edge list" where
  "unconsumed oi ord = filter (\<lambda>e. src e \<notin> set ord) (op_edges oi)"

lemma set_consumed: "set (consumed oi ord) = {e \<in> set (op_edges oi). src e \<in> set ord}"
  by (auto simp: consumed_def outgoing_def)

lemma set_outgoing: "set (outgoing oi x) = {e \<in> set (op_edges oi). src e = x}"
  by (auto simp: outgoing_def)

lemma unconsumed_split:
  "x \<notin> set ord \<Longrightarrow>
     length (into (unconsumed oi ord) y) = length (into (outgoing oi x @ unconsumed oi (ord @ [x])) y)"
proof -
  assume x: "x \<notin> set ord"
  have "length (into (filter (\<lambda>e. src e \<notin> set ord) es) y) =
      length (into (filter (\<lambda>e. src e = x) es) y)
      + length (into (filter (\<lambda>e. src e \<notin> set ord \<and> src e \<noteq> x) es) y)" for es
    using x by (induction es) auto
  then show ?thesis by (simp add: unconsumed_def outgoing_def conj_commute)
qed

text \<open>The inputs the node was given, off the outputs of the nodes before it.\<close>

definition inputs_of :: "opening_ir \<Rightarrow> (string \<Rightarrow> ports option) \<Rightarrow> string list \<Rightarrow> string \<Rightarrow> ports" where
  "inputs_of oi outs ord y = (case buffer_of oi outs (consumed oi ord) y of Some ps \<Rightarrow> ps | None \<Rightarrow> [])"

definition executed_ok :: "opening_ir \<Rightarrow> executor \<Rightarrow> string list \<Rightarrow> run_state \<Rightarrow> string \<Rightarrow> bool" where
  "executed_ok oi exec ord st y =
    (\<exists>n atts evs o'. find (\<lambda>n. nd_id n = y) (op_nodes oi) = Some n
       \<and> attempt_loop exec n (effective_timeout oi n) (inputs_of oi (rs_outputs st) ord y) 0 = (atts, evs, Done o')
       \<and> rs_outputs st y = Some o'
       \<and> rs_records st y = Some \<lparr>nr_id = y, nr_state = Succeeded, nr_attempts = atts\<rparr>
       \<and> ready (rs_outputs st) (into (consumed oi ord) y))"

definition sources_first :: "opening_ir \<Rightarrow> string list \<Rightarrow> bool" where
  "sources_first oi ord =
    (\<forall>k < length ord. \<forall>e \<in> set (op_edges oi). dst e = ord ! k \<longrightarrow> src e \<in> set (take k ord))"

definition loop_inv :: "opening_ir \<Rightarrow> executor \<Rightarrow> string list \<Rightarrow> run_state \<Rightarrow> bool" where
  "loop_inv oi exec ord st =
    (feed_inv oi (set ord) (consumed oi ord) (unconsumed oi ord) st
     \<and> distinct ord \<and> set ord \<subseteq> node_ids oi \<and> dom (rs_outputs st) = set ord
     \<and> (\<forall>y \<in> set ord. executed_ok oi exec ord st y) \<and> sources_first oi ord)"

lemma loop_inv_initial:
  assumes "distinct (map nd_id (op_nodes oi))"
  shows "loop_inv oi exec [] (initial_state oi)"
proof -
  have [simp]: "consumed oi [] = []" "unconsumed oi [] = op_edges oi"
    by (simp_all add: consumed_def unconsumed_def)
  have "distinct (roots oi)" using assms by (simp add: roots_def)
  then have "feed_inv oi {} [] (op_edges oi) (initial_state oi)"
    unfolding feed_inv_def Let_def initial_state_def
    by (simp add: inbound_total_eq set_roots fresh_records empty_buffers buffer_of_def feed_all_def
        ready_def node_ids_def [symmetric]) (auto simp: fresh_record_def)
  then show ?thesis by (simp add: loop_inv_def sources_first_def initial_state_def)
qed

lemma consumed_snoc: "consumed oi (ord @ [x]) = consumed oi ord @ outgoing oi x"
  by (simp add: consumed_def)

text \<open>Facts about a node the closed forms depend on do not change once it may run.\<close>

lemma settled_into:
  assumes "into (unconsumed oi ord) y = []" "x \<notin> set ord"
  shows "into (consumed oi (ord @ [x])) y = into (consumed oi ord) y"
proof -
  have "into (outgoing oi x) y = []"
  proof (rule ccontr)
    assume "into (outgoing oi x) y \<noteq> []"
    then have "0 < length (into (unconsumed oi ord) y)"
      using unconsumed_split [OF assms(2), of oi y] by simp
    with assms(1) show False by simp
  qed
  then show ?thesis by (simp add: consumed_snoc)
qed

lemma outputs_cong:
  assumes "x \<notin> set ord"
  shows "feed_all (outs(x \<mapsto> o')) b (into (consumed oi ord) y) = feed_all outs b (into (consumed oi ord) y)"
    and "ready (outs(x \<mapsto> o')) (into (consumed oi ord) y) = ready outs (into (consumed oi ord) y)"
    and "list_all (passes (outs(x \<mapsto> o'))) (into (consumed oi ord) y) = list_all (passes outs) (into (consumed oi ord) y)"
proof -
  have e: "(outs(x \<mapsto> o')) (src e) = outs (src e)" if "e \<in> set (into (consumed oi ord) y)" for e
    using that assms by (auto simp: set_consumed)
  show "feed_all (outs(x \<mapsto> o')) b (into (consumed oi ord) y) = feed_all outs b (into (consumed oi ord) y)"
    "ready (outs(x \<mapsto> o')) (into (consumed oi ord) y) = ready outs (into (consumed oi ord) y)"
    using src_outputs_cong [of "into (consumed oi ord) y" "outs(x \<mapsto> o')" outs b] e by auto
  show "list_all (passes (outs(x \<mapsto> o'))) (into (consumed oi ord) y) = list_all (passes outs) (into (consumed oi ord) y)"
    using e by (auto simp: list_all_iff passes_def src_outputs_def)
qed

lemma executed_ok_mono:
  assumes "executed_ok oi exec ord st y" "into (unconsumed oi ord) y = []" "x \<notin> set ord" "x \<noteq> y"
    and "rs_outputs st' = (rs_outputs st)(x \<mapsto> o')" "rs_records st' y = rs_records st y"
  shows "executed_ok oi exec (ord @ [x]) st' y"
  using assms(1,4,5,6) settled_into [OF assms(2,3)] outputs_cong [OF assms(3)]
  by (simp add: executed_ok_def inputs_of_def buffer_of_def)

lemma find_node: "i \<in> node_ids oi \<Longrightarrow> \<exists>n. find (\<lambda>n. nd_id n = i) (op_nodes oi) = Some n \<and> nd_id n = i"
proof -
  assume "i \<in> node_ids oi"
  then have "find (\<lambda>n. nd_id n = i) (op_nodes oi) \<noteq> None" by (auto simp: node_ids_def find_None_iff)
  then obtain n where "find (\<lambda>n. nd_id n = i) (op_nodes oi) = Some n" by auto
  then show ?thesis by (auto simp: find_Some_iff)
qed

lemma run_node_inv:
  assumes inv: "loop_inv oi exec ord st" and q: "rs_queue st = x # q"
    and ends: "known_ends (op_nodes oi) (op_edges oi)"
    and n: "find (\<lambda>n. nd_id n = x) (op_nodes oi) = Some n" and nx: "nd_id n = x"
    and att: "attempt_loop exec n (effective_timeout oi n) (inputs_of oi (rs_outputs st) ord x) 0 = (atts, evs, Done o')"
  shows "loop_inv oi exec (ord @ [x]) (run_node oi exec n (st\<lparr>rs_queue := q\<rparr>))"
proof -
  let ?C = "consumed oi ord" and ?P = "unconsumed oi ord" and ?X = "set ord" and ?outs = "rs_outputs st"
  have fi: "feed_inv oi ?X ?C ?P st" and dist: "distinct ord" and sub: "?X \<subseteq> node_ids oi"
    and dm: "dom ?outs = ?X" and ok: "\<And>y. y \<in> ?X \<Longrightarrow> executed_ok oi exec ord st y" and topo: "sources_first oi ord"
    using inv by (auto simp: loop_inv_def)
  have x: "x \<in> node_ids oi" "x \<notin> ?X" "into ?P x = []" "ready ?outs (into ?C x)" "x \<notin> set q" "distinct q"
    and bx: "rs_buffers st x = buffer_of oi ?outs ?C x"
    using fi q unfolding feed_inv_def Let_def by (auto simp del: into_simps)
  have rx: "rs_records st x = Some \<lparr>nr_id = x, nr_state = Pending, nr_attempts = []\<rparr>"
    using fi x(1,2,4) unfolding feed_inv_def Let_def by (simp del: into_simps)
  define s1 where "s1 = (set_record x Succeeded atts (st\<lparr>rs_queue := q, rs_buffers := (rs_buffers st)(x := None)\<rparr>))
      \<lparr>rs_outputs := ?outs(x \<mapsto> o'), rs_events := rs_events st @ evs\<rparr>"
  have r1: "rs_records s1 = (rs_records st)(x \<mapsto> \<lparr>nr_id = x, nr_state = Succeeded, nr_attempts = atts\<rparr>)"
    by (simp add: s1_def set_record_def rx)
  have o1: "rs_outputs s1 = ?outs(x \<mapsto> o')" by (simp add: s1_def)
  have X1: "\<forall>y \<in> insert x ?X. into ?P y = []"
    using fi x(3) unfolding feed_inv_def Let_def by (simp del: into_simps)
  have "feed_inv oi (insert x ?X) ?C ?P s1"
    using fi x q X1 unfolding feed_inv_def Let_def o1 r1
    by (simp add: s1_def set_record_def outputs_cong [OF x(2)] buffer_of_def del: into_simps) auto
  then have "feed_inv oi (insert x ?X) ?C (outgoing oi x @ unconsumed oi (ord @ [x])) s1"
    using feed_inv_cong unconsumed_split [OF x(2)] by blast
  moreover have "rs_outputs s1 (src e) = Some o' \<and> dst e \<in> node_ids oi \<and> e \<in> set (op_edges oi)"
    if "e \<in> set (outgoing oi x)" for e
    using that ends by (auto simp: set_outgoing o1 known_ends_def node_ids_def)
  ultimately have f: "feed_inv oi (insert x ?X) (?C @ outgoing oi x) (unconsumed oi (ord @ [x]))
        (foldl (deliver_edge oi o') s1 (outgoing oi x))
      \<and> rs_outputs (foldl (deliver_edge oi o') s1 (outgoing oi x)) = rs_outputs s1
      \<and> (\<forall>y \<in> insert x ?X. rs_records (foldl (deliver_edge oi o') s1 (outgoing oi x)) y = rs_records s1 y)"
    by (rule deliver_edges_inv)
  define s2 where "s2 = run_node oi exec n (st\<lparr>rs_queue := q\<rparr>)"
  have inp: "(case rs_buffers st x of Some ps \<Rightarrow> ps | None \<Rightarrow> []) = inputs_of oi ?outs ord x"
    by (simp add: bx inputs_of_def)
  have s2: "s2 = (foldl (deliver_edge oi o') s1 (outgoing oi x))\<lparr>rs_processed :=
      (rs_processed (foldl (deliver_edge oi o') s1 (outgoing oi x)))(x \<mapsto> True)\<rparr>"
    using att by (simp add: s2_def run_node_def Let_def nx inp s1_def)
  have o2: "rs_outputs s2 = ?outs(x \<mapsto> o')" using f o1 by (simp add: s2)
  have r2: "rs_records s2 y = rs_records s1 y" if "y \<in> insert x ?X" for y
    using bspec [OF conjunct2 [OF conjunct2 [OF f]] that] by (simp add: s2)
  have fi2: "feed_inv oi (set (ord @ [x])) (consumed oi (ord @ [x])) (unconsumed oi (ord @ [x])) s2"
    unfolding consumed_snoc s2 by (rule feed_inv_processed) (use f in simp_all)
  have "executed_ok oi exec (ord @ [x]) s2 x"
    unfolding executed_ok_def inputs_of_def buffer_of_def settled_into [OF x(3,2)] o2 outputs_cong [OF x(2)]
    using n att r2 [of x] r1 x(4) by (simp add: inputs_of_def buffer_of_def)
  moreover have "executed_ok oi exec (ord @ [x]) s2 y" if "y \<in> ?X" for y
    by (rule executed_ok_mono [OF ok [OF that] _ x(2) _ o2]) (use that X1 x(2) r1 r2 [of y] in auto)
  moreover have "sources_first oi (ord @ [x])"
  proof -
    have "src e \<in> ?X" if "e \<in> set (op_edges oi)" "dst e = x" for e
    proof (rule ccontr)
      assume "src e \<notin> ?X"
      with that have "e \<in> set (into ?P x)" by (simp add: unconsumed_def)
      with x(3) show False by simp
    qed
    then show ?thesis using topo by (auto simp: sources_first_def nth_append less_Suc_eq)
  qed
  moreover have "dom (rs_outputs s2) = set (ord @ [x])" using dm o2 by auto
  ultimately show ?thesis
    unfolding loop_inv_def s2_def [symmetric] using fi2 dist sub x(1,2) by auto
qed

section \<open>The inputs of a node, port by port\<close>

definition values_at :: "ports \<Rightarrow> string \<Rightarrow> json list" where
  "values_at ps p = (case map_of ps p of Some vs \<Rightarrow> vs | None \<Rightarrow> [])"

definition proper_ports :: "ports \<Rightarrow> bool" where
  "proper_ports ps = (distinct (map fst ps) \<and> (\<forall>p. map_of ps p \<noteq> Some []))"

lemma proper_map_of: "proper_ports ps \<Longrightarrow> map_of ps p = (if values_at ps p = [] then None else Some (values_at ps p))"
  by (auto simp: proper_ports_def values_at_def split: option.split)

lemma proper_empty [simp]: "proper_ports []" "values_at [] p = []"
  by (simp_all add: proper_ports_def values_at_def)

lemma push_all_values:
  "values_at (foldl (\<lambda>ps v. push_port q v ps) ps vs) p = values_at ps p @ (if p = q then vs else [])"
proof (induction vs arbitrary: ps)
  case (Cons v vs)
  have "values_at (push_port q v ps) p = values_at ps p @ (if p = q then [v] else [])"
    by (simp add: values_at_def map_of_push_port split: option.split)
  then show ?case by (simp add: Cons.IH)
qed simp

lemma push_all_proper: "proper_ports ps \<Longrightarrow> proper_ports (foldl (\<lambda>ps v. push_port q v ps) ps vs)"
proof (induction vs arbitrary: ps)
  case (Cons v vs)
  have "proper_ports (push_port q v ps)"
    using Cons.prems by (auto simp: proper_ports_def map_of_push_port) (simp add: push_port_def distinct_update)
  then show ?case by (simp add: Cons.IH)
qed simp

definition buffered :: "ports option \<Rightarrow> ports" where
  "buffered b = (case b of Some ps \<Rightarrow> ps | None \<Rightarrow> [])"

lemma feed_all_ports:
  assumes "list_all (passes outs) es" "proper_ports (buffered b)"
  shows "proper_ports (buffered (feed_all outs b es)) \<and>
    values_at (buffered (feed_all outs b es)) p = values_at (buffered b) p @
      concat (map (\<lambda>e. values_at (src_outputs outs e) (pr_port (ed_from e))) (filter (\<lambda>e. pr_port (ed_to e) = p) es))"
  using assms
proof (induction es arbitrary: b)
  case (Cons e es)
  let ?b = "feed e (src_outputs outs e) b"
  have f: "buffered ?b = foldl (\<lambda>ps v. push_port (pr_port (ed_to e)) v ps) (buffered b) (values_at (src_outputs outs e) (pr_port (ed_from e)))"
    using Cons.prems(1) by (auto simp: feed_def passes_def edge_values_def values_at_def buffered_def)
  have "proper_ports (buffered ?b)" using Cons.prems(2) by (simp add: f push_all_proper)
  from Cons.IH [OF _ this] show ?case using Cons.prems(1) by (simp add: feed_all_def f push_all_values)
qed (simp add: feed_all_def)

text \<open>The values that the edges into a port bring, by the order \<open>ord\<close> of the sources and then of the edges.\<close>

definition arriving :: "opening_ir \<Rightarrow> (string \<Rightarrow> ports option) \<Rightarrow> string list \<Rightarrow> string \<Rightarrow> string \<Rightarrow> json list" where
  "arriving oi outs ord y p =
    concat (map (\<lambda>x. concat (map (\<lambda>e. values_at (case outs x of Some o' \<Rightarrow> o' | None \<Rightarrow> []) (pr_port (ed_from e)))
      (filter (\<lambda>e. src e = x \<and> dst e = y \<and> pr_port (ed_to e) = p) (op_edges oi)))) ord)"

lemma arriving_consumed:
  "arriving oi outs ord y p = concat (map (\<lambda>e. values_at (src_outputs outs e) (pr_port (ed_from e)))
     (filter (\<lambda>e. pr_port (ed_to e) = p) (into (consumed oi ord) y)))"
proof -
  have "concat (map (\<lambda>e. values_at (case outs x of Some o' \<Rightarrow> o' | None \<Rightarrow> []) (pr_port (ed_from e)))
      (filter (\<lambda>e. src e = x \<and> dst e = y \<and> pr_port (ed_to e) = p) es)) =
    concat (map (\<lambda>e. values_at (src_outputs outs e) (pr_port (ed_from e)))
      (filter (\<lambda>e. pr_port (ed_to e) = p) (into (filter (\<lambda>e. src e = x) es) y)))" for x es
    by (induction es) (simp_all add: src_outputs_def)
  then show ?thesis unfolding arriving_def consumed_def
    by (induction ord) (simp_all add: outgoing_def)
qed

lemma inputs_of_ports:
  assumes "ready outs (into (consumed oi ord) y)"
  shows "distinct (map fst (inputs_of oi outs ord y)) \<and>
    map_of (inputs_of oi outs ord y) p = (if arriving oi outs ord y p = [] then None else Some (arriving oi outs ord y p))"
proof -
  define b where "b = (if into (op_edges oi) y = [] then Some [] else None :: ports option)"
  have b: "buffered b = []" by (simp add: b_def buffered_def)
  have i: "inputs_of oi outs ord y = buffered (feed_all outs b (into (consumed oi ord) y))"
    by (simp add: inputs_of_def buffer_of_def b_def buffered_def del: into_simps)
  have "list_all (passes outs) (into (consumed oi ord) y)" using assms by (simp add: ready_def)
  note f = feed_all_ports [OF this, of b p, unfolded b, OF proper_empty(1), folded i]
  then have "values_at (inputs_of oi outs ord y) p = arriving oi outs ord y p" by (simp add: arriving_consumed)
  then show ?thesis using f proper_map_of [of "inputs_of oi outs ord y" p] by (simp add: proper_ports_def)
qed

section \<open>Attempts\<close>

lemma attempt_loop_completed:
  "exec n inputs (Suc used) timeout = ExecCompleted o' \<Longrightarrow>
     attempt_loop exec n timeout inputs used =
       ([\<lparr>at_attempt = Suc used, at_inputs = inputs, at_output = Some o', at_error = None\<rparr>],
        start_events n (Suc used) @ success_events n (Suc used) o', Done o')"
  by (simp add: attempt_loop.simps)

lemma attempt_loop_failing:
  assumes "\<nexists>o'. exec n inputs (Suc used) timeout = ExecCompleted o'"
    and "attempt_failure n timeout (Suc used) (exec n inputs (Suc used) timeout) = (err, ev, retryable)"
  shows "attempt_loop exec n timeout inputs used =
    (if retryable \<and> Suc used < max_attempts n
     then (case attempt_loop exec n timeout inputs (Suc used) of
         (atts, evs, r) \<Rightarrow> (failed_attempt (Suc used) inputs err # atts, start_events n (Suc used) @ ev # evs, r))
     else ([failed_attempt (Suc used) inputs err],
           start_events n (Suc used) @ [ev, EvNodeState (nd_id n) (Failed err) (Suc used)], Broken err))"
  using assms by (subst attempt_loop.simps) (auto split: exec_outcome.split prod.splits)

text \<open>One round of the loop: it ends, or it fails and another round follows.\<close>

lemma attempt_loop_rounds [consumes 1, case_names completed gave_up again]:
  assumes "attempt_loop exec n timeout inputs used = (atts, evs, r)"
  obtains o' where "exec n inputs (Suc used) timeout = ExecCompleted o'" "r = Done o'"
      "atts = [\<lparr>at_attempt = Suc used, at_inputs = inputs, at_output = Some o', at_error = None\<rparr>]"
  | err ev retryable where "attempt_failure n timeout (Suc used) (exec n inputs (Suc used) timeout) = (err, ev, retryable)"
      "\<nexists>o'. exec n inputs (Suc used) timeout = ExecCompleted o'"
      "\<not> (retryable \<and> Suc used < max_attempts n)" "r = Broken err" "atts = [failed_attempt (Suc used) inputs err]"
  | err ev atts' evs' where "attempt_failure n timeout (Suc used) (exec n inputs (Suc used) timeout) = (err, ev, True)"
      "Suc used < max_attempts n" "\<nexists>o'. exec n inputs (Suc used) timeout = ExecCompleted o'"
      "attempt_loop exec n timeout inputs (Suc used) = (atts', evs', r)"
      "atts = failed_attempt (Suc used) inputs err # atts'"
proof (cases "\<exists>o'. exec n inputs (Suc used) timeout = ExecCompleted o'")
  case True
  then obtain o' where o': "exec n inputs (Suc used) timeout = ExecCompleted o'" by blast
  from attempt_loop_completed [of exec n inputs used timeout, OF o'] assms have "r = Done o'"
    "atts = [\<lparr>at_attempt = Suc used, at_inputs = inputs, at_output = Some o', at_error = None\<rparr>]" by auto
  with o' show thesis by (rule that(1))
next
  case False
  obtain err ev retryable where af: "attempt_failure n timeout (Suc used) (exec n inputs (Suc used) timeout)
      = (err, ev, retryable)" by (metis prod_cases3)
  note eq = attempt_loop_failing [of exec n inputs used timeout, OF False af]
  obtain atts' evs' r' where at': "attempt_loop exec n timeout inputs (Suc used) = (atts', evs', r')"
    by (metis prod_cases3)
  show thesis
  proof (cases "retryable \<and> Suc used < max_attempts n")
    case True
    then have "r' = r" "atts = failed_attempt (Suc used) inputs err # atts'"
      using assms eq at' by auto
    with True af False at' show thesis by (intro that(3)) auto
  next
    case stop: False
    then have "r = Broken err" "atts = [failed_attempt (Suc used) inputs err]" using assms eq by auto
    with stop af False show thesis by (intro that(2)) auto
  qed
qed

lemma attempt_loop_attempts:
  "attempt_loop exec n timeout inputs used = (atts, evs, r) \<Longrightarrow>
     atts \<noteq> [] \<and> map at_attempt atts = [Suc used ..< Suc (used + length atts)]
     \<and> used + length atts \<le> max (Suc used) (max_attempts n)
     \<and> (\<forall>a \<in> set atts. at_inputs a = inputs)"
proof (induction "max_attempts n - used" arbitrary: used atts evs r rule: less_induct)
  case less
  from less.prems show ?case
  proof (cases rule: attempt_loop_rounds)
    case (again err ev atts' evs')
    have "atts' \<noteq> [] \<and> map at_attempt atts' = [Suc (Suc used) ..< Suc (Suc used + length atts')]
         \<and> Suc used + length atts' \<le> max (Suc (Suc used)) (max_attempts n)
         \<and> (\<forall>a \<in> set atts'. at_inputs a = inputs)"
      by (rule less.hyps [OF _ again(4)]) (use again(2) in simp)
    then show ?thesis using again(2)
      by (auto simp: again(5) failed_attempt_def upt_conv_Cons simp del: upt_Suc)
  qed (auto simp: failed_attempt_def)
qed

lemma attempt_loop_number:
  assumes "attempt_loop exec n timeout inputs 0 = (atts, evs, r)"
  shows "at_attempt (last atts) = length atts"
proof -
  have "map at_attempt atts = [1 ..< Suc (length atts)]" "atts \<noteq> []"
    using attempt_loop_attempts [OF assms] by (simp_all del: upt_Suc)
  then show ?thesis using arg_cong [of "map at_attempt atts" _ last] by (cases atts rule: rev_cases) simp_all
qed

text \<open>What the attempts say: only the last one of a completed node has an output.\<close>

lemma attempt_loop_last:
  "attempt_loop exec n timeout inputs used = (atts, evs, r) \<Longrightarrow>
     (case r of
        Done o' \<Rightarrow> exec n inputs (at_attempt (last atts)) timeout = ExecCompleted o'
          \<and> at_output (last atts) = Some o' \<and> at_error (last atts) = None
      | Broken err \<Rightarrow> at_output (last atts) = None \<and> at_error (last atts) = Some err
          \<and> (\<nexists>o'. exec n inputs (at_attempt (last atts)) timeout = ExecCompleted o'))
     \<and> (\<forall>a \<in> set (butlast atts). at_output a = None \<and> at_error a \<noteq> None)"
proof (induction "max_attempts n - used" arbitrary: used atts evs r rule: less_induct)
  case less
  from less.prems show ?case
  proof (cases rule: attempt_loop_rounds)
    case (again err ev atts' evs')
    have ne: "atts' \<noteq> []" using attempt_loop_attempts [OF again(4)] by simp
    have "(case r of
        Done o' \<Rightarrow> exec n inputs (at_attempt (last atts')) timeout = ExecCompleted o'
          \<and> at_output (last atts') = Some o' \<and> at_error (last atts') = None
      | Broken err \<Rightarrow> at_output (last atts') = None \<and> at_error (last atts') = Some err
          \<and> (\<nexists>o'. exec n inputs (at_attempt (last atts')) timeout = ExecCompleted o'))
     \<and> (\<forall>a \<in> set (butlast atts'). at_output a = None \<and> at_error a \<noteq> None)"
      by (rule less.hyps [OF _ again(4)]) (use again(2) in simp)
    then show ?thesis using ne by (auto simp: again(5) failed_attempt_def split: node_outcome.splits)
  qed (auto simp: failed_attempt_def)
qed

text \<open>Every attempt but the last failed in a way that may be retried.\<close>

lemma attempt_loop_retried:
  "attempt_loop exec n timeout inputs used = (atts, evs, r) \<Longrightarrow> a \<in> set (butlast atts) \<Longrightarrow>
     exec n inputs (at_attempt a) timeout = ExecTimeout \<or> (\<exists>why. exec n inputs (at_attempt a) timeout = ExecFailed True why)"
proof (induction "max_attempts n - used" arbitrary: used atts evs r rule: less_induct)
  case less
  from less.prems(1) show ?case
  proof (cases rule: attempt_loop_rounds)
    case (again err ev atts' evs')
    have ne: "atts' \<noteq> []" using attempt_loop_attempts [OF again(4)] by simp
    show ?thesis
    proof (cases "a = failed_attempt (Suc used) inputs err")
      case True
      then show ?thesis using again(1,3)
        by (cases "exec n inputs (Suc used) timeout") (auto simp: attempt_failure_def failed_attempt_def)
    next
      case False
      then have "a \<in> set (butlast atts')" using less.prems(2) ne by (simp add: again(5))
      then show ?thesis using again(2) by (intro less.hyps [OF _ again(4)]) simp
    qed
  qed (use less.prems(2) in simp_all)
qed

text \<open>Retries are used up: a node gives up on the last attempt or on an error that is final.\<close>

lemma attempt_loop_gave_up:
  "attempt_loop exec n timeout inputs used = (atts, evs, Broken err) \<Longrightarrow>
     max_attempts n \<le> at_attempt (last atts)
     \<or> exec n inputs (at_attempt (last atts)) timeout \<in> {ExecFailed False err, ExecError err}"
proof (induction "max_attempts n - used" arbitrary: used atts evs rule: less_induct)
  case less
  from less.prems show ?case
  proof (cases rule: attempt_loop_rounds)
    case (gave_up err' ev retryable)
    then show ?thesis
      by (cases "exec n inputs (Suc used) timeout") (auto simp: attempt_failure_def failed_attempt_def)
  next
    case (again err' ev atts' evs')
    have ne: "atts' \<noteq> []" using attempt_loop_attempts [OF again(4)] by simp
    have "max_attempts n \<le> at_attempt (last atts')
     \<or> exec n inputs (at_attempt (last atts')) timeout \<in> {ExecFailed False err, ExecError err}"
      by (rule less.hyps [OF _ again(4)]) (use again(2) in simp)
    then show ?thesis using ne by (simp add: again(5))
  qed auto
qed

section \<open>The result of a run\<close>

text \<open>The declarative description: a node may run when every inbound edge comes from a
  node with outputs and passes, and, if it has inbound edges, at least one brings a value.\<close>

definition runnable :: "opening_ir \<Rightarrow> (string \<Rightarrow> ports option) \<Rightarrow> string \<Rightarrow> bool" where
  "runnable oi outs y =
    (let es = into (op_edges oi) y in
     list_all (\<lambda>e. outs (src e) \<noteq> None \<and> passes outs e) es
     \<and> (es = [] \<or> list_ex (delivers outs) es))"

definition run_complete :: "opening_ir \<Rightarrow> executor \<Rightarrow> run_state \<Rightarrow> bool" where
  "run_complete oi exec st = (\<not> rs_failed st \<and> (\<exists>ord. loop_inv oi exec ord st \<and> rs_queue st = []))"

definition run_aborted :: "opening_ir \<Rightarrow> executor \<Rightarrow> run_state \<Rightarrow> bool" where
  "run_aborted oi exec st =
    (rs_failed st \<and> (\<exists>ord x q n atts evs reason st0. loop_inv oi exec ord st0 \<and> rs_queue st0 = x # q
       \<and> find (\<lambda>n. nd_id n = x) (op_nodes oi) = Some n
       \<and> attempt_loop exec n (effective_timeout oi n) (inputs_of oi (rs_outputs st0) ord x) 0 = (atts, evs, Broken reason)
       \<and> rs_outputs st = rs_outputs st0
       \<and> rs_records st = (rs_records st0)(x \<mapsto> \<lparr>nr_id = x, nr_state = Failed reason, nr_attempts = atts\<rparr>)))"

lemma run_node_broken:
  assumes inv: "loop_inv oi exec ord st" and q: "rs_queue st = x # q" and nx: "nd_id n = x"
    and att: "attempt_loop exec n (effective_timeout oi n) (inputs_of oi (rs_outputs st) ord x) 0 = (atts, evs, Broken reason)"
  defines "st' \<equiv> run_node oi exec n (st\<lparr>rs_queue := q\<rparr>)"
  shows "rs_failed st' \<and> rs_outputs st' = rs_outputs st
    \<and> rs_records st' = (rs_records st)(x \<mapsto> \<lparr>nr_id = x, nr_state = Failed reason, nr_attempts = atts\<rparr>)"
proof -
  have fi: "feed_inv oi (set ord) (consumed oi ord) (unconsumed oi ord) st"
    using inv by (simp add: loop_inv_def)
  then have x: "x \<in> node_ids oi" "x \<notin> set ord" "ready (rs_outputs st) (into (consumed oi ord) x)"
    using q unfolding feed_inv_def Let_def by (auto simp del: into_simps)
  have bx: "rs_buffers st x = buffer_of oi (rs_outputs st) (consumed oi ord) x"
    and rx: "rs_records st x = Some \<lparr>nr_id = x, nr_state = Pending, nr_attempts = []\<rparr>"
    using fi x unfolding feed_inv_def Let_def by (simp_all del: into_simps)
  have inp: "(case rs_buffers st x of Some ps \<Rightarrow> ps | None \<Rightarrow> []) = inputs_of oi (rs_outputs st) ord x"
    by (simp add: bx inputs_of_def)
  show ?thesis using att by (simp add: st'_def run_node_def Let_def nx inp set_record_def rx)
qed

lemma run_loop_result:
  assumes "known_ends (op_nodes oi) (op_edges oi)"
  shows "loop_inv oi exec ord st \<Longrightarrow>
    \<exists>st'. run_loop oi exec st = Some st' \<and> (run_complete oi exec st' \<or> run_aborted oi exec st')"
proof (induction "pending_work oi st" arbitrary: ord st rule: less_induct)
  case less
  have nf: "\<not> rs_failed st" using less.prems by (simp add: loop_inv_def feed_inv_def Let_def)
  show ?case
  proof (cases "rs_queue st")
    case Nil
    then have "run_loop oi exec st = Some st" by (simp add: run_loop.simps)
    then show ?thesis using less.prems Nil nf by (auto simp: run_complete_def)
  next
    case (Cons x q)
    have "x \<in> node_ids oi"
      using less.prems Cons unfolding loop_inv_def feed_inv_def Let_def by (auto simp del: into_simps)
    then obtain n where n: "find (\<lambda>n. nd_id n = x) (op_nodes oi) = Some n" and nx: "nd_id n = x"
      using find_node by blast
    define st' where "st' = run_node oi exec n (st\<lparr>rs_queue := q\<rparr>)"
    have eq: "run_loop oi exec st = run_loop oi exec st'"
      using Cons nf n by (subst run_loop.simps) (simp add: st'_def)
    have "pending_work oi (st\<lparr>rs_queue := q\<rparr>) < pending_work oi st"
      using Cons by (simp add: pending_work_def)
    then have w: "pending_work oi st' < pending_work oi st"
      unfolding st'_def using run_node_work [of oi exec n] by (rule le_less_trans [rotated])
    obtain atts evs r where att: "attempt_loop exec n (effective_timeout oi n)
        (inputs_of oi (rs_outputs st) ord x) 0 = (atts, evs, r)" by (metis prod_cases3)
    show ?thesis
    proof (cases r)
      case (Done o')
      have "loop_inv oi exec (ord @ [x]) st'"
        unfolding st'_def by (rule run_node_inv [OF less.prems Cons assms n nx att [unfolded Done]])
      from less.hyps [OF w this] show ?thesis unfolding eq .
    next
      case (Broken reason)
      note b = run_node_broken [OF less.prems Cons nx att [unfolded Broken], folded st'_def]
      have "run_loop oi exec st' = Some (if rs_queue st' = [] then st' else st'\<lparr>rs_queue := tl (rs_queue st')\<rparr>)"
        using b by (subst run_loop.simps) (simp split: list.splits)
      moreover have "run_aborted oi exec st'"
        unfolding run_aborted_def using b less.prems Cons n att Broken by blast
      then have "run_aborted oi exec (st'\<lparr>rs_queue := u\<rparr>)" for u
        by (simp add: run_aborted_def)
      ultimately show ?thesis unfolding eq using \<open>run_aborted oi exec st'\<close> by auto
    qed
  qed
qed

lemma run_state_result:
  assumes "distinct (map nd_id (op_nodes oi))" "known_ends (op_nodes oi) (op_edges oi)"
  shows "\<exists>st. run_state_of oi exec = Some st \<and> (run_complete oi exec st \<or> run_aborted oi exec st)"
  unfolding run_state_of_def by (rule run_loop_result [OF assms(2) loop_inv_initial [OF assms(1)]])

lemma run_state_cases:
  assumes "distinct (map nd_id (op_nodes oi))" "known_ends (op_nodes oi) (op_edges oi)"
    and "run_state_of oi exec = Some st"
  shows "run_complete oi exec st \<or> run_aborted oi exec st"
  using run_state_result [OF assms(1,2), of exec] assms(3) by auto

text \<open>In a complete run the executed nodes are exactly the runnable ones.\<close>

lemma into_partition:
  "list_all (\<lambda>e. src e \<in> set ord) (into (op_edges oi) y) \<longleftrightarrow> into (unconsumed oi ord) y = []"
  by (auto simp: list_all_iff into_def unconsumed_def filter_empty_conv)

lemma set_into_consumed:
  "into (unconsumed oi ord) y = [] \<Longrightarrow> set (into (consumed oi ord) y) = set (into (op_edges oi) y)"
  by (auto simp: set_consumed into_def unconsumed_def filter_empty_conv)

lemma ready_cong: "set es = set fs \<Longrightarrow> ready outs es = ready outs fs"
  by (metis list_all_iff list_ex_iff ready_def set_empty)

lemma runnable_iff:
  assumes "dom outs = set ord"
  shows "runnable oi outs y \<longleftrightarrow> into (unconsumed oi ord) y = [] \<and> ready outs (into (consumed oi ord) y)"
proof -
  have d: "outs (src e) \<noteq> None \<longleftrightarrow> src e \<in> set ord" for e using assms by (metis domIff)
  show ?thesis
  proof (cases "into (unconsumed oi ord) y = []")
    case True
    from ready_cong [OF set_into_consumed [OF True], of outs] show ?thesis
      using True into_partition [of ord oi y] unfolding runnable_def Let_def ready_def d list_all_iff by blast
  next
    case False
    then show ?thesis
      using into_partition [of ord oi y] unfolding runnable_def Let_def d list_all_iff by blast
  qed
qed

lemma loop_inv_runnable:
  assumes "loop_inv oi exec ord st" "y \<in> set ord"
  shows "runnable oi (rs_outputs st) y"
  using assms unfolding loop_inv_def executed_ok_def feed_inv_def Let_def
  by (auto simp: runnable_iff simp del: into_simps)

lemma complete_runnable:
  assumes "run_complete oi exec st" "y \<in> node_ids oi"
  shows "rs_outputs st y \<noteq> None \<longleftrightarrow> runnable oi (rs_outputs st) y"
proof -
  obtain ord where inv: "loop_inv oi exec ord st" and q: "rs_queue st = []"
    using assms(1) by (auto simp: run_complete_def)
  have "runnable oi (rs_outputs st) y \<Longrightarrow> y \<in> set ord"
    using inv q assms(2) unfolding loop_inv_def feed_inv_def Let_def
    by (auto simp: runnable_iff simp del: into_simps)
  moreover have "y \<in> set ord \<longleftrightarrow> rs_outputs st y \<noteq> None"
    using inv by (metis domIff loop_inv_def)
  ultimately show ?thesis using loop_inv_runnable [OF inv] by blast
qed

section \<open>The final records\<close>

lemma loop_inv_records:
  assumes "loop_inv oi exec ord st" "y \<in> node_ids oi"
  shows "\<exists>r. rs_records st y = Some r \<and> nr_id r = y
    \<and> (y \<in> set ord \<longrightarrow> nr_state r = Succeeded)
    \<and> (y \<notin> set ord \<longrightarrow> nr_state r \<in> {Pending, Skipped} \<and> nr_attempts r = [] \<and> rs_processed st y \<noteq> Some True)"
proof (cases "y \<in> set ord")
  case True
  then show ?thesis using assms by (auto simp: loop_inv_def executed_ok_def)
next
  case False
  then show ?thesis using assms unfolding loop_inv_def feed_inv_def Let_def by (auto simp del: into_simps)
qed

lemma finish_record:
  "rs_records st y = Some r \<Longrightarrow> rs_records (finish st) y = Some (r\<lparr>nr_state := final_state st r\<rparr>)"
  by (simp add: finish_def)

lemma finish_complete:
  assumes "run_complete oi exec st" "y \<in> node_ids oi"
  shows "\<exists>r. rs_records (finish st) y = Some r \<and> nr_id r = y
    \<and> nr_state r = (if rs_outputs st y \<noteq> None then Succeeded else Skipped)
    \<and> (rs_outputs st y = None \<longrightarrow> nr_attempts r = [])"
proof -
  obtain ord where inv: "loop_inv oi exec ord st" and nf: "\<not> rs_failed st"
    using assms(1) by (auto simp: run_complete_def)
  have d: "y \<in> set ord \<longleftrightarrow> rs_outputs st y \<noteq> None" using inv by (metis domIff loop_inv_def)
  obtain r where r: "rs_records st y = Some r" "nr_id r = y"
    "y \<in> set ord \<longrightarrow> nr_state r = Succeeded"
    "y \<notin> set ord \<longrightarrow> nr_state r \<in> {Pending, Skipped} \<and> nr_attempts r = [] \<and> rs_processed st y \<noteq> Some True"
    using loop_inv_records [OF inv assms(2)] by blast
  have "final_state st r = (if rs_outputs st y \<noteq> None then Succeeded else Skipped)"
    using r nf unfolding d by (auto simp: final_state_def settled_def)
  then show ?thesis using r unfolding d by (auto simp: finish_record [OF r(1)])
qed

lemma finish_aborted:
  assumes "run_aborted oi exec st"
  shows "\<exists>x \<in> node_ids oi. \<exists>reason. rs_outputs st x = None \<and>
    (\<forall>y \<in> node_ids oi. \<exists>r. rs_records (finish st) y = Some r \<and> nr_id r = y
      \<and> nr_state r = (if y = x then Failed reason else if rs_outputs st y \<noteq> None then Succeeded else Skipped)
      \<and> (y \<noteq> x \<and> rs_outputs st y = None \<longrightarrow> nr_attempts r = []))"
proof -
  obtain ord x q n atts evs reason st0 where f: "rs_failed st" and inv: "loop_inv oi exec ord st0"
    and q: "rs_queue st0 = x # q" and o': "rs_outputs st = rs_outputs st0"
    and rc: "rs_records st = (rs_records st0)(x \<mapsto> \<lparr>nr_id = x, nr_state = Failed reason, nr_attempts = atts\<rparr>)"
    using assms unfolding run_aborted_def by blast
  have x: "x \<in> node_ids oi" "x \<notin> set ord"
    using inv q unfolding loop_inv_def feed_inv_def Let_def by (auto simp del: into_simps)
  have d: "y \<in> set ord \<longleftrightarrow> rs_outputs st y \<noteq> None" for y using inv o' by (metis domIff loop_inv_def)
  have "\<exists>r. rs_records (finish st) y = Some r \<and> nr_id r = y
      \<and> nr_state r = (if y = x then Failed reason else if rs_outputs st y \<noteq> None then Succeeded else Skipped)
      \<and> (y \<noteq> x \<and> rs_outputs st y = None \<longrightarrow> nr_attempts r = [])" if y: "y \<in> node_ids oi" for y
  proof (cases "y = x")
    case True
    then have "rs_records st y = Some \<lparr>nr_id = x, nr_state = Failed reason, nr_attempts = atts\<rparr>" using rc by simp
    from finish_record [OF this] show ?thesis using True by (simp add: final_state_def settled_def)
  next
    case False
    obtain r where r: "rs_records st0 y = Some r" "nr_id r = y"
      "y \<in> set ord \<longrightarrow> nr_state r = Succeeded"
      "y \<notin> set ord \<longrightarrow> nr_state r \<in> {Pending, Skipped} \<and> nr_attempts r = []"
      using loop_inv_records [OF inv y] by blast
    have "rs_records st y = Some r" using r(1) rc False by simp
    from finish_record [OF this] show ?thesis
      using r(2-4) f False unfolding d by (auto simp: final_state_def settled_def)
  qed
  moreover have "rs_outputs st x = None" using x(2) unfolding d by simp
  ultimately show ?thesis using x(1) by blast
qed

text \<open>What both endings share: a record with attempts was given the inputs its sources made,
  it was runnable, and its attempts are those of the attempt loop.\<close>

lemma executed_record:
  assumes "run_complete oi exec st \<or> run_aborted oi exec st"
    and "rs_records (finish st) y = Some r" "nr_attempts r \<noteq> []" "y \<in> node_ids oi"
  shows "\<exists>n evs res inputs. find (\<lambda>n. nd_id n = y) (op_nodes oi) = Some n
    \<and> attempt_loop exec n (effective_timeout oi n) inputs 0 = (nr_attempts r, evs, res)
    \<and> runnable oi (rs_outputs st) y"
proof -
  have fin: "\<exists>r0. rs_records st y = Some r0 \<and> nr_attempts r0 = nr_attempts r"
    using assms(2) by (auto simp: finish_def)
  have done_case: ?thesis if inv: "loop_inv oi exec ord st0" and r0: "rs_records st0 y = Some r0"
    "nr_attempts r0 = nr_attempts r" and o': "rs_outputs st = rs_outputs st0" for ord st0 r0
  proof -
    have "y \<in> set ord" using loop_inv_records [OF inv assms(4)] r0 assms(3) by auto
    moreover from this have "executed_ok oi exec ord st0 y" using inv by (simp add: loop_inv_def)
    ultimately show ?thesis using r0 o' loop_inv_runnable [OF inv] by (fastforce simp: executed_ok_def)
  qed
  from assms(1) show ?thesis
  proof
    assume "run_complete oi exec st"
    then show ?thesis using fin done_case unfolding run_complete_def by blast
  next
    assume "run_aborted oi exec st"
    then obtain ord x q n atts evs reason st0 where inv: "loop_inv oi exec ord st0"
      and q: "rs_queue st0 = x # q" and n: "find (\<lambda>n. nd_id n = x) (op_nodes oi) = Some n"
      and att: "attempt_loop exec n (effective_timeout oi n) (inputs_of oi (rs_outputs st0) ord x) 0 = (atts, evs, Broken reason)"
      and o': "rs_outputs st = rs_outputs st0"
      and rc: "rs_records st = (rs_records st0)(x \<mapsto> \<lparr>nr_id = x, nr_state = Failed reason, nr_attempts = atts\<rparr>)"
      unfolding run_aborted_def by blast
    show ?thesis
    proof (cases "y = x")
      case True
      have "dom (rs_outputs st0) = set ord" using inv by (simp add: loop_inv_def)
      moreover have "into (unconsumed oi ord) x = []" "ready (rs_outputs st0) (into (consumed oi ord) x)"
        using inv q unfolding loop_inv_def feed_inv_def Let_def by (auto simp del: into_simps)
      ultimately have "runnable oi (rs_outputs st) y" using True o' by (simp add: runnable_iff)
      moreover have "nr_attempts r = atts" using fin rc True by auto
      ultimately show ?thesis using n att True by blast
    next
      case False
      then show ?thesis using fin rc done_case [OF inv] o' by auto
    qed
  qed
qed

end
