(* ===== verification/Opening_Replay.thy ===== *)
theory Opening_Replay
  imports Opening_Runner_Inv
begin

text \<open>
  Replaying a recorded run (\<open>crates/openings/src/replay.rs\<close>: \<open>replay\<close>). The executor is a
  parameter and is called with the recorded inputs and attempt number, without a timer.
  Lemmas: replaying the trace of a run with the executor that made it finds no mismatch and
  computes the recorded hash; a replay that matches has reproduced the recorded output hash
  of every succeeded node.
\<close>

datatype node_execution = Completed ports | FailedExecution bool string

type_synonym replay_executor = "node \<Rightarrow> ports \<Rightarrow> nat \<Rightarrow> string + node_execution"

record replay_mismatch =
  mm_node :: string
  mm_expected :: "string option"
  mm_actual :: "string option"
  mm_reason :: string

record replay_report =
  rp_matches :: bool
  rp_mismatches :: "replay_mismatch list"
  rp_hash :: string

definition debug_state :: "node_state \<Rightarrow> string" where
  "debug_state s = (case s of
     Pending \<Rightarrow> ''Pending'' | Running \<Rightarrow> ''Running'' | Succeeded \<Rightarrow> ''Succeeded''
   | Failed reason \<Rightarrow> ''Failed { reason: '' @ [CHR 0x22] @ reason @ [CHR 0x22] @ '' }''
   | Skipped \<Rightarrow> ''Skipped'' | Cancelled \<Rightarrow> ''Cancelled'')"

definition mismatch :: "node_trace \<Rightarrow> string option \<Rightarrow> string option \<Rightarrow> string \<Rightarrow> replay_mismatch" where
  "mismatch t expected actual reason =
    \<lparr>mm_node = nt_id t, mm_expected = expected, mm_actual = actual, mm_reason = reason\<rparr>"

text \<open>One node of the trace with a recorded attempt: mismatches and bytes fed to the hasher.\<close>

definition compare_execution ::
  "(ports \<Rightarrow> bytes) \<Rightarrow> node_trace \<Rightarrow> attempt_trace \<Rightarrow> node_execution \<Rightarrow> replay_mismatch list \<times> bytes" where
  "compare_execution hash t a execution =
    (case (execution, nt_state t) of
       (Completed outputs, Succeeded) \<Rightarrow>
         let actual_hex = to_hex (hash outputs)
         in (if Some actual_hex \<noteq> att_output_hash a
             then [mismatch t (att_output_hash a) (Some actual_hex) ''output hash mismatch''] else [],
             hash outputs)
     | (FailedExecution _ reason, Failed recorded) \<Rightarrow>
         let expected = (case att_error a of Some e \<Rightarrow> e | None \<Rightarrow> recorded)
         in (if expected \<noteq> reason
             then [mismatch t None None (''failure reason mismatch (expected '' @ [CHR 0x27] @ expected
                    @ [CHR 0x27] @ '', got '' @ [CHR 0x27] @ reason @ [CHR 0x27] @ '')'')] else [],
             utf8_bytes expected)
     | (Completed outputs, Failed _) \<Rightarrow>
         ([mismatch t (att_output_hash a) (Some (to_hex (hash outputs))) ''expected failure but replay succeeded''], [])
     | (FailedExecution _ reason, Succeeded) \<Rightarrow>
         ([mismatch t (att_output_hash a) None (''executor reported failure: '' @ reason)], [])
     | (Completed _, other_state) \<Rightarrow>
         ([mismatch t (att_output_hash a) None (''unexpected state '' @ debug_state other_state @ '' for completed node'')], [])
     | (FailedExecution _ reason, other_state) \<Rightarrow>
         ([mismatch t (att_output_hash a) None (''executor reported failure while node recorded as ''
              @ debug_state other_state @ '': '' @ reason)], []))"

definition replay_node ::
  "(ports \<Rightarrow> bytes) \<Rightarrow> replay_executor \<Rightarrow> opening_ir \<Rightarrow> node_trace \<Rightarrow> string + (replay_mismatch list \<times> bytes)" where
  "replay_node hash rexec oi t =
    (case find (\<lambda>n. nd_id n = nt_id t) (rev (op_nodes oi)) of
       None \<Rightarrow> Inr ([mismatch t (Option.bind (nt_final_attempt t) att_output_hash) None
                   ''node not present in opening definition''], [])
     | Some n \<Rightarrow>
         (case nt_final_attempt t of
            Some a \<Rightarrow>
              res_bind (rexec n (att_inputs a) (att_attempt a)) (\<lambda>execution.
              Inr (compare_execution hash t a execution))
          | None \<Rightarrow>
              (case nt_state t of
                 Failed reason \<Rightarrow> Inr ([mismatch t None None (''node recorded as failed: '' @ reason)], [])
               | Succeeded \<Rightarrow> Inr ([mismatch t None None ''trace missing final attempt for succeeded node''], [])
               | _ \<Rightarrow> Inr ([], []))))"

definition replay ::
  "(bytes \<Rightarrow> bytes) \<Rightarrow> (json \<Rightarrow> bytes) \<Rightarrow> replay_executor \<Rightarrow> opening_ir \<Rightarrow> node_trace list \<Rightarrow> string + replay_report" where
  "replay blake3 ser rexec oi trace =
    res_bind (res_map (replay_node (outputs_hash blake3 ser) rexec oi) trace) (\<lambda>results.
    let mismatches = concat (map fst results)
    in Inr \<lparr>rp_matches = (mismatches = []), rp_mismatches = mismatches,
            rp_hash = to_hex (blake3 (concat (map snd results)))\<rparr>)"

section \<open>Hexadecimal text is injective\<close>

lemma hex_digits_distinct:
  "list_all (\<lambda>a. list_all (\<lambda>b. hex_digit a = hex_digit b \<longrightarrow> a = b) [0..<16]) [0..<16]"
  by code_simp

lemma hex_digit_inject: "a < 16 \<Longrightarrow> b < 16 \<Longrightarrow> hex_digit a = hex_digit b \<Longrightarrow> a = b"
  using hex_digits_distinct by (simp only: list_all_iff set_upt atLeastLessThan_iff) simp

lemma to_hex_inject: "to_hex xs = to_hex ys \<Longrightarrow> xs = ys"
proof (induction xs arbitrary: ys)
  case Nil
  then show ?case by (cases ys) (auto simp: to_hex_def)
next
  case (Cons x xs)
  then obtain y ys' where ys: "ys = y # ys'" by (cases ys) (auto simp: to_hex_def)
  have b: "unat w div 16 < 16" "unat w mod 16 < 16" for w :: u8
    using unat_bound [of w] by auto
  from Cons.prems have "hex_digit (unat x div 16) = hex_digit (unat y div 16)"
    "hex_digit (unat x mod 16) = hex_digit (unat y mod 16)" and rest: "to_hex xs = to_hex ys'"
    by (auto simp: to_hex_def ys)
  then have "unat x div 16 = unat y div 16" "unat x mod 16 = unat y mod 16"
    using hex_digit_inject b by blast+
  then have "unat x = unat y" by (metis div_mult_mod_eq)
  with Cons.IH [OF rest] show ?case by (simp add: ys word_unat_eq_iff)
qed

section \<open>Replaying a run with its own executor\<close>

text \<open>The executor of a run whose attempts never hit the timer.\<close>

definition untimed :: "replay_executor \<Rightarrow> executor" where
  "untimed rexec n inputs attempt timeout =
    (case rexec n inputs attempt of
       Inl err \<Rightarrow> ExecError err
     | Inr (Completed outputs) \<Rightarrow> ExecCompleted outputs
     | Inr (FailedExecution retryable reason) \<Rightarrow> ExecFailed retryable reason)"

lemma find_rev_distinct:
  assumes "distinct (map f xs)" "find (\<lambda>x. f x = k) xs = Some x"
  shows "find (\<lambda>x. f x = k) (rev xs) = Some x"
proof -
  have x: "x \<in> set xs" "f x = k" using assms(2) by (auto simp: find_Some_iff)
  then have "find (\<lambda>x. f x = k) (rev xs) \<noteq> None" by (auto simp: find_None_iff)
  then obtain y where y: "find (\<lambda>x. f x = k) (rev xs) = Some y" by auto
  then have "y \<in> set (rev xs)" "f y = k" unfolding find_Some_iff by (metis nth_mem)+
  then show ?thesis using x y assms(1) by (metis inj_on_eq_iff distinct_map set_rev)
qed

text \<open>A failed last attempt reproduces its error.\<close>

lemma attempt_loop_failure_reason:
  assumes "\<And>n i a. \<exists>e. rexec n i a = Inr e"
  shows "attempt_loop (untimed rexec) n timeout inputs used = (atts, evs, Broken err) \<Longrightarrow>
     \<exists>b. rexec n inputs (at_attempt (last atts)) = Inr (FailedExecution b err)"
proof (induction "max_attempts n - used" arbitrary: used atts evs rule: less_induct)
  case less
  obtain e where e: "rexec n inputs (Suc used) = Inr e" using assms by blast
  from less.prems show ?case
  proof (cases rule: attempt_loop_rounds)
    case (gave_up err' ev retryable)
    then show ?thesis using e
      by (cases e) (auto simp: untimed_def attempt_failure_def failed_attempt_def)
  next
    case (again err' ev atts' evs')
    have "atts' \<noteq> []" using attempt_loop_attempts [OF again(4)] by simp
    moreover have "\<exists>b. rexec n inputs (at_attempt (last atts')) = Inr (FailedExecution b err)"
      by (rule less.hyps [OF _ again(4)]) (use again(2) in simp)
    ultimately show ?thesis by (simp add: again(5))
  qed auto
qed

lemma replay_node_own:
  assumes total: "\<And>n i a. \<exists>e. rexec n i a = Inr e"
    and dist: "distinct (map nd_id (op_nodes oi))"
    and n: "n \<in> set (op_nodes oi)" and r: "rs_records (finish st) (nd_id n) = Some r"
    and id: "nr_id r = nd_id n"
    and res: "(nr_state r = Succeeded \<and> (\<exists>evs o'. attempt_loop (untimed rexec) n (effective_timeout oi n) inputs 0 = (nr_attempts r, evs, Done o')))
      \<or> (\<exists>reason evs. nr_state r = Failed reason \<and> attempt_loop (untimed rexec) n (effective_timeout oi n) inputs 0 = (nr_attempts r, evs, Broken reason))
      \<or> (nr_state r = Skipped \<and> nr_attempts r = [])"
  shows "replay_node hash rexec oi (node_trace_of hash r) = Inr ([], record_digest hash r)"
proof -
  have f: "find (\<lambda>m. nd_id m = nd_id n) (op_nodes oi) = Some n"
  proof -
    have "find (\<lambda>m. nd_id m = nd_id n) (op_nodes oi) \<noteq> None" using n by (auto simp: find_None_iff)
    then obtain m where m: "find (\<lambda>m. nd_id m = nd_id n) (op_nodes oi) = Some m" by auto
    then have "m \<in> set (op_nodes oi)" "nd_id m = nd_id n" unfolding find_Some_iff by (metis nth_mem)+
    then show ?thesis using m n dist by (metis inj_on_eq_iff distinct_map)
  qed
  note fr = find_rev_distinct [OF dist f]
  from res show ?thesis
  proof (elim disjE exE conjE)
    fix evs o' assume s: "nr_state r = Succeeded"
      and a: "attempt_loop (untimed rexec) n (effective_timeout oi n) inputs 0 = (nr_attempts r, evs, Done o')"
    have ne: "nr_attempts r \<noteq> []" and inp: "at_inputs (last (nr_attempts r)) = inputs"
      using attempt_loop_attempts [OF a] by (auto simp: last_in_set)
    have l: "at_output (last (nr_attempts r)) = Some o'" "at_error (last (nr_attempts r)) = None"
      "untimed rexec n inputs (at_attempt (last (nr_attempts r))) (effective_timeout oi n) = ExecCompleted o'"
      using attempt_loop_last [OF a] by auto
    from l(3) have "rexec n inputs (at_attempt (last (nr_attempts r))) = Inr (Completed o')"
      by (auto simp: untimed_def split: sum.splits node_execution.splits)
    then show ?thesis using fr ne s l inp
      by (simp add: replay_node_def node_trace_of_def id last_attempt_def trace_attempt_def
          compare_execution_def record_digest_def attempt_digest_def)
  next
    fix reason evs assume s: "nr_state r = Failed reason"
      and a: "attempt_loop (untimed rexec) n (effective_timeout oi n) inputs 0 = (nr_attempts r, evs, Broken reason)"
    have ne: "nr_attempts r \<noteq> []" and inp: "at_inputs (last (nr_attempts r)) = inputs"
      using attempt_loop_attempts [OF a] by (auto simp: last_in_set)
    have l: "at_output (last (nr_attempts r)) = None" "at_error (last (nr_attempts r)) = Some reason"
      using attempt_loop_last [OF a] by auto
    obtain b where "rexec n inputs (at_attempt (last (nr_attempts r))) = Inr (FailedExecution b reason)"
      using attempt_loop_failure_reason [OF total a] by blast
    then show ?thesis using fr ne s l inp
      by (simp add: replay_node_def node_trace_of_def id last_attempt_def trace_attempt_def
          compare_execution_def record_digest_def attempt_digest_def)
  next
    assume "nr_state r = Skipped" "nr_attempts r = []"
    then show ?thesis using fr
      by (simp add: replay_node_def node_trace_of_def id last_attempt_def record_digest_def)
  qed
qed

text \<open>Every record of a run is one of the three kinds above.\<close>

lemma run_record_kinds:
  assumes "run_complete oi exec st \<or> run_aborted oi exec st" and y: "y \<in> node_ids oi"
  shows "\<exists>r. rs_records (finish st) y = Some r \<and> nr_id r = y \<and> (\<exists>n inputs. find (\<lambda>n. nd_id n = y) (op_nodes oi) = Some n
    \<and> ((nr_state r = Succeeded \<and> (\<exists>evs o'. attempt_loop exec n (effective_timeout oi n) inputs 0 = (nr_attempts r, evs, Done o')))
      \<or> (\<exists>reason evs. nr_state r = Failed reason \<and> attempt_loop exec n (effective_timeout oi n) inputs 0 = (nr_attempts r, evs, Broken reason))
      \<or> (nr_state r = Skipped \<and> nr_attempts r = [])))"
proof -
  have succ: ?thesis if inv: "loop_inv oi exec ord st0" and e: "rs_records st y = rs_records st0 y" and o': "rs_outputs st0 y \<noteq> None"
    for ord st0
  proof -
    have "y \<in> set ord" using inv o' by (metis domIff loop_inv_def)
    then have "executed_ok oi exec ord st0 y" using inv by (simp add: loop_inv_def)
    then obtain n atts evs o'' where "find (\<lambda>n. nd_id n = y) (op_nodes oi) = Some n"
       "attempt_loop exec n (effective_timeout oi n) (inputs_of oi (rs_outputs st0) ord y) 0 = (atts, evs, Done o'')"
       and rc: "rs_records st0 y = Some \<lparr>nr_id = y, nr_state = Succeeded, nr_attempts = atts\<rparr>"
      unfolding executed_ok_def by blast
    moreover have "rs_records (finish st) y = Some \<lparr>nr_id = y, nr_state = Succeeded, nr_attempts = atts\<rparr>"
      using rc e by (simp add: finish_def final_state_def settled_def)
    ultimately show ?thesis by fastforce
  qed
  from assms(1) show ?thesis
  proof
    assume c: "run_complete oi exec st"
    obtain ord where inv: "loop_inv oi exec ord st" using c by (auto simp: run_complete_def)
    show ?thesis
    proof (cases "rs_outputs st y = None")
      case False
      show ?thesis by (rule succ [OF inv refl False])
    next
      case True
      then show ?thesis using finish_complete [OF c y] find_node [OF y] by fastforce
    qed
  next
    assume a: "run_aborted oi exec st"
    then obtain ord x q n atts evs reason st0 where inv: "loop_inv oi exec ord st0"
      and q: "rs_queue st0 = x # q" and n: "find (\<lambda>n. nd_id n = x) (op_nodes oi) = Some n"
      and att: "attempt_loop exec n (effective_timeout oi n) (inputs_of oi (rs_outputs st0) ord x) 0 = (atts, evs, Broken reason)"
      and o': "rs_outputs st = rs_outputs st0" and f: "rs_failed st"
      and rc: "rs_records st = (rs_records st0)(x \<mapsto> \<lparr>nr_id = x, nr_state = Failed reason, nr_attempts = atts\<rparr>)"
      unfolding run_aborted_def by blast
    consider "y = x" | "y \<noteq> x" "rs_outputs st0 y \<noteq> None" | "y \<noteq> x" "rs_outputs st0 y = None" by blast
    then show ?thesis
    proof cases
      case 1
      then have "rs_records (finish st) y = Some \<lparr>nr_id = y, nr_state = Failed reason, nr_attempts = atts\<rparr>"
        using rc by (simp add: finish_def final_state_def settled_def)
      then show ?thesis using 1 n att by fastforce
    next
      case 2
      show ?thesis by (rule succ [OF inv _ 2(2)]) (use rc 2 in simp)
    next
      case 3
      have "y \<notin> set ord" using inv 3(2) by (metis domIff loop_inv_def)
      then obtain r where "rs_records st y = Some r" "nr_id r = y" "nr_state r \<in> {Pending, Skipped}" "nr_attempts r = []"
        using loop_inv_records [OF inv y] rc 3(1) by auto
      then have "rs_records (finish st) y = Some (r\<lparr>nr_state := Skipped\<rparr>)"
        using f by (auto simp: finish_def final_state_def settled_def)
      then show ?thesis using find_node [OF y] \<open>nr_id r = y\<close> \<open>nr_attempts r = []\<close> by fastforce
    qed
  qed
qed

lemma replay_own_run:
  assumes total: "\<And>n i a. \<exists>e. rexec n i a = Inr e"
    and dist: "distinct (map nd_id (op_nodes oi))" and ends: "known_ends (op_nodes oi) (op_edges oi)"
    and run: "run blake3 ser oi (untimed rexec) = Some rep"
  shows "replay blake3 ser rexec oi (rr_nodes rep) =
    Inr \<lparr>rp_matches = True, rp_mismatches = [], rp_hash = rr_final_hash rep\<rparr>"
proof -
  let ?hash = "outputs_hash blake3 ser"
  obtain st where st: "run_state_of oi (untimed rexec) = Some st"
    using run by (auto simp: run_def split: option.splits)
  note kinds = run_state_cases [OF dist ends st]
  define rcs where "rcs = map (\<lambda>n. the (rs_records (finish st) (nd_id n))) (op_nodes oi)"
  have rep: "rr_nodes rep = map (node_trace_of ?hash) rcs"
    "rr_final_hash rep = to_hex (blake3 (concat (map (record_digest ?hash) rcs)))"
    using run st by (auto simp: run_def rcs_def Let_def)
  have "replay_node ?hash rexec oi (node_trace_of ?hash r) = Inr ([], record_digest ?hash r)" if "r \<in> set rcs" for r
  proof -
    from that obtain n where n: "n \<in> set (op_nodes oi)" and r: "r = the (rs_records (finish st) (nd_id n))"
      by (auto simp: rcs_def)
    have "nd_id n \<in> node_ids oi" using n by (simp add: node_ids_def)
    from run_record_kinds [OF kinds this] r obtain m inputs where m: "find (\<lambda>m. nd_id m = nd_id n) (op_nodes oi) = Some m"
      and rr: "rs_records (finish st) (nd_id n) = Some r" "nr_id r = nd_id n"
      and k: "(nr_state r = Succeeded \<and> (\<exists>evs o'. attempt_loop (untimed rexec) m (effective_timeout oi m) inputs 0 = (nr_attempts r, evs, Done o')))
      \<or> (\<exists>reason evs. nr_state r = Failed reason \<and> attempt_loop (untimed rexec) m (effective_timeout oi m) inputs 0 = (nr_attempts r, evs, Broken reason))
      \<or> (nr_state r = Skipped \<and> nr_attempts r = [])" by (metis option.sel)
    have "m \<in> set (op_nodes oi)" "nd_id m = nd_id n" using m unfolding find_Some_iff by (metis nth_mem)+
    then show ?thesis by (intro replay_node_own [OF total dist, of m st]) (use rr k in simp_all)
  qed
  then have "res_map (replay_node ?hash rexec oi) (map (node_trace_of ?hash) rcs)
      = Inr (map (\<lambda>r. ([], record_digest ?hash r)) rcs)"
    by (induction rcs) auto
  then show ?thesis by (simp add: replay_def rep comp_def)
qed

section \<open>What a matching replay shows\<close>

lemma compare_execution_clean:
  "compare_execution hash t a execution = ([], bs) \<Longrightarrow>
     (\<exists>o'. execution = Completed o' \<and> nt_state t = Succeeded \<and> att_output_hash a = Some (to_hex (hash o')))
     \<or> (\<exists>b reason recorded. execution = FailedExecution b reason \<and> nt_state t = Failed recorded
         \<and> reason = (case att_error a of Some e \<Rightarrow> e | None \<Rightarrow> recorded))"
  by (cases execution; cases "nt_state t") (auto simp: compare_execution_def Let_def split: if_splits)

lemma replay_sound:
  assumes "replay blake3 ser rexec oi trace = Inr rep" "rp_matches rep" and t: "t \<in> set trace"
    and a: "nt_final_attempt t = Some a" and s: "nt_state t = Succeeded"
  shows "\<exists>n o'. n \<in> set (op_nodes oi) \<and> nd_id n = nt_id t
    \<and> rexec n (att_inputs a) (att_attempt a) = Inr (Completed o')
    \<and> att_output_hash a = Some (to_hex (outputs_hash blake3 ser o'))"
proof -
  let ?hash = "outputs_hash blake3 ser"
  obtain results where res: "res_map (replay_node ?hash rexec oi) trace = Inr results"
    and m: "concat (map fst results) = []"
    using assms(1,2) by (auto simp: replay_def res_bind_eq_Inr Let_def)
  obtain p where p: "replay_node ?hash rexec oi t = Inr p" and "p \<in> set results"
  proof -
    from res have l2: "list_all2 (\<lambda>x y. replay_node ?hash rexec oi x = Inr y) trace results"
      by (simp add: res_map_Inr_iff)
    obtain i where i: "i < length trace" "t = trace ! i" using t by (auto simp: in_set_conv_nth)
    show thesis
    proof (rule that)
      show "replay_node ?hash rexec oi t = Inr (results ! i)" using list_all2_nthD [OF l2 i(1)] i(2) by simp
      show "results ! i \<in> set results" using l2 i(1) by (simp add: list_all2_lengthD)
    qed
  qed
  obtain ms bs where "p = (ms, bs)" by (cases p)
  with m \<open>p \<in> set results\<close> have pe: "p = ([], bs)" by fastforce
  obtain n execution where n: "find (\<lambda>n. nd_id n = nt_id t) (rev (op_nodes oi)) = Some n"
    and e: "rexec n (att_inputs a) (att_attempt a) = Inr execution"
    and c: "compare_execution ?hash t a execution = ([], bs)"
    using p a pe by (auto simp: replay_node_def res_bind_eq_Inr split: option.splits)
  have "n \<in> set (rev (op_nodes oi))" "nd_id n = nt_id t" using n unfolding find_Some_iff by (metis nth_mem)+
  then show ?thesis using compare_execution_clean [OF c] s e by auto
qed

end
