(* ===== verification/Opening_System.thy ===== *)
theory Opening_System
  imports Opening_Parser Opening_Replay
begin

text \<open>
  The opening subsystem as a whole: what the parser promises, stated as an interface, and what
  the runner does with an opening that keeps the promise. The interface is a locale over any
  parser; it is interpreted on \<open>parse_opening_str\<close>, and the properties of parsed openings rest
  on that interpretation. A small opening with two nodes serves as the concrete input.
\<close>

section \<open>The interface between the parser and the runner\<close>

locale opening_source =
  fixes parse :: "'s \<Rightarrow> ('e + opening_ir) option"
  assumes no_panic: "parse s \<noteq> None"
    and checked: "parse s = Some (Inr oi) \<Longrightarrow> wf_opening oi"
begin

lemma ids_and_ends:
  "parse s = Some (Inr oi) \<Longrightarrow>
     distinct (map nd_id (op_nodes oi)) \<and> known_ends (op_nodes oi) (op_edges oi)"
  using checked by (simp add: wf_opening_def)

lemma run_state_exists:
  "parse s = Some (Inr oi) \<Longrightarrow>
     \<exists>st. run_state_of oi exec = Some st \<and> (run_complete oi exec st \<or> run_aborted oi exec st)"
  using ids_and_ends run_state_result by blast

lemma final_state_settled:
  assumes "parse s = Some (Inr oi)" "run_state_of oi exec = Some st" "y \<in> node_ids oi"
  shows "\<exists>r. rs_records (finish st) y = Some r \<and> nr_id r = y \<and>
    (nr_state r = Succeeded \<or> nr_state r = Skipped \<or> (\<exists>reason. nr_state r = Failed reason))"
proof -
  have "run_complete oi exec st \<or> run_aborted oi exec st"
    using run_state_exists [OF assms(1), of exec] assms(2) by auto
  from run_record_kinds [OF this assms(3)] show ?thesis by blast
qed

lemma run_reports:
  assumes "parse s = Some (Inr oi)"
  shows "\<exists>rep. run blake3 ser oi exec = Some rep \<and> map nt_id (rr_nodes rep) = map nd_id (op_nodes oi)
    \<and> (\<forall>t \<in> set (rr_nodes rep). nt_state t = Succeeded \<or> nt_state t = Skipped \<or> (\<exists>reason. nt_state t = Failed reason))"
proof -
  obtain st where st: "run_state_of oi exec = Some st"
    using run_state_exists [OF assms] by blast
  let ?rcs = "map (\<lambda>n. the (rs_records (finish st) (nd_id n))) (op_nodes oi)"
  have k: "nr_id (the (rs_records (finish st) (nd_id n))) = nd_id n \<and>
    (nr_state (the (rs_records (finish st) (nd_id n))) = Succeeded
     \<or> nr_state (the (rs_records (finish st) (nd_id n))) = Skipped
     \<or> (\<exists>reason. nr_state (the (rs_records (finish st) (nd_id n))) = Failed reason))"
    if "n \<in> set (op_nodes oi)" for n
    using final_state_settled [OF assms st, of "nd_id n"] that by (auto simp: node_ids_def)
  show ?thesis using k by (auto simp: run_def st Let_def node_trace_of_def)
qed

end

interpretation yaml_openings: opening_source "parse_opening_str yc" for yc
proof unfold_locales
  fix s oi
  obtain r where r: "parse_opening_str yc s = Some r" "\<forall>oi. r = Inr oi \<longrightarrow> wf_opening oi"
    using parse_opening_spec by blast
  show "parse_opening_str yc s \<noteq> None" using r(1) by simp
  show "parse_opening_str yc s = Some (Inr oi) \<Longrightarrow> wf_opening oi" using r by simp
qed

section \<open>A concrete opening\<close>

text \<open>\<open>a.out == true\<close> guards the edge into \<open>b\<close>; the executor answers \<open>true\<close>, and \<open>b\<close> fails once.\<close>

definition demo_node :: "string \<Rightarrow> u32 \<Rightarrow> node" where
  "demo_node i mx =
    \<lparr>nd_id = i, nd_kind = AgentNode \<lparr>ar_name = ''writer'', ar_variant = None\<rparr>, nd_with = [],
     nd_schema_hints = None, nd_retry = default_retry\<lparr>rt_max_attempts := mx\<rparr>, nd_timeout_ms = None,
     nd_budget_tokens = None, nd_tags = [], nd_location = \<lparr>loc_line = 1, loc_column = 1\<rparr>\<rparr>"

definition demo_opening :: opening_ir where
  "demo_opening =
    \<lparr>op_version = 0, op_name = ''demo'', op_goals = [], op_params = [], op_policy = default_policy,
     op_nodes = [demo_node ''a'' 1, demo_node ''b'' 3],
     op_edges = [\<lparr>ed_from = \<lparr>pr_node = ''a'', pr_port = ''out''\<rparr>,
                 ed_predicate = Some \<lparr>pred_op = OpEq, pred_value = LitBool True\<rparr>,
                 ed_to = \<lparr>pr_node = ''b'', pr_port = ''in''\<rparr>, ed_location = \<lparr>loc_line = 1, loc_column = 1\<rparr>\<rparr>],
     op_success = Some (AnyOf [Exists \<lparr>pr_node = ''b'', pr_port = ''out''\<rparr>]), op_artifacts = []\<rparr>"

definition demo_rexec :: replay_executor where
  "demo_rexec n inputs attempt =
    (if nd_id n = ''a'' then Inr (Completed [(''out'', [JBool True])])
     else if attempt = 1 then Inr (FailedExecution True ''busy'')
     else Inr (Completed [(''out'', [JBool True])]))"

definition demo_fail :: replay_executor where
  "demo_fail n inputs attempt = Inr (FailedExecution (nd_id n = ''a'') ''down'')"

lemma demo_wf: "distinct (map nd_id (op_nodes demo_opening))" "known_ends (op_nodes demo_opening) (op_edges demo_opening)"
  by (simp_all add: demo_opening_def demo_node_def known_ends_def)

definition demo_summary :: "run_state option \<Rightarrow> (bool \<times> node_state list \<times> nat list \<times> bool) option" where
  "demo_summary st = map_option (\<lambda>st. (rs_failed st,
     map (\<lambda>i. nr_state (the (rs_records (finish st) i))) [''a'', ''b''],
     map (\<lambda>i. length (nr_attempts (the (rs_records (finish st) i)))) [''a'', ''b''],
     evaluate_success (op_success demo_opening) (rs_outputs st))) st"

lemma demo_run:
  "demo_summary (run_state_of demo_opening (untimed demo_rexec)) = Some (False, [Succeeded, Succeeded], [1, 2], True)"
  by code_simp

lemma demo_run_fails:
  "demo_summary (run_state_of demo_opening (untimed demo_fail)) = Some (True, [Failed ''down'', Skipped], [1, 0], False)"
  by code_simp

section \<open>Witness data\<close>

definition demo_yaml :: yaml where
  "demo_yaml = YMapping
    [(YString ''version'', YNumber (PosInt 0)), (YString ''name'', YString ''demo''),
     (YString ''nodes'', YSequence
        [YMapping [(YString ''id'', YString ''a''), (YString ''use'', YString ''agent:writer'')],
         YMapping [(YString ''id'', YString ''b''), (YString ''use'', YString ''opening:other'')]]),
     (YString ''edges'', YSequence
        [YMapping [(YString ''from'', YString ''a.out''), (YString ''to'', YString ''b.in'')]])]"

definition demo_codec :: yaml_codec where
  "demo_codec = \<lparr>yc_from_str = (\<lambda>s. Inr demo_yaml), yc_to_json = (\<lambda>v. Inr JNull)\<rparr>"

lemma demo_parses: "\<exists>oi. parse_opening_str demo_codec ''name: demo'' = Some (Inr oi)"
proof -
  have "(case parse_opening_str demo_codec ''name: demo'' of Some (Inr oi) \<Rightarrow> True | _ \<Rightarrow> False) = True"
    by code_simp
  then show ?thesis by (auto split: option.splits sum.splits)
qed

lemma demo_result:
  obtains st where "run_state_of demo_opening (untimed demo_rexec) = Some st" "\<not> rs_failed st"
  using demo_run by (auto simp: demo_summary_def)

lemma demo_failure:
  obtains st where "run_state_of demo_opening (untimed demo_fail) = Some st" "rs_failed st"
  using demo_run_fails by (auto simp: demo_summary_def)

section \<open>Properties\<close>

text \<open>C1: Parsing never panics, whatever the YAML reader returns, and every opening it accepts is
  well formed: version 0, at least one node, distinct node identifiers, valid agent names, no
  template left in a payload, no mailer that switches confirmation off under
  \<open>confirm_external\<close>, edges between known nodes, an acyclic graph and a non-empty success
  condition.\<close>

theorem parse_opening_wf:
  "parse_opening_str yc source \<noteq> None \<and>
   (\<forall>oi. parse_opening_str yc source = Some (Inr oi) \<longrightarrow> wf_opening oi)"
  using yaml_openings.no_panic yaml_openings.checked by blast

theorem parse_opening_wf_witness:
  "\<exists>oi. parse_opening_str demo_codec ''name: demo'' = Some (Inr oi) \<and> wf_opening oi"
  using demo_parses parse_opening_wf [of demo_codec "''name: demo''"] by blast

text \<open>C2: Running a parsed opening terminates with a report for every executor; the report has one
  trace per node, in node order, and every node ends succeeded, skipped or failed.\<close>

theorem run_parsed_opening:
  assumes "parse_opening_str yc source = Some (Inr oi)"
  shows "\<exists>rep. run blake3 ser oi exec = Some rep \<and> map nt_id (rr_nodes rep) = map nd_id (op_nodes oi)
    \<and> (\<forall>t \<in> set (rr_nodes rep). nt_state t = Succeeded \<or> nt_state t = Skipped \<or> (\<exists>reason. nt_state t = Failed reason))"
  by (rule yaml_openings.run_reports [OF assms])

theorem run_parsed_opening_witness:
  "\<exists>oi rep. parse_opening_str demo_codec ''name: demo'' = Some (Inr oi)
    \<and> run (\<lambda>bs. bs) (\<lambda>v. []) oi (untimed demo_rexec) = Some rep \<and> map nt_id (rr_nodes rep) = map nd_id (op_nodes oi)"
  using demo_parses run_parsed_opening by meson

text \<open>C5: In a run in which no node fails, exactly the runnable nodes succeed and all others are
  skipped. A node is runnable when every inbound edge comes from a node that has outputs and
  its predicate passes on them, and, unless it has no inbound edge, at least one of these
  edges brings a value.\<close>

theorem run_executes_runnable:
  assumes "distinct (map nd_id (op_nodes oi))" "known_ends (op_nodes oi) (op_edges oi)"
    and "run_state_of oi exec = Some st" "\<not> rs_failed st" "n \<in> set (op_nodes oi)"
  shows "\<exists>r. rs_records (finish st) (nd_id n) = Some r
    \<and> nr_state r = (if runnable oi (rs_outputs st) (nd_id n) then Succeeded else Skipped)
    \<and> (nr_attempts r \<noteq> [] \<longrightarrow> runnable oi (rs_outputs st) (nd_id n))"
proof -
  have c: "run_complete oi exec st"
    using run_state_cases [OF assms(1-3)] assms(4) by (auto simp: run_aborted_def)
  have y: "nd_id n \<in> node_ids oi" using assms(5) by (simp add: node_ids_def)
  show ?thesis using finish_complete [OF c y] complete_runnable [OF c y] by auto
qed

theorem run_executes_runnable_witness:
  "\<exists>st r. run_state_of demo_opening (untimed demo_rexec) = Some st
    \<and> rs_records (finish st) ''b'' = Some r
    \<and> nr_state r = (if runnable demo_opening (rs_outputs st) ''b'' then Succeeded else Skipped)"
proof -
  obtain st where st: "run_state_of demo_opening (untimed demo_rexec) = Some st" "\<not> rs_failed st"
    by (rule demo_result)
  have "demo_node ''b'' 3 \<in> set (op_nodes demo_opening)" by (simp add: demo_opening_def)
  from run_executes_runnable [OF demo_wf st this] show ?thesis
    using st(1) by (auto simp: demo_node_def)
qed

text \<open>C30: Whether or not the run fails, a node that was executed at all was runnable, and its
  attempts are exactly those of one pass of the attempt loop: it is never executed twice.\<close>

theorem run_gating:
  assumes "distinct (map nd_id (op_nodes oi))" "known_ends (op_nodes oi) (op_edges oi)"
    and "run_state_of oi exec = Some st" "n \<in> set (op_nodes oi)"
    and "rs_records (finish st) (nd_id n) = Some r" "nr_attempts r \<noteq> []"
  shows "runnable oi (rs_outputs st) (nd_id n)
    \<and> (\<exists>m inputs evs res. attempt_loop exec m (effective_timeout oi m) inputs 0 = (nr_attempts r, evs, res) \<and> nd_id m = nd_id n)"
proof -
  have "nd_id n \<in> node_ids oi" using assms(4) by (simp add: node_ids_def)
  from executed_record [OF run_state_cases [OF assms(1-3)] assms(5,6) this]
  show ?thesis by (auto simp: find_Some_iff)
qed

theorem run_gating_witness:
  "\<exists>st r. run_state_of demo_opening (untimed demo_fail) = Some st
    \<and> rs_records (finish st) ''a'' = Some r \<and> runnable demo_opening (rs_outputs st) ''a''"
proof -
  obtain st where st: "run_state_of demo_opening (untimed demo_fail) = Some st"
    using demo_failure by blast
  have n: "demo_node ''a'' 1 \<in> set (op_nodes demo_opening)" by (simp add: demo_opening_def)
  have "''a'' \<in> node_ids demo_opening" by (simp add: node_ids_def demo_opening_def demo_node_def)
  from run_record_kinds [OF run_state_cases [OF demo_wf st] this] obtain r where
    r: "rs_records (finish st) ''a'' = Some r" by blast
  have "length (nr_attempts r) = 1" using demo_run_fails r by (simp add: st demo_summary_def)
  then have "nr_attempts r \<noteq> []" by auto
  with run_gating [OF demo_wf st n] r st show ?thesis by (auto simp: demo_node_def)
qed

text \<open>C6: Data flow. The nodes of a run that does not fail were executed in an order in which
  sources come first. Each was given, at every port, exactly the values that its sources have at the
  other ends of the edges into that port, in the order of execution of the sources and of the edges, and
  no port without a value; and its outputs are what the executor returned for these inputs.\<close>

theorem run_dataflow:
  assumes "distinct (map nd_id (op_nodes oi))" "known_ends (op_nodes oi) (op_edges oi)"
    and "run_state_of oi exec = Some st" "\<not> rs_failed st"
  shows "\<exists>ord. distinct ord \<and> set ord = {i. rs_outputs st i \<noteq> None} \<and> sources_first oi ord
    \<and> (\<forall>i \<in> set ord. \<exists>n inputs atts evs o'. n \<in> set (op_nodes oi) \<and> nd_id n = i \<and> rs_outputs st i = Some o'
        \<and> distinct (map fst inputs)
        \<and> (\<forall>p. map_of inputs p =
              (if arriving oi (rs_outputs st) ord i p = [] then None else Some (arriving oi (rs_outputs st) ord i p)))
        \<and> attempt_loop exec n (effective_timeout oi n) inputs 0 = (atts, evs, Done o')
        \<and> exec n inputs (length atts) (effective_timeout oi n) = ExecCompleted o')"
proof -
  obtain ord where inv: "loop_inv oi exec ord st"
    using run_state_cases [OF assms(1-3)] assms(4) by (auto simp: run_aborted_def run_complete_def)
  have each: "\<exists>n inputs atts evs o'. n \<in> set (op_nodes oi) \<and> nd_id n = i \<and> rs_outputs st i = Some o'
        \<and> distinct (map fst inputs)
        \<and> (\<forall>p. map_of inputs p =
              (if arriving oi (rs_outputs st) ord i p = [] then None else Some (arriving oi (rs_outputs st) ord i p)))
        \<and> attempt_loop exec n (effective_timeout oi n) inputs 0 = (atts, evs, Done o')
        \<and> exec n inputs (length atts) (effective_timeout oi n) = ExecCompleted o'"
    if "i \<in> set ord" for i
  proof -
    have "executed_ok oi exec ord st i" using inv that by (simp add: loop_inv_def)
    then obtain n atts evs o' where n: "find (\<lambda>n. nd_id n = i) (op_nodes oi) = Some n"
      and a: "attempt_loop exec n (effective_timeout oi n) (inputs_of oi (rs_outputs st) ord i) 0 = (atts, evs, Done o')"
      and o': "rs_outputs st i = Some o'" and r: "ready (rs_outputs st) (into (consumed oi ord) i)"
      by (auto simp: executed_ok_def)
    have mem: "n \<in> set (op_nodes oi)" "nd_id n = i" using n by (auto simp: find_Some_iff)
    have fin: "exec n (inputs_of oi (rs_outputs st) ord i) (length atts) (effective_timeout oi n) = ExecCompleted o'"
      using attempt_loop_last [OF a] attempt_loop_number [OF a] by simp
    show ?thesis
      by (intro exI conjI allI)
        (rule mem o' conjunct1 [OF inputs_of_ports [OF r]] conjunct2 [OF inputs_of_ports [OF r]] a fin)+
  qed
  have dom: "set ord = {i. rs_outputs st i \<noteq> None}" and ord: "distinct ord" "sources_first oi ord"
    using inv by (auto simp: loop_inv_def)
  show ?thesis by (rule exI [of _ ord]) (intro conjI ballI ord dom each)
qed

theorem run_dataflow_witness:
  "\<exists>st. run_state_of demo_opening (untimed demo_rexec) = Some st \<and>
    (\<exists>ord. distinct ord \<and> set ord = {i. rs_outputs st i \<noteq> None} \<and> sources_first demo_opening ord
    \<and> (\<forall>i \<in> set ord. \<exists>n inputs atts evs o'. n \<in> set (op_nodes demo_opening) \<and> nd_id n = i \<and> rs_outputs st i = Some o'
        \<and> distinct (map fst inputs)
        \<and> (\<forall>p. map_of inputs p = (if arriving demo_opening (rs_outputs st) ord i p = [] then None
             else Some (arriving demo_opening (rs_outputs st) ord i p)))
        \<and> attempt_loop (untimed demo_rexec) n (effective_timeout demo_opening n) inputs 0 = (atts, evs, Done o')
        \<and> untimed demo_rexec n inputs (length atts) (effective_timeout demo_opening n) = ExecCompleted o'))"
proof -
  obtain st where st: "run_state_of demo_opening (untimed demo_rexec) = Some st" "\<not> rs_failed st"
    by (rule demo_result)
  show ?thesis by (rule exI [of _ st], rule conjI, rule st(1), rule run_dataflow [OF demo_wf st])
qed

text \<open>A run that fails has exactly one failed node; every node executed before it succeeded and
  every other node is skipped without an attempt.\<close>

theorem run_abort_single_failure:
  assumes "distinct (map nd_id (op_nodes oi))" "known_ends (op_nodes oi) (op_edges oi)"
    and "run_state_of oi exec = Some st" "rs_failed st"
  shows "\<exists>x \<in> node_ids oi. \<exists>reason. rs_outputs st x = None \<and>
    (\<forall>y \<in> node_ids oi. \<exists>r. rs_records (finish st) y = Some r \<and> nr_id r = y
      \<and> nr_state r = (if y = x then Failed reason else if rs_outputs st y \<noteq> None then Succeeded else Skipped)
      \<and> (y \<noteq> x \<and> rs_outputs st y = None \<longrightarrow> nr_attempts r = []))"
proof -
  have "run_aborted oi exec st"
    using run_state_cases [OF assms(1-3)] assms(4) by (auto simp: run_complete_def)
  then show ?thesis by (rule finish_aborted)
qed

theorem run_abort_single_failure_witness:
  "\<exists>st. run_state_of demo_opening (untimed demo_fail) = Some st \<and> (\<exists>x \<in> node_ids demo_opening. rs_outputs st x = None)"
proof -
  obtain st where st: "run_state_of demo_opening (untimed demo_fail) = Some st" "rs_failed st"
    by (rule demo_failure)
  from run_abort_single_failure [OF demo_wf st] st(1) show ?thesis by blast
qed

text \<open>C37: The attempts of one node are numbered from 1, there is at least one and at most
  \<open>max(1, max_attempts)\<close>, all of them get the same inputs, only the last one can have an
  output. Every attempt but the last failed retryably: with a failure marked so, or the time limit. The node
  gives up early only on an error that may not be retried, and a completed node has the output of the last.\<close>

theorem attempts_bounded:
  assumes "attempt_loop exec n timeout inputs 0 = (atts, evs, r)"
  shows "map at_attempt atts = [1 ..< Suc (length atts)] \<and> atts \<noteq> []
    \<and> length atts \<le> max 1 (unat (rt_max_attempts (nd_retry n)))
    \<and> (\<forall>a \<in> set atts. at_inputs a = inputs) \<and> (\<forall>a \<in> set (butlast atts). at_output a = None)
    \<and> (\<forall>a \<in> set (butlast atts). exec n inputs (at_attempt a) timeout = ExecTimeout
         \<or> (\<exists>why. exec n inputs (at_attempt a) timeout = ExecFailed True why))
    \<and> (\<forall>o'. r = Done o' \<longrightarrow> exec n inputs (length atts) timeout = ExecCompleted o' \<and> at_output (last atts) = Some o')
    \<and> (\<forall>err. r = Broken err \<longrightarrow> length atts = max 1 (unat (rt_max_attempts (nd_retry n)))
         \<or> exec n inputs (length atts) timeout \<in> {ExecFailed False err, ExecError err})"
proof -
  note a = attempt_loop_attempts [OF assms]
  have m: "map at_attempt atts = [1 ..< Suc (length atts)]" using a by (simp del: upt_Suc)
  note l = attempt_loop_number [OF assms]
  have g: "max_attempts n \<le> length atts \<or> exec n inputs (length atts) timeout \<in> {ExecFailed False err, ExecError err}"
    if "r = Broken err" for err
    using attempt_loop_gave_up [of exec n timeout inputs 0 atts evs err] assms that l by simp
  have k: "max_attempts n = max 1 (unat (rt_max_attempts (nd_retry n)))"
    by (auto simp: max_attempts_def unat_eq_zero max_def not_le)
  have d: "exec n inputs (length atts) timeout = ExecCompleted o' \<and> at_output (last atts) = Some o'" if "r = Done o'" for o'
    using attempt_loop_last [OF assms] l that by simp
  have last: "\<forall>a \<in> set (butlast atts). at_output a = None" using attempt_loop_last [OF assms] by blast
  have len: "length atts \<le> max 1 (unat (rt_max_attempts (nd_retry n)))" using a by (simp add: k)
  have "length atts = max 1 (unat (rt_max_attempts (nd_retry n)))
      \<or> exec n inputs (length atts) timeout \<in> {ExecFailed False err, ExecError err}" if "r = Broken err" for err
    using g [OF that] len unfolding k by (metis le_antisym)
  then show ?thesis using a m d last len attempt_loop_retried [OF assms] by blast
qed

definition demo_busy :: executor where
  "demo_busy n inputs attempt timeout = (if attempt = 1 then ExecFailed True ''busy'' else ExecCompleted [])"

theorem attempts_bounded_witness:
  "\<exists>atts evs. attempt_loop demo_busy (demo_node ''b'' 3) 100 [] 0 = (atts, evs, Done []) \<and> map at_attempt atts = [1, 2]
     \<and> length atts \<le> max 1 (unat (rt_max_attempts (nd_retry (demo_node ''b'' 3))))
     \<and> (\<forall>a \<in> set (butlast atts). demo_busy (demo_node ''b'' 3) [] (at_attempt a) 100 = ExecTimeout
         \<or> (\<exists>why. demo_busy (demo_node ''b'' 3) [] (at_attempt a) 100 = ExecFailed True why))"
proof -
  obtain atts evs r where a: "attempt_loop demo_busy (demo_node ''b'' 3) 100 [] 0 = (atts, evs, r)" by (metis prod_cases3)
  let ?n = "demo_node ''b'' 3"
  have two: "attempt_loop demo_busy ?n 100 [] (Suc 0) =
      ([\<lparr>at_attempt = 2, at_inputs = [], at_output = Some [], at_error = None\<rparr>],
       start_events ?n 2 @ success_events ?n 2 [], Done [])"
    using attempt_loop_completed [of demo_busy ?n "[]" "Suc 0" 100 "[]"] by (simp add: demo_busy_def numeral_2_eq_2)
  have one: "\<nexists>o'. demo_busy ?n [] (Suc 0) 100 = ExecCompleted o'"
    "attempt_failure ?n 100 (Suc 0) (demo_busy ?n [] (Suc 0) 100) =
       (''busy'', attempt_log ?n ''warn'' ('' failed on attempt '' @ decimal (Suc 0) @ '' ('' @ ''busy'' @ '')''), True)"
    by (simp_all add: demo_busy_def attempt_failure_def)
  have "Suc 0 < max_attempts ?n" by (simp add: max_attempts_def demo_node_def)
  then have "attempt_loop demo_busy ?n 100 [] 0 =
      (failed_attempt (Suc 0) [] ''busy'' # [\<lparr>at_attempt = 2, at_inputs = [], at_output = Some [], at_error = None\<rparr>],
       snd_evs, Done [])" if "snd_evs = fst (snd (attempt_loop demo_busy ?n 100 [] 0))" for snd_evs
    using that unfolding attempt_loop_failing [of demo_busy ?n "[]" 0 100, OF one] two by simp
  from this [OF refl] have "map at_attempt atts = [1, 2] \<and> r = Done []" unfolding a by (simp add: failed_attempt_def)
  then have m: "map at_attempt atts = [1, 2]" and r: "r = Done []" by simp_all
  note b = attempts_bounded [OF a]
  have "length atts \<le> max 1 (unat (rt_max_attempts (nd_retry ?n)))"
    "\<forall>a \<in> set (butlast atts). demo_busy ?n [] (at_attempt a) 100 = ExecTimeout
      \<or> (\<exists>why. demo_busy ?n [] (at_attempt a) 100 = ExecFailed True why)"
    by (rule b [THEN conjunct2, THEN conjunct2, THEN conjunct1],
      rule b [THEN conjunct2, THEN conjunct2, THEN conjunct2, THEN conjunct2, THEN conjunct2, THEN conjunct1])
  then show ?thesis
    by (intro exI conjI) (rule a [unfolded r] m | assumption)+
qed

text \<open>The report says success exactly when no node failed and the success condition holds on the
  outputs of the nodes that succeeded.\<close>

theorem run_success_iff:
  assumes "distinct (map nd_id (op_nodes oi))" "known_ends (op_nodes oi) (op_edges oi)"
    and "run_state_of oi exec = Some st" "run blake3 ser oi exec = Some rep"
  shows "rr_success rep \<longleftrightarrow> (\<forall>r \<in> set (rr_records rep). \<forall>reason. nr_state r \<noteq> Failed reason)
     \<and> evaluate_success (op_success oi) (rs_outputs st)"
proof -
  have rcs: "rr_records rep = map (\<lambda>n. the (rs_records (finish st) (nd_id n))) (op_nodes oi)"
    and ok: "rr_success rep = (\<not> rs_failed st \<and> evaluate_success (op_success oi) (rs_outputs st))"
    using assms(3,4) by (auto simp: run_def Let_def)
  have "\<not> rs_failed st \<longleftrightarrow> (\<forall>r \<in> set (rr_records rep). \<forall>reason. nr_state r \<noteq> Failed reason)"
  proof (cases "rs_failed st")
    case True
    then have "run_aborted oi exec st" using run_state_cases [OF assms(1-3)] by (auto simp: run_complete_def)
    from finish_aborted [OF this] obtain x reason r where "x \<in> node_ids oi"
      "rs_records (finish st) x = Some r" "nr_state r = Failed reason" by fastforce
    then show ?thesis using True by (force simp: rcs node_ids_def)
  next
    case False
    then have c: "run_complete oi exec st" using run_state_cases [OF assms(1-3)] by (auto simp: run_aborted_def)
    have "nr_state (the (rs_records (finish st) (nd_id n))) \<noteq> Failed reason" if "n \<in> set (op_nodes oi)" for n reason
      using finish_complete [OF c, of "nd_id n"] that by (auto simp: node_ids_def split: if_splits)
    then show ?thesis using False by (auto simp: rcs)
  qed
  then show ?thesis using ok by blast
qed

theorem run_success_iff_witness:
  "\<exists>st rep. run_state_of demo_opening (untimed demo_rexec) = Some st
    \<and> run (\<lambda>bs. bs) (\<lambda>v. []) demo_opening (untimed demo_rexec) = Some rep
    \<and> (rr_success rep \<longleftrightarrow> (\<forall>r \<in> set (rr_records rep). \<forall>reason. nr_state r \<noteq> Failed reason)
        \<and> evaluate_success (op_success demo_opening) (rs_outputs st))"
proof -
  obtain st where st: "run_state_of demo_opening (untimed demo_rexec) = Some st" by (rule demo_result)
  then obtain rep where rep: "run (\<lambda>bs. bs) (\<lambda>v. []) demo_opening (untimed demo_rexec) = Some rep"
    by (simp add: run_def Let_def)
  from run_success_iff [OF demo_wf st rep] st rep show ?thesis by blast
qed

text \<open>C7: Replaying the trace of a run with the executor that produced it, when it never errors and
  no timer fired, finds no mismatch and arrives at the recorded hash.\<close>

theorem replay_reproduces_run:
  assumes "\<And>n i a. \<exists>e. rexec n i a = Inr e"
    and "distinct (map nd_id (op_nodes oi))" "known_ends (op_nodes oi) (op_edges oi)"
    and "run blake3 ser oi (untimed rexec) = Some rep"
  shows "replay blake3 ser rexec oi (rr_nodes rep) =
    Inr \<lparr>rp_matches = True, rp_mismatches = [], rp_hash = rr_final_hash rep\<rparr>"
  by (rule replay_own_run [OF assms])

theorem replay_reproduces_run_witness:
  "\<exists>rep. run (\<lambda>bs. bs) (\<lambda>v. []) demo_opening (untimed demo_rexec) = Some rep
    \<and> replay (\<lambda>bs. bs) (\<lambda>v. []) demo_rexec demo_opening (rr_nodes rep) =
        Inr \<lparr>rp_matches = True, rp_mismatches = [], rp_hash = rr_final_hash rep\<rparr>"
proof -
  obtain st where st: "run_state_of demo_opening (untimed demo_rexec) = Some st" by (rule demo_result)
  then obtain rep where rep: "run (\<lambda>bs. bs) (\<lambda>v. []) demo_opening (untimed demo_rexec) = Some rep"
    by (simp add: run_def Let_def)
  have "\<exists>e. demo_rexec n i a = Inr e" for n i a by (simp add: demo_rexec_def)
  from replay_reproduces_run [OF this demo_wf rep] rep show ?thesis by blast
qed

text \<open>A replay that matches has, for every node recorded as succeeded, executed the node again
  and obtained outputs with the recorded hash; nothing is assumed of the hash function.\<close>

theorem replay_match_sound:
  assumes "replay blake3 ser rexec oi trace = Inr rep" "rp_matches rep" "t \<in> set trace"
    and "nt_final_attempt t = Some a" "nt_state t = Succeeded" "att_output_hash a = Some (to_hex h)"
  shows "\<exists>n o'. n \<in> set (op_nodes oi) \<and> nd_id n = nt_id t
    \<and> rexec n (att_inputs a) (att_attempt a) = Inr (Completed o') \<and> outputs_hash blake3 ser o' = h"
  using replay_sound [OF assms(1-5)] assms(6) by (auto dest: to_hex_inject)

theorem replay_match_sound_witness:
  "let a = \<lparr>att_attempt = 1, att_inputs = [], att_outputs = None, att_output_hash = Some (to_hex [111, 117, 116]), att_error = None\<rparr>;
       t = \<lparr>nt_id = ''a'', nt_state = Succeeded, nt_final_attempt = Some a\<rparr>
   in \<exists>n o'. demo_rexec n [] 1 = Inr (Completed o') \<and> outputs_hash (\<lambda>bs. bs) (\<lambda>v. []) o' = [111, 117, 116]"
proof -
  define a where "a = \<lparr>att_attempt = 1, att_inputs = [], att_outputs = None,
    att_output_hash = Some (to_hex [111, 117, 116]), att_error = None\<rparr>"
  define t where "t = \<lparr>nt_id = ''a'', nt_state = Succeeded, nt_final_attempt = Some a\<rparr>"
  have f: "replay_node (outputs_hash (\<lambda>bs. bs) (\<lambda>v. [])) demo_rexec demo_opening t = Inr ([], [111, 117, 116])"
    by (simp add: replay_node_def t_def a_def demo_opening_def demo_node_def demo_rexec_def
        compare_execution_def outputs_hash_def port_bytes_def utf8_bytes_def)
  then obtain rep where rep: "replay (\<lambda>bs. bs) (\<lambda>v. []) demo_rexec demo_opening [t] = Inr rep" "rp_matches rep"
    by (simp add: replay_def Let_def)
  show ?thesis
    using replay_match_sound [OF rep, of t a "[111, 117, 116]"] by (auto simp: t_def a_def Let_def)
qed

end
