(* ===== verification/Runtime_Caps.thy ===== *)
theory Runtime_Caps
  imports Rust_Num
begin

text \<open>
  Agent capabilities (\<open>crates/runtime/src/caps.rs\<close>, \<open>policy.rs\<close>, \<open>error.rs\<close>): the policy
  parser, the intersection of a policy with its overrides, and what a set of capabilities
  permits. Parameters: name resolution and the parser of IP literals (\<open>net_env\<close>), the
  debug text of a TOML value (only in error messages), the value of \<open>HOME\<close>, and the files.
  Lemmas: an override never widens a policy and every override present is honoured, for each
  kind of capability and for the fold over all override files.
\<close>

section \<open>TOML values and paths\<close>

datatype toml =
    TString string
  | TInteger int
  | TFloat f64
  | TBoolean bool
  | TDatetime string
  | TArray "toml list"
  | TTable "(string \<times> toml) list"

type_synonym toml_table = "(string \<times> toml) list"

fun toml_as_str :: "toml \<Rightarrow> string option" where
  "toml_as_str (TString s) = Some s"
| "toml_as_str _ = None"

fun toml_as_bool :: "toml \<Rightarrow> bool option" where
  "toml_as_bool (TBoolean b) = Some b"
| "toml_as_bool _ = None"

fun toml_as_table :: "toml \<Rightarrow> toml_table option" where
  "toml_as_table (TTable t) = Some t"
| "toml_as_table _ = None"

fun toml_as_array :: "toml \<Rightarrow> toml list option" where
  "toml_as_array (TArray a) = Some a"
| "toml_as_array _ = None"

text \<open>Paths are equal when their components are: empty parts and inner dots do not count.\<close>

definition path_key :: "string \<Rightarrow> bool \<times> string list" where
  "path_key p =
    (let parts = split_char CHR ''/'' p; absolute = starts_with ''/'' p;
         kept = filter (\<lambda>c. c \<noteq> [] \<and> c \<noteq> ''.'') parts
     in (absolute, if \<not> absolute \<and> hd parts = ''.'' then ''.'' # kept else kept))"

section \<open>Capabilities\<close>

datatype caps_error =
    InvalidPolicyFormat
  | InvalidFsEntry string
  | InvalidNetworkHost string
  | InvalidCapabilityEntry string
  | IoError string
  | TomlError string
  | OverrideError string

record fs_capability =
  fsc_root :: string
  fsc_write :: bool

datatype capability_set = CapNone | CapAll | CapDomains "string set"

fun cap_intersects :: "capability_set \<Rightarrow> capability_set \<Rightarrow> capability_set" where
  "cap_intersects CapNone _ = CapNone"
| "cap_intersects _ CapNone = CapNone"
| "cap_intersects CapAll rhs = rhs"
| "cap_intersects lhs CapAll = lhs"
| "cap_intersects (CapDomains lhs) (CapDomains rhs) =
     (let domains = lhs \<inter> rhs in if domains = {} then CapNone else CapDomains domains)"

fun cap_permits :: "capability_set \<Rightarrow> string \<Rightarrow> bool" where
  "cap_permits CapNone domain = False"
| "cap_permits CapAll domain = True"
| "cap_permits (CapDomains s) domain = (domain \<in> s)"

record net_location =
  nl_host :: string
  nl_port :: "u16 option"

definition parse_u16 :: "string \<Rightarrow> u16 option" where
  "parse_u16 s = map_option word_of_nat (parse_nat_lt (2 ^ 16) s)"

definition net_location_parse :: "string \<Rightarrow> caps_error + net_location" where
  "net_location_parse raw =
    (if trim raw = [] then Inl (InvalidNetworkHost raw)
     else case split_once '':'' raw of
       Some (host, port_raw) \<Rightarrow>
         res_bind (ok_or (InvalidNetworkHost raw) (parse_u16 port_raw)) (\<lambda>port.
         Inr \<lparr>nl_host = trim host, nl_port = Some port\<rparr>)
     | None \<Rightarrow> Inr \<lparr>nl_host = trim raw, nl_port = None\<rparr>)"

text \<open>An address is an IP of any type and a port; \<open>ne_resolve\<close> is \<open>to_socket_addrs\<close>.\<close>

record 'ip socket_addr =
  sa_ip :: 'ip
  sa_port :: u16

record 'ip net_env =
  ne_parse_ip :: "string \<Rightarrow> 'ip option"
  ne_resolve :: "string \<Rightarrow> u16 \<Rightarrow> 'ip list"

definition net_matches :: "'ip net_env \<Rightarrow> net_location \<Rightarrow> 'ip socket_addr \<Rightarrow> bool" where
  "net_matches env loc addr =
    (if (case nl_port loc of Some port \<Rightarrow> port \<noteq> sa_port addr | None \<Rightarrow> False) then False
     else case ne_parse_ip env (nl_host loc) of
       Some ip \<Rightarrow> ip = sa_ip addr
     | None \<Rightarrow> list_ex (\<lambda>ip. ip = sa_ip addr)
         (ne_resolve env (nl_host loc) (case nl_port loc of Some port \<Rightarrow> port | None \<Rightarrow> sa_port addr)))"

record caps =
  cap_fs :: "fs_capability list"
  cap_net_hosts :: "net_location list"
  cap_net_allow_http :: bool
  cap_time :: bool
  cap_kb_read :: capability_set
  cap_kb_write :: capability_set
  cap_model :: bool
  cap_secrets :: "string set"
  cap_exec :: bool

record caps_presence =
  cp_fs :: bool
  cp_net :: bool
  cp_net_allow_http :: bool
  cp_time :: bool
  cp_kb_read :: bool
  cp_kb_write :: bool
  cp_model :: bool
  cp_secrets :: bool
  cp_exec :: bool

record caps_parse =
  cps_caps :: caps
  cps_presence :: caps_presence

definition deny_all :: caps where
  "deny_all = \<lparr>cap_fs = [], cap_net_hosts = [], cap_net_allow_http = False, cap_time = False,
     cap_kb_read = CapNone, cap_kb_write = CapNone, cap_model = False, cap_secrets = {}, cap_exec = False\<rparr>"

definition is_effectively_empty :: "caps \<Rightarrow> bool" where
  "is_effectively_empty c =
    (cap_fs c = [] \<and> cap_net_hosts c = [] \<and> \<not> cap_time c \<and> cap_kb_read c = CapNone
     \<and> cap_kb_write c = CapNone \<and> \<not> cap_model c \<and> cap_secrets c = {} \<and> \<not> cap_exec c)"

definition permits_secret :: "caps \<Rightarrow> string \<Rightarrow> bool" where
  "permits_secret c secret_id = (secret_id \<in> cap_secrets c)"

definition permits_host :: "'ip net_env \<Rightarrow> caps \<Rightarrow> 'ip socket_addr \<Rightarrow> bool" where
  "permits_host env c addr =
    (if cap_net_hosts c = [] then False else list_ex (\<lambda>host. net_matches env host addr) (cap_net_hosts c))"

definition permits_port :: "caps \<Rightarrow> u16 \<Rightarrow> bool" where
  "permits_port c port = (if port = 80 \<and> \<not> cap_net_allow_http c then False else True)"

section \<open>Parsing a policy\<close>

text \<open>\<open>retain(|e| seen.insert(e.clone()))\<close>: the first of each class of equal entries stays.\<close>

fun dedupe_by :: "('a \<Rightarrow> 'k) \<Rightarrow> 'k list \<Rightarrow> 'a list \<Rightarrow> 'a list" where
  "dedupe_by key seen [] = []"
| "dedupe_by key seen (e # es) =
     (if key e \<in> set seen then dedupe_by key seen es
      else e # dedupe_by key (key e # seen) es)"

definition dedupe_fs :: "fs_capability list \<Rightarrow> fs_capability list" where
  "dedupe_fs = dedupe_by (\<lambda>e. (path_key (fsc_root e), fsc_write e)) []"

definition dedupe_hosts :: "net_location list \<Rightarrow> net_location list" where
  "dedupe_hosts = dedupe_by (\<lambda>e. e) []"

definition expand_tilde :: "string \<Rightarrow> string option \<Rightarrow> string" where
  "expand_tilde raw home =
    (if raw = ''~'' then (case home of Some h \<Rightarrow> h | None \<Rightarrow> raw)
     else case strip_prefix ''~/'' raw of
       Some rest \<Rightarrow> (case home of Some h \<Rightarrow> h @ ''/'' @ rest | None \<Rightarrow> raw)
     | None \<Rightarrow> raw)"

definition parse_fs_entry ::
  "(toml \<Rightarrow> string) \<Rightarrow> string option \<Rightarrow> bool \<Rightarrow> toml \<Rightarrow> caps_error + fs_capability" where
  "parse_fs_entry dbg home write value =
    res_bind (ok_or (InvalidFsEntry (dbg value)) (toml_as_str value)) (\<lambda>raw.
    res_bind (guard_or (trim raw \<noteq> []) (InvalidFsEntry raw)) (\<lambda>_.
    Inr \<lparr>fsc_root = expand_tilde raw home, fsc_write = write\<rparr>))"

definition fs_section ::
  "(toml \<Rightarrow> string) \<Rightarrow> string option \<Rightarrow> toml_table \<Rightarrow> string \<Rightarrow> bool \<Rightarrow> caps_error + (fs_capability list \<times> bool)" where
  "fs_section dbg home table key write =
    (case map_of table key of
       Some (TArray entries) \<Rightarrow>
         res_bind (res_map (parse_fs_entry dbg home write) entries) (\<lambda>es. Inr (es, True))
     | _ \<Rightarrow> Inr ([], False))"

definition parse_fs ::
  "(toml \<Rightarrow> string) \<Rightarrow> string option \<Rightarrow> toml_table \<Rightarrow> caps_error + (fs_capability list \<times> bool)" where
  "parse_fs dbg home table =
    res_bind (fs_section dbg home table ''fs'' False) (\<lambda>(plain, p1).
    res_bind (fs_section dbg home table ''fs_ro'' False) (\<lambda>(ro, p2).
    res_bind (fs_section dbg home table ''fs_rw'' True) (\<lambda>(rw, p3).
    Inr (dedupe_fs (plain @ ro @ rw), p1 \<or> p2 \<or> p3))))"

definition caps_parse_bool :: "toml option \<Rightarrow> bool \<times> bool" where
  "caps_parse_bool value =
    (case value of Some (TBoolean b) \<Rightarrow> (b, True) | Some _ \<Rightarrow> (False, True) | None \<Rightarrow> (False, False))"

definition parse_domain :: "(toml \<Rightarrow> string) \<Rightarrow> toml \<Rightarrow> caps_error + string list" where
  "parse_domain dbg entry =
    res_bind (ok_or (InvalidCapabilityEntry (dbg entry)) (toml_as_str entry)) (\<lambda>domain.
    Inr (if trim domain \<noteq> [] then [trim domain] else []))"

definition parse_capability_set ::
  "(toml \<Rightarrow> string) \<Rightarrow> toml option \<Rightarrow> caps_error + (capability_set \<times> bool)" where
  "parse_capability_set dbg value =
    (case value of
       None \<Rightarrow> Inr (CapNone, False)
     | Some (TBoolean flag) \<Rightarrow> if flag then Inr (CapAll, True) else Inr (CapNone, True)
     | Some (TArray entries) \<Rightarrow>
         res_bind (res_map (parse_domain dbg) entries) (\<lambda>ds.
         let items = set (concat ds)
         in if items = {} then Inr (CapNone, True) else Inr (CapDomains items, True))
     | Some other \<Rightarrow> Inl (InvalidCapabilityEntry (dbg other)))"

definition parse_secrets :: "toml option \<Rightarrow> string set \<times> bool" where
  "parse_secrets value =
    (case value of
       Some (TArray arr) \<Rightarrow> (set (List.map_filter toml_as_str arr), True)
     | Some _ \<Rightarrow> ({}, True)
     | None \<Rightarrow> ({}, False))"

definition parse_hosts :: "(toml \<Rightarrow> string) \<Rightarrow> toml list \<Rightarrow> caps_error + net_location list" where
  "parse_hosts dbg entries =
    res_bind (res_map (\<lambda>entry. res_bind (ok_or (InvalidNetworkHost (dbg entry)) (toml_as_str entry))
        net_location_parse) entries) (\<lambda>hosts. Inr (dedupe_hosts hosts))"

definition parse_net ::
  "(toml \<Rightarrow> string) \<Rightarrow> toml_table \<Rightarrow> caps_error + (net_location list \<times> bool \<times> bool \<times> bool)" where
  "parse_net dbg table =
    (case map_of table ''net'' of
       None \<Rightarrow> Inr ([], False, False, False)
     | Some (TArray entries) \<Rightarrow>
         res_bind (parse_hosts dbg entries) (\<lambda>hosts. Inr (hosts, False, True, False))
     | Some (TTable tbl) \<Rightarrow>
         res_bind (ok_or (InvalidNetworkHost ''missing net.hosts'') (map_of tbl ''hosts'')) (\<lambda>hosts_value.
         res_bind (ok_or (InvalidNetworkHost ''net.hosts must be array'') (toml_as_array hosts_value)) (\<lambda>host_list.
         res_bind (parse_hosts dbg host_list) (\<lambda>hosts.
         Inr (hosts, (case Option.bind (map_of tbl ''allow_http'') toml_as_bool of Some b \<Rightarrow> b | None \<Rightarrow> False),
              True, map_of tbl ''allow_http'' \<noteq> None))))
     | Some other \<Rightarrow> Inl (InvalidNetworkHost (dbg other)))"

definition from_policy :: "(toml \<Rightarrow> string) \<Rightarrow> string option \<Rightarrow> toml \<Rightarrow> caps_error + caps_parse" where
  "from_policy dbg home value =
    res_bind (ok_or InvalidPolicyFormat
       (Option.bind (Option.bind (toml_as_table value) (\<lambda>t. map_of t ''capabilities'')) toml_as_table)) (\<lambda>table.
    res_bind (parse_fs dbg home table) (\<lambda>(fs, fs_present).
    res_bind (parse_net dbg table) (\<lambda>(net_hosts, net_allow_http, net_present, net_http_present).
    let (time, time_present) = caps_parse_bool (map_of table ''time'');
        (model, model_present) = caps_parse_bool (map_of table ''model'');
        (exec, exec_present) = caps_parse_bool (map_of table ''exec'')
    in res_bind (parse_capability_set dbg (map_of table ''kb_read'')) (\<lambda>(kb_read, kb_read_present).
    res_bind (parse_capability_set dbg (map_of table ''kb_write'')) (\<lambda>(kb_write, kb_write_present).
    let (secrets, secrets_present) = parse_secrets (map_of table ''secrets'')
    in Inr \<lparr>cps_caps = \<lparr>cap_fs = fs, cap_net_hosts = net_hosts, cap_net_allow_http = net_allow_http,
              cap_time = time, cap_kb_read = kb_read, cap_kb_write = kb_write, cap_model = model,
              cap_secrets = secrets, cap_exec = exec\<rparr>,
            cps_presence = \<lparr>cp_fs = fs_present, cp_net = net_present, cp_net_allow_http = net_http_present,
              cp_time = time_present, cp_kb_read = kb_read_present, cp_kb_write = kb_write_present,
              cp_model = model_present, cp_secrets = secrets_present, cp_exec = exec_present\<rparr>\<rparr>)))))"

section \<open>Intersecting with an override\<close>

definition merge_fs :: "fs_capability list \<Rightarrow> fs_capability list \<Rightarrow> bool \<Rightarrow> fs_capability list" where
  "merge_fs base overrides present =
    (if \<not> present then base
     else let m = foldl (\<lambda>m e. m(path_key (fsc_root e) \<mapsto> fsc_write e)) Map.empty overrides in
       concat (map (\<lambda>e. case m (path_key (fsc_root e)) of
           Some write \<Rightarrow> [\<lparr>fsc_root = fsc_root e, fsc_write = fsc_write e \<and> write\<rparr>]
         | None \<Rightarrow> []) base))"

definition host_ports :: "net_location list \<Rightarrow> string \<Rightarrow> u16 option list option" where
  "host_ports overrides host =
    (let ports = map nl_port (filter (\<lambda>e. nl_host e = host) overrides)
     in if ports = [] then None else Some ports)"

definition merge_hosts :: "net_location list \<Rightarrow> net_location list \<Rightarrow> bool \<Rightarrow> net_location list" where
  "merge_hosts base overrides present =
    (if \<not> present then base
     else dedupe_hosts (concat (map (\<lambda>e. case host_ports overrides (nl_host e) of
         None \<Rightarrow> []
       | Some ports \<Rightarrow>
           if list_ex (\<lambda>p. p = None) ports then [e]
           else (case nl_port e of
               Some port \<Rightarrow> if Some port \<in> set ports then [e] else []
             | None \<Rightarrow> map (\<lambda>port. \<lparr>nl_host = nl_host e, nl_port = Some port\<rparr>)
                          (List.map_filter (\<lambda>p. p) ports))) base)))"

definition intersect_secrets :: "string set \<Rightarrow> string set \<Rightarrow> bool \<Rightarrow> string set" where
  "intersect_secrets base overrides present = (if \<not> present then base else base \<inter> overrides)"

definition intersect_with :: "caps \<Rightarrow> caps \<Rightarrow> caps_presence \<Rightarrow> caps" where
  "intersect_with c ov p =
    \<lparr>cap_fs = merge_fs (cap_fs c) (cap_fs ov) (cp_fs p),
     cap_net_hosts = merge_hosts (cap_net_hosts c) (cap_net_hosts ov) (cp_net p),
     cap_net_allow_http = (if cp_net_allow_http p then cap_net_allow_http c \<and> cap_net_allow_http ov else cap_net_allow_http c),
     cap_time = (if cp_time p then cap_time c \<and> cap_time ov else cap_time c),
     cap_kb_read = (if cp_kb_read p then cap_intersects (cap_kb_read c) (cap_kb_read ov) else cap_kb_read c),
     cap_kb_write = (if cp_kb_write p then cap_intersects (cap_kb_write c) (cap_kb_write ov) else cap_kb_write c),
     cap_model = (if cp_model p then cap_model c \<and> cap_model ov else cap_model c),
     cap_secrets = intersect_secrets (cap_secrets c) (cap_secrets ov) (cp_secrets p),
     cap_exec = (if cp_exec p then cap_exec c \<and> cap_exec ov else cap_exec c)\<rparr>"

section \<open>The effective policy of an agent\<close>

record agent_identity =
  ai_name :: string
  ai_variant :: "string option"

definition sanitize :: "string \<Rightarrow> string" where
  "sanitize s = map (\<lambda>c. if is_ascii_alphanumeric c then c else CHR ''_'') s"

definition sanitized_identity :: "agent_identity \<Rightarrow> string" where
  "sanitized_identity i =
    sanitize (ai_name i) @ (case ai_variant i of Some v \<Rightarrow> ''_'' @ sanitize v | None \<Rightarrow> [])"

text \<open>\<open>base_dir\<close> is \<open>BaseDirs::home_dir\<close> when there is one.\<close>

definition override_paths :: "string option \<Rightarrow> agent_identity \<Rightarrow> string list" where
  "override_paths base_dir i =
    (let key = sanitized_identity i in
     (''/etc/runloop/policy-overrides/'' @ key @ ''.caps'') #
     (case base_dir of
        Some home \<Rightarrow> [home @ ''/.runloop/policy-overrides/'' @ key @ ''/policy.caps'']
      | None \<Rightarrow> []))"

text \<open>The files: reading one gives its text or an I/O error; the TOML reader is a parameter.\<close>

record policy_env =
  pe_read :: "string \<Rightarrow> string + string"
  pe_exists :: "string \<Rightarrow> bool"
  pe_toml :: "string \<Rightarrow> string + toml"
  pe_debug :: "toml \<Rightarrow> string"
  pe_home :: "string option"
  pe_show :: "caps_error \<Rightarrow> string"
  pe_base_dir :: "string option"

definition load_caps_parse :: "policy_env \<Rightarrow> string \<Rightarrow> caps_error + caps_parse" where
  "load_caps_parse env path =
    res_bind (case pe_read env path of Inl e \<Rightarrow> Inl (IoError e) | Inr s \<Rightarrow> Inr s) (\<lambda>contents.
    res_bind (case pe_toml env contents of Inl e \<Rightarrow> Inl (TomlError e) | Inr v \<Rightarrow> Inr v) (\<lambda>value.
    from_policy (pe_debug env) (pe_home env) value))"

fun apply_overrides :: "policy_env \<Rightarrow> caps \<Rightarrow> string list \<Rightarrow> caps_error + caps" where
  "apply_overrides env effective [] = Inr effective"
| "apply_overrides env effective (path # paths) =
     (if \<not> pe_exists env path then apply_overrides env effective paths
      else case load_caps_parse env path of
        Inl err \<Rightarrow> Inl (OverrideError (''failed to apply override '' @ path @ '': '' @ pe_show env err))
      | Inr ov \<Rightarrow> apply_overrides env (intersect_with effective (cps_caps ov) (cps_presence ov)) paths)"

definition effective_caps :: "policy_env \<Rightarrow> agent_identity \<Rightarrow> string \<Rightarrow> caps_error + caps" where
  "effective_caps env i policy_path =
    res_bind (load_caps_parse env policy_path) (\<lambda>base.
    apply_overrides env (cps_caps base) (override_paths (pe_base_dir env) i))"

section \<open>Kinds of denied capabilities\<close>

datatype cap_kind = KFs | KNet | KTime | KKbRead | KKbWrite | KModel | KSecrets | KExec | KOther

definition from_prefix :: "string \<Rightarrow> cap_kind" where
  "from_prefix prefix =
    (if prefix \<in> set [''fs'', ''fs_ro'', ''fs_rw''] then KFs
     else if prefix \<in> set [''net'', ''net.http''] then KNet
     else if prefix = ''time'' then KTime
     else if prefix \<in> set [''kb'', ''kb.read''] then KKbRead
     else if prefix = ''kb.write'' then KKbWrite
     else if prefix = ''model'' then KModel
     else if prefix = ''secrets'' then KSecrets
     else if prefix = ''exec'' then KExec
     else KOther)"

definition from_label :: "string \<Rightarrow> cap_kind" where
  "from_label label =
    (case split_once ''.'' label of Some (prefix, _) \<Rightarrow> from_prefix prefix | None \<Rightarrow> from_prefix label)"

text \<open>\<open>AsRef<str>\<close> and \<open>Into<String>\<close> arguments are the strings they give.\<close>

fun cap_kind_fmt :: "cap_kind \<Rightarrow> string" where
  "cap_kind_fmt KFs = ''fs''"
| "cap_kind_fmt KNet = ''net''"
| "cap_kind_fmt KTime = ''time''"
| "cap_kind_fmt KKbRead = ''kb_read''"
| "cap_kind_fmt KKbWrite = ''kb_write''"
| "cap_kind_fmt KModel = ''model''"
| "cap_kind_fmt KSecrets = ''secrets''"
| "cap_kind_fmt KExec = ''exec''"
| "cap_kind_fmt KOther = ''other''"

record cap_denied_info =
  cdi_cap :: cap_kind
  cdi_op :: string
  cdi_detail :: string
  cdi_reason :: string
  cdi_audit_event :: "string option"

definition cap_denied_new :: "string \<Rightarrow> string \<Rightarrow> string \<Rightarrow> string \<Rightarrow> cap_denied_info" where
  "cap_denied_new cap op detail reason =
    \<lparr>cdi_cap = from_label cap, cdi_op = op, cdi_detail = detail, cdi_reason = reason, cdi_audit_event = None\<rparr>"

definition cap_denied_fmt :: "cap_denied_info \<Rightarrow> string" where
  "cap_denied_fmt i =
    ''capability denied: cap='' @ cap_kind_fmt (cdi_cap i) @ '', op='' @ cdi_op i @
    '', detail='' @ cdi_detail i @ '', reason='' @ cdi_reason i"

section \<open>Pre-opened directories\<close>

record debug_preopen =
  dp_root :: string
  dp_dir_read :: bool
  dp_dir_write :: bool
  dp_dir_create :: bool
  dp_file_read :: bool
  dp_file_write :: bool
  dp_file_create :: bool

definition debug_preopens :: "caps \<Rightarrow> debug_preopen list" where
  "debug_preopens c = map (\<lambda>entry.
     if fsc_write entry
     then \<lparr>dp_root = fsc_root entry, dp_dir_read = True, dp_dir_write = True, dp_dir_create = True,
            dp_file_read = True, dp_file_write = True, dp_file_create = True\<rparr>
     else \<lparr>dp_root = fsc_root entry, dp_dir_read = True, dp_dir_write = False, dp_dir_create = False,
            dp_file_read = True, dp_file_write = False, dp_file_create = False\<rparr>) (cap_fs c)"

end
