(* ===== verification/Runtime_Caps_Meet.thy ===== *)
theory Runtime_Caps_Meet
  imports Runtime_Caps
begin

text \<open>
  What capabilities permit and how overrides restrict them. The interface is a locale of
  meets: a combination of two grants permits at most what both permit (\<open>capability_meet\<close>), or
  exactly that (\<open>exact_meet\<close>). Each kind of capability of \<open>crates/runtime/src/caps.rs\<close> is an
  interpretation, and so is the whole record of capabilities with its presence flags
  (\<open>restriction\<close>), from which the statement on all override files follows.
\<close>

section \<open>Interfaces\<close>

locale capability_meet =
  fixes permits :: "'c \<Rightarrow> 'p \<Rightarrow> bool"
    and meet :: "'c \<Rightarrow> 'c \<Rightarrow> 'c"
  assumes lower: "permits (meet a b) p \<Longrightarrow> permits a p \<and> permits b p"
begin

lemma never_widens: "permits (meet a b) p \<Longrightarrow> permits a p"
  using lower by blast

lemma fold_lower:
  "permits (foldl meet a bs) p \<Longrightarrow> permits a p \<and> (\<forall>b \<in> set bs. permits b p)"
proof (induction bs arbitrary: a)
  case (Cons b bs)
  from Cons.prems have "permits (foldl meet (meet a b) bs) p" by simp
  from Cons.IH [OF this] lower [of a b p] show ?case by simp
qed simp

end

locale exact_meet = capability_meet +
  assumes both: "permits a p \<Longrightarrow> permits b p \<Longrightarrow> permits (meet a b) p"
begin

lemma permits_meet: "permits (meet a b) p \<longleftrightarrow> permits a p \<and> permits b p"
  using lower both by blast

lemma permits_fold: "permits (foldl meet a bs) p \<longleftrightarrow> permits a p \<and> (\<forall>b \<in> set bs. permits b p)"
  by (induction bs arbitrary: a) (auto simp: permits_meet)

end

text \<open>A grant restricted by something of another type, here an override with its presence flags.\<close>

locale restriction =
  fixes permits :: "'c \<Rightarrow> 'p \<Rightarrow> bool"
    and allows :: "'o \<Rightarrow> 'p \<Rightarrow> bool"
    and restrict :: "'c \<Rightarrow> 'o \<Rightarrow> 'c"
  assumes restricts: "permits (restrict c ov) p \<Longrightarrow> permits c p \<and> allows ov p"
begin

lemma all_restrict:
  "permits (foldl restrict c ovs) p \<Longrightarrow> permits c p \<and> (\<forall>ov \<in> set ovs. allows ov p)"
proof (induction ovs arbitrary: c)
  case (Cons ov ovs)
  from Cons.prems have "permits (foldl restrict (restrict c ov) ovs) p" by simp
  from Cons.IH [OF this] restricts [of c ov p] show ?case by simp
qed simp

end

section \<open>Deduplication\<close>

lemma set_dedupe_by_subset: "set (dedupe_by key seen es) \<subseteq> set es"
  by (induction key seen es rule: dedupe_by.induct) auto

lemma dedupe_by_keys: "key ` set (dedupe_by key seen es) = key ` set es - set seen"
  by (induction key seen es rule: dedupe_by.induct) auto

lemma dedupe_by_distinct: "distinct (map key (dedupe_by key seen es)) \<and> key ` set (dedupe_by key seen es) \<inter> set seen = {}"
  by (induction key seen es rule: dedupe_by.induct) auto

lemma set_dedupe_hosts [simp]: "set (dedupe_hosts es) = set es"
  using dedupe_by_keys [of "\<lambda>e. e" "[]" es] by (simp add: dedupe_hosts_def)

lemma sorted_dedupe_by: "sorted_wrt r es \<Longrightarrow> sorted_wrt r (dedupe_by key seen es)"
proof (induction key seen es rule: dedupe_by.induct)
  case (2 key seen e es)
  then show ?case using set_dedupe_by_subset [of key "key e # seen" es] by auto
qed simp

section \<open>Domain sets and secrets\<close>

interpretation kb: exact_meet cap_permits cap_intersects
proof unfold_locales
  fix a b :: capability_set and p
  have e: "cap_permits (cap_intersects a b) p \<longleftrightarrow> cap_permits a p \<and> cap_permits b p"
    by (cases a; cases b) (auto simp: Let_def)
  show "cap_permits (cap_intersects a b) p \<Longrightarrow> cap_permits a p \<and> cap_permits b p" using e by blast
  show "cap_permits a p \<Longrightarrow> cap_permits b p \<Longrightarrow> cap_permits (cap_intersects a b) p" using e by blast
qed

interpretation secrets: exact_meet "\<lambda>s i. i \<in> s" "\<lambda>a b. intersect_secrets a b True"
  by unfold_locales (auto simp: intersect_secrets_def)

section \<open>File system roots\<close>

definition fs_permits :: "fs_capability list \<Rightarrow> string \<times> bool \<Rightarrow> bool" where
  "fs_permits fs rq = (\<exists>e \<in> set fs. path_key (fsc_root e) = path_key (fst rq) \<and> (snd rq \<longrightarrow> fsc_write e))"

definition override_map :: "fs_capability list \<Rightarrow> bool \<times> string list \<Rightarrow> bool option" where
  "override_map ovs = foldl (\<lambda>m e. m(path_key (fsc_root e) \<mapsto> fsc_write e)) Map.empty ovs"

lemma override_map_snoc:
  "override_map (ovs @ [e]) = (override_map ovs)(path_key (fsc_root e) \<mapsto> fsc_write e)"
  by (simp add: override_map_def)

lemma override_map_Some:
  "override_map ovs k = Some w \<Longrightarrow> \<exists>e \<in> set ovs. path_key (fsc_root e) = k \<and> fsc_write e = w"
proof (induction ovs arbitrary: w rule: rev_induct)
  case (snoc e ovs)
  then show ?case by (auto simp: override_map_snoc split: if_splits)
qed (simp add: override_map_def)

text \<open>With read-only entries first, as the parser orders them, the last entry is the strongest.\<close>

definition ro_first :: "fs_capability list \<Rightarrow> bool" where
  "ro_first = sorted_wrt (\<lambda>e f. fsc_write e \<longrightarrow> fsc_write f)"

lemma override_map_strongest:
  "ro_first ovs \<Longrightarrow> e \<in> set ovs \<Longrightarrow>
     \<exists>w. override_map ovs (path_key (fsc_root e)) = Some w \<and> (fsc_write e \<longrightarrow> w)"
proof (induction ovs rule: rev_induct)
  case (snoc x ovs)
  then have "ro_first ovs" "\<forall>y \<in> set ovs. fsc_write y \<longrightarrow> fsc_write x"
    by (auto simp: ro_first_def sorted_wrt_append)
  with snoc show ?case by (auto simp: override_map_snoc)
qed simp

lemma merge_fs_set:
  "n \<in> set (merge_fs base ovs True) \<longleftrightarrow>
    (\<exists>e \<in> set base. \<exists>w. override_map ovs (path_key (fsc_root e)) = Some w
       \<and> n = \<lparr>fsc_root = fsc_root e, fsc_write = fsc_write e \<and> w\<rparr>)"
proof -
  have m: "merge_fs base ovs True = concat (map (\<lambda>e. case override_map ovs (path_key (fsc_root e)) of
           Some write \<Rightarrow> [\<lparr>fsc_root = fsc_root e, fsc_write = fsc_write e \<and> write\<rparr>] | None \<Rightarrow> []) base)"
    by (simp add: merge_fs_def override_map_def)
  have o': "n \<in> set (case r of Some write \<Rightarrow> [\<lparr>fsc_root = fsc_root e, fsc_write = fsc_write e \<and> write\<rparr>] | None \<Rightarrow> [])
      \<longleftrightarrow> (\<exists>w. r = Some w \<and> n = \<lparr>fsc_root = fsc_root e, fsc_write = fsc_write e \<and> w\<rparr>)" for r e
    by (cases r) auto
  show ?thesis unfolding m by (simp only: set_concat set_map SUP_image comp_def UN_iff o')
qed

interpretation fs: capability_meet fs_permits "\<lambda>a b. merge_fs a b True"
proof unfold_locales
  fix a b p assume "fs_permits (merge_fs a b True) p"
  then obtain n where "n \<in> set (merge_fs a b True)" "path_key (fsc_root n) = path_key (fst p)" "snd p \<longrightarrow> fsc_write n"
    by (auto simp: fs_permits_def)
  then obtain e w where e: "e \<in> set a" "override_map b (path_key (fsc_root e)) = Some w"
    "path_key (fsc_root e) = path_key (fst p)" "snd p \<longrightarrow> fsc_write e \<and> w"
    unfolding merge_fs_set by auto
  obtain o' where "o' \<in> set b" "path_key (fsc_root o') = path_key (fsc_root e)" "fsc_write o' = w"
    using override_map_Some [OF e(2)] by blast
  with e show "fs_permits a p \<and> fs_permits b p"
    unfolding fs_permits_def by metis
qed

lemma merge_fs_exact:
  assumes "ro_first ovs"
  shows "fs_permits (merge_fs base ovs True) p \<longleftrightarrow> fs_permits base p \<and> fs_permits ovs p"
proof
  assume "fs_permits base p \<and> fs_permits ovs p"
  then obtain b e where b: "b \<in> set base" "path_key (fsc_root b) = path_key (fst p)" "snd p \<longrightarrow> fsc_write b"
    and e: "e \<in> set ovs" "path_key (fsc_root e) = path_key (fst p)" "snd p \<longrightarrow> fsc_write e"
    by (auto simp: fs_permits_def)
  obtain w where "override_map ovs (path_key (fsc_root b)) = Some w" "fsc_write e \<longrightarrow> w"
    using override_map_strongest [OF assms e(1)] b(2) e(2) by auto
  then have "\<lparr>fsc_root = fsc_root b, fsc_write = fsc_write b \<and> w\<rparr> \<in> set (merge_fs base ovs True)"
    using b(1) by (auto simp: merge_fs_set)
  then show "fs_permits (merge_fs base ovs True) p"
    unfolding fs_permits_def by (rule bexI [rotated]) (use b e \<open>fsc_write e \<longrightarrow> w\<close> in simp)
qed (rule fs.lower)

section \<open>Network hosts\<close>

definition hosts_permit :: "'ip net_env \<Rightarrow> net_location list \<Rightarrow> 'ip socket_addr \<Rightarrow> bool" where
  "hosts_permit env hosts addr = (\<exists>h \<in> set hosts. net_matches env h addr)"

lemma permits_host_iff: "permits_host env c addr = hosts_permit env (cap_net_hosts c) addr"
  by (auto simp: permits_host_def hosts_permit_def list_ex_iff)

text \<open>A host without a port matches whatever the same host matches with one.\<close>

lemma net_matches_port:
  "net_matches env \<lparr>nl_host = h, nl_port = Some p\<rparr> addr \<longleftrightarrow>
     p = sa_port addr \<and> net_matches env \<lparr>nl_host = h, nl_port = None\<rparr> addr"
  by (auto simp: net_matches_def split: option.splits)

lemma host_ports_Some:
  "host_ports ovs h = Some ports \<Longrightarrow> p \<in> set ports \<Longrightarrow> \<lparr>nl_host = h, nl_port = p\<rparr> \<in> set ovs"
proof -
  assume "host_ports ovs h = Some ports" "p \<in> set ports"
  then obtain x where "x \<in> set ovs" "nl_host x = h" "nl_port x = p"
    by (auto simp: host_ports_def Let_def split: if_splits)
  moreover have "x = \<lparr>nl_host = nl_host x, nl_port = nl_port x\<rparr>" by simp
  ultimately show ?thesis by metis
qed

lemma merge_hosts_mem:
  assumes "n \<in> set (merge_hosts base ovs True)"
  obtains e p where "e \<in> set base" "nl_host e = nl_host n" "\<lparr>nl_host = nl_host n, nl_port = p\<rparr> \<in> set ovs"
    "nl_port e = nl_port n \<or> nl_port e = None" "p = nl_port n \<or> p = None"
proof -
  from assms obtain e ports where e: "e \<in> set base" and hp: "host_ports ovs (nl_host e) = Some ports"
    and n: "n \<in> set (if list_ex (\<lambda>p. p = None) ports then [e]
        else (case nl_port e of
            Some port \<Rightarrow> if Some port \<in> set ports then [e] else []
          | None \<Rightarrow> map (\<lambda>port. \<lparr>nl_host = nl_host e, nl_port = Some port\<rparr>) (List.map_filter (\<lambda>p. p) ports)))"
  proof -
    from assms obtain e where e: "e \<in> set base" and n: "n \<in> set (case host_ports ovs (nl_host e) of None \<Rightarrow> [] | Some ports \<Rightarrow>
         (if list_ex (\<lambda>p. p = None) ports then [e]
        else (case nl_port e of
            Some port \<Rightarrow> if Some port \<in> set ports then [e] else []
          | None \<Rightarrow> map (\<lambda>port. \<lparr>nl_host = nl_host e, nl_port = Some port\<rparr>) (List.map_filter (\<lambda>p. p) ports))))"
      unfolding merge_hosts_def by (simp only: set_dedupe_hosts set_concat set_map if_False not_True_eq_False UN_iff bex_simps) blast
    show thesis
    proof (cases "host_ports ovs (nl_host e)")
      case None
      then show thesis using n by simp
    next
      case (Some ports)
      then show thesis using n by (intro that [OF e Some]) simp
    qed
  qed
  show thesis
  proof (cases "list_ex (\<lambda>p. p = None) ports")
    case True
    then have "None \<in> set ports" "n = e" using n by (auto simp: list_ex_iff)
    then show thesis using host_ports_Some [OF hp, of None] e by (intro that [of e None]) auto
  next
    case False
    show thesis
    proof (cases "nl_port e")
      case None
      then obtain port where "Some port \<in> set ports" "n = \<lparr>nl_host = nl_host e, nl_port = Some port\<rparr>"
        using n False by (auto simp: List.map_filter_def)
      then show thesis using host_ports_Some [OF hp] e None by (intro that [of e "Some port"]) auto
    next
      case (Some port)
      then have "Some port \<in> set ports" "n = e" using n False by (auto split: if_splits)
      then show thesis using host_ports_Some [OF hp] e Some by (intro that [of e "Some port"]) auto
    qed
  qed
qed

interpretation net: capability_meet "hosts_permit env" "\<lambda>a b. merge_hosts a b True" for env
proof unfold_locales
  fix a b addr assume "hosts_permit env (merge_hosts a b True) addr"
  then obtain n where n: "n \<in> set (merge_hosts a b True)" "net_matches env n addr"
    by (auto simp: hosts_permit_def)
  have w: "net_matches env m addr" if h: "nl_host m = nl_host n" "nl_port m = nl_port n \<or> nl_port m = None" for m
  proof (cases "nl_port m = nl_port n")
    case True
    then have "m = n" using h(1) by simp
    then show ?thesis using n(2) by simp
  next
    case False
    then obtain p where "nl_port n = Some p" "nl_port m = None" using h(2) by (cases "nl_port n") auto
    then show ?thesis using net_matches_port [of env "nl_host n" p addr] n(2) h(1)
      by (metis (full_types) net_location.surjective old.unit.exhaust)
  qed
  show "hosts_permit env a addr \<and> hosts_permit env b addr"
  proof (rule merge_hosts_mem [OF n(1)])
    fix e p assume "e \<in> set a" "nl_host e = nl_host n" "\<lparr>nl_host = nl_host n, nl_port = p\<rparr> \<in> set b"
      "nl_port e = nl_port n \<or> nl_port e = None" "p = nl_port n \<or> p = None"
    then show "hosts_permit env a addr \<and> hosts_permit env b addr"
      using w [of e] w [of "\<lparr>nl_host = nl_host n, nl_port = p\<rparr>"] by (auto simp: hosts_permit_def)
  qed
qed

section \<open>All capabilities\<close>

datatype 'ip perm =
    PermFs string bool
  | PermNet "'ip socket_addr"
  | PermHttp
  | PermTime
  | PermKbRead string
  | PermKbWrite string
  | PermModel
  | PermSecret string
  | PermExec

fun caps_permit :: "'ip net_env \<Rightarrow> caps \<Rightarrow> 'ip perm \<Rightarrow> bool" where
  "caps_permit env c (PermFs root write) = fs_permits (cap_fs c) (root, write)"
| "caps_permit env c (PermNet addr) = permits_host env c addr"
| "caps_permit env c PermHttp = permits_port c 80"
| "caps_permit env c PermTime = cap_time c"
| "caps_permit env c (PermKbRead d) = cap_permits (cap_kb_read c) d"
| "caps_permit env c (PermKbWrite d) = cap_permits (cap_kb_write c) d"
| "caps_permit env c PermModel = cap_model c"
| "caps_permit env c (PermSecret s) = permits_secret c s"
| "caps_permit env c PermExec = cap_exec c"

fun perm_present :: "caps_presence \<Rightarrow> 'ip perm \<Rightarrow> bool" where
  "perm_present p (PermFs root write) = cp_fs p"
| "perm_present p (PermNet addr) = cp_net p"
| "perm_present p PermHttp = cp_net_allow_http p"
| "perm_present p PermTime = cp_time p"
| "perm_present p (PermKbRead d) = cp_kb_read p"
| "perm_present p (PermKbWrite d) = cp_kb_write p"
| "perm_present p PermModel = cp_model p"
| "perm_present p (PermSecret s) = cp_secrets p"
| "perm_present p PermExec = cp_exec p"

definition override_allows :: "'ip net_env \<Rightarrow> caps_parse \<Rightarrow> 'ip perm \<Rightarrow> bool" where
  "override_allows env ov p = (perm_present (cps_presence ov) p \<longrightarrow> caps_permit env (cps_caps ov) p)"

definition apply_override :: "caps \<Rightarrow> caps_parse \<Rightarrow> caps" where
  "apply_override c ov = intersect_with c (cps_caps ov) (cps_presence ov)"

lemma merge_absent [simp]: "merge_fs a b False = a" "merge_hosts h k False = h" "intersect_secrets s t False = s"
  by (simp_all add: merge_fs_def merge_hosts_def intersect_secrets_def)

lemma flagged:
  "fs_permits (merge_fs a b pr) p \<Longrightarrow> fs_permits a p \<and> (pr \<longrightarrow> fs_permits b p)"
  "hosts_permit env (merge_hosts h k pr) addr \<Longrightarrow> hosts_permit env h addr \<and> (pr \<longrightarrow> hosts_permit env k addr)"
  "i \<in> intersect_secrets s t pr \<Longrightarrow> i \<in> s \<and> (pr \<longrightarrow> i \<in> t)"
  using fs.lower [of a b p] net.lower [of env h k addr] secrets.lower [of i s t]
  by (cases pr; simp)+

interpretation overrides: restriction "caps_permit env" "override_allows env" apply_override for env
proof unfold_locales
  fix c ov p assume "caps_permit env (apply_override c ov) p"
  then show "caps_permit env c p \<and> override_allows env ov p"
    using kb.lower [of "cap_kb_read c" "cap_kb_read (cps_caps ov)"] kb.lower [of "cap_kb_write c" "cap_kb_write (cps_caps ov)"]
    by (cases p) (auto simp: apply_override_def intersect_with_def override_allows_def permits_host_iff
        permits_port_def permits_secret_def dest: flagged split: if_splits)
qed

section \<open>Override files\<close>

text \<open>The overrides that exist are folded in, or the first unreadable one is the error.\<close>

lemma apply_overrides_Inr:
  "apply_overrides env c paths = Inr c' \<Longrightarrow>
     \<exists>ovs. list_all2 (\<lambda>path ov. load_caps_parse env path = Inr ov) (filter (pe_exists env) paths) ovs
       \<and> c' = foldl apply_override c ovs"
proof (induction env c paths rule: apply_overrides.induct)
  case (2 env c path paths)
  show ?case
  proof (cases "pe_exists env path")
    case True
    then obtain ov where ov: "load_caps_parse env path = Inr ov"
      using 2(3) by (auto split: sum.splits)
    have "apply_overrides env (intersect_with c (cps_caps ov) (cps_presence ov)) paths = Inr c'"
      using 2(3) True ov by simp
    from 2(2) [OF _ ov this] True obtain ovs where
      o': "list_all2 (\<lambda>path ov. load_caps_parse env path = Inr ov) (filter (pe_exists env) paths) ovs"
      "c' = foldl apply_override (intersect_with c (cps_caps ov) (cps_presence ov)) ovs" by blast
    have "c' = foldl apply_override c (ov # ovs)"
      unfolding o'(2) by (simp add: apply_override_def [of c ov])
    then show ?thesis using True ov o'(1) by (intro exI [of _ "ov # ovs"]) simp
  next
    case False
    then show ?thesis using 2 by simp
  qed
qed simp

lemma effective_caps_Inr:
  assumes "effective_caps env i policy = Inr c"
  shows "\<exists>base ovs. load_caps_parse env policy = Inr base
    \<and> list_all2 (\<lambda>path ov. load_caps_parse env path = Inr ov)
        (filter (pe_exists env) (override_paths (pe_base_dir env) i)) ovs
    \<and> c = foldl apply_override (cps_caps base) ovs"
  using assms apply_overrides_Inr by (fastforce simp: effective_caps_def res_bind_eq_Inr)

section \<open>The parser orders read-only roots first\<close>

lemma parse_fs_entry_write: "parse_fs_entry dbg home w v = Inr e \<Longrightarrow> fsc_write e = w"
  by (auto simp: parse_fs_entry_def res_bind_eq_Inr)

lemma fs_section_write: "fs_section dbg home t k w = Inr (es, p) \<Longrightarrow> e \<in> set es \<Longrightarrow> fsc_write e = w"
  by (auto simp: fs_section_def res_bind_eq_Inr dest!: res_map_set parse_fs_entry_write
      split: option.splits toml.splits)

lemma parse_fs_ro_first:
  assumes "parse_fs dbg home t = Inr (es, p)"
  shows "ro_first es"
proof -
  obtain a b c pa pb pc where s: "fs_section dbg home t ''fs'' False = Inr (a, pa)"
      "fs_section dbg home t ''fs_ro'' False = Inr (b, pb)" "fs_section dbg home t ''fs_rw'' True = Inr (c, pc)"
    and es: "es = dedupe_fs (a @ b @ c)"
  proof -
    obtain x where x: "fs_section dbg home t ''fs'' False = Inr x"
      using assms by (auto simp: parse_fs_def res_bind_eq_Inr)
    obtain y where y: "fs_section dbg home t ''fs_ro'' False = Inr y"
      using assms by (auto simp: parse_fs_def res_bind_eq_Inr x case_prod_beta)
    obtain z where z: "fs_section dbg home t ''fs_rw'' True = Inr z"
      using assms by (auto simp: parse_fs_def res_bind_eq_Inr x y case_prod_beta)
    have "es = dedupe_fs (fst x @ fst y @ fst z)"
      using assms by (simp add: parse_fs_def x y z case_prod_beta)
    with x y z show thesis by (intro that [of "fst x" "snd x" "fst y" "snd y" "fst z" "snd z"]) simp_all
  qed
  have eq: "sorted_wrt (\<lambda>e f. fsc_write e \<longrightarrow> fsc_write f) xs" if "\<And>e. e \<in> set xs \<Longrightarrow> fsc_write e = w" for xs w
    using that by (induction xs) auto
  have "sorted_wrt (\<lambda>e f. fsc_write e \<longrightarrow> fsc_write f) (a @ b @ c)"
    using fs_section_write [OF s(1)] fs_section_write [OF s(2)] fs_section_write [OF s(3)]
    by (auto simp: sorted_wrt_append intro: eq)
  then show ?thesis unfolding es dedupe_fs_def ro_first_def by (rule sorted_dedupe_by)
qed

lemma from_policy_ro_first:
  assumes "from_policy dbg home v = Inr cp"
  shows "ro_first (cap_fs (cps_caps cp))"
proof -
  obtain t es p where "parse_fs dbg home t = Inr (es, p)" "cap_fs (cps_caps cp) = es"
    using assms by (auto simp: from_policy_def res_bind_eq_Inr Let_def case_prod_beta)
  then show ?thesis using parse_fs_ro_first by blast
qed

section \<open>Properties\<close>

text \<open>C8: Overrides never widen. Whatever the effective capabilities of an agent permit was permitted
  by its base policy and by every override file that exists and speaks of that kind of
  capability.\<close>

theorem effective_caps_never_widen:
  assumes "effective_caps env i policy = Inr c" "caps_permit net c p"
  shows "\<exists>base ovs. load_caps_parse env policy = Inr base
    \<and> list_all2 (\<lambda>path ov. load_caps_parse env path = Inr ov)
        (filter (pe_exists env) (override_paths (pe_base_dir env) i)) ovs
    \<and> caps_permit net (cps_caps base) p \<and> (\<forall>ov \<in> set ovs. override_allows net ov p)"
proof -
  obtain base ovs where b: "load_caps_parse env policy = Inr base"
    "list_all2 (\<lambda>path ov. load_caps_parse env path = Inr ov)
        (filter (pe_exists env) (override_paths (pe_base_dir env) i)) ovs"
    "c = foldl apply_override (cps_caps base) ovs"
    using effective_caps_Inr [OF assms(1)] by blast
  have "caps_permit net (cps_caps base) p \<and> (\<forall>ov \<in> set ovs. override_allows net ov p)"
    by (rule overrides.all_restrict) (use assms(2) b(3) in simp)
  with b(1,2) show ?thesis by blast
qed

definition demo_policy_env :: policy_env where
  "demo_policy_env =
    \<lparr>pe_read = (\<lambda>p. Inr p), pe_exists = (\<lambda>p. starts_with ''/etc'' p),
     pe_toml = (\<lambda>s. Inr (TTable [(''capabilities'', TTable
        [(''time'', TBoolean True), (''model'', TBoolean (\<not> starts_with ''/etc'' s))])])),
     pe_debug = (\<lambda>v. []), pe_home = None, pe_show = (\<lambda>e. []), pe_base_dir = None\<rparr>"

theorem effective_caps_never_widen_witness:
  "\<exists>c. effective_caps demo_policy_env \<lparr>ai_name = ''a-b'', ai_variant = None\<rparr> ''base.toml'' = Inr c \<and> cap_time c \<and> \<not> cap_model c
     \<and> (\<exists>base. load_caps_parse demo_policy_env ''base.toml'' = Inr base \<and> cap_time (cps_caps base))"
proof -
  let ?i = "\<lparr>ai_name = ''a-b'', ai_variant = None\<rparr>"
  obtain c where c: "effective_caps demo_policy_env ?i ''base.toml'' = Inr c" "cap_time c" "\<not> cap_model c"
  proof -
    have "(case effective_caps demo_policy_env ?i ''base.toml'' of Inr c \<Rightarrow> cap_time c \<and> \<not> cap_model c | Inl _ \<Rightarrow> False) = True"
      by (simp add: effective_caps_def load_caps_parse_def demo_policy_env_def from_policy_def parse_fs_def
          fs_section_def dedupe_fs_def parse_net_def caps_parse_bool_def parse_capability_set_def parse_secrets_def
          override_paths_def starts_with_def intersect_with_def Let_def)
    then show thesis by (auto intro: that split: sum.splits)
  qed
  have "caps_permit \<lparr>ne_parse_ip = (\<lambda>s. None), ne_resolve = (\<lambda>h p. [])\<rparr> c (PermTime :: unit perm)" using c(2) by simp
  from effective_caps_never_widen [OF c(1) this] c show ?thesis by auto
qed

text \<open>An override read from a policy restricts exactly: after it, everything but a network address
  is permitted iff it was permitted before and the override, where it speaks of that kind,
  permits it too.\<close>

theorem override_exact:
  assumes "from_policy dbg home value = Inr ov" "\<And>addr. p \<noteq> PermNet addr"
  shows "caps_permit env (apply_override c ov) p \<longleftrightarrow> caps_permit env c p \<and> override_allows env ov p"
proof -
  have "fs_permits (merge_fs (cap_fs c) (cap_fs (cps_caps ov)) pr) rq \<longleftrightarrow>
      fs_permits (cap_fs c) rq \<and> (pr \<longrightarrow> fs_permits (cap_fs (cps_caps ov)) rq)" for pr rq
    using merge_fs_exact [OF from_policy_ro_first [OF assms(1)]] by (cases pr) simp_all
  note kbx = kb.permits_meet secrets.permits_meet this
  show ?thesis
    using assms(2) by (cases p) (auto simp: apply_override_def intersect_with_def override_allows_def
        permits_port_def permits_secret_def kbx intersect_secrets_def)
qed

theorem override_exact_witness:
  "\<exists>ov. from_policy (\<lambda>v. []) None (TTable [(''capabilities'', TTable [(''fs_ro'', TArray [TString ''/d'']), (''fs_rw'', TArray [TString ''/d/''])])]) = Inr ov
    \<and> (\<forall>env :: unit net_env. \<forall>c. caps_permit env (apply_override c ov) (PermFs ''/d'' True) \<longleftrightarrow>
          caps_permit env c (PermFs ''/d'' True) \<and> override_allows env ov (PermFs ''/d'' True))"
proof -
  let ?v = "TTable [(''capabilities'', TTable [(''fs_ro'', TArray [TString ''/d'']), (''fs_rw'', TArray [TString ''/d/''])])]"
  have "\<exists>ov. from_policy (\<lambda>v. []) None ?v = Inr ov"
    by (simp add: from_policy_def parse_fs_def fs_section_def parse_fs_entry_def trim_def trim_start_def trim_end_def
        is_whitespace_def parse_net_def caps_parse_bool_def parse_capability_set_def parse_secrets_def Let_def)
  then obtain ov where ov: "from_policy (\<lambda>v. []) None ?v = Inr ov" by blast
  have "\<And>addr. PermFs ''/d'' True \<noteq> (PermNet addr :: unit perm)" by simp
  with override_exact [OF ov this] ov show ?thesis by blast
qed

text \<open>Capabilities reported as effectively empty permit nothing: no path, no address, no time, no
  knowledge base domain, no model, no secret and no process. (Port 80 alone may stay open, but
  without a permitted host it is of no use.)\<close>

theorem effectively_empty_denies:
  assumes "is_effectively_empty c" "p \<noteq> PermHttp"
  shows "\<not> caps_permit env c p"
  using assms by (cases p) (auto simp: is_effectively_empty_def fs_permits_def permits_host_def permits_secret_def)

theorem effectively_empty_denies_witness:
  "\<not> caps_permit \<lparr>ne_parse_ip = (\<lambda>s. None), ne_resolve = (\<lambda>h p. [])\<rparr> deny_all (PermFs ''/'' False :: unit perm)"
  by (rule effectively_empty_denies) (simp_all add: is_effectively_empty_def deny_all_def)

text \<open>The kind of a denied capability is never \<open>kb_write\<close>: the label \<open>kb.write\<close> is cut at the dot and
  reported as \<open>kb_read\<close>.\<close>

theorem kb_write_reported_as_read:
  "from_label ''kb.write'' = KKbRead \<and> from_label label \<noteq> KKbWrite"
proof -
  have p: "from_prefix q = KKbWrite \<longleftrightarrow> q = ''kb.write''" for q
    by (auto simp: from_prefix_def)
  have "from_label label \<noteq> KKbWrite"
  proof (cases "split_once ''.'' label")
    case None
    then have "CHR ''.'' \<notin> set label" by (simp add: split_once_char_None)
    then have "label \<noteq> ''kb.write''" by auto
    then show ?thesis using None p [of label] by (simp add: from_label_def)
  next
    case (Some lr)
    obtain l r where lr: "lr = (l, r)" by (cases lr)
    then have "CHR ''.'' \<notin> set l" using Some split_once_char_before by simp
    then have "l \<noteq> ''kb.write''" by auto
    then show ?thesis using Some lr p [of l] by (simp add: from_label_def)
  qed
  then show ?thesis by (simp add: from_label_def from_prefix_def)
qed

end
