(* ===== verification/Rmp_Header.thy ===== *)
theory Rmp_Header
  imports Prelude
begin

text \<open>
  The fixed header of the Runloop Message Protocol (\<open>crates/rmp/src/header.rs\<close>): the
  64-byte big-endian layout, the length-prefixed frame around it, and the expiry
  arithmetic. \<open>BytesMut::put_uN\<close> and \<open>Buf::get_uN\<close> are the big-endian reads and writes
  of \<open>to_be_bytes\<close> and \<open>from_be_bytes\<close>. Lemmas: every encoded field has its fixed width,
  reading a written field gives it back, and the decoder accepts exactly the encodings.
\<close>

section \<open>Big-endian integers\<close>

fun be_bytes :: "nat \<Rightarrow> nat \<Rightarrow> bytes" where
  "be_bytes 0 k = []"
| "be_bytes (Suc n) k = be_bytes n (k div 256) @ [word_of_nat k]"

definition be_value :: "bytes \<Rightarrow> nat" where
  "be_value bs = foldl (\<lambda>acc b. acc * 256 + unat b) 0 bs"

lemma be_value_snoc [simp]: "be_value (bs @ [b]) = be_value bs * 256 + unat b"
  by (simp add: be_value_def)

lemma be_value_Nil [simp]: "be_value [] = 0"
  by (simp add: be_value_def)

lemma length_be_bytes [simp]: "length (be_bytes n k) = n"
  by (induction n arbitrary: k) auto

lemma unat_u8_of_nat: "unat (word_of_nat k :: u8) = k mod 256"
  by (simp add: unat_of_nat)

lemma be_value_be_bytes: "be_value (be_bytes n k) = k mod 256 ^ n"
proof (induction n arbitrary: k)
  case (Suc n)
  have "be_value (be_bytes (Suc n) k) = (k div 256 mod 256 ^ n) * 256 + k mod 256"
    using Suc by (simp add: unat_u8_of_nat)
  also have "\<dots> = k mod (256 * 256 ^ n)"
    by (simp add: mod_mult2_eq)
  finally show ?case by simp
qed simp

lemma be_value_less: "be_value bs < 256 ^ length bs"
proof (induction bs rule: rev_induct)
  case (snoc b bs)
  have "unat b < 256" using unat_bound [of b] by simp
  with snoc have "be_value bs * 256 + unat b < 256 ^ length bs * 256" by linarith
  then show ?case by (simp add: mult.commute)
qed simp

lemma be_bytes_be_value: "be_bytes (length bs) (be_value bs) = bs"
proof (induction bs rule: rev_induct)
  case (snoc b bs)
  have b: "unat b < 256" using unat_bound [of b] by simp
  then have "(be_value bs * 256 + unat b) div 256 = be_value bs" by simp
  moreover have "(word_of_nat (be_value bs * 256 + unat b) :: u8) = b"
    by (rule word_unat_eq_iff [THEN iffD2])
       (use b in \<open>simp add: unat_u8_of_nat del: of_nat_add of_nat_mult\<close>)
  ultimately show ?case using snoc by simp
qed simp

lemma be_bytes_inj: "be_bytes n j = be_bytes n k \<longleftrightarrow> j mod 256 ^ n = k mod 256 ^ n"
  by (metis be_bytes_be_value be_value_be_bytes length_be_bytes)

text \<open>\<open>put_uN\<close> appends a word of \<open>n\<close> bytes; \<open>get_uN\<close> reads one off the front.\<close>

definition put_uint :: "nat \<Rightarrow> 'a::len word \<Rightarrow> bytes" where
  "put_uint n w = be_bytes n (unat w)"

definition get_uint :: "nat \<Rightarrow> bytes \<Rightarrow> 'a::len word \<times> bytes" where
  "get_uint n buf = (word_of_nat (be_value (take n buf)), drop n buf)"

lemma length_put_uint [simp]: "length (put_uint n w) = n"
  by (simp add: put_uint_def)

lemma get_put_uint:
  assumes "LENGTH('a::len) = 8 * n"
  shows "get_uint n (put_uint n (w :: 'a word) @ rest) = (w, rest)"
proof -
  have "(256::nat) ^ n = 2 ^ LENGTH('a)" by (simp add: assms power_mult)
  then have "unat w < 256 ^ n" using unat_bound [of w] by simp
  then show ?thesis by (simp add: get_uint_def put_uint_def be_value_be_bytes)
qed

lemma put_get_uint:
  assumes "LENGTH('a::len) = 8 * n" and "n \<le> length buf"
    and "get_uint n buf = ((w :: 'a word), rest)"
  shows "buf = put_uint n w @ rest"
proof -
  have l: "length (take n buf) = n" using assms(2) by simp
  have "be_value (take n buf) < 2 ^ LENGTH('a)"
    using be_value_less [of "take n buf"] assms(1) l by (simp add: power_mult)
  then have "unat w = be_value (take n buf)"
    using assms(3) by (auto simp: get_uint_def unat_of_nat)
  then have "put_uint n w = take n buf"
    using be_bytes_be_value [of "take n buf"] l by (simp add: put_uint_def)
  with assms(3) show ?thesis by (auto simp: get_uint_def)
qed

lemmas get_put_u16 = get_put_uint [where 'a = 16 and n = 2, simplified]
lemmas get_put_u32 = get_put_uint [where 'a = 32 and n = 4, simplified]
lemmas get_put_u64 = get_put_uint [where 'a = 64 and n = 8, simplified]
lemmas get_put_u128 = get_put_uint [where 'a = 128 and n = 16, simplified]
lemmas get_put = get_put_u16 get_put_u32 get_put_u64 get_put_u128

section \<open>Header and errors\<close>

datatype frame_decode_error =
    Oversized u32
  | Truncated
  | Incomplete
  | InvalidMagic bytes
  | Unsupported u16 u16
  | InvalidHeaderFlags u32
  | LengthMismatch u32 u32

datatype rmp_error =
    UnknownSchema u16
  | BodyTypeMismatch u16 string
  | InvalidTtl u64
  | InvalidExpiry u64 u64
  | RmpEncode string
  | RmpDecode string

definition MAGIC :: bytes where "MAGIC = [82, 77, 80, 48]"
definition HEADER_VERSION :: u16 where "HEADER_VERSION = 0"
definition HEADER_LEN :: u16 where "HEADER_LEN = 64"
definition DEFAULT_TTL_MS :: u64 where "DEFAULT_TTL_MS = 30000"
definition DEFAULT_MAX_FRAME_LEN :: u32 where "DEFAULT_MAX_FRAME_LEN = 8 * 1024 * 1024"

record header =
  hdr_version :: u16
  hdr_len :: u16
  hdr_flags :: u32
  hdr_schema_id :: u16
  hdr_body_len :: u32
  hdr_created_at_ms :: u64
  hdr_ttl_ms :: u64
  hdr_trace_id :: u128
  hdr_msg_id :: u64

definition default_header :: header where
  "default_header =
    \<lparr>hdr_version = HEADER_VERSION, hdr_len = HEADER_LEN, hdr_flags = 0, hdr_schema_id = 0,
     hdr_body_len = 0, hdr_created_at_ms = 0, hdr_ttl_ms = DEFAULT_TTL_MS, hdr_trace_id = 0, hdr_msg_id = 0\<rparr>"

section \<open>Encoding and decoding the header\<close>

definition encode_into :: "header \<Rightarrow> bytes" where
  "encode_into h =
     MAGIC
     @ put_uint 2 (hdr_version h)
     @ put_uint 2 (hdr_len h)
     @ put_uint 4 (hdr_flags h)
     @ put_uint 2 (hdr_schema_id h)
     @ put_uint 2 (0 :: u16)
     @ put_uint 4 (hdr_body_len h)
     @ put_uint 8 (hdr_created_at_ms h)
     @ put_uint 8 (hdr_ttl_ms h)
     @ put_uint 16 (hdr_trace_id h)
     @ put_uint 8 (hdr_msg_id h)
     @ put_uint 4 (0 :: u32)"

definition decode_from :: "bytes \<Rightarrow> frame_decode_error + header" where
  "decode_from buf =
    (if length buf < unat HEADER_LEN then Inl Truncated
     else let magic = take 4 buf; buf = drop 4 buf in
     if magic \<noteq> MAGIC then Inl (InvalidMagic magic)
     else let (hv :: u16, buf) = get_uint 2 buf in
     let (hl :: u16, buf) = get_uint 2 buf in
     if hv \<noteq> HEADER_VERSION \<or> hl \<noteq> HEADER_LEN then Inl (Unsupported hv hl)
     else let (fl :: u32, buf) = get_uint 4 buf in
     if fl \<noteq> 0 then Inl (InvalidHeaderFlags fl)
     else let (sid :: u16, buf) = get_uint 2 buf in
     let (reserved2 :: u16, buf) = get_uint 2 buf in
     if reserved2 \<noteq> 0 then Inl (InvalidHeaderFlags (ucast reserved2))
     else let (bl :: u32, buf) = get_uint 4 buf in
     let (created :: u64, buf) = get_uint 8 buf in
     let (ttl :: u64, buf) = get_uint 8 buf in
     let (tid :: u128, buf) = get_uint 16 buf in
     let (mid :: u64, buf) = get_uint 8 buf in
     let (reserved4 :: u32, buf) = get_uint 4 buf in
     if reserved4 \<noteq> 0 then Inl (InvalidHeaderFlags reserved4)
     else Inr \<lparr>hdr_version = hv, hdr_len = hl, hdr_flags = fl, hdr_schema_id = sid,
               hdr_body_len = bl, hdr_created_at_ms = created, hdr_ttl_ms = ttl, hdr_trace_id = tid,
               hdr_msg_id = mid\<rparr>)"

text \<open>The invariant of a v0 header: what \<open>decode_from\<close> insists on.\<close>

definition header_v0 :: "header \<Rightarrow> bool" where
  "header_v0 h = (hdr_version h = HEADER_VERSION \<and> hdr_len h = HEADER_LEN \<and> hdr_flags h = 0)"

lemma length_encode_into [simp]: "length (encode_into h) = 64"
  by (simp add: encode_into_def MAGIC_def)

lemma unat_HEADER_LEN [simp]: "unat HEADER_LEN = 64"
  by (simp add: HEADER_LEN_def)

lemma decode_encode_into:
  assumes "header_v0 h"
  shows "decode_from (encode_into h @ rest) = Inr h"
proof -
  have m: "take 4 MAGIC = MAGIC" "drop 4 MAGIC = []" "length MAGIC = 4"
    by (simp_all add: MAGIC_def)
  have len: "\<not> length (encode_into h @ rest) < unat HEADER_LEN" by simp
  from assms show ?thesis
    unfolding decode_from_def using len
    by (simp add: encode_into_def m get_put header_v0_def)
qed

lemma get_uint_parts:
  assumes "get_uint n buf = ((w :: 'a::len word), rest)" "LENGTH('a) = 8 * n" "n \<le> length buf"
  shows "buf = put_uint n w @ rest" "length rest = length buf - n"
  using put_get_uint [OF assms(2,3,1)] assms(1) by (auto simp: get_uint_def)

text \<open>Conversely, whatever decodes is the encoding of the decoded header.\<close>

lemma encode_decode_from:
  assumes dec: "decode_from buf = Inr h" and len: "length buf = 64"
  shows "encode_into h = buf \<and> header_v0 h"
proof -
  obtain hv :: u16 and b1 where g1: "get_uint 2 (drop 4 buf) = (hv, b1)" by (cases "get_uint 2 (drop 4 buf) :: u16 \<times> _")
  obtain hl :: u16 and b2 where g2: "get_uint 2 b1 = (hl, b2)" by (cases "get_uint 2 b1 :: u16 \<times> _")
  obtain fl :: u32 and b3 where g3: "get_uint 4 b2 = (fl, b3)" by (cases "get_uint 4 b2 :: u32 \<times> _")
  obtain sid :: u16 and b4 where g4: "get_uint 2 b3 = (sid, b4)" by (cases "get_uint 2 b3 :: u16 \<times> _")
  obtain r2 :: u16 and b5 where g5: "get_uint 2 b4 = (r2, b5)" by (cases "get_uint 2 b4 :: u16 \<times> _")
  obtain bl :: u32 and b6 where g6: "get_uint 4 b5 = (bl, b6)" by (cases "get_uint 4 b5 :: u32 \<times> _")
  obtain cr :: u64 and b7 where g7: "get_uint 8 b6 = (cr, b7)" by (cases "get_uint 8 b6 :: u64 \<times> _")
  obtain tl :: u64 and b8 where g8: "get_uint 8 b7 = (tl, b8)" by (cases "get_uint 8 b7 :: u64 \<times> _")
  obtain ti :: u128 and b9 where g9: "get_uint 16 b8 = (ti, b9)" by (cases "get_uint 16 b8 :: u128 \<times> _")
  obtain mi :: u64 and b10 where g10: "get_uint 8 b9 = (mi, b10)" by (cases "get_uint 8 b9 :: u64 \<times> _")
  obtain r4 :: u32 and b11 where g11: "get_uint 4 b10 = (r4, b11)" by (cases "get_uint 4 b10 :: u32 \<times> _")
  note gs = g1 g2 g3 g4 g5 g6 g7 g8 g9 g10 g11
  from dec have magic: "take 4 buf = MAGIC" and v: "hv = HEADER_VERSION" "hl = HEADER_LEN"
      "fl = 0" "r2 = 0" "r4 = 0"
    and h: "h = \<lparr>hdr_version = hv, hdr_len = hl, hdr_flags = fl, hdr_schema_id = sid,
       hdr_body_len = bl, hdr_created_at_ms = cr, hdr_ttl_ms = tl, hdr_trace_id = ti, hdr_msg_id = mi\<rparr>"
    by (auto simp: decode_from_def gs Let_def split: if_splits)
  have l0: "length (drop 4 buf) = 60" using len by simp
  note p1 = get_uint_parts [OF g1] and p2 = get_uint_parts [OF g2]
    and p3 = get_uint_parts [OF g3] and p4 = get_uint_parts [OF g4]
    and p5 = get_uint_parts [OF g5] and p6 = get_uint_parts [OF g6]
    and p7 = get_uint_parts [OF g7] and p8 = get_uint_parts [OF g8]
    and p9 = get_uint_parts [OF g9] and p10 = get_uint_parts [OF g10]
    and p11 = get_uint_parts [OF g11]
  have l1: "length b1 = 58" using p1(2) len by simp
  have e1: "drop 4 buf = put_uint 2 hv @ b1" using p1(1) len by simp
  have l2: "length b2 = 56" and e2: "b1 = put_uint 2 hl @ b2" using p2 l1 by simp_all
  have l3: "length b3 = 52" and e3: "b2 = put_uint 4 fl @ b3" using p3 l2 by simp_all
  have l4: "length b4 = 50" and e4: "b3 = put_uint 2 sid @ b4" using p4 l3 by simp_all
  have l5: "length b5 = 48" and e5: "b4 = put_uint 2 r2 @ b5" using p5 l4 by simp_all
  have l6: "length b6 = 44" and e6: "b5 = put_uint 4 bl @ b6" using p6 l5 by simp_all
  have l7: "length b7 = 36" and e7: "b6 = put_uint 8 cr @ b7" using p7 l6 by simp_all
  have l8: "length b8 = 28" and e8: "b7 = put_uint 8 tl @ b8" using p8 l7 by simp_all
  have l9: "length b9 = 12" and e9: "b8 = put_uint 16 ti @ b9" using p9 l8 by simp_all
  have l10: "length b10 = 4" and e10: "b9 = put_uint 8 mi @ b10" using p10 l9 by simp_all
  have l11: "b11 = []" and e11: "b10 = put_uint 4 r4 @ b11" using p11 l10 by simp_all
  have "buf = take 4 buf @ drop 4 buf" by simp
  then have "buf = encode_into h"
    unfolding magic e1 e2 e3 e4 e5 e6 e7 e8 e9 e10 e11 l11
    by (simp add: encode_into_def h v)
  with h v show ?thesis by (simp add: header_v0_def)
qed

section \<open>Expiry\<close>

text \<open>The sum is taken in 128 bits, so it cannot wrap; the result must fit 64.\<close>

definition dedupe_key :: "header \<Rightarrow> u128 \<times> u64" where
  "dedupe_key h = (hdr_trace_id h, hdr_msg_id h)"

definition expires_at_ms :: "header \<Rightarrow> rmp_error + u64" where
  "expires_at_ms h =
    (if hdr_ttl_ms h = 0 then Inl (InvalidTtl (hdr_ttl_ms h))
     else let expires = (ucast (hdr_created_at_ms h) + ucast (hdr_ttl_ms h) :: u128) in
     if expires > ucast (-1 :: u64) then Inl (InvalidExpiry (hdr_created_at_ms h) (hdr_ttl_ms h))
     else Inr (ucast expires))"

definition is_expired :: "header \<Rightarrow> u64 \<Rightarrow> rmp_error + bool" where
  "is_expired h now_ms = res_bind (expires_at_ms h) (\<lambda>e. Inr (e \<le> now_ms))"

lemma unat_ucast_u64_u128 [simp]: "unat (ucast (w :: u64) :: u128) = unat w"
  by (simp add: unsigned_ucast_eq take_bit_nat_eq_self_iff)
     (use unat_bound [of w] in \<open>simp add: take_bit_nat_eq_self\<close>)

lemma unat_expires_sum:
  "unat (ucast (a :: u64) + ucast (b :: u64) :: u128) = unat a + unat b"
proof -
  have "unat a + unat b < 2 ^ 128" using unat_bound [of a] unat_bound [of b] by simp
  then show ?thesis by (simp add: unat_word_ariths)
qed

lemma expires_at_ms_nat:
  "expires_at_ms h =
    (if hdr_ttl_ms h = 0 then Inl (InvalidTtl 0)
     else if 2 ^ 64 \<le> unat (hdr_created_at_ms h) + unat (hdr_ttl_ms h)
          then Inl (InvalidExpiry (hdr_created_at_ms h) (hdr_ttl_ms h))
     else Inr (word_of_nat (unat (hdr_created_at_ms h) + unat (hdr_ttl_ms h))))"
proof -
  let ?s = "ucast (hdr_created_at_ms h) + ucast (hdr_ttl_ms h) :: u128"
  have "ucast (-1 :: u64) < ?s \<longleftrightarrow> 2 ^ 64 \<le> unat (hdr_created_at_ms h) + unat (hdr_ttl_ms h)"
    by (simp only: word_less_nat_alt unat_expires_sum unat_ucast_u64_u128)
       (simp add: unsigned_minus_1_eq_mask mask_eq_exp_minus_1, arith)
  moreover have "(ucast ?s :: u64) = word_of_nat (unat (hdr_created_at_ms h) + unat (hdr_ttl_ms h))"
    by (simp flip: unat_expires_sum del: of_nat_add)
  ultimately show ?thesis by (simp add: expires_at_ms_def Let_def)
qed

lemma expires_at_ms_Inr:
  "expires_at_ms h = Inr e \<longleftrightarrow>
     hdr_ttl_ms h \<noteq> 0 \<and> unat e = unat (hdr_created_at_ms h) + unat (hdr_ttl_ms h)"
proof -
  let ?s = "unat (hdr_created_at_ms h) + unat (hdr_ttl_ms h)"
  have e: "unat e < 2 ^ 64" using unat_bound [of e] by simp
  have "word_of_nat ?s = e \<longleftrightarrow> unat e = ?s" if "?s < 2 ^ 64"
    using that by (auto simp: word_unat_eq_iff unat_of_nat simp del: of_nat_add)
  with e show ?thesis
    by (auto simp: expires_at_ms_nat not_le simp del: of_nat_add)
qed

section \<open>Frames\<close>

definition encode_frame :: "header \<Rightarrow> bytes \<Rightarrow> bytes" where
  "encode_frame h body =
    (let h = h\<lparr>hdr_body_len := word_of_nat (length body)\<rparr>;
         frame_len = unat HEADER_LEN + length body
     in put_uint 4 (word_of_nat frame_len :: u32) @ encode_into h @ body)"

definition decode_frame :: "bytes \<Rightarrow> u32 \<Rightarrow> frame_decode_error + (header \<times> bytes)" where
  "decode_frame bs max_len =
    (if length bs < 4 then Inl Incomplete
     else let (frame_len :: u32, cursor) = get_uint 4 bs in
     if length cursor < unat frame_len then Inl Incomplete
     else if frame_len < ucast HEADER_LEN then Inl Truncated
     else res_bind (decode_from (take (unat HEADER_LEN) cursor)) (\<lambda>h.
       let blen = frame_len - ucast HEADER_LEN in
       if hdr_body_len h \<noteq> blen then Inl (LengthMismatch (hdr_body_len h) blen)
       else if max_len < hdr_body_len h then Inl (Oversized (hdr_body_len h))
       else Inr (h, take (unat blen) (drop (unat HEADER_LEN) cursor))))"

lemma HEADER_LEN_u32 [simp]: "(ucast HEADER_LEN :: u32) = 64"
  by (simp add: HEADER_LEN_def)

lemma decode_encode_frame:
  assumes v0: "header_v0 h" and len: "length body \<le> unat max_len"
    and fits: "64 + length body < 2 ^ 32"
  shows "decode_frame (encode_frame h body @ rest) max_len =
           Inr (h\<lparr>hdr_body_len := word_of_nat (length body)\<rparr>, body)"
proof -
  let ?h = "h\<lparr>hdr_body_len := word_of_nat (length body)\<rparr>"
  let ?n = "word_of_nat (64 + length body) :: u32"
  have v: "header_v0 ?h" using v0 by (simp add: header_v0_def)
  have dec: "decode_from (encode_into ?h) = Inr ?h"
    using decode_encode_into [OF v, of "[]"] by simp
  have un: "unat ?n = 64 + length body"
    using fits by (simp add: unat_of_nat del: of_nat_add)
  have lb: "unat (word_of_nat (length body) :: u32) = length body"
    using fits by (simp add: unat_of_nat)
  have diff: "?n - 64 = word_of_nat (length body)" by simp
  have nl: "\<not> ?n < 64" using un by (simp add: word_less_nat_alt del: of_nat_add)
  have ml: "\<not> max_len < (word_of_nat (length body) :: u32)"
    using len by (simp only: word_less_nat_alt lb not_less)
  show ?thesis
    by (simp add: decode_frame_def encode_frame_def Let_def get_put un nl dec lb ml
        del: of_nat_add) (simp add: lb ml)
qed

lemma decode_frame_sound:
  assumes "decode_frame bs max_len = Inr (h, body)"
  shows "\<exists>rest. bs = encode_frame h body @ rest"
    and "header_v0 h" and "unat (hdr_body_len h) = length body"
    and "length body \<le> unat max_len" and "64 + length body < 2 ^ 32"
proof -
  obtain fl :: u32 and cur where g: "get_uint 4 bs = (fl, cur)"
    by (cases "get_uint 4 bs :: u32 \<times> _")
  from assms have l4: "4 \<le> length bs" by (auto simp: decode_frame_def split: if_splits)
  with assms g obtain hd' where
    fl: "unat fl \<le> length cur" "\<not> fl < 64" and
    dec: "decode_from (take 64 cur) = Inr hd'" and
    bl: "hdr_body_len hd' = fl - 64" and mx: "\<not> max_len < hdr_body_len hd'" and
    h: "h = hd'" "body = take (unat (fl - 64)) (drop 64 cur)"
    by (auto simp: decode_frame_def Let_def res_bind_eq_Inr split: if_splits)
  have fl64: "64 \<le> unat fl" using fl(2) by (simp add: word_less_nat_alt)
  then have ud: "unat (fl - 64) = unat fl - 64"
    using fl(2) by (simp add: unat_sub_if')
  have lcur: "length (take 64 cur) = 64" using fl(1) fl64 by simp
  from encode_decode_from [OF dec lcur] have enc: "encode_into h = take 64 cur" and v: "header_v0 h"
    using h by simp_all
  have lbody: "length body = unat fl - 64" using fl(1) by (simp add: h(2) ud)
  show hb: "unat (hdr_body_len h) = length body" using bl h(1) ud lbody by simp
  show "header_v0 h" by (rule v)
  show "length body \<le> unat max_len"
    using mx hb h(1) by (simp add: word_less_nat_alt)
  have "unat fl < 2 ^ 32" using unat_bound [of fl] by simp
  with lbody fl64 show "64 + length body < 2 ^ 32" by simp
  have "word_of_nat (64 + length body) = fl"
    using lbody fl64 by simp
  moreover have "h\<lparr>hdr_body_len := word_of_nat (length body)\<rparr> = h"
    by (simp flip: hb)
  moreover have "cur = take 64 cur @ body @ drop (length body) (drop 64 cur)"
    using lbody by (metis append_take_drop_id h(2) ud)
  moreover have "bs = put_uint 4 fl @ cur"
    using get_uint_parts(1) [OF g] l4 by simp
  ultimately have "bs = encode_frame h body @ drop (length body) (drop 64 cur)"
    using enc by (simp add: encode_frame_def del: of_nat_add)
  then show "\<exists>rest. bs = encode_frame h body @ rest" by blast
qed

section \<open>Framing as an interface\<close>

text \<open>What a byte stream of frames needs of a frame format: what is written is read back, with
  whatever follows left alone, and what is read was written.\<close>

locale framing =
  fixes enc :: "'h \<Rightarrow> bytes \<Rightarrow> bytes"
    and dec :: "bytes \<Rightarrow> 'e + ('h \<times> bytes)"
    and good :: "'h \<Rightarrow> bytes \<Rightarrow> bool"
  assumes dec_enc: "good h b \<Longrightarrow> dec (enc h b @ rest) = Inr (h, b)"
    and dec_sound: "dec bs = Inr (h, b) \<Longrightarrow> good h b \<and> (\<exists>rest. bs = enc h b @ rest)"
begin

lemma self_delimiting:
  assumes "good h b" "good h' b'" "enc h b @ r = enc h' b' @ r'"
  shows "h = h' \<and> b = b' \<and> r = r'"
proof -
  have "Inr (h, b) = dec (enc h b @ r)" using dec_enc [OF assms(1)] by simp
  also have "\<dots> = dec (enc h' b' @ r')" using assms(3) by simp
  also have "\<dots> = Inr (h', b')" by (rule dec_enc [OF assms(2)])
  finally have "h = h' \<and> b = b'" by simp
  with assms(3) show ?thesis by simp
qed

lemma accepts_iff: "(\<exists>h b. dec bs = Inr (h, b)) \<longleftrightarrow> (\<exists>h b rest. good h b \<and> bs = enc h b @ rest)"
  using dec_enc dec_sound by blast

lemma dec_unique: "dec bs = Inr (h, b) \<longleftrightarrow> good h b \<and> (\<exists>rest. bs = enc h b @ rest)"
  using dec_enc dec_sound by blast

end

text \<open>A frame the decoder with limit \<open>max_len\<close> accepts.\<close>

definition good_frame :: "u32 \<Rightarrow> header \<Rightarrow> bytes \<Rightarrow> bool" where
  "good_frame max_len h body =
    (header_v0 h \<and> unat (hdr_body_len h) = length body \<and> length body \<le> unat max_len
     \<and> 64 + length body < 2 ^ 32)"

interpretation rmp_framing: framing encode_frame "\<lambda>bs. decode_frame bs max_len" "good_frame max_len" for max_len
proof unfold_locales
  fix h b rest
  assume g: "good_frame max_len h b"
  then have hb: "unat (hdr_body_len h) = length b" by (simp add: good_frame_def)
  have "h\<lparr>hdr_body_len := word_of_nat (length b)\<rparr> = h" by (simp flip: hb)
  then show "decode_frame (encode_frame h b @ rest) max_len = Inr (h, b)"
    using decode_encode_frame [of h b max_len rest] g by (simp add: good_frame_def)
next
  fix bs h b
  assume "decode_frame bs max_len = Inr (h, b)"
  from decode_frame_sound [OF this] show "good_frame max_len h b \<and> (\<exists>rest. bs = encode_frame h b @ rest)"
    by (simp add: good_frame_def)
qed

section \<open>Properties\<close>

text \<open>C34: Frame round trip: encoding a v0 header with a body that fits and decoding the result,
  whatever follows it on the wire, gives back the header with the length field filled in and
  the body.\<close>

theorem frame_roundtrip:
  assumes "header_v0 h" "length body \<le> unat max_len" "64 + length body < 2 ^ 32"
  shows "decode_frame (encode_frame h body @ rest) max_len =
           Inr (h\<lparr>hdr_body_len := word_of_nat (length body)\<rparr>, body)"
  using assms by (rule decode_encode_frame)

theorem frame_roundtrip_witness:
  "decode_frame (encode_frame default_header [1, 2, 3] @ [9]) 1024 =
     Inr (default_header\<lparr>hdr_body_len := 3\<rparr>, [1, 2, 3])"
  using frame_roundtrip [of default_header "[1, 2, 3]" 1024 "[9]"]
  by (simp add: header_v0_def default_header_def)

text \<open>C35: The decoder accepts exactly the byte strings that start with the encoding of a frame within
  its limit, and returns that frame: a version, flag, reserved field, length or limit that is
  not as required is rejected, and two different frames never share an encoding.\<close>

theorem decode_frame_exact:
  "decode_frame bs max_len = Inr (h, body) \<longleftrightarrow>
     header_v0 h \<and> unat (hdr_body_len h) = length body \<and> length body \<le> unat max_len
     \<and> 64 + length body < 2 ^ 32 \<and> (\<exists>rest. bs = encode_frame h body @ rest)"
  using rmp_framing.dec_unique [of bs max_len h body] by (auto simp: good_frame_def)

lemma is_expired_iff:
  "is_expired h now = Inr b \<longleftrightarrow>
     hdr_ttl_ms h \<noteq> 0 \<and> unat (hdr_created_at_ms h) + unat (hdr_ttl_ms h) < 2 ^ 64
     \<and> (b \<longleftrightarrow> unat (hdr_created_at_ms h) + unat (hdr_ttl_ms h) \<le> unat now)"
proof -
  let ?s = "unat (hdr_created_at_ms h) + unat (hdr_ttl_ms h)"
  have "(\<exists>e. expires_at_ms h = Inr e \<and> (e \<le> now) = b) \<longleftrightarrow> hdr_ttl_ms h \<noteq> 0 \<and> ?s < 2 ^ 64 \<and> (b \<longleftrightarrow> ?s \<le> unat now)"
  proof (cases "?s < 2 ^ 64")
    case True
    define e :: u64 where "e = word_of_nat ?s"
    have e: "unat e = ?s" using True by (simp add: e_def unat_of_nat del: of_nat_add)
    have "expires_at_ms h = Inr x \<longleftrightarrow> hdr_ttl_ms h \<noteq> 0 \<and> x = e" for x
      by (simp add: expires_at_ms_Inr word_unat_eq_iff e)
    then show ?thesis using True by (auto simp: word_le_nat_alt e)
  next
    case False
    have "expires_at_ms h \<noteq> Inr x" for x
      using False unat_bound [of x] by (simp add: expires_at_ms_Inr)
    with False show ?thesis by auto
  qed
  then show ?thesis by (auto simp: is_expired_def res_bind_eq_Inr)
qed

text \<open>Expiry is exact: a header has an expiry time iff its TTL is not zero and the sum of creation
  time and TTL fits 64 bits, and it is expired iff that sum, without wrap-around, has been
  reached.\<close>

theorem is_expired_exact:
  "is_expired h now = Inr b \<longleftrightarrow>
     hdr_ttl_ms h \<noteq> 0 \<and> unat (hdr_created_at_ms h) + unat (hdr_ttl_ms h) < 2 ^ 64
     \<and> (b \<longleftrightarrow> unat (hdr_created_at_ms h) + unat (hdr_ttl_ms h) \<le> unat now)"
  by (rule is_expired_iff)

end
