(* ===== verification/Content_Types.thy ===== *)
theory Content_Types
  imports Rmp_Header Rust_Str
begin

text \<open>
  The schema registry (\<open>crates/core/src/content.rs\<close>, \<open>content_types.rs\<close>) and the MsgPack
  envelope built on it (\<open>crates/rmp/src/envelope.rs\<close>, \<open>registry.rs\<close>). The MsgPack
  serializer is third-party code: it is a pair of parameters \<open>ser\<close>, \<open>de\<close>. Lemmas: schema
  identifiers and type strings are distinct, so the two lookups are inverse, and an
  envelope decodes only under the schema it was encoded for.
\<close>

section \<open>Schema identifiers\<close>

definition CT_INVALID :: u16 where "CT_INVALID = 0"
definition CT_OBSERVATION :: u16 where "CT_OBSERVATION = 1"
definition CT_INTENT :: u16 where "CT_INTENT = 2"
definition CT_TOOL_CALL :: u16 where "CT_TOOL_CALL = 3"
definition CT_TOOL_RESULT :: u16 where "CT_TOOL_RESULT = 4"
definition CT_ARTIFACT :: u16 where "CT_ARTIFACT = 5"
definition CT_CRITIQUE :: u16 where "CT_CRITIQUE = 6"
definition CT_STATE_DELTA :: u16 where "CT_STATE_DELTA = 7"
definition CT_RUN_EVENT :: u16 where "CT_RUN_EVENT = 8"
definition CT_CONTROL :: u16 where "CT_CONTROL = 9"
definition CT_ERROR_REPORT :: u16 where "CT_ERROR_REPORT = 10"
definition CT_AGENT_HELLO :: u16 where "CT_AGENT_HELLO = 100"
definition CT_RUNTIME_HELLO :: u16 where "CT_RUNTIME_HELLO = 101"
definition CT_INIT :: u16 where "CT_INIT = 102"
definition CT_HOSTCALL_REQ :: u16 where "CT_HOSTCALL_REQ = 110"
definition CT_HOSTCALL_RES :: u16 where "CT_HOSTCALL_RES = 111"
definition CT_INTENT_CONTACTS_RESOLVE :: u16 where "CT_INTENT_CONTACTS_RESOLVE = 200"
definition CT_CONTACTS_RESOLVED :: u16 where "CT_CONTACTS_RESOLVED = 201"
definition CT_INTENT_CONTEXT_GATHER :: u16 where "CT_INTENT_CONTEXT_GATHER = 210"
definition CT_CONTEXT_BUNDLE :: u16 where "CT_CONTEXT_BUNDLE = 211"
definition CT_INTENT_DRAFT_WRITE :: u16 where "CT_INTENT_DRAFT_WRITE = 220"
definition CT_DRAFT_EMAIL :: u16 where "CT_DRAFT_EMAIL = 221"
definition CT_INTENT_REVIEW_DRAFT :: u16 where "CT_INTENT_REVIEW_DRAFT = 230"
definition CT_REVIEW_CRITIQUE :: u16 where "CT_REVIEW_CRITIQUE = 231"
definition CT_INTENT_SEND_MAIL :: u16 where "CT_INTENT_SEND_MAIL = 240"
definition CT_MAIL_RESULT :: u16 where "CT_MAIL_RESULT = 241"
definition CT_EXECUTOR_AGENT_REQUEST :: u16 where "CT_EXECUTOR_AGENT_REQUEST = 4000"
definition CT_EXECUTOR_AGENT_RESPONSE :: u16 where "CT_EXECUTOR_AGENT_RESPONSE = 4001"
definition CT_CTRL_REQ :: u16 where "CT_CTRL_REQ = 2001"
definition CT_CTRL_RESP :: u16 where "CT_CTRL_RESP = 2002"
definition CT_METRICS_SNAPSHOT :: u16 where "CT_METRICS_SNAPSHOT = 3001"
definition CT_OPENING_EVENT :: u16 where "CT_OPENING_EVENT = 3002"
definition CT_TRACE_LINE :: u16 where "CT_TRACE_LINE = 3003"
definition CT_AGENT_LOG_LINE :: u16 where "CT_AGENT_LOG_LINE = 3004"
definition CT_ACTION_REQUEST :: u16 where "CT_ACTION_REQUEST = 3005"
definition CT_ACTION_DECISION :: u16 where "CT_ACTION_DECISION = 3006"
definition CT_BUS_DROP_NOTICE :: u16 where "CT_BUS_DROP_NOTICE = 3007"

lemmas CT_defs =
  CT_INVALID_def CT_OBSERVATION_def CT_INTENT_def CT_TOOL_CALL_def CT_TOOL_RESULT_def
  CT_ARTIFACT_def CT_CRITIQUE_def CT_STATE_DELTA_def CT_RUN_EVENT_def CT_CONTROL_def
  CT_ERROR_REPORT_def CT_AGENT_HELLO_def CT_RUNTIME_HELLO_def CT_INIT_def
  CT_HOSTCALL_REQ_def CT_HOSTCALL_RES_def CT_INTENT_CONTACTS_RESOLVE_def
  CT_CONTACTS_RESOLVED_def CT_INTENT_CONTEXT_GATHER_def CT_CONTEXT_BUNDLE_def
  CT_INTENT_DRAFT_WRITE_def CT_DRAFT_EMAIL_def CT_INTENT_REVIEW_DRAFT_def
  CT_REVIEW_CRITIQUE_def CT_INTENT_SEND_MAIL_def CT_MAIL_RESULT_def
  CT_EXECUTOR_AGENT_REQUEST_def CT_EXECUTOR_AGENT_RESPONSE_def CT_CTRL_REQ_def
  CT_CTRL_RESP_def CT_METRICS_SNAPSHOT_def CT_OPENING_EVENT_def CT_TRACE_LINE_def
  CT_AGENT_LOG_LINE_def CT_ACTION_REQUEST_def CT_ACTION_DECISION_def CT_BUS_DROP_NOTICE_def

section \<open>Type descriptors\<close>

datatype type_family =
  FamObservation | FamIntent | FamArtifact | FamToolResult | FamCritique | FamStateDelta | FamError

fun family_prefix :: "type_family \<Rightarrow> string" where
  "family_prefix FamObservation = ''observation''"
| "family_prefix FamIntent = ''intent''"
| "family_prefix FamArtifact = ''artifact''"
| "family_prefix FamToolResult = ''toolresult''"
| "family_prefix FamCritique = ''critique''"
| "family_prefix FamStateDelta = ''statedelta''"
| "family_prefix FamError = ''error''"

record type_descriptor =
  td_schema_id :: u16
  td_family :: type_family
  td_kind :: string
  td_version :: u16
  td_type_str :: string
  td_json_schema_id :: string

text \<open>The macro \<open>type_descriptor!\<close>; every row of the table has version 1.\<close>

definition type_descriptor_v1 :: "u16 \<Rightarrow> type_family \<Rightarrow> string \<Rightarrow> type_descriptor" where
  "type_descriptor_v1 sid fam kind =
    (let ts = family_prefix fam @ ''.'' @ kind @ ''.v1'' in
     \<lparr>td_schema_id = sid, td_family = fam, td_kind = kind, td_version = 1, td_type_str = ts,
      td_json_schema_id = ''schema://runloop/'' @ ts @ ''#''\<rparr>)"

definition DESCRIPTORS :: "type_descriptor list" where
  "DESCRIPTORS =
    [type_descriptor_v1 CT_OBSERVATION FamObservation ''generic'',
     type_descriptor_v1 CT_INTENT FamIntent ''generic'',
     type_descriptor_v1 CT_TOOL_CALL FamIntent ''tool_call'',
     type_descriptor_v1 CT_TOOL_RESULT FamToolResult ''generic'',
     type_descriptor_v1 CT_ARTIFACT FamArtifact ''generic'',
     type_descriptor_v1 CT_CRITIQUE FamCritique ''generic'',
     type_descriptor_v1 CT_STATE_DELTA FamStateDelta ''generic'',
     type_descriptor_v1 CT_RUN_EVENT FamObservation ''run.event'',
     type_descriptor_v1 CT_CONTROL FamIntent ''control'',
     type_descriptor_v1 CT_ERROR_REPORT FamError ''report'',
     type_descriptor_v1 CT_AGENT_HELLO FamObservation ''agent.hello'',
     type_descriptor_v1 CT_RUNTIME_HELLO FamObservation ''runtime.hello'',
     type_descriptor_v1 CT_INIT FamIntent ''init'',
     type_descriptor_v1 CT_HOSTCALL_REQ FamIntent ''hostcall.request'',
     type_descriptor_v1 CT_HOSTCALL_RES FamToolResult ''hostcall.response'',
     type_descriptor_v1 CT_INTENT_CONTACTS_RESOLVE FamIntent ''contacts.resolve'',
     type_descriptor_v1 CT_CONTACTS_RESOLVED FamToolResult ''contacts.resolved'',
     type_descriptor_v1 CT_INTENT_CONTEXT_GATHER FamIntent ''context.gather'',
     type_descriptor_v1 CT_CONTEXT_BUNDLE FamObservation ''context.bundle'',
     type_descriptor_v1 CT_INTENT_DRAFT_WRITE FamIntent ''draft.write'',
     type_descriptor_v1 CT_DRAFT_EMAIL FamArtifact ''draft.email'',
     type_descriptor_v1 CT_INTENT_REVIEW_DRAFT FamIntent ''review.draft'',
     type_descriptor_v1 CT_REVIEW_CRITIQUE FamCritique ''review'',
     type_descriptor_v1 CT_INTENT_SEND_MAIL FamIntent ''send.mail'',
     type_descriptor_v1 CT_MAIL_RESULT FamToolResult ''mail.result'',
     type_descriptor_v1 CT_EXECUTOR_AGENT_REQUEST FamIntent ''executor.agent.request'',
     type_descriptor_v1 CT_EXECUTOR_AGENT_RESPONSE FamToolResult ''executor.agent.response'',
     type_descriptor_v1 CT_CTRL_REQ FamIntent ''ctrl.request'',
     type_descriptor_v1 CT_CTRL_RESP FamToolResult ''ctrl.response'',
     type_descriptor_v1 CT_METRICS_SNAPSHOT FamObservation ''metrics.snapshot'',
     type_descriptor_v1 CT_OPENING_EVENT FamObservation ''opening.event'',
     type_descriptor_v1 CT_TRACE_LINE FamObservation ''trace.line'',
     type_descriptor_v1 CT_AGENT_LOG_LINE FamObservation ''agent.log'',
     type_descriptor_v1 CT_ACTION_REQUEST FamIntent ''action.request'',
     type_descriptor_v1 CT_ACTION_DECISION FamToolResult ''action.decision'',
     type_descriptor_v1 CT_BUS_DROP_NOTICE FamError ''bus.drop.notice'']"

text \<open>
  The two static hash maps, filled by inserting in a loop. The second is filled from the
  values of the first, in an order Rust leaves open; the keys are distinct, so the order
  does not matter (\<open>distinct_type_strs\<close>).
\<close>

definition ID_TO_DESC :: "u16 \<rightharpoonup> type_descriptor" where
  "ID_TO_DESC = foldl (\<lambda>m d. m(td_schema_id d \<mapsto> d)) Map.empty DESCRIPTORS"

definition TYPE_TO_DESC :: "string \<rightharpoonup> type_descriptor" where
  "TYPE_TO_DESC = foldl (\<lambda>m d. m(td_type_str d \<mapsto> d)) Map.empty
     (filter (\<lambda>d. ID_TO_DESC (td_schema_id d) = Some d) DESCRIPTORS)"

definition descriptor_for_schema :: "u16 \<Rightarrow> type_descriptor option" where
  "descriptor_for_schema sid = ID_TO_DESC sid"

definition descriptor_for_type :: "string \<Rightarrow> type_descriptor option" where
  "descriptor_for_type t = TYPE_TO_DESC t"

definition type_name_for :: "u16 \<Rightarrow> string option" where
  "type_name_for sid = map_option td_type_str (descriptor_for_schema sid)"

definition schema_for :: "string \<Rightarrow> u16 option" where
  "schema_for t = map_option td_schema_id (descriptor_for_type t)"

definition family_for_schema :: "u16 \<Rightarrow> type_family option" where
  "family_for_schema sid = map_option td_family (descriptor_for_schema sid)"

section \<open>The registry is a bijection\<close>

lemma distinct_schema_ids: "distinct (map td_schema_id DESCRIPTORS)"
  unfolding DESCRIPTORS_def type_descriptor_v1_def CT_defs Let_def by simp

lemma distinct_type_strs: "distinct (map td_type_str DESCRIPTORS)"
  unfolding DESCRIPTORS_def type_descriptor_v1_def CT_defs Let_def by simp

text \<open>Filling a map from a list with distinct keys.\<close>

lemma foldl_map_upd_other:
  "k \<notin> key ` set ds \<Longrightarrow> foldl (\<lambda>m d. m(key d \<mapsto> d)) m0 ds k = m0 k"
  by (induction ds arbitrary: m0) auto

lemma foldl_map_upd:
  assumes "distinct (map key ds)"
  shows "foldl (\<lambda>m d. m(key d \<mapsto> d)) m0 ds k = Some d \<longleftrightarrow>
    (d \<in> set ds \<and> key d = k) \<or> (k \<notin> key ` set ds \<and> m0 k = Some d)"
  using assms by (induction ds arbitrary: m0) (auto simp: foldl_map_upd_other)

lemma foldl_map_upd_Some:
  assumes "distinct (map key ds)"
  shows "foldl (\<lambda>m d. m(key d \<mapsto> d)) Map.empty ds k = Some d \<longleftrightarrow> d \<in> set ds \<and> key d = k"
  using foldl_map_upd [OF assms, of Map.empty k d] by simp

lemma descriptor_for_schema_iff:
  "descriptor_for_schema sid = Some d \<longleftrightarrow> d \<in> set DESCRIPTORS \<and> td_schema_id d = sid"
  unfolding descriptor_for_schema_def ID_TO_DESC_def
  by (rule foldl_map_upd_Some [OF distinct_schema_ids])

lemma descriptor_for_type_iff:
  "descriptor_for_type t = Some d \<longleftrightarrow> d \<in> set DESCRIPTORS \<and> td_type_str d = t"
proof -
  have all: "filter (\<lambda>d. ID_TO_DESC (td_schema_id d) = Some d) DESCRIPTORS = DESCRIPTORS"
    using descriptor_for_schema_iff by (auto simp: filter_id_conv descriptor_for_schema_def)
  show ?thesis
    unfolding descriptor_for_type_def TYPE_TO_DESC_def all
    by (rule foldl_map_upd_Some [OF distinct_type_strs])
qed

lemma registry_inverse: "type_name_for sid = Some t \<longleftrightarrow> schema_for t = Some sid"
  by (auto simp: type_name_for_def schema_for_def descriptor_for_schema_iff
      descriptor_for_type_iff)

section \<open>The MsgPack envelope\<close>

text \<open>
  \<open>EncEnvelope\<close> and \<open>RawEnvelope\<close>: the type string, the payload and the optional metadata.
  The extra metadata entries are JSON values; here any type \<open>'x\<close>.
\<close>

record 'x envelope_meta =
  meta_opening_id :: "u128 option"
  meta_priority :: "u8 option"
  meta_tags :: "string list"
  meta_extra :: "(string \<times> 'x) list"

record ('p, 'x) envelope =
  env_type_str :: string
  env_payload :: 'p
  env_meta :: "'x envelope_meta option"

type_synonym ('p, 'x) serializer = "('p, 'x) envelope \<Rightarrow> string + bytes"
type_synonym ('p, 'x) deserializer = "bytes \<Rightarrow> string + ('p, 'x) envelope"

definition encode_payload ::
  "('p, 'x) serializer \<Rightarrow> u16 \<Rightarrow> 'p \<Rightarrow> 'x envelope_meta option \<Rightarrow> rmp_error + bytes" where
  "encode_payload ser sid payload meta =
    res_bind (ok_or (UnknownSchema sid) (descriptor_for_schema sid)) (\<lambda>d.
      case ser \<lparr>env_type_str = td_type_str d, env_payload = payload, env_meta = meta\<rparr> of
        Inl e \<Rightarrow> Inl (RmpEncode e)
      | Inr buf \<Rightarrow> Inr buf)"

definition decode_payload ::
  "('p, 'x) deserializer \<Rightarrow> u16 \<Rightarrow> bytes \<Rightarrow> rmp_error + ('p, 'x) envelope" where
  "decode_payload de sid bs =
    res_bind (ok_or (UnknownSchema sid) (descriptor_for_schema sid)) (\<lambda>d.
      case de bs of
        Inl e \<Rightarrow> Inl (RmpDecode e)
      | Inr env \<Rightarrow>
          if schema_for (env_type_str env) \<noteq> Some (td_schema_id d)
          then Inl (BodyTypeMismatch (td_schema_id d) (env_type_str env))
          else Inr env)"

text \<open>What is asked of the MsgPack library: it reads back what it wrote.\<close>

definition codec_roundtrip :: "('p, 'x) serializer \<Rightarrow> ('p, 'x) deserializer \<Rightarrow> bool" where
  "codec_roundtrip ser de = (\<forall>env buf. ser env = Inr buf \<longrightarrow> de buf = Inr env)"

lemma decode_encode_payload:
  assumes codec: "codec_roundtrip ser de"
    and enc: "encode_payload ser sid payload meta = Inr buf"
  shows "\<exists>t. type_name_for sid = Some t \<and>
    decode_payload de sid' buf =
      (if type_name_for sid' = None then Inl (UnknownSchema sid')
       else if sid' = sid
       then Inr \<lparr>env_type_str = t, env_payload = payload, env_meta = meta\<rparr>
       else Inl (BodyTypeMismatch sid' t))"
proof -
  from enc obtain d where d: "descriptor_for_schema sid = Some d"
    and c: "(case ser \<lparr>env_type_str = td_type_str d, env_payload = payload, env_meta = meta\<rparr> of
        Inl e \<Rightarrow> Inl (RmpEncode e) | Inr b \<Rightarrow> Inr b) = Inr buf"
    by (auto simp: encode_payload_def res_bind_eq_Inr)
  from c have ser:
    "ser \<lparr>env_type_str = td_type_str d, env_payload = payload, env_meta = meta\<rparr> = Inr buf"
    by (simp split: sum.splits)
  let ?t = "td_type_str d"
  have t: "type_name_for sid = Some ?t" by (simp add: type_name_for_def d)
  have de: "de buf = Inr \<lparr>env_type_str = ?t, env_payload = payload, env_meta = meta\<rparr>"
    using codec ser by (simp add: codec_roundtrip_def)
  have sf: "schema_for ?t = Some sid" using t by (simp add: registry_inverse)
  show ?thesis
  proof (cases "descriptor_for_schema sid'")
    case None
    with t d show ?thesis by (auto simp: decode_payload_def type_name_for_def)
  next
    case (Some d')
    then have "td_schema_id d' = sid'" by (simp add: descriptor_for_schema_iff)
    with Some t de sf show ?thesis
      by (auto simp: decode_payload_def type_name_for_def)
  qed
qed

section \<open>Properties\<close>

text \<open>The schema registry is a bijection: a schema identifier has a type string exactly when the
  type string has that identifier.\<close>

theorem schema_registry_bijective:
  "(type_name_for sid = Some t) = (schema_for t = Some sid)"
  by (rule registry_inverse)

text \<open>No type confusion: a payload encoded under one schema decodes, to itself, under that schema
  only; under any other known schema it is reported as a type mismatch and under an unknown
  one as unknown. The MsgPack library is assumed to read back what it wrote.\<close>

theorem envelope_no_confusion:
  assumes "codec_roundtrip ser de" "encode_payload ser sid payload meta = Inr buf"
  shows "\<exists>t. type_name_for sid = Some t \<and>
    decode_payload de sid' buf =
      (if type_name_for sid' = None then Inl (UnknownSchema sid')
       else if sid' = sid
       then Inr \<lparr>env_type_str = t, env_payload = payload, env_meta = meta\<rparr>
       else Inl (BodyTypeMismatch sid' t))"
  using assms by (rule decode_encode_payload)

definition toy_ser :: "(unit, unit) serializer" where
  "toy_ser env = (case env_meta env of
     None \<Rightarrow> Inr (map (\<lambda>c. word_of_nat (of_char c)) (env_type_str env)) | Some _ \<Rightarrow> Inl ''unsupported'')"

definition toy_de :: "(unit, unit) deserializer" where
  "toy_de bs = Inr \<lparr>env_type_str = map (\<lambda>b. char_of (unat b)) bs, env_payload = (), env_meta = None\<rparr>"

lemma toy_roundtrip: "codec_roundtrip toy_ser toy_de"
proof -
  have "char_of (unat (word_of_nat (of_char c) :: u8)) = c" for c :: char
    by (simp add: unat_of_nat)
  then have "map (\<lambda>b. char_of (unat b)) (map (\<lambda>c. word_of_nat (of_char c) :: u8) t) = t" for t
    by (simp add: comp_def)
  then show ?thesis by (auto simp: codec_roundtrip_def toy_ser_def toy_de_def split: option.splits)
qed

theorem envelope_no_confusion_witness:
  "\<exists>buf. encode_payload toy_ser CT_INTENT () None = Inr buf
    \<and> decode_payload toy_de CT_CONTROL buf = Inl (BodyTypeMismatch CT_CONTROL ''intent.generic.v1'')"
proof -
  have "type_descriptor_v1 CT_INTENT FamIntent ''generic'' \<in> set DESCRIPTORS" by (simp add: DESCRIPTORS_def)
  then have "descriptor_for_schema CT_INTENT = Some (type_descriptor_v1 CT_INTENT FamIntent ''generic'')"
    by (simp add: descriptor_for_schema_iff type_descriptor_v1_def Let_def)
  then have t: "type_name_for CT_INTENT = Some ''intent.generic.v1''"
    by (simp add: type_name_for_def type_descriptor_v1_def Let_def)
  have "type_descriptor_v1 CT_CONTROL FamIntent ''control'' \<in> set DESCRIPTORS" by (simp add: DESCRIPTORS_def)
  then have "descriptor_for_schema CT_CONTROL = Some (type_descriptor_v1 CT_CONTROL FamIntent ''control'')"
    by (simp add: descriptor_for_schema_iff type_descriptor_v1_def Let_def)
  then have t': "type_name_for CT_CONTROL = Some ''intent.control.v1''"
    by (simp add: type_name_for_def type_descriptor_v1_def Let_def)
  from t obtain d where "descriptor_for_schema CT_INTENT = Some d" by (auto simp: type_name_for_def)
  then obtain buf where b: "encode_payload toy_ser CT_INTENT () None = Inr buf"
    by (simp add: encode_payload_def toy_ser_def)
  have "CT_CONTROL \<noteq> CT_INTENT" by (simp add: CT_defs)
  with envelope_no_confusion [OF toy_roundtrip b, of CT_CONTROL] t t' b show ?thesis by auto
qed

end
