(* ===== verification/Bus_Server.thy ===== *)
theory Bus_Server
  imports Content_Types Rust_Num
begin

text \<open>
  The in-process bus (\<open>crates/bus/src/lib.rs\<close>): messages, the deduplication cache with its
  reservations, and the server with its topics, subscribers, metrics and access control.
  Subscribers are shared (\<open>Arc\<close>) and live in a store, so topics hold their identifiers; a
  channel is its queue, with room for 1024 messages, and a flag for a dropped receiver.
  Parameters: the LRU cache of the \<open>lru\<close> crate (\<open>lru_ops\<close>, with its documented behaviour as
  the predicate \<open>lru_laws\<close>), the clock, the outcome of waiting on a full channel, and the
  MsgPack serialiser of drop notices. One operation runs at a time. A result \<open>None\<close> is a loop
  of the cache that never ends.
\<close>

definition DROP_TOPIC :: string where "DROP_TOPIC = ''rlp/sys/drops''"

datatype bus_error =
    AlreadyBound string
  | BusNotFound string
  | BusClosed
  | MessageExpired
  | BusInvalidTtl u64
  | BodyLengthMismatch u32 nat
  | BackpressureTimeoutError string
  | Forbidden string
  | BusBodyTypeMismatch u16 string
  | BusInvalidExpiry u64 u64
  | BusUnknownSchema u16

fun map_rmp_error :: "rmp_error \<Rightarrow> bus_error" where
  "map_rmp_error (InvalidTtl ttl) = BusInvalidTtl ttl"
| "map_rmp_error (InvalidExpiry created ttl) = BusInvalidExpiry created ttl"
| "map_rmp_error (BodyTypeMismatch expected actual) = BusBodyTypeMismatch expected actual"
| "map_rmp_error (UnknownSchema sid) = BusUnknownSchema sid"
| "map_rmp_error (RmpEncode e) = BusClosed"
| "map_rmp_error (RmpDecode e) = BusClosed"

definition map_err :: "('e \<Rightarrow> 'f) \<Rightarrow> 'e + 'a \<Rightarrow> 'f + 'a" where
  "map_err f r = (case r of Inl e \<Rightarrow> Inl (f e) | Inr a \<Rightarrow> Inr a)"

section \<open>Messages\<close>

record message =
  msg_header :: header
  msg_body :: bytes

definition message_new :: "header \<Rightarrow> bytes \<Rightarrow> bus_error + message" where
  "message_new h body =
    (let actual = word_of_nat (length body) in
     if hdr_body_len h \<noteq> 0 \<and> hdr_body_len h \<noteq> actual
     then Inl (BodyLengthMismatch (hdr_body_len h) (length body))
     else let h = h\<lparr>hdr_body_len := actual\<rparr> in
     res_bind (map_err map_rmp_error (expires_at_ms h)) (\<lambda>_.
     Inr \<lparr>msg_header = h, msg_body = body\<rparr>))"

definition msg_expires_at :: "message \<Rightarrow> bus_error + u64" where
  "msg_expires_at m = map_err map_rmp_error (expires_at_ms (msg_header m))"

definition msg_is_expired :: "message \<Rightarrow> u64 \<Rightarrow> bus_error + bool" where
  "msg_is_expired m now_ms = map_err map_rmp_error (is_expired (msg_header m) now_ms)"

section \<open>The deduplication cache\<close>

type_synonym dedupe_key = "u128 \<times> u64"

text \<open>The operations of \<open>LruCache\<close> that the code calls, and what they are documented to do on
  the entries from the least to the most recently used.\<close>

record 'c lru_ops =
  lo_new :: "nat \<Rightarrow> 'c"
  lo_contains :: "'c \<Rightarrow> dedupe_key \<Rightarrow> bool"
  lo_put :: "'c \<Rightarrow> dedupe_key \<Rightarrow> u64 \<Rightarrow> 'c"
  lo_pop :: "'c \<Rightarrow> dedupe_key \<Rightarrow> 'c"
  lo_peek_lru :: "'c \<Rightarrow> (dedupe_key \<times> u64) option"
  lo_pop_lru :: "'c \<Rightarrow> 'c"

definition lru_laws :: "'c lru_ops \<Rightarrow> ('c \<Rightarrow> (dedupe_key \<times> u64) list) \<Rightarrow> ('c \<Rightarrow> nat) \<Rightarrow> bool" where
  "lru_laws ops entries cap =
    (\<forall>n c k t. entries (lo_new ops n) = [] \<and> cap (lo_new ops n) = n
       \<and> lo_contains ops c k = (k \<in> fst ` set (entries c))
       \<and> entries (lo_put ops c k t) = lru_insert (cap c) (entries c) k t \<and> cap (lo_put ops c k t) = cap c
       \<and> entries (lo_pop ops c k) = filter (\<lambda>e. fst e \<noteq> k) (entries c) \<and> cap (lo_pop ops c k) = cap c
       \<and> lo_peek_lru ops c = (case entries c of [] \<Rightarrow> None | e # _ \<Rightarrow> Some e)
       \<and> entries (lo_pop_lru ops c) = tl (entries c) \<and> cap (lo_pop_lru ops c) = cap c)"

definition saturating_sub :: "u64 \<Rightarrow> u64 \<Rightarrow> u64" where
  "saturating_sub a b = (if b \<le> a then a - b else 0)"

partial_function (option) prune :: "'c lru_ops \<Rightarrow> u64 \<Rightarrow> u64 \<Rightarrow> 'c \<Rightarrow> 'c option" where
  "prune ops max_age now c =
    (case lo_peek_lru ops c of
       Some (k, ts) \<Rightarrow>
         if max_age < saturating_sub now ts then prune ops max_age now (lo_pop_lru ops c) else Some c
     | None \<Rightarrow> Some c)"

record 'c dedupe_cache =
  dc_cache :: 'c
  dc_max_age :: u64

definition dedupe_new :: "'c lru_ops \<Rightarrow> nat \<Rightarrow> u64 \<Rightarrow> 'c dedupe_cache" where
  "dedupe_new ops capacity max_age = \<lparr>dc_cache = lo_new ops (max capacity 1), dc_max_age = max_age\<rparr>"

definition dedupe_prune :: "'c lru_ops \<Rightarrow> u64 \<Rightarrow> 'c dedupe_cache \<Rightarrow> 'c dedupe_cache option" where
  "dedupe_prune ops now d = map_option (\<lambda>c. d\<lparr>dc_cache := c\<rparr>) (prune ops (dc_max_age d) now (dc_cache d))"

definition dedupe_contains ::
  "'c lru_ops \<Rightarrow> 'c dedupe_cache \<Rightarrow> dedupe_key \<Rightarrow> u64 \<Rightarrow> ('c dedupe_cache \<times> bool) option" where
  "dedupe_contains ops d key now =
    map_option (\<lambda>d. (d, lo_contains ops (dc_cache d) key)) (dedupe_prune ops now d)"

definition dedupe_insert :: "'c lru_ops \<Rightarrow> 'c dedupe_cache \<Rightarrow> dedupe_key \<Rightarrow> u64 \<Rightarrow> 'c dedupe_cache option" where
  "dedupe_insert ops d key now =
    map_option (\<lambda>d. d\<lparr>dc_cache := lo_put ops (dc_cache d) key now\<rparr>) (dedupe_prune ops now d)"

definition dedupe_remove :: "'c lru_ops \<Rightarrow> 'c dedupe_cache \<Rightarrow> dedupe_key \<Rightarrow> 'c dedupe_cache" where
  "dedupe_remove ops d key = d\<lparr>dc_cache := lo_pop ops (dc_cache d) key\<rparr>"

section \<open>The server state\<close>

datatype publisher_kind = Ui | Tui | AgentKind

datatype drop_reason = TtlExpired | Duplicate | BackpressureTimeout

record drop_notice =
  dn_v :: u16
  dn_reason :: drop_reason
  dn_topic :: string
  dn_trace_id :: u128
  dn_msg_id :: u64
  dn_expires_at_ms :: "u64 option"
  dn_observed_at_ms :: u64

record 'c subscriber =
  sb_id :: nat
  sb_queue :: "message list"
  sb_receiver_gone :: bool
  sb_dedupe :: "'c dedupe_cache"

record metrics =
  mt_published :: u64
  mt_delivered :: u64
  mt_drops_ttl :: u64
  mt_drops_duplicate :: u64
  mt_drops_backpressure :: u64
  mt_drop_msg_seq :: u64

definition QUEUE_CAPACITY :: nat where "QUEUE_CAPACITY = 1024"
definition DEDUPE_CAPACITY :: nat where "DEDUPE_CAPACITY = 65536"

record 'c server =
  sv_topics :: "string \<Rightarrow> nat list option"
  sv_subs :: "nat \<Rightarrow> 'c subscriber option"
  sv_metrics :: metrics
  sv_closed :: bool
  sv_allow_ui :: bool
  sv_allow_tui :: bool
  sv_allow_agent :: bool
  sv_next_id :: nat
  sv_ticks :: nat
  sv_waits :: nat

text \<open>What the environment decides: the time at each reading of the clock, and how a wait for
  room on a full channel ends; while the sender waits the receiver may take messages off.\<close>

datatype wait_outcome = WaitSent nat | WaitClosed | WaitTimedOut

record bus_env =
  be_clock :: "nat \<Rightarrow> u64"
  be_wait :: "nat \<Rightarrow> wait_outcome"
  be_serialize :: "(drop_notice, unit) serializer"

definition server_new :: "'c server" where
  "server_new =
    \<lparr>sv_topics = Map.empty, sv_subs = Map.empty,
     sv_metrics = \<lparr>mt_published = 0, mt_delivered = 0, mt_drops_ttl = 0, mt_drops_duplicate = 0,
                   mt_drops_backpressure = 0, mt_drop_msg_seq = 0\<rparr>,
     sv_closed = False, sv_allow_ui = True, sv_allow_tui = True, sv_allow_agent = False,
     sv_next_id = 0, sv_ticks = 0, sv_waits = 0\<rparr>"

definition configure_acl :: "publisher_kind list \<Rightarrow> 'c server \<Rightarrow> 'c server" where
  "configure_acl allowed s =
    s\<lparr>sv_allow_ui := Ui \<in> set allowed, sv_allow_tui := Tui \<in> set allowed, sv_allow_agent := AgentKind \<in> set allowed\<rparr>"

definition shutdown :: "'c server \<Rightarrow> 'c server \<times> bool" where
  "shutdown s =
    (if sv_closed s then (s, False)
     else (s\<lparr>sv_closed := True, sv_topics := Map.empty\<rparr>, True))"

definition current_millis :: "bus_env \<Rightarrow> 'c server \<Rightarrow> u64 \<times> 'c server" where
  "current_millis env s = (be_clock env (sv_ticks s), s\<lparr>sv_ticks := Suc (sv_ticks s)\<rparr>)"

definition inc_published :: "'c server \<Rightarrow> 'c server" where
  "inc_published s = s\<lparr>sv_metrics := (sv_metrics s)\<lparr>mt_published := mt_published (sv_metrics s) + 1\<rparr>\<rparr>"

definition inc_delivered :: "'c server \<Rightarrow> 'c server" where
  "inc_delivered s = s\<lparr>sv_metrics := (sv_metrics s)\<lparr>mt_delivered := mt_delivered (sv_metrics s) + 1\<rparr>\<rparr>"

definition inc_drop :: "drop_reason \<Rightarrow> 'c server \<Rightarrow> 'c server" where
  "inc_drop r s = s\<lparr>sv_metrics :=
    (let m = sv_metrics s in
     case r of
       TtlExpired \<Rightarrow> m\<lparr>mt_drops_ttl := mt_drops_ttl m + 1\<rparr>
     | Duplicate \<Rightarrow> m\<lparr>mt_drops_duplicate := mt_drops_duplicate m + 1\<rparr>
     | BackpressureTimeout \<Rightarrow> m\<lparr>mt_drops_backpressure := mt_drops_backpressure m + 1\<rparr>)\<rparr>"

definition next_drop_msg_id :: "'c server \<Rightarrow> u64 \<times> 'c server" where
  "next_drop_msg_id s =
    (mt_drop_msg_seq (sv_metrics s) + 1,
     s\<lparr>sv_metrics := (sv_metrics s)\<lparr>mt_drop_msg_seq := mt_drop_msg_seq (sv_metrics s) + 1\<rparr>\<rparr>)"

definition allowed_action_decision_publisher :: "'c server \<Rightarrow> publisher_kind \<Rightarrow> bool" where
  "allowed_action_decision_publisher s kind =
    (case kind of Ui \<Rightarrow> sv_allow_ui s | Tui \<Rightarrow> sv_allow_tui s | AgentKind \<Rightarrow> sv_allow_agent s)"

section \<open>Subscribing\<close>

text \<open>\<open>subscribe\<close> gives the identifier behind the subscription; dropping the subscription
  unregisters it and drops the receiver.\<close>

definition subscribe :: "'c lru_ops \<Rightarrow> string \<Rightarrow> 'c server \<Rightarrow> 'c server \<times> (bus_error + nat)" where
  "subscribe ops topic s =
    (if sv_closed s then (s, Inl BusClosed)
     else let i = sv_next_id s;
              sub = \<lparr>sb_id = i, sb_queue = [], sb_receiver_gone = False,
                     sb_dedupe = dedupe_new ops DEDUPE_CAPACITY DEFAULT_TTL_MS\<rparr>;
              ids = (case sv_topics s topic of Some ids \<Rightarrow> ids | None \<Rightarrow> [])
          in (s\<lparr>sv_next_id := Suc i, sv_subs := (sv_subs s)(i \<mapsto> sub),
                sv_topics := (sv_topics s)(topic \<mapsto> ids @ [i])\<rparr>, Inr i))"

definition remove_subscriber :: "string \<Rightarrow> nat \<Rightarrow> 'c server \<Rightarrow> 'c server" where
  "remove_subscriber topic i s =
    (case sv_topics s topic of
       None \<Rightarrow> s
     | Some ids \<Rightarrow>
         let ids = filter (\<lambda>j. j \<noteq> i) ids
         in s\<lparr>sv_topics := (sv_topics s)(topic := if ids = [] then None else Some ids)\<rparr>)"

definition drop_subscription :: "string \<Rightarrow> nat \<Rightarrow> 'c server \<Rightarrow> 'c server" where
  "drop_subscription topic i s =
    (let s = remove_subscriber topic i s
     in s\<lparr>sv_subs := (sv_subs s)(i := map_option (\<lambda>sub. sub\<lparr>sb_receiver_gone := True\<rparr>) (sv_subs s i))\<rparr>)"

definition receive :: "nat \<Rightarrow> 'c server \<Rightarrow> 'c server \<times> message option" where
  "receive i s =
    (case sv_subs s i of
       Some sub \<Rightarrow>
         (case sb_queue sub of
            m # ms \<Rightarrow> (s\<lparr>sv_subs := (sv_subs s)(i \<mapsto> sub\<lparr>sb_queue := ms\<rparr>)\<rparr>, Some m)
          | [] \<Rightarrow> (s, None))
     | None \<Rightarrow> (s, None))"

section \<open>Sending on one channel\<close>

datatype push_error = ChannelClosed | TimedOut

definition enqueue :: "nat \<Rightarrow> nat \<Rightarrow> message \<Rightarrow> 'c server \<Rightarrow> 'c server" where
  "enqueue i taken m s =
    s\<lparr>sv_subs := (sv_subs s)(i := map_option (\<lambda>sub. sub\<lparr>sb_queue := drop taken (sb_queue sub) @ [m]\<rparr>) (sv_subs s i))\<rparr>"

definition push_message :: "bus_env \<Rightarrow> nat \<Rightarrow> message \<Rightarrow> 'c server \<Rightarrow> 'c server \<times> (push_error + unit)" where
  "push_message env i m s =
    (case sv_subs s i of
       None \<Rightarrow> (s, Inl ChannelClosed)
     | Some sub \<Rightarrow>
         if sb_receiver_gone sub then (s, Inl ChannelClosed)
         else if length (sb_queue sub) < QUEUE_CAPACITY
         then (inc_delivered (enqueue i 0 m s), Inr ())
         else let s' = s\<lparr>sv_waits := Suc (sv_waits s)\<rparr> in
           (case be_wait env (sv_waits s) of
              WaitSent taken \<Rightarrow> (inc_delivered (enqueue i (Suc taken) m s'), Inr ())
            | WaitClosed \<Rightarrow> (s'\<lparr>sv_subs := (sv_subs s)(i \<mapsto> sub\<lparr>sb_receiver_gone := True\<rparr>)\<rparr>, Inl ChannelClosed)
            | WaitTimedOut \<Rightarrow> (s', Inl TimedOut)))"

section \<open>Drop notices\<close>

fun notify_all :: "bus_env \<Rightarrow> message \<Rightarrow> nat list \<Rightarrow> 'c server \<Rightarrow> 'c server" where
  "notify_all env m [] s = s"
| "notify_all env m (i # is) s =
     (case push_message env i m s of
        (s, Inr _) \<Rightarrow> notify_all env m is s
      | (s, Inl ChannelClosed) \<Rightarrow> notify_all env m is (remove_subscriber DROP_TOPIC i s)
      | (s, Inl TimedOut) \<Rightarrow> notify_all env m is s)"

definition topic_subs :: "'c server \<Rightarrow> string \<Rightarrow> nat list" where
  "topic_subs s topic = (case sv_topics s topic of Some ids \<Rightarrow> ids | None \<Rightarrow> [])"

definition emit_drop :: "bus_env \<Rightarrow> string \<Rightarrow> message \<Rightarrow> drop_reason \<Rightarrow> u64 \<Rightarrow> 'c server \<Rightarrow> 'c server" where
  "emit_drop env topic m reason observed_at s =
    (let notice = \<lparr>dn_v = 1, dn_reason = reason, dn_topic = topic,
           dn_trace_id = hdr_trace_id (msg_header m), dn_msg_id = hdr_msg_id (msg_header m),
           dn_expires_at_ms = (case msg_expires_at m of Inr e \<Rightarrow> Some e | Inl _ \<Rightarrow> None),
           dn_observed_at_ms = observed_at\<rparr>
     in case encode_payload (be_serialize env) CT_BUS_DROP_NOTICE notice None of
       Inl err \<Rightarrow> s
     | Inr payload \<Rightarrow>
         let (mid, s) = next_drop_msg_id s in
         (case message_new (default_header\<lparr>hdr_schema_id := CT_BUS_DROP_NOTICE,
                 hdr_created_at_ms := observed_at, hdr_ttl_ms := 5000,
                 hdr_trace_id := hdr_trace_id (msg_header m), hdr_msg_id := mid\<rparr>) payload of
            Inl err \<Rightarrow> s
          | Inr drop_msg \<Rightarrow> notify_all env drop_msg (topic_subs s DROP_TOPIC) s))"

definition notify_drop :: "bus_env \<Rightarrow> bool \<Rightarrow> string \<Rightarrow> message \<Rightarrow> drop_reason \<Rightarrow> 'c server \<Rightarrow> 'c server" where
  "notify_drop env emit topic m reason s =
    (let s = inc_drop reason s in
     if emit then let (observed_at, s) = current_millis env s in emit_drop env topic m reason observed_at s
     else s)"

section \<open>Delivering and publishing\<close>

text \<open>\<open>reserve\<close> inserts the key; a reservation is its subscriber and key until it is committed or
  rolled back.\<close>

definition reserve ::
  "'c lru_ops \<Rightarrow> nat \<Rightarrow> header \<Rightarrow> u64 \<Rightarrow> 'c server \<Rightarrow> ('c server \<times> (nat \<times> dedupe_key) option) option" where
  "reserve ops i h now s =
    (case sv_subs s i of
       None \<Rightarrow> Some (s, Some (i, dedupe_key h))
     | Some sub \<Rightarrow>
         Option.bind (dedupe_contains ops (sb_dedupe sub) (dedupe_key h) now) (\<lambda>(d, dup).
         if dup then Some (s\<lparr>sv_subs := (sv_subs s)(i \<mapsto> sub\<lparr>sb_dedupe := d\<rparr>)\<rparr>, None)
         else map_option (\<lambda>d. (s\<lparr>sv_subs := (sv_subs s)(i \<mapsto> sub\<lparr>sb_dedupe := d\<rparr>)\<rparr>, Some (i, dedupe_key h)))
                (dedupe_insert ops d (dedupe_key h) now)))"

definition rollback :: "'c lru_ops \<Rightarrow> nat \<times> dedupe_key \<Rightarrow> 'c server \<Rightarrow> 'c server" where
  "rollback ops r s =
    s\<lparr>sv_subs := (sv_subs s)(fst r := map_option
        (\<lambda>sub. sub\<lparr>sb_dedupe := dedupe_remove ops (sb_dedupe sub) (snd r)\<rparr>) (sv_subs s (fst r)))\<rparr>"

datatype delivery_result =
    Delivered
  | DeliveryClosed "nat \<times> dedupe_key"
  | DeliveryTimedOut "nat \<times> dedupe_key"

definition deliver ::
  "'c lru_ops \<Rightarrow> bus_env \<Rightarrow> nat \<Rightarrow> string \<Rightarrow> message \<Rightarrow> u64 \<Rightarrow> bool \<Rightarrow> 'c server \<Rightarrow> ('c server \<times> delivery_result) option" where
  "deliver ops env i topic m now emit s =
    Option.bind (reserve ops i (msg_header m) now s) (\<lambda>(s, res).
    case res of
      None \<Rightarrow> Some (notify_drop env emit topic m Duplicate s, Delivered)
    | Some reservation \<Rightarrow>
        (case push_message env i m s of
           (s, Inr _) \<Rightarrow> Some (s, Delivered)
         | (s, Inl ChannelClosed) \<Rightarrow> Some (remove_subscriber topic i s, DeliveryClosed reservation)
         | (s, Inl TimedOut) \<Rightarrow>
             Some (notify_drop env emit topic m BackpressureTimeout s, DeliveryTimedOut reservation)))"

datatype failure_severity = SevChannelClosed | SevBackpressureTimeout

fun severity_rank :: "failure_severity \<Rightarrow> nat" where
  "severity_rank SevChannelClosed = 1"
| "severity_rank SevBackpressureTimeout = 2"

definition update_primary_error ::
  "(failure_severity \<times> bus_error) option \<Rightarrow> failure_severity \<Rightarrow> bus_error \<Rightarrow> (failure_severity \<times> bus_error) option" where
  "update_primary_error target severity err =
    (if (case target of Some (existing, _) \<Rightarrow> severity_rank existing < severity_rank severity | None \<Rightarrow> True)
     then Some (severity, err) else target)"

text \<open>The delivery loop: reservations to roll back, in order, and the primary error.\<close>

fun deliver_all ::
  "'c lru_ops \<Rightarrow> bus_env \<Rightarrow> string \<Rightarrow> message \<Rightarrow> u64 \<Rightarrow> bool \<Rightarrow> nat list \<Rightarrow> (failure_severity \<times> bus_error) option
   \<Rightarrow> 'c server \<Rightarrow> ('c server \<times> (nat \<times> dedupe_key) list \<times> (failure_severity \<times> bus_error) option) option" where
  "deliver_all ops env topic m now emit [] err s = Some (s, [], err)"
| "deliver_all ops env topic m now emit (i # is) err s =
     Option.bind (deliver ops env i topic m now emit s) (\<lambda>(s, r).
     case r of
       Delivered \<Rightarrow> deliver_all ops env topic m now emit is err s
     | DeliveryClosed reservation \<Rightarrow>
         map_option (\<lambda>(s, rs, e). (s, reservation # rs, e))
           (deliver_all ops env topic m now emit is (update_primary_error err SevChannelClosed BusClosed) s)
     | DeliveryTimedOut reservation \<Rightarrow>
         map_option (\<lambda>(s, rs, e). (s, reservation # rs, e))
           (deliver_all ops env topic m now emit is
              (update_primary_error err SevBackpressureTimeout (BackpressureTimeoutError topic)) s))"

definition publish ::
  "'c lru_ops \<Rightarrow> bus_env \<Rightarrow> string \<Rightarrow> message \<Rightarrow> bool \<Rightarrow> publisher_kind \<Rightarrow> 'c server \<Rightarrow> ('c server \<times> (bus_error + unit)) option" where
  "publish ops env topic m emit publisher s =
    (if sv_closed s then Some (s, Inl BusClosed)
     else if hdr_schema_id (msg_header m) = CT_ACTION_DECISION \<and> \<not> allowed_action_decision_publisher s publisher
     then Some (s, Inl (Forbidden ''publisher kind not permitted to publish action.decision''))
     else let (now, s) = current_millis env s in
     (case msg_is_expired m now of
        Inl err \<Rightarrow> Some (s, Inl err)
      | Inr True \<Rightarrow> Some (notify_drop env emit topic m TtlExpired s, Inl MessageExpired)
      | Inr False \<Rightarrow>
          let s = inc_published s in
          map_option (\<lambda>(s, pending, primary).
              (foldl (\<lambda>s r. rollback ops r s) s pending,
               case primary of Some (_, err) \<Rightarrow> Inl err | None \<Rightarrow> Inr ()))
            (deliver_all ops env topic m now emit (topic_subs s topic) None s)))"

section \<open>Statistics\<close>

record bus_stats =
  bs_published :: u64
  bs_delivered :: u64
  bs_drops_ttl :: u64
  bs_drops_duplicate :: u64
  bs_drops_backpressure :: u64
  bs_queue_depth_max :: u64
  bs_queue_capacity_max :: u64

definition live_ids :: "'c server \<Rightarrow> string list \<Rightarrow> nat list" where
  "live_ids s topics = concat (map (topic_subs s) topics)"

text \<open>The maxima over all subscribers; \<open>topics\<close> lists the keys of the map in any order.\<close>

definition snapshot_stats :: "string list \<Rightarrow> 'c server \<Rightarrow> bus_stats" where
  "snapshot_stats topics s =
    (let depths = map (\<lambda>i. case sv_subs s i of Some sub \<Rightarrow> length (sb_queue sub) | None \<Rightarrow> 0) (live_ids s topics);
         m = sv_metrics s
     in \<lparr>bs_published = mt_published m, bs_delivered = mt_delivered m, bs_drops_ttl = mt_drops_ttl m,
         bs_drops_duplicate = mt_drops_duplicate m, bs_drops_backpressure = mt_drops_backpressure m,
         bs_queue_depth_max = word_of_nat (foldl max 0 depths),
         bs_queue_capacity_max = word_of_nat (foldl max 0 (map (\<lambda>_. QUEUE_CAPACITY) (live_ids s topics)))\<rparr>)"

end
