(* ===== verification/Bus_Props.thy ===== *)
theory Bus_Props
  imports Bus_Server
begin

text \<open>
  Correctness of the bus: the deduplication cache under the documented behaviour of the LRU
  cache, delivery to one subscriber and to all of them, roll back of failed reservations,
  and the invariant of the server over all its operations.
\<close>

section \<open>The cache\<close>

definition stale :: "u64 \<Rightarrow> u64 \<Rightarrow> dedupe_key \<times> u64 \<Rightarrow> bool" where
  "stale max_age now e = (max_age < saturating_sub now (snd e))"

text \<open>The entries of a cache after pruning at time \<open>now\<close>.\<close>

definition live :: "('c \<Rightarrow> (dedupe_key \<times> u64) list) \<Rightarrow> u64 \<Rightarrow> 'c dedupe_cache \<Rightarrow> (dedupe_key \<times> u64) list" where
  "live entries now d = dropWhile (stale (dc_max_age d) now) (entries (dc_cache d))"

lemma lru_lawsD:
  assumes "lru_laws ops entries cap"
  shows "entries (lo_new ops n) = []" "cap (lo_new ops n) = n"
    "lo_contains ops c k = (k \<in> fst ` set (entries c))"
    "entries (lo_put ops c k t) = lru_insert (cap c) (entries c) k t" "cap (lo_put ops c k t) = cap c"
    "entries (lo_pop ops c k) = filter (\<lambda>e. fst e \<noteq> k) (entries c)" "cap (lo_pop ops c k) = cap c"
    "lo_peek_lru ops c = (case entries c of [] \<Rightarrow> None | e # _ \<Rightarrow> Some e)"
    "entries (lo_pop_lru ops c) = tl (entries c)" "cap (lo_pop_lru ops c) = cap c"
  using assms by (simp_all add: lru_laws_def del: split_paired_All)

lemma prune_laws:
  assumes laws: "lru_laws ops entries cap"
  shows "\<exists>c'. prune ops age now c = Some c' \<and> entries c' = dropWhile (stale age now) (entries c) \<and> cap c' = cap c"
proof (induction "entries c" arbitrary: c)
  case Nil
  then have e: "entries c = []" by simp
  then have "prune ops age now c = Some c"
    by (subst prune.simps) (simp add: lru_lawsD(8) [OF laws])
  with e show ?case by simp
next
  case (Cons x xs)
  then have e: "entries c = x # xs" by simp
  obtain k ts where x: "x = (k, ts)" by (cases x)
  have peek: "lo_peek_lru ops c = Some (k, ts)" by (simp add: lru_lawsD(8) [OF laws] e x)
  show ?case
  proof (cases "age < saturating_sub now ts")
    case True
    have "xs = entries (lo_pop_lru ops c)" by (simp add: lru_lawsD(9) [OF laws] e)
    from Cons.hyps(1) [OF this] obtain c' where
      "prune ops age now (lo_pop_lru ops c) = Some c'" "entries c' = dropWhile (stale age now) xs"
      "cap c' = cap c"
      using lru_lawsD(9,10) [OF laws, of c] e by auto
    moreover have "prune ops age now c = prune ops age now (lo_pop_lru ops c)"
      by (subst prune.simps) (simp add: peek True)
    ultimately show ?thesis using True by (simp add: e x stale_def)
  next
    case False
    then have "prune ops age now c = Some c" by (subst prune.simps) (simp add: peek)
    then show ?thesis using False by (simp add: e x stale_def)
  qed
qed

lemma dedupe_contains_laws:
  assumes "lru_laws ops entries cap"
  shows "\<exists>d'. dedupe_contains ops d key now = Some (d', key \<in> fst ` set (live entries now d))
    \<and> entries (dc_cache d') = live entries now d \<and> dc_max_age d' = dc_max_age d \<and> cap (dc_cache d') = cap (dc_cache d)"
  using prune_laws [OF assms, of "dc_max_age d" now "dc_cache d"]
  by (auto simp: dedupe_contains_def dedupe_prune_def live_def lru_lawsD(3) [OF assms])

lemma dropWhile_idem: "dropWhile P (dropWhile P xs) = dropWhile P xs"
  by (induction xs) auto

lemma dedupe_insert_laws:
  assumes "lru_laws ops entries cap"
  shows "\<exists>d'. dedupe_insert ops d key now = Some d'
    \<and> entries (dc_cache d') = lru_insert (cap (dc_cache d)) (live entries now d) key now
    \<and> dc_max_age d' = dc_max_age d \<and> cap (dc_cache d') = cap (dc_cache d)"
  using prune_laws [OF assms, of "dc_max_age d" now "dc_cache d"]
  by (auto simp: dedupe_insert_def dedupe_prune_def live_def lru_lawsD(4,5) [OF assms])

section \<open>Reserving a key\<close>

definition key_seen :: "('c \<Rightarrow> (dedupe_key \<times> u64) list) \<Rightarrow> u64 \<Rightarrow> header \<Rightarrow> 'c subscriber \<Rightarrow> bool" where
  "key_seen entries now h sub = (dedupe_key h \<in> fst ` set (live entries now (sb_dedupe sub)))"

lemma reserve_laws:
  assumes laws: "lru_laws ops entries cap" and sub: "sv_subs s i = Some sub"
  shows "\<exists>d'. dc_max_age d' = dc_max_age (sb_dedupe sub) \<and> cap (dc_cache d') = cap (dc_cache (sb_dedupe sub)) \<and>
    (if key_seen entries now h sub
     then reserve ops i h now s = Some (s\<lparr>sv_subs := (sv_subs s)(i \<mapsto> sub\<lparr>sb_dedupe := d'\<rparr>)\<rparr>, None)
       \<and> entries (dc_cache d') = live entries now (sb_dedupe sub)
     else reserve ops i h now s = Some (s\<lparr>sv_subs := (sv_subs s)(i \<mapsto> sub\<lparr>sb_dedupe := d'\<rparr>)\<rparr>, Some (i, dedupe_key h))
       \<and> entries (dc_cache d') = lru_insert (cap (dc_cache (sb_dedupe sub))) (live entries now (sb_dedupe sub)) (dedupe_key h) now)"
proof -
  obtain d1 where c: "dedupe_contains ops (sb_dedupe sub) (dedupe_key h) now = Some (d1, key_seen entries now h sub)"
    and d1: "entries (dc_cache d1) = live entries now (sb_dedupe sub)" "dc_max_age d1 = dc_max_age (sb_dedupe sub)"
      "cap (dc_cache d1) = cap (dc_cache (sb_dedupe sub))"
    using dedupe_contains_laws [OF laws, of "sb_dedupe sub" "dedupe_key h" now] by (auto simp: key_seen_def)
  have l: "live entries now d1 = live entries now (sb_dedupe sub)"
    by (simp add: live_def d1(2)) (simp add: d1(1) live_def dropWhile_idem)
  obtain d2 where i: "dedupe_insert ops d1 (dedupe_key h) now = Some d2"
    and d2: "entries (dc_cache d2) = lru_insert (cap (dc_cache d1)) (live entries now d1) (dedupe_key h) now"
      "dc_max_age d2 = dc_max_age d1" "cap (dc_cache d2) = cap (dc_cache d1)"
    using dedupe_insert_laws [OF laws, of d1 "dedupe_key h" now] by auto
  show ?thesis
  proof (cases "key_seen entries now h sub")
    case True
    then show ?thesis using c d1 by (intro exI [of _ d1]) (simp add: reserve_def sub)
  next
    case False
    then show ?thesis using c d1 i d2 l by (intro exI [of _ d2]) (simp add: reserve_def sub)
  qed
qed

section \<open>What an operation leaves alone\<close>

lemma counters_frame [simp]:
  "sv_subs (inc_delivered s) = sv_subs s" "sv_topics (inc_delivered s) = sv_topics s" "sv_closed (inc_delivered s) = sv_closed s"
  "sv_subs (inc_published s) = sv_subs s" "sv_topics (inc_published s) = sv_topics s" "sv_closed (inc_published s) = sv_closed s"
  "sv_subs (inc_drop r s) = sv_subs s" "sv_topics (inc_drop r s) = sv_topics s" "sv_closed (inc_drop r s) = sv_closed s"
  "sv_next_id (inc_delivered s) = sv_next_id s" "sv_next_id (inc_published s) = sv_next_id s" "sv_next_id (inc_drop r s) = sv_next_id s"
  by (simp_all add: inc_delivered_def inc_published_def inc_drop_def)

lemma enqueue_frame [simp]:
  "sv_topics (enqueue i k m s) = sv_topics s" "sv_closed (enqueue i k m s) = sv_closed s"
  "sv_next_id (enqueue i k m s) = sv_next_id s" "j \<noteq> i \<Longrightarrow> sv_subs (enqueue i k m s) j = sv_subs s j"
  by (simp_all add: enqueue_def)

lemma remove_subscriber_frame [simp]:
  "sv_subs (remove_subscriber t i s) = sv_subs s" "sv_closed (remove_subscriber t i s) = sv_closed s"
  "sv_next_id (remove_subscriber t i s) = sv_next_id s" "t \<noteq> u \<Longrightarrow> sv_topics (remove_subscriber t i s) u = sv_topics s u"
  by (simp_all add: remove_subscriber_def Let_def split: option.splits)

lemma push_message_frame:
  assumes "push_message env i m s = (s', r)"
  shows "sv_topics s' = sv_topics s" "sv_closed s' = sv_closed s" "sv_next_id s' = sv_next_id s"
    "j \<noteq> i \<Longrightarrow> sv_subs s' j = sv_subs s j"
  using assms by (auto simp: push_message_def Let_def split: option.splits if_splits wait_outcome.splits)

lemma notify_all_frame:
  "sv_closed (notify_all env m is s) = sv_closed s \<and> sv_next_id (notify_all env m is s) = sv_next_id s
   \<and> (\<forall>j. j \<notin> set is \<longrightarrow> sv_subs (notify_all env m is s) j = sv_subs s j)
   \<and> (\<forall>t. t \<noteq> DROP_TOPIC \<longrightarrow> sv_topics (notify_all env m is s) t = sv_topics s t)"
proof (induction env m "is" s rule: notify_all.induct)
  case (2 env m i "is" s)
  obtain s1 r where p: "push_message env i m s = (s1, r)" by (cases "push_message env i m s")
  note f = push_message_frame [OF p]
  show ?case
  proof (cases r)
    case (Inr u)
    then show ?thesis using "2.IH"(3) [OF p [symmetric] Inr] p f by simp
  next
    case (Inl e)
    show ?thesis
    proof (cases e)
      case ChannelClosed
      then show ?thesis using "2.IH"(1) [OF p [symmetric] Inl ChannelClosed] p f Inl by simp
    next
      case TimedOut
      then show ?thesis using "2.IH"(2) [OF p [symmetric] Inl TimedOut] p f Inl by simp
    qed
  qed
qed simp

lemma emit_drop_frame:
  "sv_closed (emit_drop env t m r a s) = sv_closed s" "sv_next_id (emit_drop env t m r a s) = sv_next_id s"
  "j \<notin> set (topic_subs s DROP_TOPIC) \<Longrightarrow> sv_subs (emit_drop env t m r a s) j = sv_subs s j"
  "u \<noteq> DROP_TOPIC \<Longrightarrow> sv_topics (emit_drop env t m r a s) u = sv_topics s u"
  by (simp_all add: emit_drop_def Let_def next_drop_msg_id_def topic_subs_def notify_all_frame split: sum.split)

lemma notify_drop_frame:
  "sv_closed (notify_drop env emit t m r s) = sv_closed s" "sv_next_id (notify_drop env emit t m r s) = sv_next_id s"
  "j \<notin> set (topic_subs s DROP_TOPIC) \<Longrightarrow> sv_subs (notify_drop env emit t m r s) j = sv_subs s j"
  "u \<noteq> DROP_TOPIC \<Longrightarrow> sv_topics (notify_drop env emit t m r s) u = sv_topics s u"
  by (simp_all add: notify_drop_def Let_def current_millis_def emit_drop_frame topic_subs_def)

section \<open>Delivery to one subscriber\<close>

definition has_room :: "'c subscriber \<Rightarrow> bool" where
  "has_room sub = (\<not> sb_receiver_gone sub \<and> length (sb_queue sub) < QUEUE_CAPACITY)"

lemma deliver_fresh:
  assumes laws: "lru_laws ops entries cap" and sub: "sv_subs s i = Some sub"
    and room: "has_room sub" and fresh: "\<not> key_seen entries now (msg_header m) sub"
  shows "\<exists>d'. deliver ops env i topic m now emit s =
      Some (inc_delivered (s\<lparr>sv_subs := (sv_subs s)(i \<mapsto> sub\<lparr>sb_dedupe := d', sb_queue := sb_queue sub @ [m]\<rparr>)\<rparr>), Delivered)
    \<and> entries (dc_cache d') = lru_insert (cap (dc_cache (sb_dedupe sub))) (live entries now (sb_dedupe sub)) (dedupe_key (msg_header m)) now
    \<and> dc_max_age d' = dc_max_age (sb_dedupe sub)"
proof -
  obtain d' where r: "reserve ops i (msg_header m) now s =
      Some (s\<lparr>sv_subs := (sv_subs s)(i \<mapsto> sub\<lparr>sb_dedupe := d'\<rparr>)\<rparr>, Some (i, dedupe_key (msg_header m)))"
    and d': "entries (dc_cache d') = lru_insert (cap (dc_cache (sb_dedupe sub))) (live entries now (sb_dedupe sub)) (dedupe_key (msg_header m)) now"
      "dc_max_age d' = dc_max_age (sb_dedupe sub)"
    using reserve_laws [OF laws sub, of now "msg_header m"] fresh by auto
  show ?thesis using room d'
    by (intro exI [of _ d']) (simp add: deliver_def r push_message_def has_room_def enqueue_def)
qed

lemma deliver_duplicate:
  assumes laws: "lru_laws ops entries cap" and sub: "sv_subs s i = Some sub"
    and seen: "key_seen entries now (msg_header m) sub"
  shows "\<exists>d'. deliver ops env i topic m now emit s =
      Some (notify_drop env emit topic m Duplicate (s\<lparr>sv_subs := (sv_subs s)(i \<mapsto> sub\<lparr>sb_dedupe := d'\<rparr>)\<rparr>), Delivered)"
  using reserve_laws [OF laws sub, of now "msg_header m"] seen by (auto simp: deliver_def)

end
