(* ===== verification/Bus_Inv.thy ===== *)
theory Bus_Inv
  imports Bus_Props
begin

text \<open>
  How a server may evolve during one publication, and the invariant of the server over every
  sequence of operations.
\<close>

section \<open>Evolution\<close>

text \<open>Subscribers keep their identity and their queues stay within the capacity; whatever enters
  a queue belongs to \<open>M\<close>; topics only lose subscribers and disappear with their last one.\<close>

definition sub_evolves :: "message set \<Rightarrow> 'c subscriber \<Rightarrow> 'c subscriber \<Rightarrow> bool" where
  "sub_evolves M sub sub' =
    (sb_id sub' = sb_id sub \<and> length (sb_queue sub') \<le> max QUEUE_CAPACITY (length (sb_queue sub))
     \<and> set (sb_queue sub') \<subseteq> set (sb_queue sub) \<union> M)"

definition ids_shrink :: "nat list \<Rightarrow> nat list \<Rightarrow> bool" where
  "ids_shrink ids ids' = (set ids' \<subseteq> set ids \<and> (distinct ids \<longrightarrow> distinct ids') \<and> (ids \<noteq> [] \<longrightarrow> ids' \<noteq> []))"

definition acl :: "'c server \<Rightarrow> bool \<times> bool \<times> bool" where
  "acl s = (sv_allow_ui s, sv_allow_tui s, sv_allow_agent s)"

definition evolves :: "message set \<Rightarrow> 'c server \<Rightarrow> 'c server \<Rightarrow> bool" where
  "evolves M s s' =
    (acl s' = acl s \<and> sv_closed s' = sv_closed s \<and> sv_next_id s' = sv_next_id s
     \<and> (\<forall>i. rel_option (sub_evolves M) (sv_subs s i) (sv_subs s' i))
     \<and> (\<forall>t ids'. sv_topics s' t = Some ids' \<longrightarrow> (\<exists>ids. sv_topics s t = Some ids \<and> ids_shrink ids ids')))"

named_theorems evolve

lemma sub_evolves_refl [simp]: "sub_evolves M sub sub"
  by (simp add: sub_evolves_def)

lemma ids_shrink_refl [simp]: "ids_shrink ids ids"
  by (simp add: ids_shrink_def)

lemma evolves_refl [simp, evolve]: "evolves M s s"
  by (auto simp: evolves_def intro: option.rel_refl)

lemma evolves_trans: "evolves M s t \<Longrightarrow> evolves M t u \<Longrightarrow> evolves M s u"
proof -
  assume st: "evolves M s t" and tu: "evolves M t u"
  have subs: "rel_option (sub_evolves M) (sv_subs s i) (sv_subs u i)" for i
  proof -
    have a: "rel_option (sub_evolves M) (sv_subs s i) (sv_subs t i)" using st by (simp add: evolves_def)
    have b: "rel_option (sub_evolves M) (sv_subs t i) (sv_subs u i)" using tu by (simp add: evolves_def)
    show ?thesis using a b
      by (cases "sv_subs s i"; cases "sv_subs t i"; cases "sv_subs u i") (force simp: sub_evolves_def)+
  qed
  have tops: "\<exists>ids. sv_topics s n = Some ids \<and> ids_shrink ids ids'" if h: "sv_topics u n = Some ids'" for n ids'
    using st tu h unfolding evolves_def ids_shrink_def by (metis (no_types, lifting) subset_trans)
  show ?thesis using st tu subs tops by (simp add: evolves_def)
qed

lemma sub_evolves_mono: "sub_evolves M sub sub' \<Longrightarrow> M \<subseteq> N \<Longrightarrow> sub_evolves N sub sub'"
  by (auto simp: sub_evolves_def)

lemma evolves_mono: "evolves M s t \<Longrightarrow> M \<subseteq> N \<Longrightarrow> evolves N s t"
  unfolding evolves_def by (blast intro: option.rel_mono_strong sub_evolves_mono)

text \<open>An update of the state that leaves topics, subscribers, identifiers and the flag alone.\<close>

lemma evolves_frame:
  assumes "acl s' = acl s" "sv_closed s' = sv_closed s" "sv_next_id s' = sv_next_id s" "sv_subs s' = sv_subs s" "sv_topics s' = sv_topics s"
  shows "evolves M t s' \<longleftrightarrow> evolves M t s"
  using assms by (simp add: evolves_def)

lemma evolves_sameI:
  assumes "acl s' = acl s" "sv_closed s' = sv_closed s" "sv_next_id s' = sv_next_id s" "sv_subs s' = sv_subs s" "sv_topics s' = sv_topics s"
  shows "evolves M s s'"
  using evolves_frame [OF assms] by simp

lemma evolves_counters [evolve]:
  "evolves M t (inc_delivered s) \<longleftrightarrow> evolves M t s" "evolves M t (inc_published s) \<longleftrightarrow> evolves M t s"
  "evolves M t (inc_drop r s) \<longleftrightarrow> evolves M t s"
  by (rule evolves_frame; simp add: acl_def inc_delivered_def inc_published_def inc_drop_def)+

lemma evolves_remove_subscriber [evolve]: "evolves M s (remove_subscriber t i s)"
  by (auto simp: evolves_def acl_def remove_subscriber_def Let_def ids_shrink_def intro: option.rel_refl split: option.splits if_splits)

lemma evolves_sub_update:
  assumes "sv_subs s i = Some sub" "sub_evolves M sub sub'"
  shows "evolves M s (s\<lparr>sv_subs := (sv_subs s)(i \<mapsto> sub')\<rparr>)"
  using assms by (auto simp: evolves_def acl_def intro: option.rel_refl)

lemma evolves_push_message [evolve]:
  assumes "push_message env i m s = (s', r)"
  shows "evolves {m} s s'"
proof (cases "sv_subs s i")
  case None
  then show ?thesis using assms by (simp add: push_message_def)
next
  case (Some sub)
  have stay: "enqueue i k m s\<lparr>sv_waits := sv_waits s\<rparr> = enqueue i k m s" for k
    by (simp add: enqueue_def)
  have enq: "evolves {m} s (enqueue i k m s\<lparr>sv_waits := w\<rparr>)"
    if "length (sb_queue sub) - k < QUEUE_CAPACITY \<or> k \<noteq> 0" for k w
  proof -
    have "sub_evolves {m} sub (sub\<lparr>sb_queue := drop k (sb_queue sub) @ [m]\<rparr>)"
      using that by (auto simp: sub_evolves_def QUEUE_CAPACITY_def dest: in_set_dropD)
    from evolves_sub_update [OF Some this] show ?thesis by (simp add: enqueue_def Some evolves_def acl_def)
  qed
  have upd: "enqueue i k m (s\<lparr>sv_waits := w\<rparr>) = enqueue i k m s\<lparr>sv_waits := w\<rparr>" for k w
    by (simp add: enqueue_def)
  have same: "evolves {m} s (s\<lparr>sv_waits := w\<rparr>)" for w by (rule evolves_sameI) (simp_all add: acl_def)
  have gone: "evolves {m} s (s\<lparr>sv_waits := w, sv_subs := (sv_subs s)(i \<mapsto> sub\<lparr>sb_receiver_gone := True\<rparr>)\<rparr>)" for w
    using evolves_sub_update [OF Some, of "{m}" "sub\<lparr>sb_receiver_gone := True\<rparr>"]
    by (simp add: sub_evolves_def evolves_def acl_def subset_insertI)
  show ?thesis
    using assms enq [of 0 "sv_waits s", unfolded stay] enq [of "Suc k" for k] same gone
    by (auto simp: push_message_def Some Let_def upd evolves_counters split: if_splits wait_outcome.splits)
qed

definition drop_notices :: "message set" where
  "drop_notices = {m. hdr_schema_id (msg_header m) = CT_BUS_DROP_NOTICE}"

lemma evolves_notify_all:
  "m \<in> M \<Longrightarrow> evolves M s (notify_all env m is s)"
proof (induction env m "is" s rule: notify_all.induct)
  case (2 env m i "is" s)
  obtain s1 r where p: "push_message env i m s = (s1, r)" by (cases "push_message env i m s")
  have e1: "evolves M s s1" using evolves_mono [OF evolves_push_message [OF p]] "2.prems" by simp
  show ?case
  proof (cases r)
    case (Inr u)
    then show ?thesis using "2.IH"(3) [OF p [symmetric] Inr "2.prems"] p e1 evolves_trans by simp blast
  next
    case (Inl e)
    show ?thesis
    proof (cases e)
      case ChannelClosed
      then show ?thesis
        using "2.IH"(1) [OF p [symmetric] Inl ChannelClosed "2.prems"] p e1 Inl evolves_trans evolves_remove_subscriber
        by simp blast
    next
      case TimedOut
      then show ?thesis using "2.IH"(2) [OF p [symmetric] Inl TimedOut "2.prems"] p e1 Inl evolves_trans by simp blast
    qed
  qed
qed simp

lemma message_new_schema:
  assumes "message_new h b = Inr m"
  shows "hdr_schema_id (msg_header m) = hdr_schema_id h"
  using assms by (auto simp: message_new_def Let_def res_bind_eq_Inr split: if_splits)

lemma evolves_emit_drop:
  assumes "drop_notices \<subseteq> M"
  shows "evolves M s (emit_drop env t m r a s)"
proof -
  have frame: "evolves M s (snd (next_drop_msg_id s))"
    by (rule evolves_sameI) (simp_all add: next_drop_msg_id_def acl_def)
  have "evolves M s (notify_all env d is (snd (next_drop_msg_id s)))"
    if "message_new h p = Inr d" "hdr_schema_id h = CT_BUS_DROP_NOTICE" for h p d "is"
    using that message_new_schema [OF that(1)] assms frame
    by (intro evolves_trans [OF frame] evolves_notify_all) (auto simp: drop_notices_def)
  then show ?thesis using frame
    by (auto simp: emit_drop_def Let_def case_prod_beta split: sum.split)
qed

lemma evolves_notify_drop:
  assumes "drop_notices \<subseteq> M"
  shows "evolves M s (notify_drop env emit t m r s)"
proof -
  have "evolves M s (snd (current_millis env (inc_drop r s)))"
    by (rule evolves_sameI) (simp_all add: current_millis_def acl_def inc_drop_def)
  then have "evolves M s (emit_drop env t m r a (snd (current_millis env (inc_drop r s))))" for a
    by (rule evolves_trans) (rule evolves_emit_drop [OF assms])
  then show ?thesis by (simp add: notify_drop_def Let_def case_prod_beta evolves_counters)
qed

lemma evolves_reserve:
  assumes "reserve ops i h now s = Some (s', r)"
  shows "evolves M s s'"
  using assms evolves_sub_update [of s i, where M = M]
  by (auto simp: reserve_def sub_evolves_def split: option.splits prod.splits if_splits bind_splits)

lemma evolves_rollback: "evolves M s (rollback ops r s)"
proof (cases "sv_subs s (fst r)")
  case None
  then have "rollback ops r s = s" by (simp add: rollback_def fun_upd_idem)
  then show ?thesis by simp
next
  case (Some sub)
  then show ?thesis by (simp add: rollback_def sub_evolves_def evolves_sub_update subset_insertI)
qed

lemma evolves_rollbacks: "evolves M s (foldl (\<lambda>s r. rollback ops r s) s rs)"
  by (induction rs arbitrary: s) (auto intro: evolves_trans evolves_rollback)

lemma evolves_deliver:
  assumes "deliver ops env i t m now emit s = Some (s', r)"
  shows "evolves (insert m drop_notices) s s'"
proof -
  let ?M = "insert m drop_notices"
  obtain s1 res where r: "reserve ops i (msg_header m) now s = Some (s1, res)"
    using assms by (auto simp: deliver_def bind_eq_Some_conv)
  have e1: "evolves ?M s s1" by (rule evolves_reserve [OF r])
  have e2: "evolves ?M s1 s'"
  proof (cases res)
    case None
    then show ?thesis using assms r evolves_notify_drop [of ?M s1, OF subset_insertI] by (auto simp: deliver_def)
  next
    case (Some reservation)
    obtain s2 p where p: "push_message env i m s1 = (s2, p)" by (cases "push_message env i m s1")
    have "evolves ?M s1 s2" by (rule evolves_mono [OF evolves_push_message [OF p]]) simp
    moreover have "evolves ?M s2 s'"
      using assms r p Some evolves_notify_drop [of ?M s2, OF subset_insertI] evolves_remove_subscriber [of ?M s2]
      by (auto simp: deliver_def split: sum.splits push_error.splits)
    ultimately show ?thesis by (rule evolves_trans)
  qed
  show ?thesis by (rule evolves_trans [OF e1 e2])
qed

lemma evolves_deliver_all:
  assumes "deliver_all ops env t m now emit is err s = Some (s', rs, err')"
  shows "evolves (insert m drop_notices) s s'"
  using assms
proof (induction "is" arbitrary: err s rs)
  case (Cons i "is")
  obtain s1 r where d: "deliver ops env i t m now emit s = Some (s1, r)"
    using Cons.prems by (auto simp: bind_eq_Some_conv)
  obtain e rs' where "deliver_all ops env t m now emit is e s1 = Some (s', rs', err')"
    using Cons.prems d by (auto split: delivery_result.splits)
  from Cons.IH [OF this] show ?case by (rule evolves_trans [OF evolves_deliver [OF d]])
qed simp

lemma evolves_current_millis: "current_millis env s = (now, s1) \<Longrightarrow> evolves M s s1"
  using evolves_frame [of s1 s M s] by (auto simp: current_millis_def acl_def)

text \<open>The five ways through \<open>publish\<close>.\<close>

definition permitted :: "'c server \<Rightarrow> publisher_kind \<Rightarrow> message \<Rightarrow> bool" where
  "permitted s k m = (hdr_schema_id (msg_header m) = CT_ACTION_DECISION \<longrightarrow> allowed_action_decision_publisher s k)"

lemma publish_closed: "sv_closed s \<Longrightarrow> publish ops env t m emit k s = Some (s, Inl BusClosed)"
  by (simp add: publish_def)

lemma publish_forbidden:
  "\<not> sv_closed s \<Longrightarrow> \<not> permitted s k m \<Longrightarrow> publish ops env t m emit k s =
    Some (s, Inl (Forbidden ''publisher kind not permitted to publish action.decision''))"
  by (simp add: publish_def permitted_def)

lemma publish_invalid:
  assumes "\<not> sv_closed s" "permitted s k m" "current_millis env s = (now, s1)" "msg_is_expired m now = Inl e"
  shows "publish ops env t m emit k s = Some (s1, Inl e)"
  using assms by (auto simp: publish_def permitted_def)

lemma publish_expired:
  assumes "\<not> sv_closed s" "permitted s k m" "current_millis env s = (now, s1)" "msg_is_expired m now = Inr True"
  shows "publish ops env t m emit k s = Some (notify_drop env emit t m TtlExpired s1, Inl MessageExpired)"
  using assms by (auto simp: publish_def permitted_def)

definition primary_result :: "(failure_severity \<times> bus_error) option \<Rightarrow> bus_error + unit" where
  "primary_result p = (case p of Some (_, err) \<Rightarrow> Inl err | None \<Rightarrow> Inr ())"

lemma publish_deliver:
  assumes "\<not> sv_closed s" "permitted s k m" "current_millis env s = (now, s1)" "msg_is_expired m now = Inr False"
  shows "publish ops env t m emit k s =
    map_option (\<lambda>(s, pending, primary). (foldl (\<lambda>s r. rollback ops r s) s pending, primary_result primary))
      (deliver_all ops env t m now emit (topic_subs s1 t) None (inc_published s1))"
  using assms by (auto simp: publish_def permitted_def topic_subs_def Let_def primary_result_def)

lemmas publish_ways = publish_closed publish_forbidden publish_invalid publish_expired publish_deliver

lemma publish_shape_topic:
  assumes "publish ops env t m emit k s = Some (s', r)" "current_millis env s = (now, s1)"
  shows "s' = s \<or> s' = s1 \<or> s' = notify_drop env emit t m TtlExpired s1 \<or>
    (\<exists>s2 rs e. deliver_all ops env t m now emit (topic_subs s1 t) None (inc_published s1) = Some (s2, rs, e) \<and>
      s' = foldl (\<lambda>s r. rollback ops r s) s2 rs)"
proof (cases "sv_closed s \<or> \<not> permitted s k m")
  case True
  then show ?thesis using assms(1) publish_closed publish_forbidden by fastforce
next
  case False
  then have ok: "\<not> sv_closed s" "permitted s k m" by simp_all
  show ?thesis
  proof (cases "msg_is_expired m now")
    case (Inl e)
    then show ?thesis using assms(1) by (simp add: publish_invalid [OF ok assms(2)])
  next
    case (Inr b)
    show ?thesis
    proof (cases b)
      case True
      then show ?thesis using assms(1) Inr by (simp add: publish_expired [OF ok assms(2)])
    next
      case False
      then have "msg_is_expired m now = Inr False" using Inr by simp
      from assms(1) [unfolded publish_deliver [OF ok assms(2) this]] show ?thesis by auto
    qed
  qed
qed

lemma evolves_publish:
  assumes "publish ops env t m emit k s = Some (s', r)"
  shows "evolves (insert m drop_notices) s s'"
proof -
  let ?M = "insert m drop_notices"
  obtain now s1 where c: "current_millis env s = (now, s1)" by (cases "current_millis env s")
  have s1: "evolves ?M s s1" by (rule evolves_current_millis [OF c])
  have n: "evolves ?M s (notify_drop env emit t m TtlExpired s1)"
    by (rule evolves_trans [OF s1 evolves_notify_drop]) blast
  have d: "evolves ?M s (foldl (\<lambda>s r. rollback ops r s) s2 rs)"
    if h: "deliver_all ops env t m now emit is None (inc_published s1) = Some (s2, rs, e)" for "is" s2 rs e
  proof -
    have "evolves ?M s (inc_published s1)" using s1 by (simp add: evolves_counters)
    from evolves_trans [OF this evolves_deliver_all [OF h]] show ?thesis
      by (rule evolves_trans) (rule evolves_rollbacks)
  qed
  show ?thesis using publish_shape_topic [OF assms c] s1 n d evolves_refl by blast
qed

end
