(* ===== verification/Bus_System.thy ===== *)
theory Bus_System
  imports Bus_Inv
begin

text \<open>
  The bus as a state machine: its invariant in every reachable state, and what a publication
  does to the queues, the caches and the result.
\<close>

section \<open>Operations as steps\<close>

inductive bus_step :: "'c lru_ops \<Rightarrow> 'c server \<Rightarrow> 'c server \<Rightarrow> bool" for ops where
  step_subscribe: "subscribe ops topic s = (s', r) \<Longrightarrow> bus_step ops s s'"
| step_drop: "bus_step ops s (drop_subscription topic i s)"
| step_receive: "receive i s = (s', r) \<Longrightarrow> bus_step ops s s'"
| step_publish: "publish ops env topic m emit kind s = Some (s', r) \<Longrightarrow> bus_step ops s s'"
| step_acl: "bus_step ops s (configure_acl allowed s)"
| step_shutdown: "shutdown s = (s', b) \<Longrightarrow> bus_step ops s s'"

inductive_cases bus_stepE: "bus_step ops s s'"

definition bus_init :: "'c server \<Rightarrow> bool" where
  "bus_init s = (s = server_new)"

text \<open>Topics are never empty, list known subscribers once, and no subscriber has two topics; the
  store holds identifiers already given out, under their own name, with bounded queues; a
  closed bus has no topics.\<close>

definition bus_ok :: "'c server \<Rightarrow> bool" where
  "bus_ok s =
    ((\<forall>t ids. sv_topics s t = Some ids \<longrightarrow> ids \<noteq> [] \<and> distinct ids \<and> (\<forall>i \<in> set ids. sv_subs s i \<noteq> None))
     \<and> (\<forall>t u. t \<noteq> u \<longrightarrow> set (topic_subs s t) \<inter> set (topic_subs s u) = {})
     \<and> (\<forall>i sub. sv_subs s i = Some sub \<longrightarrow>
          sb_id sub = i \<and> i < sv_next_id s \<and> length (sb_queue sub) \<le> QUEUE_CAPACITY)
     \<and> (sv_closed s \<longrightarrow> sv_topics s = Map.empty))"

lemma topic_subs_set: "set (topic_subs s t) = {i. \<exists>ids. sv_topics s t = Some ids \<and> i \<in> set ids}"
  by (cases "sv_topics s t") (auto simp: topic_subs_def)

lemma bus_okD:
  assumes "bus_ok s"
  shows "i \<in> set (topic_subs s t) \<Longrightarrow> \<exists>sub. sv_subs s i = Some sub"
    "distinct (topic_subs s t)" "t \<noteq> u \<Longrightarrow> set (topic_subs s t) \<inter> set (topic_subs s u) = {}"
proof -
  show "\<exists>sub. sv_subs s i = Some sub" if "i \<in> set (topic_subs s t)"
    using assms that by (cases "sv_topics s t") (auto simp: bus_ok_def topic_subs_def)
  show "distinct (topic_subs s t)" using assms by (auto simp: bus_ok_def topic_subs_def split: option.split)
  show "set (topic_subs s t) \<inter> set (topic_subs s u) = {}" if "t \<noteq> u" using assms that by (simp add: bus_ok_def)
qed

lemma bus_ok_evolves:
  assumes ok: "bus_ok s" and ev: "evolves M s s'"
  shows "bus_ok s'"
proof -
  have flags: "sv_closed s' = sv_closed s" "sv_next_id s' = sv_next_id s" using ev by (simp_all add: evolves_def)
  have subs: "rel_option (sub_evolves M) (sv_subs s i) (sv_subs s' i)" for i using ev by (simp add: evolves_def)
  have known: "sv_subs s' i = None \<longleftrightarrow> sv_subs s i = None" for i
    using subs [of i] by (cases "sv_subs s i"; cases "sv_subs s' i") simp_all
  have tops: "\<exists>ids. sv_topics s t = Some ids \<and> ids_shrink ids ids'" if "sv_topics s' t = Some ids'" for t ids'
    using ev that by (simp add: evolves_def)
  have shrink: "set (topic_subs s' t) \<subseteq> set (topic_subs s t)" for t
    using tops by (fastforce simp: topic_subs_set ids_shrink_def)
  have 1: "ids' \<noteq> [] \<and> distinct ids' \<and> (\<forall>i \<in> set ids'. sv_subs s' i \<noteq> None)" if h: "sv_topics s' t = Some ids'" for t ids'
    using tops [OF h] ok unfolding bus_ok_def ids_shrink_def known by (metis subsetD)
  have 2: "set (topic_subs s' t) \<inter> set (topic_subs s' u) = {}" if h: "t \<noteq> u" for t u
  proof -
    have "set (topic_subs s t) \<inter> set (topic_subs s u) = {}" using ok h by (simp add: bus_ok_def)
    then show ?thesis using shrink by blast
  qed
  have 3: "sb_id sub' = i \<and> i < sv_next_id s' \<and> length (sb_queue sub') \<le> QUEUE_CAPACITY" if h: "sv_subs s' i = Some sub'" for i sub'
    using ok subs [of i] h flags by (cases "sv_subs s i") (auto simp: bus_ok_def sub_evolves_def)
  have 4: "sv_topics s' = Map.empty" if h: "sv_closed s'"
  proof (rule ext)
    fix t show "sv_topics s' t = None"
      using ok h flags tops [of t] by (cases "sv_topics s' t") (simp_all add: bus_ok_def)
  qed
  show ?thesis unfolding bus_ok_def using 1 2 3 4 by blast
qed

lemma bus_ok_subscribe:
  assumes ok: "bus_ok s" and sub: "subscribe ops topic s = (s', r)"
  shows "bus_ok s'"
proof (cases "sv_closed s")
  case True
  then show ?thesis using ok sub by (simp add: subscribe_def)
next
  case False
  let ?i = "sv_next_id s"
  have s': "sv_topics s' = (sv_topics s)(topic \<mapsto> topic_subs s topic @ [?i])" "sv_next_id s' = Suc ?i" "sv_closed s' = False"
    "sv_subs s' = (sv_subs s)(?i \<mapsto> \<lparr>sb_id = ?i, sb_queue = [], sb_receiver_gone = False,
                     sb_dedupe = dedupe_new ops DEDUPE_CAPACITY DEFAULT_TTL_MS\<rparr>)"
    using sub False by (auto simp: subscribe_def Let_def topic_subs_def)
  have store: "\<And>i sub. sv_subs s i = Some sub \<Longrightarrow> sb_id sub = i \<and> i < ?i \<and> length (sb_queue sub) \<le> QUEUE_CAPACITY"
    using ok by (simp add: bus_ok_def)
  have listed: "\<And>i t. i \<in> set (topic_subs s t) \<Longrightarrow> sv_subs s i \<noteq> None" using ok by (auto simp: bus_ok_def topic_subs_set)
  then have new: "?i \<notin> set (topic_subs s t)" for t using store by fastforce
  have dist: "distinct (topic_subs s topic)"
    using ok by (auto simp: bus_ok_def topic_subs_def split: option.split)
  have subs': "topic_subs s' t = (if t = topic then topic_subs s topic @ [?i] else topic_subs s t)" for t
    by (simp add: topic_subs_def s')
  have 1: "ids \<noteq> [] \<and> distinct ids \<and> (\<forall>i \<in> set ids. sv_subs s' i \<noteq> None)" if h: "sv_topics s' t = Some ids" for t ids
  proof (cases "t = topic")
    case True
    then show ?thesis using h dist new listed by (auto simp: s')
  next
    case False
    then have "sv_topics s t = Some ids" using h by (simp add: s')
    then show ?thesis using ok by (auto simp: bus_ok_def s')
  qed
  have "\<And>t u. t \<noteq> u \<Longrightarrow> set (topic_subs s t) \<inter> set (topic_subs s u) = {}" using ok by (simp add: bus_ok_def)
  then have 2: "set (topic_subs s' t) \<inter> set (topic_subs s' u) = {}" if "t \<noteq> u" for t u
    using that new by (cases "t = topic"; cases "u = topic") (simp_all add: subs')
  have 3: "sb_id sub = i \<and> i < sv_next_id s' \<and> length (sb_queue sub) \<le> QUEUE_CAPACITY" if h: "sv_subs s' i = Some sub" for i sub
    using h store [of i sub] by (auto simp: s' QUEUE_CAPACITY_def split: if_splits)
  show ?thesis unfolding bus_ok_def using 1 2 3 s'(3) by blast
qed

lemma bus_ok_frame:
  assumes "sv_topics s' = sv_topics s" "sv_subs s' = sv_subs s" "sv_closed s' = sv_closed s" "sv_next_id s' = sv_next_id s"
  shows "bus_ok s' = bus_ok s"
  using assms by (simp add: bus_ok_def topic_subs_def)

lemma bus_ok_step:
  assumes ok: "bus_ok s" and step: "bus_step ops s s'"
  shows "bus_ok s'"
  using step
proof cases
  case (step_subscribe topic r)
  then show ?thesis using bus_ok_subscribe [OF ok] by blast
next
  case (step_drop topic i)
  have "evolves {} s (remove_subscriber topic i s)" by (rule evolves_remove_subscriber)
  moreover have "evolves {} (remove_subscriber topic i s) s'"
    by (cases "sv_subs s i")
      (auto simp: step_drop drop_subscription_def Let_def evolves_def acl_def sub_evolves_def intro: option.rel_refl)
  ultimately show ?thesis using bus_ok_evolves [OF ok evolves_trans] by blast
next
  case (step_receive i r)
  have "evolves {} s s'"
    using step_receive by (auto simp: receive_def sub_evolves_def split: option.splits list.splits intro!: evolves_sub_update)
  then show ?thesis by (rule bus_ok_evolves [OF ok])
next
  case (step_publish env topic m emit kind r)
  then show ?thesis using bus_ok_evolves [OF ok evolves_publish] by blast
next
  case (step_acl allowed)
  then show ?thesis using ok bus_ok_frame [of s' s] by (simp add: configure_acl_def)
next
  case (step_shutdown b)
  then show ?thesis using ok
    by (auto simp: shutdown_def bus_ok_def topic_subs_def split: if_splits)
qed

interpretation bus: invariant bus_init "bus_step ops" bus_ok for ops
proof
  fix s :: "'b server"
  assume "bus_init s"
  then show "bus_ok s" by (simp add: bus_init_def server_new_def bus_ok_def topic_subs_def)
qed (rule bus_ok_step)

section \<open>Delivery to a list of subscribers\<close>

text \<open>What a subscriber with room is after delivery: unchanged up to pruning when the key was
  seen, with the message at the end of its queue and the key in its cache otherwise.\<close>

definition delivered_to ::
  "('c \<Rightarrow> (dedupe_key \<times> u64) list) \<Rightarrow> ('c \<Rightarrow> nat) \<Rightarrow> u64 \<Rightarrow> message \<Rightarrow> 'c subscriber \<Rightarrow> 'c subscriber \<Rightarrow> bool" where
  "delivered_to entries cap now m sub sub' =
    (sb_queue sub' = (if key_seen entries now (msg_header m) sub then sb_queue sub else sb_queue sub @ [m])
     \<and> sb_receiver_gone sub' = sb_receiver_gone sub \<and> sb_id sub' = sb_id sub
     \<and> dc_max_age (sb_dedupe sub') = dc_max_age (sb_dedupe sub)
     \<and> cap (dc_cache (sb_dedupe sub')) = cap (dc_cache (sb_dedupe sub))
     \<and> entries (dc_cache (sb_dedupe sub')) =
        (if key_seen entries now (msg_header m) sub then live entries now (sb_dedupe sub)
         else lru_insert (cap (dc_cache (sb_dedupe sub))) (live entries now (sb_dedupe sub)) (dedupe_key (msg_header m)) now))"

lemma deliver_spec:
  assumes laws: "lru_laws ops entries cap" and sub: "sv_subs s i = Some sub" and room: "has_room sub"
    and apart: "i \<notin> set (topic_subs s DROP_TOPIC)" "topic \<noteq> DROP_TOPIC"
  shows "\<exists>s' sub'. deliver ops env i topic m now emit s = Some (s', Delivered) \<and> sv_subs s' i = Some sub'
    \<and> delivered_to entries cap now m sub sub'
    \<and> (\<forall>j. j \<noteq> i \<longrightarrow> j \<notin> set (topic_subs s DROP_TOPIC) \<longrightarrow> sv_subs s' j = sv_subs s j)
    \<and> set (topic_subs s' DROP_TOPIC) \<subseteq> set (topic_subs s DROP_TOPIC)"
proof -
  obtain d' where d': "dc_max_age d' = dc_max_age (sb_dedupe sub)" "cap (dc_cache d') = cap (dc_cache (sb_dedupe sub))"
    and r: "if key_seen entries now (msg_header m) sub
     then reserve ops i (msg_header m) now s = Some (s\<lparr>sv_subs := (sv_subs s)(i \<mapsto> sub\<lparr>sb_dedupe := d'\<rparr>)\<rparr>, None)
       \<and> entries (dc_cache d') = live entries now (sb_dedupe sub)
     else reserve ops i (msg_header m) now s = Some (s\<lparr>sv_subs := (sv_subs s)(i \<mapsto> sub\<lparr>sb_dedupe := d'\<rparr>)\<rparr>, Some (i, dedupe_key (msg_header m)))
       \<and> entries (dc_cache d') = lru_insert (cap (dc_cache (sb_dedupe sub))) (live entries now (sb_dedupe sub)) (dedupe_key (msg_header m)) now"
    using reserve_laws [OF laws sub, of now "msg_header m"] by blast
  show ?thesis
  proof (cases "key_seen entries now (msg_header m) sub")
    case True
    let ?s1 = "s\<lparr>sv_subs := (sv_subs s)(i \<mapsto> sub\<lparr>sb_dedupe := d'\<rparr>)\<rparr>"
    let ?s' = "notify_drop env emit topic m Duplicate ?s1"
    have d: "deliver ops env i topic m now emit s = Some (?s', Delivered)" using True r by (simp add: deliver_def)
    have t1: "topic_subs ?s1 u = topic_subs s u" for u by (simp add: topic_subs_def)
    have other: "sv_subs ?s' j = sv_subs ?s1 j" if "j \<notin> set (topic_subs s DROP_TOPIC)" for j
      using notify_drop_frame(3) [of j ?s1] that t1 by simp
    have "evolves drop_notices ?s1 ?s'" by (rule evolves_notify_drop) simp
    then have "set (topic_subs ?s' DROP_TOPIC) \<subseteq> set (topic_subs ?s1 DROP_TOPIC)"
      by (fastforce simp: evolves_def topic_subs_set ids_shrink_def)
    then show ?thesis using d other apart True r d' t1
      by (intro exI [of _ ?s'] exI [of _ "sub\<lparr>sb_dedupe := d'\<rparr>"]) (auto simp: delivered_to_def)
  next
    case False
    let ?s' = "inc_delivered (s\<lparr>sv_subs := (sv_subs s)(i \<mapsto> sub\<lparr>sb_dedupe := d', sb_queue := sb_queue sub @ [m]\<rparr>)\<rparr>)"
    have "deliver ops env i topic m now emit s = Some (?s', Delivered)"
      using False r room by (auto simp: deliver_def push_message_def has_room_def enqueue_def)
    then show ?thesis using False r d'
      by (intro exI [of _ ?s'] exI [of _ "sub\<lparr>sb_dedupe := d', sb_queue := sb_queue sub @ [m]\<rparr>"])
        (auto simp: delivered_to_def topic_subs_def)
  qed
qed

lemma deliver_all_spec:
  assumes laws: "lru_laws ops entries cap" and topic: "topic \<noteq> DROP_TOPIC"
    and dist: "distinct is" and apart: "set is \<inter> set (topic_subs s DROP_TOPIC) = {}"
    and room: "\<And>i. i \<in> set is \<Longrightarrow> \<exists>sub. sv_subs s i = Some sub \<and> has_room sub"
  shows "\<exists>s'. deliver_all ops env topic m now emit is err s = Some (s', [], err)
    \<and> (\<forall>i \<in> set is. \<exists>sub sub'. sv_subs s i = Some sub \<and> sv_subs s' i = Some sub' \<and> delivered_to entries cap now m sub sub')
    \<and> (\<forall>j. j \<notin> set is \<longrightarrow> j \<notin> set (topic_subs s DROP_TOPIC) \<longrightarrow> sv_subs s' j = sv_subs s j)"
  using dist apart room
proof (induction "is" arbitrary: s)
  case (Cons i "is")
  obtain sub where sub: "sv_subs s i = Some sub" "has_room sub" using Cons.prems(3) by fastforce
  have i: "i \<notin> set (topic_subs s DROP_TOPIC)" using Cons.prems(2) by simp
  obtain s1 sub1 where d: "deliver ops env i topic m now emit s = Some (s1, Delivered)" "sv_subs s1 i = Some sub1"
      "delivered_to entries cap now m sub sub1"
    and other: "\<And>j. j \<noteq> i \<Longrightarrow> j \<notin> set (topic_subs s DROP_TOPIC) \<Longrightarrow> sv_subs s1 j = sv_subs s j"
    and drops: "set (topic_subs s1 DROP_TOPIC) \<subseteq> set (topic_subs s DROP_TOPIC)"
    using deliver_spec [OF laws sub i topic] by metis
  have keep: "sv_subs s1 j = sv_subs s j" if "j \<in> set is" for j
    using other [of j] that Cons.prems(1,2) by auto
  have "\<exists>s'. deliver_all ops env topic m now emit is err s1 = Some (s', [], err)
    \<and> (\<forall>j \<in> set is. \<exists>sub sub'. sv_subs s1 j = Some sub \<and> sv_subs s' j = Some sub' \<and> delivered_to entries cap now m sub sub')
    \<and> (\<forall>j. j \<notin> set is \<longrightarrow> j \<notin> set (topic_subs s1 DROP_TOPIC) \<longrightarrow> sv_subs s' j = sv_subs s1 j)"
  proof (rule Cons.IH)
    show "set is \<inter> set (topic_subs s1 DROP_TOPIC) = {}" using Cons.prems(2) drops by auto
    show "\<exists>sub. sv_subs s1 j = Some sub \<and> has_room sub" if "j \<in> set is" for j
      using Cons.prems(3) [of j] keep [OF that] that by simp
  qed (use Cons.prems(1) in simp)
  then obtain s' where s': "deliver_all ops env topic m now emit is err s1 = Some (s', [], err)"
    and each: "\<And>j. j \<in> set is \<Longrightarrow> \<exists>sub sub'. sv_subs s1 j = Some sub \<and> sv_subs s' j = Some sub' \<and> delivered_to entries cap now m sub sub'"
    and rest: "\<And>j. j \<notin> set is \<Longrightarrow> j \<notin> set (topic_subs s1 DROP_TOPIC) \<Longrightarrow> sv_subs s' j = sv_subs s1 j"
    by auto
  have "sv_subs s' i = Some sub1" using rest [of i] i drops d(2) Cons.prems(1) by auto
  moreover have "sv_subs s' j = sv_subs s j" if "j \<noteq> i" "j \<notin> set is" "j \<notin> set (topic_subs s DROP_TOPIC)" for j
    using that rest [of j] other [of j] drops by auto
  ultimately show ?case using s' d sub each keep by (intro exI [of _ s']) simp
qed simp

section \<open>A run of the bus on a list as the cache\<close>

definition demo_ops :: "(nat \<times> (dedupe_key \<times> u64) list) lru_ops" where
  "demo_ops =
    \<lparr>lo_new = (\<lambda>n. (n, [])),
     lo_contains = (\<lambda>c k. k \<in> fst ` set (snd c)),
     lo_put = (\<lambda>c k t. (fst c, lru_insert (fst c) (snd c) k t)),
     lo_pop = (\<lambda>c k. (fst c, filter (\<lambda>e. fst e \<noteq> k) (snd c))),
     lo_peek_lru = (\<lambda>c. case snd c of [] \<Rightarrow> None | e # _ \<Rightarrow> Some e),
     lo_pop_lru = (\<lambda>c. (fst c, tl (snd c)))\<rparr>"

lemma demo_laws: "lru_laws demo_ops snd fst"
  by (simp add: lru_laws_def demo_ops_def del: split_paired_All)

definition demo_env :: bus_env where
  "demo_env = \<lparr>be_clock = (\<lambda>_. 1000), be_wait = (\<lambda>_. WaitTimedOut), be_serialize = (\<lambda>_. Inr [])\<rparr>"

definition demo_message :: message where
  "demo_message = \<lparr>msg_header = default_header\<lparr>hdr_created_at_ms := 900, hdr_ttl_ms := 500, hdr_trace_id := 7, hdr_msg_id := 1\<rparr>,
                   msg_body = []\<rparr>"

definition demo_server :: "(nat \<times> (dedupe_key \<times> u64) list) server" where
  "demo_server = fst (subscribe demo_ops ''t'' server_new)"

lemmas demo_defs = demo_server_def demo_env_def demo_message_def server_new_def subscribe_def Let_def

lemma demo_reachable: "reachable bus_init (bus_step demo_ops) demo_server"
  unfolding demo_server_def
proof (rule reachable.move)
  show "reachable bus_init (bus_step demo_ops) server_new" by (rule reachable.start) (simp add: bus_init_def)
  show "bus_step demo_ops server_new (fst (subscribe demo_ops ''t'' server_new))"
    by (rule step_subscribe [OF surjective_pairing])
qed

lemma demo_state:
  "sv_closed demo_server = False" "topic_subs demo_server ''t'' = [0]" "topic_subs demo_server DROP_TOPIC = []"
  "sv_subs demo_server 0 = Some \<lparr>sb_id = 0, sb_queue = [], sb_receiver_gone = False,
     sb_dedupe = dedupe_new demo_ops DEDUPE_CAPACITY DEFAULT_TTL_MS\<rparr>"
  "allowed_action_decision_publisher demo_server AgentKind = False"
  by (simp_all add: demo_defs topic_subs_def DROP_TOPIC_def allowed_action_decision_publisher_def)

lemma demo_clock: "current_millis demo_env s = (1000, s\<lparr>sv_ticks := Suc (sv_ticks s)\<rparr>)"
  by (simp add: current_millis_def demo_env_def)

lemma demo_fresh: "msg_is_expired demo_message 1000 = Inr False"
  by code_simp

section \<open>Properties\<close>

text \<open>C14: In every state reached by any sequence of subscriptions, drops, receptions,
  publications, ACL changes and shutdowns, topics are non-empty, list known subscribers once and
  share none; queues hold at most 1024 messages; a closed bus has no topics.\<close>

theorem bus_reachable_ok:
  "reachable bus_init (bus_step ops) s \<Longrightarrow> bus_ok s"
  by (rule bus.reachable_inv)

theorem bus_reachable_ok_witness: "bus_ok demo_server"
  by (rule bus_reachable_ok [OF demo_reachable])

lemma deliver_total:
  assumes laws: "lru_laws ops entries cap"
  shows "\<exists>s' r. deliver ops env i topic m now emit s = Some (s', r)"
proof -
  have "\<exists>s1 res. reserve ops i (msg_header m) now s = Some (s1, res)"
  proof (cases "sv_subs s i")
    case None
    then show ?thesis by (simp add: reserve_def)
  next
    case (Some sub)
    from reserve_laws [OF laws this, of now "msg_header m"] show ?thesis by metis
  qed
  then obtain s1 res where "reserve ops i (msg_header m) now s = Some (s1, res)" by blast
  then show ?thesis
    by (simp add: deliver_def split: option.split prod.split sum.split push_error.split)
qed

lemma deliver_all_total:
  assumes laws: "lru_laws ops entries cap"
  shows "\<exists>r. deliver_all ops env topic m now emit is err s = Some r"
proof (induction "is" arbitrary: err s)
  case (Cons i "is")
  obtain s1 r where d: "deliver ops env i topic m now emit s = Some (s1, r)" using deliver_total [OF laws] by blast
  have "\<exists>s' rs e. deliver_all ops env topic m now emit is err s1 = Some (s', rs, e)" for err
    using Cons.IH [of err s1] by auto
  then show ?case using d by (simp split: delivery_result.split) metis
qed simp

lemma publish_returns:
  assumes "lru_laws ops entries cap"
  shows "\<exists>s' r. publish ops env topic m emit kind s = Some (s', r)"
proof -
  obtain now s1 where c: "current_millis env s = (now, s1)" by (cases "current_millis env s")
  show ?thesis
  proof (cases "sv_closed s \<or> \<not> permitted s kind m")
    case True
    then show ?thesis using publish_closed publish_forbidden by blast
  next
    case False
    then have ok: "\<not> sv_closed s" "permitted s kind m" by simp_all
    obtain r where "deliver_all ops env topic m now emit (topic_subs s1 topic) None (inc_published s1) = Some r"
      using deliver_all_total [OF assms] by blast
    then show ?thesis
      using publish_invalid [OF ok c] publish_expired [OF ok c] publish_deliver [OF ok c, of ops topic emit]
      by (cases "msg_is_expired m now"; cases "projr (msg_is_expired m now)") (auto simp: case_prod_beta)
  qed
qed

text \<open>On a cache that behaves as documented, publishing always returns: the pruning loop ends
  for every subscriber, whatever the clock says, the channels do and the serialiser answers.\<close>

theorem publish_total:
  assumes "lru_laws ops entries cap"
  shows "\<exists>s' r. publish ops env topic m emit kind s = Some (s', r)"
  using assms by (rule publish_returns)

theorem publish_total_witness: "\<exists>s' r. publish demo_ops demo_env ''t'' demo_message True AgentKind demo_server = Some (s', r)"
  by (rule publish_total [OF demo_laws])

lemma publish_with_room:
  assumes laws: "lru_laws ops entries cap" and ok: "bus_ok s"
    and live: "\<not> sv_closed s" "permitted s kind m" "msg_is_expired m (fst (current_millis env s)) = Inr False"
    and topic: "topic \<noteq> DROP_TOPIC"
    and room: "\<forall>i \<in> set (topic_subs s topic). has_room (the (sv_subs s i))"
  shows "\<exists>s'. publish ops env topic m emit kind s = Some (s', Inr ())
    \<and> (\<forall>i \<in> set (topic_subs s topic). delivered_to entries cap (fst (current_millis env s)) m (the (sv_subs s i)) (the (sv_subs s' i)))
    \<and> (\<forall>j. j \<notin> set (topic_subs s topic) \<longrightarrow> j \<notin> set (topic_subs s DROP_TOPIC) \<longrightarrow> sv_subs s' j = sv_subs s j)"
proof -
  obtain now s1 where c: "current_millis env s = (now, s1)" by (cases "current_millis env s")
  have s1: "sv_subs s1 = sv_subs s" "sv_topics s1 = sv_topics s" using c by (auto simp: current_millis_def)
  let ?s2 = "inc_published s1"
  have s2: "sv_subs ?s2 = sv_subs s" "topic_subs ?s2 t = topic_subs s t" "topic_subs s1 t = topic_subs s t" for t
    using s1 by (simp_all add: topic_subs_def)
  note dist = bus_okD(2) [OF ok, of topic]
  have apart: "set (topic_subs s topic) \<inter> set (topic_subs ?s2 DROP_TOPIC) = {}" using bus_okD(3) [OF ok topic] by (simp add: s2)
  have known: "\<exists>sub. sv_subs ?s2 i = Some sub \<and> has_room sub" if "i \<in> set (topic_subs s topic)" for i
    using bus_okD(1) [OF ok that] room that by (auto simp: s1)
  obtain s' where s': "deliver_all ops env topic m now emit (topic_subs s topic) None ?s2 = Some (s', [], None)"
    and each: "\<forall>i \<in> set (topic_subs s topic). \<exists>sub sub'. sv_subs ?s2 i = Some sub \<and> sv_subs s' i = Some sub' \<and> delivered_to entries cap now m sub sub'"
    and rest: "\<forall>j. j \<notin> set (topic_subs s topic) \<longrightarrow> j \<notin> set (topic_subs ?s2 DROP_TOPIC) \<longrightarrow> sv_subs s' j = sv_subs ?s2 j"
    using deliver_all_spec [OF laws topic dist apart known] by blast
  have "publish ops env topic m emit kind s = Some (s', Inr ())"
    using publish_deliver [OF live(1,2) c] live(3) c s' by (simp add: s2 primary_result_def)
  moreover have "delivered_to entries cap now m (the (sv_subs s i)) (the (sv_subs s' i))" if "i \<in> set (topic_subs s topic)" for i
    using each that s2(1) by fastforce
  ultimately show ?thesis using rest c by (intro exI [of _ s']) (simp add: s2 s1)
qed

lemma demo_room: "\<forall>i \<in> set (topic_subs demo_server ''t''). has_room (the (sv_subs demo_server i))"
  by (simp add: demo_state has_room_def QUEUE_CAPACITY_def)

lemma demo_permitted: "permitted demo_server kind demo_message"
  by (simp add: permitted_def demo_message_def default_header_def CT_ACTION_DECISION_def)

lemma t_not_drops: "''t'' \<noteq> DROP_TOPIC"
  by (simp add: DROP_TOPIC_def)

lemma demo_facts:
  "bus_ok demo_server" "\<not> sv_closed demo_server"
  "msg_is_expired demo_message (fst (current_millis demo_env demo_server)) = Inr False"
  "\<not> key_seen snd 1000 (msg_header demo_message) (the (sv_subs demo_server 0))"
  by (rule bus.reachable_inv [OF demo_reachable])
    (simp_all add: demo_state demo_clock demo_fresh key_seen_def live_def dedupe_new_def demo_ops_def)

lemma demo_publish:
  "\<exists>s' sub'. publish demo_ops demo_env ''t'' demo_message True AgentKind demo_server = Some (s', Inr ())
    \<and> sv_subs s' 0 = Some sub' \<and> sb_queue sub' = [demo_message]"
proof -
  obtain s' where p: "publish demo_ops demo_env ''t'' demo_message True AgentKind demo_server = Some (s', Inr ())"
    and d: "delivered_to snd fst 1000 demo_message (the (sv_subs demo_server 0)) (the (sv_subs s' 0))"
    using publish_with_room [OF demo_laws demo_facts(1,2) demo_permitted demo_facts(3) t_not_drops demo_room, of True]
    by (auto simp: demo_state(2) demo_clock)
  have "rel_option (sub_evolves (insert demo_message drop_notices)) (sv_subs demo_server 0) (sv_subs s' 0)"
    using evolves_publish [OF p] by (simp add: evolves_def)
  then obtain sub' where "sv_subs s' 0 = Some sub'" by (cases "sv_subs s' 0") (auto simp: demo_state)
  with p d demo_facts(4) show ?thesis by (auto simp: delivered_to_def demo_state(4))
qed

text \<open>C15: Fan-out: on a bus in a good state, publishing an unexpired permitted message to a topic
  whose subscribers have room succeeds; each subscriber that has not seen the key gets the
  message once at the end of its queue, the others nothing, all remember the key, and no queue
  outside the topic and the drop topic changes.\<close>

theorem publish_fan_out:
  assumes laws: "lru_laws ops entries cap" and ok: "bus_ok s"
    and live: "\<not> sv_closed s" "permitted s kind m" "msg_is_expired m (fst (current_millis env s)) = Inr False"
    and topic: "topic \<noteq> DROP_TOPIC"
    and room: "\<forall>i \<in> set (topic_subs s topic). has_room (the (sv_subs s i))"
  shows "\<exists>s'. publish ops env topic m emit kind s = Some (s', Inr ())
    \<and> (\<forall>i \<in> set (topic_subs s topic). delivered_to entries cap (fst (current_millis env s)) m (the (sv_subs s i)) (the (sv_subs s' i)))
    \<and> (\<forall>j. j \<notin> set (topic_subs s topic) \<longrightarrow> j \<notin> set (topic_subs s DROP_TOPIC) \<longrightarrow> sv_subs s' j = sv_subs s j)"
  using assms by (rule publish_with_room)

theorem publish_fan_out_witness:
  "\<exists>s'. publish demo_ops demo_env ''t'' demo_message True AgentKind demo_server = Some (s', Inr ())
    \<and> sb_queue (the (sv_subs s' 0)) = [demo_message]"
  using publish_fan_out [OF demo_laws demo_facts(1,2) demo_permitted demo_facts(3) t_not_drops demo_room, of True] demo_facts(4)
  by (auto simp: demo_state(2) delivered_to_def demo_clock demo_state(4))

section \<open>Metrics\<close>

text \<open>Deliveries and drop notices only touch the counters of deliveries and of notices.\<close>

definition same_drops :: "'c server \<Rightarrow> 'c server \<Rightarrow> bool" where
  "same_drops s s' = (mt_drops_ttl (sv_metrics s') = mt_drops_ttl (sv_metrics s)
    \<and> mt_drops_duplicate (sv_metrics s') = mt_drops_duplicate (sv_metrics s)
    \<and> mt_drops_backpressure (sv_metrics s') = mt_drops_backpressure (sv_metrics s)
    \<and> mt_published (sv_metrics s') = mt_published (sv_metrics s))"

lemma same_drops_trans [trans]: "same_drops s t \<Longrightarrow> same_drops t u \<Longrightarrow> same_drops s u"
  by (simp add: same_drops_def)

lemma same_drops_refl [simp]: "same_drops s s"
  by (simp add: same_drops_def)

lemma same_drops_push: "push_message env i m s = (s', r) \<Longrightarrow> same_drops s s'"
  by (auto simp: push_message_def same_drops_def enqueue_def inc_delivered_def Let_def
      split: option.splits if_splits wait_outcome.splits)

lemma same_drops_remove: "same_drops s (remove_subscriber t i s)"
  by (simp add: remove_subscriber_def same_drops_def Let_def split: option.split)

lemma same_drops_notify_all: "same_drops s (notify_all env m is s)"
proof (induction env m "is" s rule: notify_all.induct)
  case (2 env m i "is" s)
  obtain s1 r where p: "push_message env i m s = (s1, r)" by (cases "push_message env i m s")
  note push = same_drops_push [OF p]
  show ?case
  proof (cases r)
    case (Inr u)
    then show ?thesis using same_drops_trans [OF push "2.IH"(3) [OF p [symmetric] Inr]] p by simp
  next
    case (Inl e)
    show ?thesis
    proof (cases e)
      case ChannelClosed
      then show ?thesis
        using same_drops_trans [OF same_drops_trans [OF push same_drops_remove] "2.IH"(1) [OF p [symmetric] Inl ChannelClosed]] p Inl
        by simp
    next
      case TimedOut
      then show ?thesis using same_drops_trans [OF push "2.IH"(2) [OF p [symmetric] Inl TimedOut]] p Inl by simp
    qed
  qed
qed (simp add: same_drops_def)

lemma same_drops_emit: "same_drops s (emit_drop env t m r a s)"
proof -
  have "same_drops s (snd (next_drop_msg_id s))" by (simp add: same_drops_def next_drop_msg_id_def)
  then have "same_drops s (notify_all env d is (snd (next_drop_msg_id s)))" for d "is"
    by (rule same_drops_trans [OF _ same_drops_notify_all])
  then show ?thesis using \<open>same_drops s (snd (next_drop_msg_id s))\<close>
    by (auto simp: emit_drop_def Let_def case_prod_beta same_drops_refl split: sum.split)
qed

lemma same_drops_notify_drop: "same_drops (inc_drop r s) (notify_drop env emit t m r s)"
proof -
  have "same_drops (inc_drop r s) (snd (current_millis env (inc_drop r s)))"
    by (simp add: same_drops_def current_millis_def)
  from same_drops_trans [OF this same_drops_emit] show ?thesis
    by (simp add: notify_drop_def Let_def case_prod_beta same_drops_def)
qed

text \<open>A permitted message whose expiry is not after the present is refused with
  \<open>MessageExpired\<close> and counted once as a TTL drop and not as published; no queue gains it: only
  drop notices may enter queues, and only those of the drop topic's subscribers.\<close>

theorem publish_expired_dropped:
  assumes "\<not> sv_closed s" "permitted s kind m"
    and "hdr_ttl_ms (msg_header m) \<noteq> 0"
    and "unat (hdr_created_at_ms (msg_header m)) + unat (hdr_ttl_ms (msg_header m)) \<le> unat (be_clock env (sv_ticks s))"
  shows "\<exists>s'. publish ops env topic m emit kind s = Some (s', Inl MessageExpired)
    \<and> mt_drops_ttl (sv_metrics s') = mt_drops_ttl (sv_metrics s) + 1
    \<and> mt_published (sv_metrics s') = mt_published (sv_metrics s)
    \<and> evolves drop_notices s s'
    \<and> (\<forall>i. i \<notin> set (topic_subs s DROP_TOPIC) \<longrightarrow> sv_subs s' i = sv_subs s i)"
proof -
  obtain now s1 where c: "current_millis env s = (now, s1)" by (cases "current_millis env s")
  then have now: "now = be_clock env (sv_ticks s)" and s1: "sv_subs s1 = sv_subs s" "sv_topics s1 = sv_topics s" "sv_metrics s1 = sv_metrics s"
    by (auto simp: current_millis_def)
  have "is_expired (msg_header m) now = Inr True"
    using assms(3,4) now le_less_trans [OF assms(4) unsigned_less] by (simp add: is_expired_iff)
  then have e: "msg_is_expired m now = Inr True" by (simp add: msg_is_expired_def map_err_def)
  let ?s' = "notify_drop env emit topic m TtlExpired s1"
  have d: "same_drops (inc_drop TtlExpired s1) ?s'" by (rule same_drops_notify_drop)
  have ev: "evolves drop_notices s ?s'"
    by (rule evolves_trans [OF evolves_current_millis [OF c] evolves_notify_drop]) simp
  have "sv_subs ?s' i = sv_subs s i" if "i \<notin> set (topic_subs s DROP_TOPIC)" for i
    using notify_drop_frame(3) [of i s1] that s1 by (simp add: topic_subs_def)
  then show ?thesis using publish_expired [OF assms(1,2) c e] d ev s1
    by (intro exI [of _ ?s']) (simp add: same_drops_def inc_drop_def Let_def)
qed

definition demo_stale :: message where
  "demo_stale = demo_message\<lparr>msg_header := (msg_header demo_message)\<lparr>hdr_created_at_ms := 500\<rparr>\<rparr>"

theorem publish_expired_dropped_witness:
  "\<exists>s'. publish demo_ops demo_env ''t'' demo_stale True Tui demo_server = Some (s', Inl MessageExpired)
    \<and> mt_drops_ttl (sv_metrics s') = mt_drops_ttl (sv_metrics demo_server) + 1"
proof -
  have 1: "\<not> sv_closed demo_server" by (simp add: demo_state)
  have 2: "permitted demo_server Tui demo_stale"
    by (simp add: permitted_def demo_stale_def demo_message_def default_header_def CT_ACTION_DECISION_def)
  have 3: "hdr_ttl_ms (msg_header demo_stale) \<noteq> 0"
    "unat (hdr_created_at_ms (msg_header demo_stale)) + unat (hdr_ttl_ms (msg_header demo_stale)) \<le> unat (be_clock demo_env (sv_ticks demo_server))"
    by (simp_all add: demo_stale_def demo_message_def demo_env_def)
  show ?thesis using publish_expired_dropped [OF 1 2 3, of demo_ops "''t''" True] by blast
qed

section \<open>Agents and action decisions\<close>

text \<open>The steps of a bus whose ACL is left as created and whose publishers are agents.\<close>

inductive agent_step :: "'c lru_ops \<Rightarrow> 'c server \<Rightarrow> 'c server \<Rightarrow> bool" for ops where
  "subscribe ops topic s = (s', r) \<Longrightarrow> agent_step ops s s'"
| "agent_step ops s (drop_subscription topic i s)"
| "receive i s = (s', r) \<Longrightarrow> agent_step ops s s'"
| "publish ops env topic m emit AgentKind s = Some (s', r) \<Longrightarrow> agent_step ops s s'"
| "shutdown s = (s', b) \<Longrightarrow> agent_step ops s s'"

definition no_decision :: "'c server \<Rightarrow> bool" where
  "no_decision s = (\<not> sv_allow_agent s \<and> (\<forall>i sub m. sv_subs s i = Some sub \<longrightarrow> m \<in> set (sb_queue sub) \<longrightarrow>
     hdr_schema_id (msg_header m) \<noteq> CT_ACTION_DECISION))"

lemma no_decision_evolves:
  assumes "no_decision s" "evolves M s s'" "\<And>m. m \<in> M \<Longrightarrow> hdr_schema_id (msg_header m) \<noteq> CT_ACTION_DECISION"
  shows "no_decision s'"
proof -
  have "hdr_schema_id (msg_header m) \<noteq> CT_ACTION_DECISION" if h: "sv_subs s' i = Some sub'" "m \<in> set (sb_queue sub')" for i sub' m
  proof -
    have "rel_option (sub_evolves M) (sv_subs s i) (Some sub')" using assms(2) h(1) by (metis evolves_def)
    then obtain sub where "sv_subs s i = Some sub" "sub_evolves M sub sub'" by (cases "sv_subs s i") auto
    then show ?thesis using assms(1,3) h(2) unfolding no_decision_def sub_evolves_def by blast
  qed
  then show ?thesis using assms(1,2) by (simp add: no_decision_def evolves_def acl_def)
qed

interpretation agents: invariant bus_init "agent_step ops" no_decision for ops
proof
  fix s :: "'b server"
  assume "bus_init s"
  then show "no_decision s" by (simp add: bus_init_def server_new_def no_decision_def)
next
  fix s t :: "'a server"
  assume ok: "no_decision s" and step: "agent_step ops s t"
  from step show "no_decision t"
  proof cases
    case (1 topic r)
    then show ?thesis using ok by (auto simp: subscribe_def Let_def no_decision_def split: if_splits)
  next
    case (2 topic i)
    have "evolves {} s (remove_subscriber topic i s)" by (rule evolves_remove_subscriber)
    with ok have "no_decision (remove_subscriber topic i s)" by (rule no_decision_evolves) simp
    then show ?thesis using 2 by (auto simp: drop_subscription_def Let_def no_decision_def split: if_splits)
  next
    case (3 i r)
    then show ?thesis using ok
      by (auto simp: receive_def no_decision_def split: option.splits list.splits if_splits)
  next
    case (4 env topic m emit r)
    show ?thesis
    proof (cases "hdr_schema_id (msg_header m) = CT_ACTION_DECISION")
      case True
      then have "\<not> permitted s AgentKind m" using ok
        by (simp add: permitted_def no_decision_def allowed_action_decision_publisher_def)
      then have "t = s" using 4 publish_closed [of s] publish_forbidden [of s AgentKind m] by (cases "sv_closed s") simp_all
      then show ?thesis using ok by simp
    next
      case False
      show ?thesis
        by (rule no_decision_evolves [OF ok evolves_publish [OF 4]])
          (use False in \<open>auto simp: drop_notices_def CT_BUS_DROP_NOTICE_def CT_ACTION_DECISION_def\<close>)
    qed
  next
    case (5 b)
    then show ?thesis using ok by (auto simp: shutdown_def no_decision_def split: if_splits)
  qed
qed

text \<open>C33: On a bus with the default access control no sequence of operations in which only agents
  publish ever puts an action decision into a queue, whatever the agents send.\<close>

theorem agents_never_decide:
  assumes "reachable bus_init (agent_step ops) s" and "sv_subs s i = Some sub" and "m \<in> set (sb_queue sub)"
  shows "hdr_schema_id (msg_header m) \<noteq> CT_ACTION_DECISION"
  using agents.reachable_inv [OF assms(1)] assms(2,3) by (auto simp: no_decision_def)

lemma demo_agent_reachable:
  "\<exists>s sub. reachable bus_init (agent_step demo_ops) s \<and> sv_subs s 0 = Some sub \<and> sb_queue sub = [demo_message]"
proof -
  have "reachable bus_init (agent_step demo_ops) server_new" by (rule reachable.start) (simp add: bus_init_def)
  then have r: "reachable bus_init (agent_step demo_ops) demo_server"
    unfolding demo_server_def by (rule reachable.move) (rule agent_step.intros(1) [OF surjective_pairing])
  obtain s' sub' where p: "publish demo_ops demo_env ''t'' demo_message True AgentKind demo_server = Some (s', Inr ())"
    and q: "sv_subs s' 0 = Some sub'" "sb_queue sub' = [demo_message]"
    using demo_publish by blast
  from r have "reachable bus_init (agent_step demo_ops) s'" by (rule reachable.move) (rule agent_step.intros(4) [OF p])
  then show ?thesis using q by blast
qed

theorem agents_never_decide_witness:
  "hdr_schema_id (msg_header demo_message) \<noteq> CT_ACTION_DECISION"
proof -
  obtain s sub where r: "reachable bus_init (agent_step demo_ops) s" "sv_subs s 0 = Some sub" "sb_queue sub = [demo_message]"
    using demo_agent_reachable by blast
  then have "demo_message \<in> set (sb_queue sub)" by simp
  with r(1,2) show ?thesis by (rule agents_never_decide)
qed

section \<open>At most once\<close>

text \<open>On a cache ordered by time, with no entry in the future, pruning drops exactly the old entries.\<close>

definition time_ordered :: "u64 \<Rightarrow> (dedupe_key \<times> u64) list \<Rightarrow> bool" where
  "time_ordered now es = (sorted_wrt (\<lambda>a b. snd a \<le> snd b) es \<and> (\<forall>e \<in> set es. snd e \<le> now))"

lemma stale_exact: "snd e \<le> now \<Longrightarrow> stale age now e \<longleftrightarrow> unat (snd e) + unat age < unat now"
  by (auto simp: stale_def saturating_sub_def word_less_nat_alt unat_sub word_le_nat_alt)

lemma live_ordered:
  assumes "time_ordered now es"
  shows "dropWhile (stale age now) es = filter (\<lambda>e. \<not> stale age now e) es"
  using assms
proof (induction es)
  case (Cons e es)
  show ?case
  proof (cases "stale age now e")
    case True
    then show ?thesis using Cons by (simp add: time_ordered_def)
  next
    case False
    have "\<not> stale age now x" if "x \<in> set es" for x
    proof -
      have "snd e \<le> snd x" "snd x \<le> now" "snd e \<le> now" using Cons.prems that by (auto simp: time_ordered_def)
      then show ?thesis using False by (auto simp: stale_exact word_le_nat_alt)
    qed
    then show ?thesis using False by (simp add: filter_id_conv)
  qed
qed simp

lemma time_ordered_insert:
  assumes "time_ordered now es"
  shows "time_ordered now (lru_insert cap es k now)"
proof -
  have "time_ordered now (filter (\<lambda>e. fst e \<noteq> k) es @ [(k, now)])"
    using assms by (auto simp: time_ordered_def sorted_wrt_append sorted_wrt_filter)
  moreover have "time_ordered now (tl es)" if "time_ordered now es" for es
    using that by (cases es) (auto simp: time_ordered_def)
  ultimately show ?thesis by (simp add: lru_insert_def Let_def)
qed

text \<open>A subscriber's cache suppresses exactly the keys of the last \<open>max_age\<close> milliseconds: on entries
  ordered by time, \<open>contains\<close> answers whether the key was stored at most \<open>max_age\<close> ago and drops
  exactly the older entries, and \<open>insert\<close> at that time makes it answer yes and keeps the order.\<close>

theorem dedupe_window:
  assumes laws: "lru_laws ops entries cap" and ord: "time_ordered now (entries (dc_cache d))"
  shows "\<exists>d'. dedupe_contains ops d key now =
      Some (d', \<exists>ts. (key, ts) \<in> set (entries (dc_cache d)) \<and> unat now - unat ts \<le> unat (dc_max_age d))
    \<and> entries (dc_cache d') = filter (\<lambda>e. unat now - unat (snd e) \<le> unat (dc_max_age d)) (entries (dc_cache d))
    \<and> (\<exists>d''. dedupe_insert ops d' key now = Some d'' \<and> time_ordered now (entries (dc_cache d''))
        \<and> (cap (dc_cache d) > 0 \<longrightarrow> (key, now) \<in> set (entries (dc_cache d''))))"
proof -
  let ?es = "entries (dc_cache d)"
  have le: "\<And>e. e \<in> set ?es \<Longrightarrow> snd e \<le> now" using ord by (simp add: time_ordered_def)
  have f: "live entries now d = filter (\<lambda>e. unat now - unat (snd e) \<le> unat (dc_max_age d)) ?es"
    unfolding live_def live_ordered [OF ord] using le by (intro filter_cong) (auto simp: stale_exact word_le_nat_alt)
  obtain d' where c: "dedupe_contains ops d key now = Some (d', key \<in> fst ` set (live entries now d))"
    and d': "entries (dc_cache d') = live entries now d" "dc_max_age d' = dc_max_age d" "cap (dc_cache d') = cap (dc_cache d)"
    using dedupe_contains_laws [OF laws, of d key now] by blast
  obtain d'' where i: "dedupe_insert ops d' key now = Some d''"
    and d'': "entries (dc_cache d'') = lru_insert (cap (dc_cache d')) (live entries now d') key now"
    using dedupe_insert_laws [OF laws, of d' key now] by blast
  have ord': "time_ordered now (live entries now d)"
    unfolding f using ord by (auto simp: time_ordered_def sorted_wrt_filter)
  have "live entries now d' = live entries now d"
    by (simp add: live_def d'(2)) (simp add: d'(1) live_def dropWhile_idem)
  then have "time_ordered now (entries (dc_cache d''))" "cap (dc_cache d) > 0 \<longrightarrow> (key, now) \<in> set (entries (dc_cache d''))"
    using time_ordered_insert [OF ord'] by (simp_all add: d'' d'(3) lru_insert_mem)
  moreover have "(key \<in> fst ` set (live entries now d)) = (\<exists>ts. (key, ts) \<in> set ?es \<and> unat now - unat ts \<le> unat (dc_max_age d))"
    by (simp only: f image_iff set_filter mem_Collect_eq Bex_def) (metis fst_conv snd_conv prod.collapse)
  ultimately show ?thesis using c i by (intro exI [of _ d']) (simp add: d'(1) f)
qed

theorem dedupe_window_witness:
  "\<exists>d'. dedupe_contains demo_ops \<lparr>dc_cache = (2, [((7, 1), 10), ((7, 2), 60)]), dc_max_age = 30\<rparr> (7, 2) 80 = Some (d', True)
     \<and> snd (dc_cache d') = [((7, 2), 60)]"
proof -
  have "time_ordered 80 (snd (dc_cache \<lparr>dc_cache = (2 :: nat, [((7, 1), 10), ((7, 2), 60)]), dc_max_age = 30\<rparr>))"
    by (simp add: time_ordered_def)
  from dedupe_window [OF demo_laws this, of "(7, 2)"] show ?thesis by auto
qed

section \<open>Roll back\<close>

text \<open>The subscriber's cache holds the key only if it did before or the message is in its queue.\<close>

definition cached :: "('c \<Rightarrow> (dedupe_key \<times> u64) list) \<Rightarrow> dedupe_key \<Rightarrow> 'c subscriber \<Rightarrow> bool" where
  "cached entries key sub = (key \<in> fst ` set (entries (dc_cache (sb_dedupe sub))))"

definition accounted ::
  "('c \<Rightarrow> (dedupe_key \<times> u64) list) \<Rightarrow> message \<Rightarrow> 'c subscriber \<Rightarrow> 'c subscriber \<Rightarrow> bool" where
  "accounted entries m sub sub' =
    (cached entries (dedupe_key (msg_header m)) sub' \<longrightarrow>
       cached entries (dedupe_key (msg_header m)) sub \<or> m \<in> set (sb_queue sub'))"

lemma live_sub: "set (live entries now d) \<subseteq> set (entries (dc_cache d))"
  by (auto simp: live_def dest: set_dropWhileD)

lemma push_message_result:
  assumes "push_message env i m s = (s', r)" "sv_subs s i = Some sub"
  shows "\<exists>sub'. sv_subs s' i = Some sub' \<and> sb_dedupe sub' = sb_dedupe sub \<and> (r = Inr () \<longrightarrow> m \<in> set (sb_queue sub'))"
  using assms by (auto simp: push_message_def Let_def enqueue_def split: if_splits wait_outcome.splits)

lemma deliver_accounted:
  assumes laws: "lru_laws ops entries cap" and sub: "sv_subs s i = Some sub" and topic: "topic \<noteq> DROP_TOPIC"
    and apart: "i \<notin> set (topic_subs s DROP_TOPIC)"
    and d: "deliver ops env i topic m now emit s = Some (s', r)"
  shows "\<exists>sub'. sv_subs s' i = Some sub' \<and>
    (case r of Delivered \<Rightarrow> accounted entries m sub sub' | DeliveryClosed v \<Rightarrow> v = (i, dedupe_key (msg_header m))
     | DeliveryTimedOut v \<Rightarrow> v = (i, dedupe_key (msg_header m)))"
    and "\<And>j. j \<noteq> i \<Longrightarrow> j \<notin> set (topic_subs s DROP_TOPIC) \<Longrightarrow> sv_subs s' j = sv_subs s j"
    and "set (topic_subs s' DROP_TOPIC) \<subseteq> set (topic_subs s DROP_TOPIC)"
proof -
  let ?k = "dedupe_key (msg_header m)"
  obtain d' where r: "if key_seen entries now (msg_header m) sub
     then reserve ops i (msg_header m) now s = Some (s\<lparr>sv_subs := (sv_subs s)(i \<mapsto> sub\<lparr>sb_dedupe := d'\<rparr>)\<rparr>, None)
       \<and> entries (dc_cache d') = live entries now (sb_dedupe sub)
     else reserve ops i (msg_header m) now s = Some (s\<lparr>sv_subs := (sv_subs s)(i \<mapsto> sub\<lparr>sb_dedupe := d'\<rparr>)\<rparr>, Some (i, ?k))"
    using reserve_laws [OF laws sub, of now "msg_header m"] by metis
  let ?s1 = "s\<lparr>sv_subs := (sv_subs s)(i \<mapsto> sub\<lparr>sb_dedupe := d'\<rparr>)\<rparr>"
  have t1: "topic_subs ?s1 u = topic_subs s u" for u by (simp add: topic_subs_def)
  have "evolves (insert m drop_notices) s s'" by (rule evolves_deliver [OF d])
  then show "set (topic_subs s' DROP_TOPIC) \<subseteq> set (topic_subs s DROP_TOPIC)"
    by (fastforce simp: evolves_def topic_subs_set ids_shrink_def)
  have "(\<exists>sub'. sv_subs s' i = Some sub' \<and>
    (case r of Delivered \<Rightarrow> accounted entries m sub sub' | DeliveryClosed v \<Rightarrow> v = (i, ?k) | DeliveryTimedOut v \<Rightarrow> v = (i, ?k)))
    \<and> (\<forall>j. j \<noteq> i \<longrightarrow> j \<notin> set (topic_subs s DROP_TOPIC) \<longrightarrow> sv_subs s' j = sv_subs s j)"
  proof (cases "key_seen entries now (msg_header m) sub")
    case True
    then have s': "s' = notify_drop env emit topic m Duplicate ?s1" "r = Delivered" using d r by (simp_all add: deliver_def)
    have k: "sv_subs s' j = sv_subs ?s1 j" if "j \<notin> set (topic_subs s DROP_TOPIC)" for j
      using notify_drop_frame(3) [of j ?s1] that t1 by (simp add: s')
    moreover have "cached entries ?k sub" using True live_sub [of entries now "sb_dedupe sub"] by (auto simp: key_seen_def cached_def)
    ultimately show ?thesis using apart by (simp add: s'(2) accounted_def)
  next
    case False
    obtain s2 p where p: "push_message env i m ?s1 = (s2, p)" by (cases "push_message env i m ?s1")
    obtain sub2 where sub2: "sv_subs s2 i = Some sub2" "p = Inr () \<longrightarrow> m \<in> set (sb_queue sub2)"
      using push_message_result [OF p] by auto
    note f2 = push_message_frame [OF p]
    have t2: "topic_subs s2 u = topic_subs s u" for u by (simp add: topic_subs_def f2)
    have n: "sv_subs (notify_drop env emit topic m x s2) j = sv_subs s2 j" if "j \<notin> set (topic_subs s DROP_TOPIC)" for j x
      using notify_drop_frame(3) [of j s2] that t2 by simp
    have o: "sv_subs s2 j = sv_subs s j" if "j \<noteq> i" for j using f2(4) [OF that] that by simp
    show ?thesis using d r False p sub2 n o apart
      by (auto simp: deliver_def accounted_def split: sum.splits push_error.splits)
  qed
  then show "\<exists>sub'. sv_subs s' i = Some sub' \<and>
    (case r of Delivered \<Rightarrow> accounted entries m sub sub' | DeliveryClosed v \<Rightarrow> v = (i, ?k) | DeliveryTimedOut v \<Rightarrow> v = (i, ?k))"
    "\<And>j. j \<noteq> i \<Longrightarrow> j \<notin> set (topic_subs s DROP_TOPIC) \<Longrightarrow> sv_subs s' j = sv_subs s j" by blast+
qed

lemma rollback_other [simp]: "j \<noteq> fst r \<Longrightarrow> sv_subs (rollback ops r s) j = sv_subs s j"
  by (simp add: rollback_def)

lemma rollback_queue:
  assumes laws: "lru_laws ops entries cap" and sub: "sv_subs s i = Some sub"
  shows "\<exists>sub'. sv_subs (rollback ops r s) i = Some sub' \<and> sb_queue sub' = sb_queue sub
    \<and> (cached entries key sub' \<longrightarrow> cached entries key sub) \<and> (r = (i, key) \<longrightarrow> \<not> cached entries key sub')"
  using sub by (cases r; cases "i = fst r")
    (auto simp: rollback_def cached_def dedupe_remove_def lru_lawsD(6) [OF laws] simp del: split_paired_All split_paired_Ex)

lemma rollbacks_queue:
  assumes laws: "lru_laws ops entries cap"
  shows "sv_subs s i = Some sub \<Longrightarrow> \<exists>sub'. sv_subs (foldl (\<lambda>s r. rollback ops r s) s rs) i = Some sub' \<and> sb_queue sub' = sb_queue sub
    \<and> (cached entries key sub' \<longrightarrow> cached entries key sub) \<and> ((i, key) \<in> set rs \<longrightarrow> \<not> cached entries key sub')"
proof (induction rs arbitrary: s sub)
  case (Cons r rs)
  obtain sub1 where s1: "sv_subs (rollback ops r s) i = Some sub1" "sb_queue sub1 = sb_queue sub"
    "cached entries key sub1 \<longrightarrow> cached entries key sub" "r = (i, key) \<longrightarrow> \<not> cached entries key sub1"
    using rollback_queue [OF laws Cons.prems] by blast
  from Cons.IH [OF s1(1)] show ?case using s1 by auto
qed auto

lemma deliver_all_accounted:
  assumes laws: "lru_laws ops entries cap" and topic: "topic \<noteq> DROP_TOPIC"
    and dist: "distinct is" and apart: "set is \<inter> set (topic_subs s DROP_TOPIC) = {}"
    and known: "\<And>i. i \<in> set is \<Longrightarrow> \<exists>sub. sv_subs s i = Some sub"
    and d: "deliver_all ops env topic m now emit is err s = Some (s', rs, err')"
  shows "(\<forall>i \<in> set is. \<exists>sub sub'. sv_subs s i = Some sub \<and> sv_subs s' i = Some sub' \<and>
      (accounted entries m sub sub' \<or> (i, dedupe_key (msg_header m)) \<in> set rs))
    \<and> (\<forall>j. j \<notin> set is \<longrightarrow> j \<notin> set (topic_subs s DROP_TOPIC) \<longrightarrow> sv_subs s' j = sv_subs s j)"
  using dist apart known d
proof (induction "is" arbitrary: s err rs)
  case (Cons i "is")
  obtain s1 r where r: "deliver ops env i topic m now emit s = Some (s1, r)"
    using deliver_total [OF laws] by blast
  obtain sub where sub: "sv_subs s i = Some sub" using Cons.prems(3) [of i] by auto
  have i: "i \<notin> set (topic_subs s DROP_TOPIC)" using Cons.prems(2) by simp
  note step = deliver_accounted [OF laws sub topic i r]
  obtain sub1 where sub1: "sv_subs s1 i = Some sub1"
    "case r of Delivered \<Rightarrow> accounted entries m sub sub1 | DeliveryClosed v \<Rightarrow> v = (i, dedupe_key (msg_header m))
     | DeliveryTimedOut v \<Rightarrow> v = (i, dedupe_key (msg_header m))" using step(1) by blast
  obtain e rs' where rest: "deliver_all ops env topic m now emit is e s1 = Some (s', rs', err')"
    and rs: "case r of Delivered \<Rightarrow> rs = rs' | DeliveryClosed v \<Rightarrow> rs = v # rs' | DeliveryTimedOut v \<Rightarrow> rs = v # rs'"
    using Cons.prems(4) r by (auto split: delivery_result.splits)
  have keep: "sv_subs s1 j = sv_subs s j" if "j \<in> set is" for j
    using step(2) [of j] Cons.prems(1,2) that by auto
  have "(\<forall>j \<in> set is. \<exists>sub sub'. sv_subs s1 j = Some sub \<and> sv_subs s' j = Some sub' \<and>
      (accounted entries m sub sub' \<or> (j, dedupe_key (msg_header m)) \<in> set rs'))
    \<and> (\<forall>j. j \<notin> set is \<longrightarrow> j \<notin> set (topic_subs s1 DROP_TOPIC) \<longrightarrow> sv_subs s' j = sv_subs s1 j)"
  proof (rule Cons.IH [OF _ _ _ rest])
    show "set is \<inter> set (topic_subs s1 DROP_TOPIC) = {}" using Cons.prems(2) step(3) by auto
    show "\<exists>sub. sv_subs s1 j = Some sub" if "j \<in> set is" for j using Cons.prems(3) [of j] keep [OF that] that by simp
  qed (use Cons.prems(1) in simp)
  then have IH: "\<And>j. j \<in> set is \<Longrightarrow> \<exists>sub sub'. sv_subs s1 j = Some sub \<and> sv_subs s' j = Some sub' \<and>
      (accounted entries m sub sub' \<or> (j, dedupe_key (msg_header m)) \<in> set rs')"
    and frame: "\<And>j. j \<notin> set is \<Longrightarrow> j \<notin> set (topic_subs s1 DROP_TOPIC) \<Longrightarrow> sv_subs s' j = sv_subs s1 j" by blast+
  have sub': "sv_subs s' i = Some sub1" using frame [of i] i step(3) sub1(1) Cons.prems(1) by auto
  have sub_rs: "set rs' \<subseteq> set rs" using rs by (auto split: delivery_result.splits)
  have "accounted entries m sub sub1 \<or> (i, dedupe_key (msg_header m)) \<in> set rs"
    using sub1(2) rs by (auto split: delivery_result.splits)
  moreover have "\<exists>sub sub'. sv_subs s j = Some sub \<and> sv_subs s' j = Some sub' \<and>
      (accounted entries m sub sub' \<or> (j, dedupe_key (msg_header m)) \<in> set rs)" if h: "j \<in> set is" for j
  proof -
    obtain u v where "sv_subs s1 j = Some u" "sv_subs s' j = Some v" "accounted entries m u v \<or> (j, dedupe_key (msg_header m)) \<in> set rs'"
      using IH [OF h] by blast
    then show ?thesis using keep [OF h] sub_rs by auto
  qed
  moreover have "sv_subs s' j = sv_subs s j" if "j \<noteq> i" "j \<notin> set is" "j \<notin> set (topic_subs s DROP_TOPIC)" for j
    using frame [of j] step(2) [of j] step(3) that by auto
  ultimately show ?case using sub sub' by simp
qed simp

text \<open>No message is lost to the duplicate filter: however a publication ends (closed receivers, full
  channels, time-outs), a subscriber's cache holds the message's key afterwards only if it did
  before or the message is in its queue, so a failed delivery can be published again.\<close>

theorem publish_failure_is_retryable:
  assumes laws: "lru_laws ops entries cap" and ok: "bus_ok s" and topic: "topic \<noteq> DROP_TOPIC"
    and p: "publish ops env topic m emit kind s = Some (s', r)" and i: "i \<in> set (topic_subs s topic)"
  shows "accounted entries m (the (sv_subs s i)) (the (sv_subs s' i))"
proof -
  obtain now s1 where c: "current_millis env s = (now, s1)" by (cases "current_millis env s")
  have s1: "sv_subs s1 = sv_subs s" "sv_topics s1 = sv_topics s" using c by (auto simp: current_millis_def)
  obtain sub where sub: "sv_subs s i = Some sub" using bus_okD(1) [OF ok i] by blast
  have same: ?thesis if "sv_subs s' i = Some sub" using that sub by (simp add: accounted_def)
  have apart: "i \<notin> set (topic_subs s1 DROP_TOPIC)" using bus_okD(3) [OF ok topic] i s1 by (auto simp: topic_subs_def)
  have deliv: ?thesis if h: "deliver_all ops env topic m now emit (topic_subs s1 topic) None (inc_published s1) = Some (s2, rs, e)"
      and s': "s' = foldl (\<lambda>s r. rollback ops r s) s2 rs" for s2 rs e
  proof -
    let ?s = "inc_published s1"
    have t: "topic_subs ?s u = topic_subs s u" "topic_subs s1 u = topic_subs s u" for u by (simp_all add: topic_subs_def s1)
    have "\<exists>sub'. sv_subs s2 i = Some sub' \<and> (accounted entries m sub sub' \<or> (i, dedupe_key (msg_header m)) \<in> set rs)"
      using deliver_all_accounted [OF laws topic _ _ _ h] bus_okD [OF ok] i topic sub by (auto simp: t s1)
    then obtain sub2 where s2: "sv_subs s2 i = Some sub2" "accounted entries m sub sub2 \<or> (i, dedupe_key (msg_header m)) \<in> set rs"
      by blast
    from rollbacks_queue [OF laws s2(1), of rs "dedupe_key (msg_header m)"] show ?thesis
      using s2(2) sub s' by (auto simp: accounted_def)
  qed
  show ?thesis
    using publish_shape_topic [OF p c] same deliv sub s1 apart notify_drop_frame(3) [of i s1] by auto
qed

definition demo_gone :: "(nat \<times> (dedupe_key \<times> u64) list) server" where
  "demo_gone = demo_server\<lparr>sv_subs := (sv_subs demo_server)(0 := map_option (\<lambda>sub. sub\<lparr>sb_receiver_gone := True\<rparr>) (sv_subs demo_server 0))\<rparr>"

lemma demo_gone_ok: "bus_ok demo_gone"
proof (rule bus_ok_evolves [OF demo_facts(1), where M = "{}"])
  show "evolves {} demo_server demo_gone"
    by (auto simp: demo_gone_def evolves_def acl_def demo_state(4) sub_evolves_def intro: option.rel_refl)
qed

theorem publish_failure_is_retryable_witness:
  "\<exists>s' r. publish demo_ops demo_env ''t'' demo_message True AgentKind demo_gone = Some (s', r)
    \<and> accounted snd demo_message (the (sv_subs demo_gone 0)) (the (sv_subs s' 0))"
proof -
  obtain s' r where p: "publish demo_ops demo_env ''t'' demo_message True AgentKind demo_gone = Some (s', r)"
    using publish_returns [OF demo_laws] by blast
  have "0 \<in> set (topic_subs demo_gone ''t'')" using demo_state(2) by (simp add: demo_gone_def topic_subs_def)
  with p show ?thesis using publish_failure_is_retryable [OF demo_laws demo_gone_ok t_not_drops p] by blast
qed

end
