(* ===== verification/Model_Broker.thy ===== *)
theory Model_Broker
  imports Opening_Values Rust_Str
begin

text \<open>
  The model broker (\<open>crates/model-broker/src/lib.rs\<close>): routes, budgets, the response cache and
  \<open>Broker::complete\<close>. A provider is a trait object, so a record of its two functions; a call
  gives its result and its duration in milliseconds, or \<open>None\<close> when it never returns. Parameters:
  the LRU cache (\<open>cache_ops\<close> with its documented behaviour \<open>cache_laws\<close>), the clock, the hash and
  the JSON serialisers of the cache key. Counters of the \<open>metrics\<close> crate are not part of the state.
\<close>

section \<open>Requests and answers\<close>

record model_params =
  mp_temperature :: "u32 option"
  mp_top_p :: "u32 option"
  mp_max_tokens :: "u32 option"
  mp_stop :: "string list option"

record model_request =
  mr_trace_id :: u128
  mr_model :: string
  mr_prompt :: string
  mr_role_system :: "string option"
  mr_params :: "model_params option"
  mr_budget_tokens :: "u32 option"
  mr_timeout_ms :: "u32 option"
  mr_cache_ttl_ms :: "u32 option"
  mr_cache_key :: "string option"
  mr_stream :: bool
  mr_extras :: "json option"

record model_output =
  mo_text :: string
  mo_tokens_in :: "u32 option"
  mo_tokens_out :: "u32 option"
  mo_cached :: bool
  mo_provider :: string
  mo_provider_model :: string
  mo_latency_ms :: u32
  mo_finish_reason :: "string option"

record model_output_meta =
  mm_tokens_in :: "u32 option"
  mm_tokens_out :: "u32 option"
  mm_cached :: bool
  mm_provider :: string
  mm_provider_model :: string
  mm_latency_ms :: u32
  mm_finish_reason :: "string option"

definition output_meta :: "model_output \<Rightarrow> model_output_meta" where
  "output_meta out = \<lparr>mm_tokens_in = mo_tokens_in out, mm_tokens_out = mo_tokens_out out,
     mm_cached = mo_cached out, mm_provider = mo_provider out, mm_provider_model = mo_provider_model out,
     mm_latency_ms = mo_latency_ms out, mm_finish_reason = mo_finish_reason out\<rparr>"

datatype broker_error =
    StreamingUnsupported
  | BudgetExceeded u32 u32
  | BrokerTimeout u32
  | ProviderFault string string
  | InvalidRequest string
  | Cancelled
  | OutputTooLarge nat

record provider_completion =
  pc_text :: string
  pc_tokens_in :: "u32 option"
  pc_tokens_out :: "u32 option"
  pc_finish_reason :: "string option"
  pc_provider_model :: string

text \<open>\<open>pv_complete request provider_model timeout call\<close>: \<open>call\<close> tells successive calls apart.\<close>

record provider =
  pv_id :: string
  pv_complete :: "model_request \<Rightarrow> string \<Rightarrow> nat option \<Rightarrow> nat \<Rightarrow> ((broker_error + provider_completion) \<times> nat) option"

section \<open>Budgets\<close>

record budget_limits =
  bl_default_tokens :: "u32 option"
  bl_per_request_cap :: "u32 option"
  bl_hard_cap_usd :: "u32 option"

record model_budgets =
  mb_default_tokens :: u32
  mb_per_request_tokens_cap :: u32
  mb_hard_cap_usd :: "u32 option"

definition positive :: "u32 \<Rightarrow> u32 option" where
  "positive v = (if 0 < v then Some v else None)"

definition budget_limits_from :: "model_budgets \<Rightarrow> budget_limits" where
  "budget_limits_from v = \<lparr>bl_default_tokens = positive (mb_default_tokens v),
     bl_per_request_cap = positive (mb_per_request_tokens_cap v), bl_hard_cap_usd = mb_hard_cap_usd v\<rparr>"

definition effective_limit :: "budget_limits \<Rightarrow> u32 option \<Rightarrow> u32 option" where
  "effective_limit b request =
    (let limit = (case request of Some r \<Rightarrow> Some r | None \<Rightarrow> bl_default_tokens b);
         limit = (case (limit, bl_per_request_cap b) of
                    (Some current, Some cap) \<Rightarrow> Some (min current cap)
                  | _ \<Rightarrow> limit)
     in Option.bind limit positive)"

definition budget_enforce :: "budget_limits \<Rightarrow> model_request \<Rightarrow> u32 \<Rightarrow> broker_error + unit" where
  "budget_enforce b request total_tokens =
    (case effective_limit b (mr_budget_tokens request) of
       Some limit \<Rightarrow> if limit < total_tokens then Inl (BudgetExceeded limit total_tokens) else Inr ()
     | None \<Rightarrow> Inr ())"

section \<open>Token estimates\<close>

text \<open>\<open>len\<close> is the length in bytes; the cast to \<open>u32\<close> wraps.\<close>

definition byte_len :: "string \<Rightarrow> nat" where
  "byte_len s = length (utf8_bytes s)"

definition estimate_tokens_from_len :: "nat \<Rightarrow> u32" where
  "estimate_tokens_from_len len = word_of_nat ((len + 3) div 4)"

definition estimate_tokens :: "string \<Rightarrow> u32" where
  "estimate_tokens text = estimate_tokens_from_len (byte_len text)"

definition saturating_add :: "u32 \<Rightarrow> u32 \<Rightarrow> u32" where
  "saturating_add a b = (if unat a + unat b < 2 ^ 32 then a + b else - 1)"

definition usage_profile :: "model_output \<Rightarrow> string \<Rightarrow> string option \<Rightarrow> u32 option \<times> u32 option \<times> u32" where
  "usage_profile out prompt system_instruction =
    (let prompt_len = byte_len prompt + (case system_instruction of Some t \<Rightarrow> byte_len t | None \<Rightarrow> 0);
         tokens_in = (case mo_tokens_in out of Some t \<Rightarrow> Some t | None \<Rightarrow> Some (estimate_tokens_from_len prompt_len));
         tokens_out = (case mo_tokens_out out of Some t \<Rightarrow> Some t | None \<Rightarrow> Some (estimate_tokens (mo_text out)));
         total = saturating_add (case tokens_in of Some t \<Rightarrow> t | None \<Rightarrow> 0) (case tokens_out of Some t \<Rightarrow> t | None \<Rightarrow> 0)
     in (tokens_in, tokens_out, total))"

definition saturating_duration_millis :: "nat \<Rightarrow> u32" where
  "saturating_duration_millis ms = word_of_nat (min ms (2 ^ 32 - 1))"

section \<open>Routes\<close>

record route_rule =
  rr_pattern :: string
  rr_provider_id :: string
  rr_target_model :: "string option"

definition route_matches :: "route_rule \<Rightarrow> string \<Rightarrow> bool" where
  "route_matches r model =
    (if rr_pattern r = ''*'' then True
     else case strip_suffix ''*'' (rr_pattern r) of
       Some prefix \<Rightarrow> starts_with prefix model
     | None \<Rightarrow> rr_pattern r = model)"

section \<open>The response cache\<close>

record cache_entry =
  ce_output :: model_output
  ce_expires_at :: nat

record 'c cache_ops =
  co_new :: "nat \<Rightarrow> 'c"
  co_get :: "'c \<Rightarrow> string \<Rightarrow> 'c \<times> cache_entry option"
  co_put :: "'c \<Rightarrow> string \<Rightarrow> cache_entry \<Rightarrow> 'c"
  co_pop :: "'c \<Rightarrow> string \<Rightarrow> 'c"

text \<open>\<open>LruCache\<close> as documented, on the entries from the least to the most recently used.\<close>

definition cache_laws :: "'c cache_ops \<Rightarrow> ('c \<Rightarrow> (string \<times> cache_entry) list) \<Rightarrow> ('c \<Rightarrow> nat) \<Rightarrow> bool" where
  "cache_laws ops entries cap =
    (\<forall>n c k e.
       entries (co_new ops n) = [] \<and> cap (co_new ops n) = n
     \<and> (case map_of (entries c) k of
          None \<Rightarrow> co_get ops c k = (c, None)
        | Some v \<Rightarrow> snd (co_get ops c k) = Some v
            \<and> entries (fst (co_get ops c k)) = filter (\<lambda>x. fst x \<noteq> k) (entries c) @ [(k, v)]
            \<and> cap (fst (co_get ops c k)) = cap c)
     \<and> entries (co_put ops c k e) = lru_insert (cap c) (entries c) k e \<and> cap (co_put ops c k e) = cap c
     \<and> entries (co_pop ops c k) = filter (\<lambda>x. fst x \<noteq> k) (entries c) \<and> cap (co_pop ops c k) = cap c)"

record 'c broker_cache =
  bc_default_ttl :: nat
  bc_store :: 'c

definition cache_from_config :: "'c cache_ops \<Rightarrow> nat \<Rightarrow> u64 \<Rightarrow> 'c broker_cache option" where
  "cache_from_config ops capacity ttl_ms =
    (if capacity = 0 \<or> ttl_ms = 0 then None
     else Some \<lparr>bc_default_ttl = unat ttl_ms, bc_store = co_new ops capacity\<rparr>)"

definition effective_ttl :: "u32 option \<Rightarrow> 'c broker_cache option \<Rightarrow> nat option" where
  "effective_ttl override_ms cache =
    (case override_ms of
       Some v \<Rightarrow> if v = 0 then None else Some (unat v)
     | None \<Rightarrow> (case cache of
         Some c \<Rightarrow> if bc_default_ttl c \<noteq> 0 then Some (bc_default_ttl c) else None
       | None \<Rightarrow> None))"

definition check_cache :: "'c cache_ops \<Rightarrow> nat \<Rightarrow> string \<Rightarrow> 'c \<Rightarrow> 'c \<times> model_output option" where
  "check_cache ops now key c =
    (case co_get ops c key of
       (c, Some entry) \<Rightarrow>
         if now < ce_expires_at entry then (c, Some ((ce_output entry)\<lparr>mo_cached := True\<rparr>))
         else (co_pop ops c key, None)
     | (c, None) \<Rightarrow> (c, None))"

definition store_cache :: "'c cache_ops \<Rightarrow> nat \<Rightarrow> string \<Rightarrow> model_output \<Rightarrow> nat \<Rightarrow> 'c \<Rightarrow> 'c" where
  "store_cache ops now key out ttl c =
    co_put ops c key \<lparr>ce_output = out\<lparr>mo_cached := False\<rparr>, ce_expires_at = now + ttl\<rparr>"

text \<open>The environment: clock readings, the hex digest of the hash, and the serialisers
  (\<open>None\<close>: they fail).\<close>

record broker_env =
  bn_clock :: "nat \<Rightarrow> nat"
  bn_digest :: "bytes \<Rightarrow> string"
  bn_params_json :: "model_params \<Rightarrow> bytes option"
  bn_extras_json :: "json \<Rightarrow> bytes option"

definition cache_key_bytes :: "broker_env \<Rightarrow> string \<Rightarrow> string \<Rightarrow> model_request \<Rightarrow> string option \<Rightarrow> bytes" where
  "cache_key_bytes env provider_id provider_model request extra =
    utf8_bytes provider_id @ utf8_bytes provider_model @ utf8_bytes (mr_prompt request)
    @ (case mr_role_system request of Some system \<Rightarrow> utf8_bytes system | None \<Rightarrow> [])
    @ (case Option.bind (mr_params request) (bn_params_json env) of Some encoded \<Rightarrow> encoded | None \<Rightarrow> [])
    @ (case Option.bind (mr_extras request) (bn_extras_json env) of Some encoded \<Rightarrow> encoded | None \<Rightarrow> [])
    @ (case extra of Some key \<Rightarrow> utf8_bytes key | None \<Rightarrow> [])"

definition compose_cache_key :: "broker_env \<Rightarrow> string \<Rightarrow> string \<Rightarrow> model_request \<Rightarrow> string option \<Rightarrow> string" where
  "compose_cache_key env provider_id provider_model request extra =
    bn_digest env (cache_key_bytes env provider_id provider_model request extra)"

section \<open>The broker\<close>

record 'c broker =
  bk_providers :: "string \<Rightarrow> provider option"
  bk_routes :: "route_rule list"
  bk_cache :: "'c broker_cache option"
  bk_budgets :: budget_limits
  bk_calls :: u64
  bk_cache_hits :: u64
  bk_tokens_prompt :: u64
  bk_tokens_completion :: u64
  bk_ticks :: nat
  bk_provider_calls :: nat

record broker_stats =
  bs_calls :: u64
  bs_cache_hits :: u64
  bs_tokens_prompt :: u64
  bs_tokens_completion :: u64

definition stats :: "'c broker \<Rightarrow> broker_stats" where
  "stats b = \<lparr>bs_calls = bk_calls b, bs_cache_hits = bk_cache_hits b,
     bs_tokens_prompt = bk_tokens_prompt b, bs_tokens_completion = bk_tokens_completion b\<rparr>"

definition record_usage :: "u32 option \<Rightarrow> u32 option \<Rightarrow> 'c broker \<Rightarrow> 'c broker" where
  "record_usage tokens_in tokens_out b =
    b\<lparr>bk_tokens_prompt := bk_tokens_prompt b + (case tokens_in of Some t \<Rightarrow> ucast t | None \<Rightarrow> 0),
      bk_tokens_completion := bk_tokens_completion b + (case tokens_out of Some t \<Rightarrow> ucast t | None \<Rightarrow> 0)\<rparr>"

definition set_store :: "'c \<Rightarrow> 'c broker \<Rightarrow> 'c broker" where
  "set_store c b = b\<lparr>bk_cache := map_option (\<lambda>bc. bc\<lparr>bc_store := c\<rparr>) (bk_cache b)\<rparr>"

text \<open>The end of \<open>complete\<close>, shared by a cache hit and a fresh completion: the budget is enforced on
  the usage, which is then recorded.\<close>

definition account :: "model_request \<Rightarrow> model_output \<Rightarrow> 'c broker \<Rightarrow> 'c broker \<times> (broker_error + model_output)" where
  "account request out b =
    (let (tokens_in, tokens_out, total_tokens) = usage_profile out (mr_prompt request) (mr_role_system request) in
     case budget_enforce (bk_budgets b) request total_tokens of
       Inl err \<Rightarrow> (b, Inl err)
     | Inr _ \<Rightarrow> (record_usage tokens_in tokens_out b,
                 Inr (out\<lparr>mo_tokens_in := tokens_in, mo_tokens_out := tokens_out\<rparr>)))"

text \<open>\<open>time::timeout\<close> polls the call first, so a call that takes exactly the limit is in time.\<close>

definition call_provider ::
  "provider \<Rightarrow> model_request \<Rightarrow> string \<Rightarrow> nat \<Rightarrow> ((broker_error + provider_completion) \<times> nat) option" where
  "call_provider p request hint call =
    (let timeout = Option.bind (mr_timeout_ms request) (\<lambda>ms. if ms = 0 then None else Some (unat ms));
         run = pv_complete p request hint timeout call
     in case timeout of
          None \<Rightarrow> run
        | Some limit \<Rightarrow>
            (case run of
               Some (r, took) \<Rightarrow>
                 if took \<le> limit then Some (r, took)
                 else Some (Inl (BrokerTimeout (saturating_duration_millis limit)), limit)
             | None \<Rightarrow> Some (Inl (BrokerTimeout (saturating_duration_millis limit)), limit)))"

definition output_from :: "provider \<Rightarrow> string \<Rightarrow> provider_completion \<Rightarrow> nat \<Rightarrow> model_output" where
  "output_from p hint completion took =
    \<lparr>mo_text = pc_text completion, mo_tokens_in = pc_tokens_in completion, mo_tokens_out = pc_tokens_out completion,
     mo_cached = False, mo_provider = pv_id p,
     mo_provider_model = (if pc_provider_model completion = [] then hint else pc_provider_model completion),
     mo_latency_ms = saturating_duration_millis took, mo_finish_reason = pc_finish_reason completion\<rparr>"

definition read_clock :: "broker_env \<Rightarrow> 'c broker \<Rightarrow> nat \<times> 'c broker" where
  "read_clock env b = (bn_clock env (bk_ticks b), b\<lparr>bk_ticks := Suc (bk_ticks b)\<rparr>)"

definition lookup ::
  "'c cache_ops \<Rightarrow> broker_env \<Rightarrow> string \<Rightarrow> 'c broker \<Rightarrow> 'c broker \<times> model_output option" where
  "lookup ops env key b =
    (case bk_cache b of
       None \<Rightarrow> (b, None)
     | Some cache \<Rightarrow>
         let (now, b) = read_clock env b; (c, hit) = check_cache ops now key (bc_store cache)
         in (set_store c b, hit))"

definition remember ::
  "'c cache_ops \<Rightarrow> broker_env \<Rightarrow> string \<Rightarrow> nat option \<Rightarrow> model_output \<Rightarrow> 'c broker \<Rightarrow> 'c broker" where
  "remember ops env key ttl out b =
    (case (ttl, bk_cache b) of
       (Some ttl, Some cache) \<Rightarrow>
         let (now, b) = read_clock env b in set_store (store_cache ops now key out ttl (bc_store cache)) b
     | _ \<Rightarrow> b)"

definition fresh_completion ::
  "'c cache_ops \<Rightarrow> broker_env \<Rightarrow> provider \<Rightarrow> model_request \<Rightarrow> string \<Rightarrow> string \<Rightarrow> nat option \<Rightarrow> 'c broker
   \<Rightarrow> ('c broker \<times> (broker_error + model_output)) option" where
  "fresh_completion ops env p request hint key ttl b =
    map_option (\<lambda>(r, took).
      let b = b\<lparr>bk_provider_calls := Suc (bk_provider_calls b)\<rparr> in
      case r of
        Inl err \<Rightarrow> (b, Inl err)
      | Inr completion \<Rightarrow>
          (case account request (output_from p hint completion took) b of
             (b, Inl err) \<Rightarrow> (b, Inl err)
           | (b, Inr out) \<Rightarrow> (remember ops env key ttl out b, Inr out)))
      (call_provider p request hint (bk_provider_calls b))"

definition broker_complete ::
  "'c cache_ops \<Rightarrow> broker_env \<Rightarrow> model_request \<Rightarrow> 'c broker \<Rightarrow> ('c broker \<times> (broker_error + model_output)) option" where
  "broker_complete ops env request b =
    (if mr_stream request then Some (b, Inl StreamingUnsupported)
     else case find (\<lambda>r. route_matches r (mr_model request)) (bk_routes b) of
       None \<Rightarrow> Some (b, Inl (InvalidRequest (''no provider configured for model '' @ quoted (mr_model request))))
     | Some route \<Rightarrow>
         (case bk_providers b (rr_provider_id route) of
            None \<Rightarrow> Some (b, Inl (InvalidRequest (''routing for model '' @ quoted (mr_model request) @
              '' references unknown provider '' @ quoted (rr_provider_id route))))
          | Some p \<Rightarrow>
              let b = b\<lparr>bk_calls := bk_calls b + 1\<rparr>;
                  hint = (case rr_target_model route of Some t \<Rightarrow> t | None \<Rightarrow> mr_model request);
                  ttl = effective_ttl (mr_cache_ttl_ms request) (bk_cache b);
                  key = compose_cache_key env (pv_id p) hint request (mr_cache_key request)
              in (case lookup ops env key b of
                    (b, Some hit) \<Rightarrow> Some (account request hit (b\<lparr>bk_cache_hits := bk_cache_hits b + 1\<rparr>))
                  | (b, None) \<Rightarrow> fresh_completion ops env p request hint key ttl b)))"

section \<open>Building a broker\<close>

datatype provider_kind = Local | Http | HttpGemini | HttpOpenAiChat | HttpAnthropic | HttpOllama

record model_provider =
  mv_id :: string
  mv_kind :: provider_kind
  mv_model_dir :: "string option"
  mv_base_url :: "string option"
  mv_secret_id :: "string option"
  mv_headers :: "(string \<times> string) list"
  mv_schema :: "string option"

record model_route =
  mt_pattern :: string
  mt_provider :: string
  mt_target_model :: "string option"

datatype broker_init_error =
    DuplicateProvider string
  | MissingBaseUrl string
  | UnsupportedSchema string string
  | InvalidHeaderName string string
  | InvalidHeaderValue string string
  | HttpClientError string
  | UnknownProvider string string

record broker_config =
  bf_providers :: "model_provider list"
  bf_route :: "model_route list"
  bf_cache_ttl_ms :: u64
  bf_cache_capacity :: nat
  bf_budgets :: model_budgets

definition null_provider :: "string \<Rightarrow> provider" where
  "null_provider i = \<lparr>pv_id = i, pv_complete = (\<lambda>request provider_model timeout call.
     Some (Inr \<lparr>pc_text = mr_prompt request, pc_tokens_in = Some (estimate_tokens (mr_prompt request)),
                pc_tokens_out = Some (estimate_tokens (mr_prompt request)), pc_finish_reason = Some ''stop'',
                pc_provider_model = provider_model\<rparr>, 0))\<rparr>"

fun add_providers ::
  "(model_provider \<Rightarrow> broker_init_error + provider) \<Rightarrow> model_provider list \<Rightarrow> (string \<Rightarrow> provider option)
   \<Rightarrow> broker_init_error + (string \<Rightarrow> provider option)" where
  "add_providers build [] providers = Inr providers"
| "add_providers build (cfg # cfgs) providers =
     (if providers (mv_id cfg) \<noteq> None then Inl (DuplicateProvider (mv_id cfg))
      else res_bind (build cfg) (\<lambda>p. add_providers build cfgs (providers(pv_id p \<mapsto> p))))"

definition or_insert :: "string \<Rightarrow> provider \<Rightarrow> (string \<Rightarrow> provider option) \<Rightarrow> string \<Rightarrow> provider option" where
  "or_insert i p providers = (if providers i = None then providers(i \<mapsto> p) else providers)"

definition make_route :: "(string \<Rightarrow> provider option) \<Rightarrow> model_route \<Rightarrow> broker_init_error + route_rule" where
  "make_route providers route =
    (if providers (mt_provider route) = None then Inl (UnknownProvider (mt_pattern route) (mt_provider route))
     else Inr \<lparr>rr_pattern = mt_pattern route, rr_provider_id = mt_provider route, rr_target_model = mt_target_model route\<rparr>)"

definition broker_new ::
  "'c cache_ops \<Rightarrow> (model_provider \<Rightarrow> broker_init_error + provider) \<Rightarrow> broker_config \<Rightarrow> broker_init_error + 'c broker" where
  "broker_new ops build config =
    res_bind (add_providers build (bf_providers config) Map.empty) (\<lambda>providers.
    let providers = or_insert ''local'' (null_provider ''local'') (or_insert ''null'' (null_provider ''null'') providers)
    in res_bind (if bf_route config = []
                 then Inr [\<lparr>rr_pattern = ''*'', rr_provider_id = ''null'', rr_target_model = None\<rparr>]
                 else res_map (make_route providers) (bf_route config)) (\<lambda>routes.
    Inr \<lparr>bk_providers = providers, bk_routes = routes,
         bk_cache = cache_from_config ops (bf_cache_capacity config) (bf_cache_ttl_ms config),
         bk_budgets = budget_limits_from (bf_budgets config),
         bk_calls = 0, bk_cache_hits = 0, bk_tokens_prompt = 0, bk_tokens_completion = 0,
         bk_ticks = 0, bk_provider_calls = 0\<rparr>))"

end
