(* ===== verification/Model_Broker_Props.thy ===== *)
theory Model_Broker_Props
  imports Model_Broker
begin

text \<open>
  Correctness of the broker: budgets, routing over every sequence of completions, the response
  cache (a repeated request is answered from it, without a provider), and what the cache key
  does not tell apart.
\<close>

section \<open>Budgets\<close>

lemma account_Inr:
  assumes "account request out b = (b', Inr out')"
  shows "\<exists>ti to. mo_tokens_in out' = Some ti \<and> mo_tokens_out out' = Some to
    \<and> budget_enforce (bk_budgets b) request (saturating_add ti to) = Inr ()
    \<and> out' = out\<lparr>mo_tokens_in := Some ti, mo_tokens_out := Some to\<rparr> \<and> b' = record_usage (Some ti) (Some to) b"
  using assms by (auto simp: account_def usage_profile_def Let_def split: sum.splits option.splits)

lemma budget_enforce_Inr:
  "budget_enforce l request tot = Inr () \<longleftrightarrow>
     (case effective_limit l (mr_budget_tokens request) of Some limit \<Rightarrow> tot \<le> limit | None \<Rightarrow> True)"
  by (auto simp: budget_enforce_def not_less split: option.splits)

lemma unat_saturating_add: "unat (saturating_add a b) = min (unat a + unat b) (2 ^ 32 - 1)"
proof (cases "unat a + unat b < 2 ^ 32")
  case True
  then have "unat (a + b) = unat a + unat b" by (simp add: unat_add_lem [where 'a = 32, simplified])
  then show ?thesis using True by (simp add: saturating_add_def)
next
  case False
  then show ?thesis by (simp add: saturating_add_def unsigned_minus_1_eq_mask mask_eq_exp_minus_1)
qed

text \<open>The budget of a request is the stricter of its own and the cap, and its own is the default
  when it has none.\<close>

lemma effective_limit_positive:
  "0 < r \<Longrightarrow> effective_limit l (Some r) =
     (case bl_per_request_cap l of Some cap \<Rightarrow> positive (min r cap) | None \<Rightarrow> Some r)"
  by (simp add: effective_limit_def positive_def split: option.split)

lemma positive_limits [simp]: "positive v \<noteq> Some 0"
  by (auto simp: positive_def)

section \<open>What a completion leaves alone\<close>

definition same_setup :: "'c broker \<Rightarrow> 'c broker \<Rightarrow> bool" where
  "same_setup b b' = (bk_providers b' = bk_providers b \<and> bk_routes b' = bk_routes b \<and> bk_budgets b' = bk_budgets b
     \<and> map_option bc_default_ttl (bk_cache b') = map_option bc_default_ttl (bk_cache b))"

lemma same_setup_refl [simp]: "same_setup b b"
  by (simp add: same_setup_def)

lemma same_setup_trans: "same_setup a b \<Longrightarrow> same_setup b c \<Longrightarrow> same_setup a c"
  by (simp add: same_setup_def)

lemma same_setup_counters [simp]:
  "same_setup b (b\<lparr>bk_calls := n\<rparr>)" "same_setup b (b\<lparr>bk_cache_hits := n\<rparr>)" "same_setup b (b\<lparr>bk_provider_calls := k\<rparr>)"
  "same_setup b (record_usage ti to b)" "same_setup b (snd (read_clock env b))" "same_setup b (set_store c b)"
  by (simp_all add: same_setup_def record_usage_def read_clock_def set_store_def option.map_comp o_def)

lemma same_setup_clock_store [simp]: "same_setup b (set_store c (snd (read_clock env b)))"
  by (rule same_setup_trans [of _ "snd (read_clock env b)"]) simp_all

lemma same_setup_account: "account request out b = (b', r) \<Longrightarrow> same_setup b b'"
  by (auto simp: account_def Let_def split: prod.splits sum.splits)

lemma same_setup_lookup: "lookup ops env key b = (b', hit) \<Longrightarrow> same_setup b b'"
  by (auto simp: lookup_def Let_def case_prod_beta split: option.splits)

lemma same_setup_remember: "same_setup b (remember ops env key ttl out b)"
  by (auto simp: remember_def Let_def case_prod_beta split: option.splits)

lemma fresh_completion_fault:
  "call_provider p request hint (bk_provider_calls b) = Some (Inl e, took) \<Longrightarrow>
   fresh_completion ops env p request hint key ttl b = Some (b\<lparr>bk_provider_calls := Suc (bk_provider_calls b)\<rparr>, Inl e)"
  by (simp add: fresh_completion_def)

lemma fresh_completion_answer:
  assumes "call_provider p request hint (bk_provider_calls b) = Some (Inr completion, took)"
    and "account request (output_from p hint completion took) (b\<lparr>bk_provider_calls := Suc (bk_provider_calls b)\<rparr>) = (b1, r)"
  shows "fresh_completion ops env p request hint key ttl b =
    Some (case r of Inl e \<Rightarrow> (b1, Inl e) | Inr out \<Rightarrow> (remember ops env key ttl out b1, Inr out))"
  using assms by (simp add: fresh_completion_def split: sum.split)

lemma fresh_completion_cases:
  assumes "fresh_completion ops env p request hint key ttl b = Some (b', r)"
  obtains (fault) e where "r = Inl e" "b' = b\<lparr>bk_provider_calls := Suc (bk_provider_calls b)\<rparr>"
  | (answer) completion took b1 where "call_provider p request hint (bk_provider_calls b) = Some (Inr completion, took)"
      "account request (output_from p hint completion took) (b\<lparr>bk_provider_calls := Suc (bk_provider_calls b)\<rparr>) = (b1, r)"
      "b' = (case r of Inl e \<Rightarrow> b1 | Inr out \<Rightarrow> remember ops env key ttl out b1)"
proof -
  obtain res took where c: "call_provider p request hint (bk_provider_calls b) = Some (res, took)"
    using assms by (auto simp: fresh_completion_def)
  show ?thesis
  proof (cases res)
    case (Inl e)
    then show ?thesis using fresh_completion_fault [of p request hint b e took ops env key ttl] c assms fault by simp
  next
    case (Inr completion)
    let ?b = "b\<lparr>bk_provider_calls := Suc (bk_provider_calls b)\<rparr>"
    obtain b1 r1 where a: "account request (output_from p hint completion took) ?b = (b1, r1)"
      by (cases "account request (output_from p hint completion took) ?b")
    have "(b', r) = (case r1 of Inl e \<Rightarrow> (b1, Inl e) | Inr out \<Rightarrow> (remember ops env key ttl out b1, Inr out))"
      using fresh_completion_answer [OF c [unfolded Inr] a, of ops env key ttl] assms by simp
    then have "r = r1" "b' = (case r1 of Inl e \<Rightarrow> b1 | Inr out \<Rightarrow> remember ops env key ttl out b1)"
      by (cases r1; simp)+
    then show ?thesis using answer [OF c [unfolded Inr]] a by simp
  qed
qed

lemma same_setup_fresh:
  assumes "fresh_completion ops env p request hint key ttl b = Some (b', r)"
  shows "same_setup b b'"
  using assms
proof (cases rule: fresh_completion_cases)
  case (answer completion took b1)
  have "same_setup b b1" using same_setup_account [OF answer(2)] by (rule same_setup_trans [rotated]) simp
  then show ?thesis using answer(3) same_setup_trans [OF _ same_setup_remember] by (cases r) simp_all
qed simp

text \<open>The ways through \<open>complete\<close>.\<close>

definition request_hint :: "route_rule \<Rightarrow> model_request \<Rightarrow> string" where
  "request_hint route request = (case rr_target_model route of Some t \<Rightarrow> t | None \<Rightarrow> mr_model request)"

definition request_key :: "broker_env \<Rightarrow> provider \<Rightarrow> route_rule \<Rightarrow> model_request \<Rightarrow> string" where
  "request_key env p route request =
    compose_cache_key env (pv_id p) (request_hint route request) request (mr_cache_key request)"

definition routed :: "'c broker \<Rightarrow> model_request \<Rightarrow> route_rule \<Rightarrow> provider \<Rightarrow> bool" where
  "routed b request route p =
    (\<not> mr_stream request \<and> find (\<lambda>r. route_matches r (mr_model request)) (bk_routes b) = Some route
     \<and> bk_providers b (rr_provider_id route) = Some p)"

definition counted :: "'c broker \<Rightarrow> 'c broker" where
  "counted b = b\<lparr>bk_calls := bk_calls b + 1\<rparr>"

lemma complete_hit:
  assumes "routed b request route p" "lookup ops env (request_key env p route request) (counted b) = (b1, Some hit)"
  shows "broker_complete ops env request b = Some (account request hit (b1\<lparr>bk_cache_hits := bk_cache_hits b1 + 1\<rparr>))"
  using assms by (simp add: routed_def broker_complete_def request_key_def request_hint_def counted_def Let_def)

lemma complete_miss:
  assumes "routed b request route p" "lookup ops env (request_key env p route request) (counted b) = (b1, None)"
  shows "broker_complete ops env request b =
    fresh_completion ops env p request (request_hint route request) (request_key env p route request)
      (effective_ttl (mr_cache_ttl_ms request) (bk_cache b)) b1"
  using assms by (simp add: routed_def broker_complete_def request_key_def request_hint_def counted_def Let_def)

lemma complete_unrouted:
  assumes "\<nexists>route p. routed b request route p"
  shows "\<exists>e. broker_complete ops env request b = Some (b, Inl e)"
  using assms by (auto simp: routed_def broker_complete_def split: option.split)

lemma complete_cases:
  assumes "broker_complete ops env request b = Some (b', r)"
  obtains (unrouted) e where "b' = b" "r = Inl e"
  | (hit) route p b1 out where "routed b request route p"
      "lookup ops env (request_key env p route request) (counted b) = (b1, Some out)"
      "account request out (b1\<lparr>bk_cache_hits := bk_cache_hits b1 + 1\<rparr>) = (b', r)"
  | (miss) route p b1 where "routed b request route p"
      "lookup ops env (request_key env p route request) (counted b) = (b1, None)"
      "fresh_completion ops env p request (request_hint route request) (request_key env p route request)
        (effective_ttl (mr_cache_ttl_ms request) (bk_cache b)) b1 = Some (b', r)"
proof (cases "\<exists>route p. routed b request route p")
  case True
  then obtain route p where rt: "routed b request route p" by blast
  obtain b1 h where l: "lookup ops env (request_key env p route request) (counted b) = (b1, h)"
    by (cases "lookup ops env (request_key env p route request) (counted b)")
  show ?thesis
  proof (cases h)
    case None
    then show ?thesis using miss [OF rt] l assms complete_miss [OF rt, of ops env b1] by simp
  next
    case (Some out)
    then show ?thesis using hit [OF rt] l assms complete_hit [OF rt, of ops env b1 out] by simp
  qed
next
  case False
  then show ?thesis using complete_unrouted [of b request ops env] assms unrouted by auto
qed

lemma same_setup_complete:
  assumes "broker_complete ops env request b = Some (b', r)"
  shows "same_setup b b'"
  using assms
proof (cases rule: complete_cases)
  case (hit route p b1 out)
  have "same_setup b (counted b)" by (simp add: counted_def)
  then show ?thesis
    using same_setup_lookup [OF hit(2)] same_setup_account [OF hit(3)] same_setup_trans same_setup_counters(2) by metis
next
  case (miss route p b1)
  have "same_setup b (counted b)" by (simp add: counted_def)
  then show ?thesis using same_setup_lookup [OF miss(2)] same_setup_fresh [OF miss(3)] same_setup_trans by blast
qed simp

section \<open>Provider calls\<close>

lemma call_provider_timeout:
  assumes "mr_timeout_ms request = Some ms" "ms \<noteq> 0"
  shows "\<exists>r took. call_provider p request hint call = Some (r, took)"
  using assms by (auto simp: call_provider_def Let_def split: option.splits prod.splits)

text \<open>What the counters show.\<close>

definition counters :: "'c broker \<Rightarrow> u64 \<times> u64 \<times> u64 \<times> u64" where
  "counters b = (bk_calls b, bk_cache_hits b, bk_tokens_prompt b, bk_tokens_completion b)"

lemma counters_lookup: "lookup ops env key b = (b', hit) \<Longrightarrow> counters b' = counters b"
  by (auto simp: lookup_def counters_def read_clock_def set_store_def Let_def case_prod_beta split: option.splits)

lemma counters_remember [simp]: "counters (remember ops env key ttl out b) = counters b"
  by (simp add: remember_def counters_def read_clock_def set_store_def Let_def split: option.split)

lemma lookup_cached: "lookup ops env key b = (b', Some out) \<Longrightarrow> mo_cached out"
  by (auto simp: lookup_def check_cache_def Let_def case_prod_beta split: option.splits prod.splits if_splits)

lemma account_counters:
  assumes "account request out b = (b', Inr out')"
  shows "mo_cached out' = mo_cached out \<and> counters b' = (bk_calls b, bk_cache_hits b,
    bk_tokens_prompt b + ucast (the (mo_tokens_in out')), bk_tokens_completion b + ucast (the (mo_tokens_out out')))"
  using account_Inr [OF assms] by (auto simp: counters_def record_usage_def)

lemma complete_counters:
  assumes "broker_complete ops env request b = Some (b', Inr out)"
  shows "\<exists>h b1 b2. account request h b1 = (b2, Inr out) \<and> same_setup b b1 \<and> counters b' = counters b2
    \<and> counters b1 = (bk_calls b + 1, bk_cache_hits b + (if mo_cached out then 1 else 0), bk_tokens_prompt b, bk_tokens_completion b)"
  using assms
proof (cases rule: complete_cases)
  case (hit route p b1 h)
  have "same_setup b (b1\<lparr>bk_cache_hits := bk_cache_hits b1 + 1\<rparr>)"
    using same_setup_trans [OF same_setup_trans [OF same_setup_counters(1) same_setup_lookup [OF hit(2) [unfolded counted_def]]]]
    by simp
  then show ?thesis
    using hit(3) account_counters [OF hit(3)] counters_lookup [OF hit(2)] lookup_cached [OF hit(2)]
    by (intro exI [of _ h] exI [of _ "b1\<lparr>bk_cache_hits := bk_cache_hits b1 + 1\<rparr>"] exI [of _ b'])
      (auto simp: counters_def counted_def)
next
  case (miss route p b1)
  obtain completion took b2 where
    a: "account request (output_from p (request_hint route request) completion took) (b1\<lparr>bk_provider_calls := Suc (bk_provider_calls b1)\<rparr>) = (b2, Inr out)"
    and b': "counters b' = counters b2"
    using miss(3) by (cases rule: fresh_completion_cases) auto
  have "same_setup b (b1\<lparr>bk_provider_calls := Suc (bk_provider_calls b1)\<rparr>)"
    using same_setup_trans [OF same_setup_trans [OF same_setup_counters(1) same_setup_lookup [OF miss(2) [unfolded counted_def]]]]
    by simp
  then show ?thesis using a b' account_counters [OF a] counters_lookup [OF miss(2)]
    by (intro exI [of _ "output_from p (request_hint route request) completion took"]
          exI [of _ "b1\<lparr>bk_provider_calls := Suc (bk_provider_calls b1)\<rparr>"] exI [of _ b2])
      (auto simp: counters_def counted_def output_from_def)
qed simp

text \<open>C16: The budget holds for every answer, cached or fresh, and its usage is recorded. An answer carries
  both token counts. Their sum (up to saturation) is at most the positive budget of the request, or the default
  if it names none, and then also at most the cap of a request. The call and, for a cached answer, the hit
  are counted and exactly the two counts are added to the totals.\<close>

theorem completion_within_budget:
  assumes ans: "broker_complete ops env request b = Some (b', Inr out)"
    and caps: "bl_per_request_cap (bk_budgets b) \<noteq> Some 0"
  shows "\<exists>ti to. mo_tokens_in out = Some ti \<and> mo_tokens_out out = Some to
    \<and> (\<forall>budget. (case mr_budget_tokens request of Some t \<Rightarrow> Some t | None \<Rightarrow> bl_default_tokens (bk_budgets b)) = Some budget \<longrightarrow> 0 < budget \<longrightarrow>
         min (unat ti + unat to) (2 ^ 32 - 1) \<le> unat budget
         \<and> (\<forall>cap. bl_per_request_cap (bk_budgets b) = Some cap \<longrightarrow> min (unat ti + unat to) (2 ^ 32 - 1) \<le> unat cap))
    \<and> bk_calls b' = bk_calls b + 1 \<and> bk_cache_hits b' = bk_cache_hits b + (if mo_cached out then 1 else 0)
    \<and> bk_tokens_prompt b' = bk_tokens_prompt b + ucast ti \<and> bk_tokens_completion b' = bk_tokens_completion b + ucast to"
proof -
  obtain h b1 b2 where a: "account request h b1 = (b2, Inr out)" and s: "same_setup b b1" and c: "counters b' = counters b2"
    "counters b1 = (bk_calls b + 1, bk_cache_hits b + (if mo_cached out then 1 else 0), bk_tokens_prompt b, bk_tokens_completion b)"
    using complete_counters [OF ans] by blast
  obtain ti to where t: "mo_tokens_in out = Some ti" "mo_tokens_out out = Some to"
    and e: "budget_enforce (bk_budgets b) request (saturating_add ti to) = Inr ()"
    using account_Inr [OF a] s by (auto simp: same_setup_def)
  have within: "saturating_add ti to \<le> limit" if "effective_limit (bk_budgets b) (mr_budget_tokens request) = Some limit" for limit
    using e that by (simp add: budget_enforce_Inr)
  have limit: "saturating_add ti to \<le> budget \<and> (\<forall>cap. bl_per_request_cap (bk_budgets b) = Some cap \<longrightarrow> saturating_add ti to \<le> cap)"
    if "(case mr_budget_tokens request of Some t \<Rightarrow> Some t | None \<Rightarrow> bl_default_tokens (bk_budgets b)) = Some budget" "0 < budget" for budget
  proof (cases "bl_per_request_cap (bk_budgets b)")
    case None
    then have "effective_limit (bk_budgets b) (mr_budget_tokens request) = Some budget"
      using that by (simp add: effective_limit_def positive_def)
    from within [OF this] show ?thesis using None by simp
  next
    case (Some cap)
    then have "0 < min budget cap" using caps that(2) by (simp add: word_neq_0_conv)
    then have "effective_limit (bk_budgets b) (mr_budget_tokens request) = Some (min budget cap)"
      using that Some by (simp add: effective_limit_def positive_def)
    from within [OF this] show ?thesis using Some by simp
  qed
  show ?thesis using t limit account_counters [OF a] c
    by (intro exI [of _ ti] exI [of _ to]) (auto simp: counters_def word_le_nat_alt unat_saturating_add)
qed

text \<open>A request with a time-out always gets an answer, even from a provider that never returns.\<close>

theorem completion_returns:
  assumes "mr_timeout_ms request = Some ms" "ms \<noteq> 0"
  shows "\<exists>b' r. broker_complete ops env request b = Some (b', r)"
proof (cases "\<exists>route p. routed b request route p")
  case True
  then obtain route p where rt: "routed b request route p" by blast
  obtain b1 h where l: "lookup ops env (request_key env p route request) (counted b) = (b1, h)"
    by (cases "lookup ops env (request_key env p route request) (counted b)")
  show ?thesis
  proof (cases h)
    case None
    obtain r took where c: "call_provider p request (request_hint route request) (bk_provider_calls b1) = Some (r, took)"
      using call_provider_timeout [OF assms] by blast
    have "\<exists>x. broker_complete ops env request b = Some x"
      using complete_miss [OF rt] l None c by (simp add: fresh_completion_def)
    then show ?thesis by (metis prod.collapse)
  next
    case (Some out)
    then show ?thesis using complete_hit [OF rt, of ops env b1 out] l by (metis prod.collapse)
  qed
next
  case False
  then show ?thesis using complete_unrouted by blast
qed

section \<open>Routing\<close>

inductive broker_step :: "'c cache_ops \<Rightarrow> broker_env \<Rightarrow> 'c broker \<Rightarrow> 'c broker \<Rightarrow> bool" for ops env where
  "broker_complete ops env request b = Some (b', r) \<Longrightarrow> broker_step ops env b b'"

inductive_cases broker_stepE: "broker_step ops env b b'"

definition broker_init :: "'c cache_ops \<Rightarrow> (model_provider \<Rightarrow> broker_init_error + provider) \<Rightarrow> broker_config \<Rightarrow> 'c broker \<Rightarrow> bool" where
  "broker_init ops build config b = (broker_new ops build config = Inr b)"

text \<open>Every route leads to a provider, and the two built-in ones exist.\<close>

definition routes_ok :: "'c broker \<Rightarrow> bool" where
  "routes_ok b = ((\<forall>route \<in> set (bk_routes b). bk_providers b (rr_provider_id route) \<noteq> None)
     \<and> bk_routes b \<noteq> [] \<and> bk_providers b ''null'' \<noteq> None \<and> bk_providers b ''local'' \<noteq> None)"

lemma make_route_ok: "make_route providers route = Inr r \<Longrightarrow> providers (rr_provider_id r) \<noteq> None"
  by (auto simp: make_route_def split: if_splits)

lemma broker_new_ok:
  assumes "broker_new ops build config = Inr b"
  shows "routes_ok b"
proof -
  obtain ps where ps: "add_providers build (bf_providers config) Map.empty = Inr ps"
    and r: "(if bf_route config = []
       then Inr [\<lparr>rr_pattern = ''*'', rr_provider_id = ''null'', rr_target_model = None\<rparr>]
       else res_map (make_route (bk_providers b)) (bf_route config)) = Inr (bk_routes b)"
    and b: "bk_providers b = or_insert ''local'' (null_provider ''local'') (or_insert ''null'' (null_provider ''null'') ps)"
    proof -
    assume that: "\<And>ps. add_providers build (bf_providers config) Map.empty = Inr ps \<Longrightarrow>
       (if bf_route config = []
       then Inr [\<lparr>rr_pattern = ''*'', rr_provider_id = ''null'', rr_target_model = None\<rparr>]
       else res_map (make_route (bk_providers b)) (bf_route config)) = Inr (bk_routes b) \<Longrightarrow>
       bk_providers b = or_insert ''local'' (null_provider ''local'') (or_insert ''null'' (null_provider ''null'') ps) \<Longrightarrow> thesis"
    obtain ps where ps: "add_providers build (bf_providers config) Map.empty = Inr ps"
      using assms by (auto simp: broker_new_def res_bind_eq_Inr)
    let ?P = "or_insert ''local'' (null_provider ''local'') (or_insert ''null'' (null_provider ''null'') ps)"
    obtain routes where r: "(if bf_route config = []
       then Inr [\<lparr>rr_pattern = ''*'', rr_provider_id = ''null'', rr_target_model = None\<rparr>]
       else res_map (make_route ?P) (bf_route config)) = Inr routes" and b: "bk_routes b = routes" "bk_providers b = ?P"
      using assms unfolding broker_new_def ps res_bind_Inr Let_def res_bind_eq_Inr by auto
    show thesis using r by (intro that [OF ps]) (simp_all only: b)
  qed
  have "\<forall>route \<in> set (bk_routes b). bk_providers b (rr_provider_id route) \<noteq> None" if "bf_route config \<noteq> []"
    using r that res_map_set make_route_ok by fastforce
  moreover have "bk_routes b \<noteq> []"
    using r res_map_length [of "make_route (bk_providers b)" "bf_route config"] by (auto split: if_splits)
  moreover have "bk_providers b ''null'' \<noteq> None" "bk_providers b ''local'' \<noteq> None" by (auto simp: b or_insert_def)
  moreover have "bk_routes b = [\<lparr>rr_pattern = ''*'', rr_provider_id = ''null'', rr_target_model = None\<rparr>]" if "bf_route config = []"
    using r that by simp
  ultimately show ?thesis by (cases "bf_route config = []") (simp_all add: routes_ok_def)
qed

interpretation broker: invariant "broker_init ops build config" "broker_step ops env" routes_ok for ops build config env
proof
  fix b :: "'a broker"
  assume "broker_init ops build config b"
  then show "routes_ok b" by (simp add: broker_init_def broker_new_ok)
next
  fix b b' :: "'a broker"
  assume ok: "routes_ok b" and step: "broker_step ops env b b'"
  from step have "same_setup b b'" by cases (rule same_setup_complete)
  then show "routes_ok b'" using ok by (simp add: routes_ok_def same_setup_def)
qed

text \<open>On a broker built from a configuration, after any completions, a request that does not ask for
  streaming either has a provider or matches no pattern: a route never leads to an unknown
  provider.\<close>

theorem routes_lead_to_providers:
  assumes "reachable (broker_init ops build config) (broker_step ops env) b" and "\<not> mr_stream request"
  shows "(\<exists>route p. routed b request route p) \<or> (\<forall>route \<in> set (bk_routes b). \<not> route_matches route (mr_model request))"
proof (cases "find (\<lambda>r. route_matches r (mr_model request)) (bk_routes b)")
  case None
  then show ?thesis by (simp add: find_None_iff)
next
  case (Some route)
  then have "route \<in> set (bk_routes b)" by (auto simp: find_Some_iff)
  then have "bk_providers b (rr_provider_id route) \<noteq> None"
    using broker.reachable_inv [OF assms(1)] by (simp add: routes_ok_def)
  then show ?thesis using Some assms(2) by (auto simp: routed_def)
qed

section \<open>The response cache\<close>

lemma cache_lawsD:
  assumes "cache_laws ops entries cap"
  shows "map_of (entries c) k = None \<Longrightarrow> co_get ops c k = (c, None)"
    "map_of (entries c) k = Some v \<Longrightarrow> \<exists>c'. co_get ops c k = (c', Some v)
       \<and> entries c' = filter (\<lambda>x. fst x \<noteq> k) (entries c) @ [(k, v)] \<and> cap c' = cap c"
    "entries (co_put ops c k e) = lru_insert (cap c) (entries c) k e" "cap (co_put ops c k e) = cap c"
    "entries (co_pop ops c k) = filter (\<lambda>x. fst x \<noteq> k) (entries c)" "cap (co_pop ops c k) = cap c"
proof -
  have law: "case map_of (entries c) k of
          None \<Rightarrow> co_get ops c k = (c, None)
        | Some v \<Rightarrow> snd (co_get ops c k) = Some v
            \<and> entries (fst (co_get ops c k)) = filter (\<lambda>x. fst x \<noteq> k) (entries c) @ [(k, v)]
            \<and> cap (fst (co_get ops c k)) = cap c"
    and rest: "entries (co_put ops c k e) = lru_insert (cap c) (entries c) k e \<and> cap (co_put ops c k e) = cap c
     \<and> entries (co_pop ops c k) = filter (\<lambda>x. fst x \<noteq> k) (entries c) \<and> cap (co_pop ops c k) = cap c"
    using assms unfolding cache_laws_def by blast+
  show "co_get ops c k = (c, None)" if "map_of (entries c) k = None" using law that by simp
  show "\<exists>c'. co_get ops c k = (c', Some v)
       \<and> entries c' = filter (\<lambda>x. fst x \<noteq> k) (entries c) @ [(k, v)] \<and> cap c' = cap c"
    if "map_of (entries c) k = Some v"
    using law that by (intro exI [of _ "fst (co_get ops c k)"]) (simp add: prod_eq_iff)
  show "entries (co_put ops c k e) = lru_insert (cap c) (entries c) k e" "cap (co_put ops c k e) = cap c"
    "entries (co_pop ops c k) = filter (\<lambda>x. fst x \<noteq> k) (entries c)" "cap (co_pop ops c k) = cap c"
    using rest by simp_all
qed

lemma map_of_lru_insert:
  assumes "0 < cap"
  shows "map_of (lru_insert cap es k e) k = Some e"
proof -
  have m: "map_of (filter (\<lambda>x. fst x \<noteq> k) es @ [(k, e)]) k = Some e"
  proof -
    have "map_of (filter (\<lambda>x. fst x \<noteq> k) es) k = None" by (auto simp: map_of_eq_None_iff)
    then show ?thesis by (simp add: map_add_def)
  qed
  show ?thesis
  proof (cases "filter (\<lambda>x. fst x \<noteq> k) es")
    case Nil
    then show ?thesis using assms by (simp add: lru_insert_def)
  next
    case (Cons x xs)
    have "x \<in> set (filter (\<lambda>x. fst x \<noteq> k) es)" by (simp add: Cons)
    then have "fst x \<noteq> k" by simp
    then show ?thesis using m Cons by (simp add: lru_insert_def Let_def)
  qed
qed

lemma lookup_hit:
  assumes laws: "cache_laws ops entries cap" and cache: "bk_cache b = Some cache"
    and e: "map_of (entries (bc_store cache)) key = Some e" and now: "bn_clock env (bk_ticks b) < ce_expires_at e"
  shows "\<exists>c'. lookup ops env key b = (set_store c' (b\<lparr>bk_ticks := Suc (bk_ticks b)\<rparr>), Some ((ce_output e)\<lparr>mo_cached := True\<rparr>))"
proof -
  obtain c' where "co_get ops (bc_store cache) key = (c', Some e)" using cache_lawsD(2) [OF laws e] by blast
  then show ?thesis using now by (intro exI [of _ c']) (simp add: lookup_def cache read_clock_def check_cache_def)
qed

lemma check_cache_cap:
  assumes laws: "cache_laws ops entries cap"
  shows "cap (fst (check_cache ops now key c)) = cap c"
proof (cases "map_of (entries c) key")
  case None
  then show ?thesis by (simp add: check_cache_def cache_lawsD(1) [OF laws])
next
  case (Some v)
  obtain c' where "co_get ops c key = (c', Some v)" "cap c' = cap c" using cache_lawsD(2) [OF laws Some] by blast
  then show ?thesis using cache_lawsD(6) [OF laws] by (simp add: check_cache_def)
qed

lemma remember_stores:
  assumes laws: "cache_laws ops entries cap" and cache: "bk_cache b = Some cache" and room: "0 < cap (bc_store cache)"
  shows "\<exists>cache'. bk_cache (remember ops env key (Some ttl) out b) = Some cache'
    \<and> map_of (entries (bc_store cache')) key = Some \<lparr>ce_output = out\<lparr>mo_cached := False\<rparr>, ce_expires_at = bn_clock env (bk_ticks b) + ttl\<rparr>
    \<and> bk_ticks (remember ops env key (Some ttl) out b) = Suc (bk_ticks b)"
  using room by (simp add: remember_def cache read_clock_def set_store_def store_cache_def cache_lawsD(3) [OF laws] map_of_lru_insert)

lemma account_cache: "account request out b = (b', r) \<Longrightarrow> bk_cache b' = bk_cache b \<and> bk_ticks b' = bk_ticks b
    \<and> bk_provider_calls b' = bk_provider_calls b"
  by (auto simp: account_def record_usage_def Let_def split: prod.splits sum.splits)

lemma lookup_cache:
  assumes "cache_laws ops entries cap" "bk_cache b = Some cache" "lookup ops env key b = (b1, hit)"
  shows "\<exists>cache1. bk_cache b1 = Some cache1 \<and> cap (bc_store cache1) = cap (bc_store cache) \<and> bk_provider_calls b1 = bk_provider_calls b"
  using assms check_cache_cap [OF assms(1)]
  by (auto simp: lookup_def read_clock_def set_store_def Let_def split: prod.splits) (metis fst_conv)

lemma cached_answer:
  assumes laws: "cache_laws ops entries cap" and cache: "bk_cache b = Some cache" and room: "0 < cap (bc_store cache)"
    and r1: "routed b request route p" and r2: "routed b request2 route2 p2"
    and key: "request_key env p2 route2 request2 = request_key env p route request"
    and first: "broker_complete ops env request b = Some (b1, Inr out)" and fresh: "\<not> mo_cached out"
    and ttl: "effective_ttl (mr_cache_ttl_ms request) (bk_cache b) = Some ttl"
    and soon: "bn_clock env (bk_ticks b1) < bn_clock env (bk_ticks b1 - 1) + ttl"
  shows "\<exists>b2. broker_complete ops env request2 b1 =
      Some (b2, snd (account request2 (out\<lparr>mo_cached := True\<rparr>) b1)) \<and> bk_provider_calls b2 = bk_provider_calls b1"
proof -
  let ?key = "request_key env p route request"
  have same: "routed b1 request2 route2 p2"
    using same_setup_complete [OF first] r2 by (simp add: same_setup_def routed_def)
  from first obtain b0 where
      l: "lookup ops env ?key (counted b) = (b0, None)" and
      f: "fresh_completion ops env p request (request_hint route request) ?key (Some ttl) b0 = Some (b1, Inr out)"
  proof (cases rule: complete_cases)
    case (hit route' p' b0 out0)
    then obtain ti to where "out = out0\<lparr>mo_tokens_in := Some ti, mo_tokens_out := Some to\<rparr>" using account_Inr by blast
    moreover have "mo_cached out0"
      using hit(2) by (auto simp: lookup_def check_cache_def Let_def split: option.splits prod.splits if_splits)
    ultimately show ?thesis using fresh by simp
  next
    case (miss route' p' b0)
    then show ?thesis using that r1 ttl by (simp add: routed_def)
  qed simp
  obtain cache0 where c0: "bk_cache b0 = Some cache0" "0 < cap (bc_store cache0)"
    using lookup_cache [OF laws _ l] cache room by (auto simp: counted_def)
  from f obtain completion took ba where
      a: "account request (output_from p (request_hint route request) completion took) (b0\<lparr>bk_provider_calls := Suc (bk_provider_calls b0)\<rparr>) = (ba, Inr out)"
      and b1: "b1 = remember ops env ?key (Some ttl) out ba"
    by (cases rule: fresh_completion_cases) auto
  have "bk_cache ba = Some cache0" using account_cache [OF a] c0 by simp
  from remember_stores [OF laws this c0(2), of env ?key ttl out] obtain cache1 where
      c1: "bk_cache b1 = Some cache1"
      and e: "map_of (entries (bc_store cache1)) ?key = Some \<lparr>ce_output = out\<lparr>mo_cached := False\<rparr>, ce_expires_at = bn_clock env (bk_ticks ba) + ttl\<rparr>"
      and ticks: "bk_ticks b1 = Suc (bk_ticks ba)"
    unfolding b1 by blast
  obtain c' where lk: "lookup ops env ?key (counted b1) =
      (set_store c' ((counted b1)\<lparr>bk_ticks := Suc (bk_ticks b1)\<rparr>), Some (out\<lparr>mo_cached := True\<rparr>))"
    using lookup_hit [OF laws, of "counted b1" cache1 ?key _ env] c1 e soon ticks by (auto simp: counted_def)
  let ?b = "set_store c' ((counted b1)\<lparr>bk_ticks := Suc (bk_ticks b1)\<rparr>)"
  let ?b' = "?b\<lparr>bk_cache_hits := bk_cache_hits ?b + 1\<rparr>"
  have "broker_complete ops env request2 b1 = Some (account request2 (out\<lparr>mo_cached := True\<rparr>) ?b')"
    using complete_hit [OF same] lk by (simp add: key)
  moreover have "snd (account request2 (out\<lparr>mo_cached := True\<rparr>) ?b') = snd (account request2 (out\<lparr>mo_cached := True\<rparr>) b1)"
    by (simp add: account_def set_store_def counted_def Let_def split: prod.split sum.split)
  moreover have "bk_provider_calls (fst (account request2 (out\<lparr>mo_cached := True\<rparr>) ?b')) = bk_provider_calls b1"
    using account_cache [OF prod.collapse [symmetric], of request2 "out\<lparr>mo_cached := True\<rparr>" ?b']
    by (simp add: set_store_def counted_def)
  ultimately show ?thesis by (metis prod.collapse)
qed

text \<open>An answer that was accounted once is accounted again for a request with the same budget.\<close>

lemma account_again:
  assumes "account request out0 b0 = (b0', Inr out)" and "bk_budgets b = bk_budgets b0"
    and "mr_budget_tokens request2 = mr_budget_tokens request"
  shows "snd (account request2 (out\<lparr>mo_cached := c\<rparr>) b) = Inr (out\<lparr>mo_cached := c\<rparr>)"
proof -
  obtain ti to where t: "mo_tokens_in out = Some ti" "mo_tokens_out out = Some to"
    "budget_enforce (bk_budgets b0) request (saturating_add ti to) = Inr ()"
    using account_Inr [OF assms(1)] by blast
  then have "budget_enforce (bk_budgets b) request2 (saturating_add ti to) = Inr ()"
    using assms(2,3) by (simp add: budget_enforce_def)
  then show ?thesis using t by (simp add: account_def usage_profile_def Let_def)
qed

lemma complete_accounted:
  fixes b :: "'c broker"
  assumes "broker_complete ops env request b = Some (b1, Inr out)"
  shows "\<exists>out0 (b0 :: 'c broker) b0'. account request out0 b0 = (b0', Inr out) \<and> bk_budgets b0 = bk_budgets b"
  using assms
proof (cases rule: complete_cases)
  case (hit route p b0 out0)
  have "bk_budgets (b0\<lparr>bk_cache_hits := bk_cache_hits b0 + 1\<rparr>) = bk_budgets b"
    using same_setup_lookup [OF hit(2)] by (simp add: same_setup_def counted_def)
  with hit(3) show ?thesis by blast
next
  case (miss route p b0)
  have "bk_budgets (b0\<lparr>bk_provider_calls := Suc (bk_provider_calls b0)\<rparr>) = bk_budgets b"
    using same_setup_lookup [OF miss(2)] by (simp add: same_setup_def counted_def)
  with miss(3) show ?thesis by (cases rule: fresh_completion_cases) blast+
qed simp

lemma cached_answer_same_budget:
  fixes b :: "'c broker"
  assumes "cache_laws ops entries cap" "bk_cache b = Some cache" "0 < cap (bc_store cache)"
    and "routed b request route p" "routed b request2 route2 p2"
    and "request_key env p2 route2 request2 = request_key env p route request"
    and first: "broker_complete ops env request b = Some (b1, Inr out)" and "\<not> mo_cached out"
    and "effective_ttl (mr_cache_ttl_ms request) (bk_cache b) = Some ttl"
    and "bn_clock env (bk_ticks b1) < bn_clock env (bk_ticks b1 - 1) + ttl"
    and budget: "mr_budget_tokens request2 = mr_budget_tokens request"
  shows "\<exists>b2. broker_complete ops env request2 b1 = Some (b2, Inr (out\<lparr>mo_cached := True\<rparr>))
    \<and> bk_provider_calls b2 = bk_provider_calls b1"
proof -
  obtain out0 and b0 b0' :: "'c broker" where a: "account request out0 b0 = (b0', Inr out)" "bk_budgets b0 = bk_budgets b"
    using complete_accounted [OF first] by blast
  have "bk_budgets b1 = bk_budgets b0" using same_setup_complete [OF first] a(2) by (simp add: same_setup_def)
  from account_again [OF a(1) this budget] show ?thesis using cached_answer [OF assms(1-10)] by simp
qed

text \<open>A request that was answered by a provider and is repeated before its time to live ends gets the
  same answer, flagged as cached, and no provider is called; this holds whatever time to live the
  repetition asks for, 0 included.\<close>

theorem repeated_request_cached:
  assumes "cache_laws ops entries cap" "bk_cache b = Some cache" "0 < cap (bc_store cache)" "routed b request route p"
    and "broker_complete ops env request b = Some (b1, Inr out)" "\<not> mo_cached out"
    and "effective_ttl (mr_cache_ttl_ms request) (bk_cache b) = Some ttl"
    and "bn_clock env (bk_ticks b1) < bn_clock env (bk_ticks b1 - 1) + ttl"
  shows "\<exists>b2. broker_complete ops env (request\<lparr>mr_cache_ttl_ms := t\<rparr>) b1 = Some (b2, Inr (out\<lparr>mo_cached := True\<rparr>))
    \<and> bk_provider_calls b2 = bk_provider_calls b1"
proof (rule cached_answer_same_budget [OF assms(1-4) _ _ assms(5-8)])
  show "routed b (request\<lparr>mr_cache_ttl_ms := t\<rparr>) route p" using assms(4) by (simp add: routed_def)
  show "request_key env p route (request\<lparr>mr_cache_ttl_ms := t\<rparr>) = request_key env p route request"
    by (simp add: request_key_def request_hint_def compose_cache_key_def cache_key_bytes_def split: option.split)
qed simp

text \<open>The cache key does not separate the prompt from the system text: a request whose prompt is
  another's prompt followed by its system text is answered with the other's answer, whatever
  the hash function.\<close>

theorem cache_confuses_prompt_and_system:
  assumes "cache_laws ops entries cap" "bk_cache b = Some cache" "0 < cap (bc_store cache)" "routed b request route p"
    and "broker_complete ops env request b = Some (b1, Inr out)" "\<not> mo_cached out"
    and "effective_ttl (mr_cache_ttl_ms request) (bk_cache b) = Some ttl"
    and "bn_clock env (bk_ticks b1) < bn_clock env (bk_ticks b1 - 1) + ttl"
    and "mr_role_system request = Some sys"
  shows "\<exists>b2. broker_complete ops env (request\<lparr>mr_prompt := mr_prompt request @ sys, mr_role_system := None\<rparr>) b1
      = Some (b2, Inr (out\<lparr>mo_cached := True\<rparr>))
    \<and> bk_provider_calls b2 = bk_provider_calls b1"
proof (rule cached_answer_same_budget [OF assms(1-4) _ _ assms(5-8)])
  let ?r = "request\<lparr>mr_prompt := mr_prompt request @ sys, mr_role_system := None\<rparr>"
  show "routed b ?r route p" using assms(4) by (simp add: routed_def)
  have "utf8_bytes (x @ y) = utf8_bytes x @ utf8_bytes y" for x y by (simp add: utf8_bytes_def)
  then show "request_key env p route ?r = request_key env p route request"
    by (simp add: request_key_def request_hint_def compose_cache_key_def cache_key_bytes_def assms(9) split: option.split)
qed simp

text \<open>A request for 0 tokens has no budget at all: neither the default nor the per-request cap bounds
  its usage, while any positive request is bounded by the cap.\<close>

theorem zero_budget_is_unlimited:
  "budget_enforce l (request\<lparr>mr_budget_tokens := Some 0\<rparr>) used = Inr ()
   \<and> (0 < r \<longrightarrow> bl_per_request_cap l = Some cap \<longrightarrow> 0 < cap \<longrightarrow>
        effective_limit l (Some r) = Some (min r cap))"
proof
  have "effective_limit l (Some 0) = None"
    by (simp add: effective_limit_def positive_def split: option.split)
  then show "budget_enforce l (request\<lparr>mr_budget_tokens := Some 0\<rparr>) used = Inr ()"
    by (simp add: budget_enforce_Inr)
  show "0 < r \<longrightarrow> bl_per_request_cap l = Some cap \<longrightarrow> 0 < cap \<longrightarrow> effective_limit l (Some r) = Some (min r cap)"
    by (auto simp: effective_limit_positive positive_def min_def)
qed

section \<open>A run of the broker on a list as the cache\<close>

definition demo_cache_ops :: "(nat \<times> (string \<times> cache_entry) list) cache_ops" where
  "demo_cache_ops =
    \<lparr>co_new = (\<lambda>n. (n, [])),
     co_get = (\<lambda>c k. case map_of (snd c) k of None \<Rightarrow> (c, None)
                | Some v \<Rightarrow> ((fst c, filter (\<lambda>x. fst x \<noteq> k) (snd c) @ [(k, v)]), Some v)),
     co_put = (\<lambda>c k e. (fst c, lru_insert (fst c) (snd c) k e)),
     co_pop = (\<lambda>c k. (fst c, filter (\<lambda>x. fst x \<noteq> k) (snd c)))\<rparr>"

lemma demo_cache_laws: "cache_laws demo_cache_ops snd fst"
  by (auto simp: cache_laws_def demo_cache_ops_def split: option.split)

definition demo_broker_env :: broker_env where
  "demo_broker_env = \<lparr>bn_clock = (\<lambda>n. 10 * n), bn_digest = (\<lambda>bs. map (\<lambda>b. char_of (unat b)) bs),
     bn_params_json = (\<lambda>_. None), bn_extras_json = (\<lambda>_. None)\<rparr>"

definition demo_config :: broker_config where
  "demo_config = \<lparr>bf_providers = [], bf_route = [], bf_cache_ttl_ms = 600000, bf_cache_capacity = 4,
     bf_budgets = \<lparr>mb_default_tokens = 8000, mb_per_request_tokens_cap = 2000, mb_hard_cap_usd = None\<rparr>\<rparr>"

definition demo_broker :: "(nat \<times> (string \<times> cache_entry) list) broker" where
  "demo_broker = projr (broker_new demo_cache_ops (\<lambda>cfg. Inr (null_provider (mv_id cfg))) demo_config)"

definition demo_request :: model_request where
  "demo_request = \<lparr>mr_trace_id = 1, mr_model = ''m'', mr_prompt = ''hi'', mr_role_system = Some ''s'', mr_params = None,
     mr_budget_tokens = None, mr_timeout_ms = Some 100, mr_cache_ttl_ms = None, mr_cache_key = None,
     mr_stream = False, mr_extras = None\<rparr>"

definition demo_route :: route_rule where
  "demo_route = \<lparr>rr_pattern = ''*'', rr_provider_id = ''null'', rr_target_model = None\<rparr>"

definition demo_answer :: model_output where
  "demo_answer = \<lparr>mo_text = ''hi'', mo_tokens_in = Some 1, mo_tokens_out = Some 1, mo_cached = False,
     mo_provider = ''null'', mo_provider_model = ''m'', mo_latency_ms = 0, mo_finish_reason = Some ''stop''\<rparr>"

lemma demo_broker_new: "broker_new demo_cache_ops (\<lambda>cfg. Inr (null_provider (mv_id cfg))) demo_config = Inr demo_broker"
  by (simp add: demo_broker_def broker_new_def demo_config_def Let_def)

lemma demo_broker_state:
  "bk_routes demo_broker = [demo_route]" "bk_providers demo_broker ''null'' = Some (null_provider ''null'')"
  "bk_cache demo_broker = Some \<lparr>bc_default_ttl = 600000, bc_store = (4, [])\<rparr>" "bk_ticks demo_broker = 0"
  "bk_provider_calls demo_broker = 0"
  "bk_budgets demo_broker = \<lparr>bl_default_tokens = Some 8000, bl_per_request_cap = Some 2000, bl_hard_cap_usd = None\<rparr>"
  by (simp_all add: demo_broker_def broker_new_def demo_config_def Let_def or_insert_def demo_route_def cache_from_config_def
      demo_cache_ops_def budget_limits_from_def positive_def)

lemma demo_routed: "routed demo_broker demo_request demo_route (null_provider ''null'')"
  by (simp add: routed_def demo_broker_state route_matches_def demo_route_def demo_request_def)

lemma demo_tokens: "estimate_tokens ''hi'' = 1" "estimate_tokens_from_len (byte_len ''hi'' + byte_len ''s'') = 1"
  by (simp_all add: estimate_tokens_def estimate_tokens_from_len_def byte_len_def utf8_bytes_def)

lemma demo_call:
  "call_provider (null_provider ''null'') demo_request ''m'' 0 =
     Some (Inr \<lparr>pc_text = ''hi'', pc_tokens_in = Some 1, pc_tokens_out = Some 1, pc_finish_reason = Some ''stop'',
               pc_provider_model = ''m''\<rparr>, 0)"
  by (simp add: call_provider_def null_provider_def demo_request_def demo_tokens)

lemma demo_hint: "request_hint demo_route demo_request = ''m''"
  by (simp add: request_hint_def demo_route_def demo_request_def)

lemma demo_ttl: "effective_ttl (mr_cache_ttl_ms demo_request) (bk_cache demo_broker) = Some 600000"
  by (simp add: effective_ttl_def demo_request_def demo_broker_state)

lemma demo_account:
  assumes "bk_budgets b = bk_budgets demo_broker"
  shows "account demo_request demo_answer b = (record_usage (Some 1) (Some 1) b, Inr demo_answer)"
  using assms by (simp add: account_def usage_profile_def demo_answer_def budget_enforce_def effective_limit_def
      demo_broker_state demo_request_def saturating_add_def positive_def Let_def)

lemma demo_first:
  "\<exists>b1. broker_complete demo_cache_ops demo_broker_env demo_request demo_broker = Some (b1, Inr demo_answer)
    \<and> bk_ticks b1 = 2"
proof -
  let ?key = "request_key demo_broker_env (null_provider ''null'') demo_route demo_request"
  let ?b1 = "set_store (4, []) ((counted demo_broker)\<lparr>bk_ticks := 1\<rparr>)"
  have l: "lookup demo_cache_ops demo_broker_env ?key (counted demo_broker) = (?b1, None)"
    by (simp add: lookup_def counted_def demo_broker_state read_clock_def check_cache_def demo_cache_ops_def)
  have b1: "bk_provider_calls ?b1 = 0" "bk_budgets ?b1 = bk_budgets demo_broker"
    by (simp_all add: set_store_def counted_def demo_broker_state)
  have out: "output_from (null_provider ''null'') ''m'' \<lparr>pc_text = ''hi'', pc_tokens_in = Some 1, pc_tokens_out = Some 1,
      pc_finish_reason = Some ''stop'', pc_provider_model = ''m''\<rparr> 0 = demo_answer"
    by (simp add: output_from_def null_provider_def demo_answer_def saturating_duration_millis_def)
  have "fresh_completion demo_cache_ops demo_broker_env (null_provider ''null'') demo_request ''m'' ?key (Some 600000) ?b1 =
      Some (remember demo_cache_ops demo_broker_env ?key (Some 600000) demo_answer (record_usage (Some 1) (Some 1) (?b1\<lparr>bk_provider_calls := Suc 0\<rparr>)),
            Inr demo_answer)"
    using fresh_completion_answer [of "null_provider ''null''" demo_request "''m''" ?b1, unfolded b1, OF demo_call,
        unfolded out, OF demo_account] b1(2) by simp
  moreover have "bk_ticks (remember demo_cache_ops demo_broker_env ?key (Some 600000) demo_answer
      (record_usage (Some 1) (Some 1) (?b1\<lparr>bk_provider_calls := Suc 0\<rparr>))) = 2"
    by (simp add: remember_def record_usage_def set_store_def counted_def demo_broker_state read_clock_def)
  ultimately show ?thesis using complete_miss [OF demo_routed l] by (simp add: demo_hint demo_ttl)
qed

theorem completion_within_budget_witness:
  "\<exists>b' ti to. broker_complete demo_cache_ops demo_broker_env demo_request demo_broker = Some (b', Inr demo_answer)
     \<and> mo_tokens_in demo_answer = Some ti \<and> mo_tokens_out demo_answer = Some to
     \<and> min (unat ti + unat to) (2 ^ 32 - 1) \<le> unat (2000 :: u32)
     \<and> bk_tokens_prompt b' = bk_tokens_prompt demo_broker + ucast ti"
proof -
  obtain b1 where b1: "broker_complete demo_cache_ops demo_broker_env demo_request demo_broker = Some (b1, Inr demo_answer)"
    using demo_first by blast
  have "bl_per_request_cap (bk_budgets demo_broker) \<noteq> Some 0" by (simp add: demo_broker_state positive_def)
  from completion_within_budget [OF b1 this] b1 show ?thesis
    by (auto simp: demo_broker_state demo_request_def positive_def)
qed

text \<open>A provider that never returns.\<close>

theorem completion_returns_witness:
  "\<exists>b' r. broker_complete demo_cache_ops demo_broker_env demo_request
     (demo_broker\<lparr>bk_providers := (\<lambda>_. Some \<lparr>pv_id = ''slow'', pv_complete = (\<lambda>_ _ _ _. None)\<rparr>)\<rparr>) = Some (b', r)"
  by (rule completion_returns [of _ 100]) (simp_all add: demo_request_def)

theorem routes_lead_to_providers_witness:
  "(\<exists>route p. routed demo_broker demo_request route p)
   \<or> (\<forall>route \<in> set (bk_routes demo_broker). \<not> route_matches route (mr_model demo_request))"
proof (rule routes_lead_to_providers)
  show "reachable (broker_init demo_cache_ops (\<lambda>cfg. Inr (null_provider (mv_id cfg))) demo_config)
      (broker_step demo_cache_ops demo_broker_env) demo_broker"
    by (rule reachable.start) (simp add: broker_init_def demo_broker_new)
qed (simp add: demo_request_def)

lemma demo_repeat:
  obtains b1 where "broker_complete demo_cache_ops demo_broker_env demo_request demo_broker = Some (b1, Inr demo_answer)"
    "bn_clock demo_broker_env (bk_ticks b1) < bn_clock demo_broker_env (bk_ticks b1 - 1) + 600000"
    "bk_cache demo_broker = Some \<lparr>bc_default_ttl = 600000, bc_store = (4, [])\<rparr>"
    "0 < fst (bc_store \<lparr>bc_default_ttl = 600000, bc_store = (4 :: nat, [] :: (string \<times> cache_entry) list)\<rparr>)"
    "\<not> mo_cached demo_answer"
  using demo_first demo_broker_state(3) by (auto simp: demo_broker_env_def demo_answer_def)

theorem repeated_request_cached_witness:
  "\<exists>b1 b2. broker_complete demo_cache_ops demo_broker_env (demo_request\<lparr>mr_cache_ttl_ms := Some 0\<rparr>) b1
     = Some (b2, Inr (demo_answer\<lparr>mo_cached := True\<rparr>))"
proof (rule demo_repeat)
  fix b1
  assume h: "broker_complete demo_cache_ops demo_broker_env demo_request demo_broker = Some (b1, Inr demo_answer)"
    "bn_clock demo_broker_env (bk_ticks b1) < bn_clock demo_broker_env (bk_ticks b1 - 1) + 600000"
    "bk_cache demo_broker = Some \<lparr>bc_default_ttl = 600000, bc_store = (4, [])\<rparr>"
    "0 < fst (bc_store \<lparr>bc_default_ttl = 600000, bc_store = (4 :: nat, [] :: (string \<times> cache_entry) list)\<rparr>)"
    "\<not> mo_cached demo_answer"
  show ?thesis
    using repeated_request_cached [OF demo_cache_laws h(3,4) demo_routed h(1,5) demo_ttl h(2)] by blast
qed

theorem cache_confuses_prompt_and_system_witness:
  "\<exists>b1 b2. broker_complete demo_cache_ops demo_broker_env (demo_request\<lparr>mr_prompt := ''his'', mr_role_system := None\<rparr>) b1
     = Some (b2, Inr (demo_answer\<lparr>mo_cached := True\<rparr>))"
proof (rule demo_repeat)
  fix b1
  assume h: "broker_complete demo_cache_ops demo_broker_env demo_request demo_broker = Some (b1, Inr demo_answer)"
    "bn_clock demo_broker_env (bk_ticks b1) < bn_clock demo_broker_env (bk_ticks b1 - 1) + 600000"
    "bk_cache demo_broker = Some \<lparr>bc_default_ttl = 600000, bc_store = (4, [])\<rparr>"
    "0 < fst (bc_store \<lparr>bc_default_ttl = 600000, bc_store = (4 :: nat, [] :: (string \<times> cache_entry) list)\<rparr>)"
    "\<not> mo_cached demo_answer"
  have s: "mr_role_system demo_request = Some ''s''" "mr_prompt demo_request = ''hi''" by (simp_all add: demo_request_def)
  show ?thesis
    using cache_confuses_prompt_and_system [OF demo_cache_laws h(3,4) demo_routed h(1,5) demo_ttl h(2) s(1)] s(2)
    by auto
qed

theorem zero_budget_is_unlimited_witness:
  "budget_enforce (bk_budgets demo_broker) (demo_request\<lparr>mr_budget_tokens := Some 0\<rparr>) 4000000000 = Inr ()
   \<and> effective_limit (bk_budgets demo_broker) (Some 5000) = Some 2000"
  using zero_budget_is_unlimited [of "bk_budgets demo_broker" demo_request 4000000000 5000 2000]
  by (simp add: demo_broker_state)

end
