(* ===== verification/Runtime_Ready.thy ===== *)
theory Runtime_Ready
  imports Runtime_Caps
begin

text \<open>
  The readiness barrier (\<open>crates/runtime/src/ready.rs\<close>). The host signals that the agent is set
  up, the guest that it runs, and the runtime waits for one event. The operations are modelled
  twice: as functions on the state, and as the sequence of their atomic accesses
  (\<open>ready_micro\<close>), which any number of threads interleave. Lemmas: a call that runs alone is the
  function, one event at most is ever sent and only for cause, and once both sides have
  signalled an event is sent whatever the interleaving. Parameters of the waiter: the clock
  and what each wait on the channel returns.
\<close>

section \<open>The barrier\<close>

datatype ready_ack_kind = NotifyHostcall | MailboxFirstRecv

fun as_label :: "ready_ack_kind \<Rightarrow> string" where
  "as_label NotifyHostcall = ''notify_hostcall''"
| "as_label MailboxFirstRecv = ''mailbox_first_recv''"

datatype ready_failure =
    ReadyTimeout
  | ReadyHost "cap_denied_info option" string
  | ChannelClosed

datatype ready_event = Ready ready_ack_kind | Failed ready_failure

text \<open>\<open>ri_tx\<close>: the sender is still there; \<open>ri_sent\<close>: what went through the channel.\<close>

record ready_inner =
  ri_host_ready :: bool
  ri_guest_ready :: bool
  ri_ack :: u8
  ri_completed :: bool
  ri_tx :: bool
  ri_sent :: "ready_event list"

definition ready_new :: ready_inner where
  "ready_new = \<lparr>ri_host_ready = False, ri_guest_ready = False, ri_ack = 0, ri_completed = False,
     ri_tx = True, ri_sent = []\<rparr>"

fun ack_code :: "ready_ack_kind \<Rightarrow> u8" where
  "ack_code NotifyHostcall = 1"
| "ack_code MailboxFirstRecv = 2"

definition ack_kind :: "u8 \<Rightarrow> ready_ack_kind" where
  "ack_kind code = (if code = 1 then NotifyHostcall else if code = 2 then MailboxFirstRecv else MailboxFirstRecv)"

definition send_event :: "ready_event \<Rightarrow> ready_inner \<Rightarrow> ready_inner" where
  "send_event e s = (if ri_tx s then s\<lparr>ri_tx := False, ri_sent := ri_sent s @ [e]\<rparr> else s)"

definition finish_ready :: "ready_event \<Rightarrow> ready_inner \<Rightarrow> ready_inner" where
  "finish_ready e s = (if ri_completed s then s else send_event e (s\<lparr>ri_completed := True\<rparr>))"

definition try_complete :: "ready_inner \<Rightarrow> ready_inner" where
  "try_complete s =
    (if ri_completed s then s
     else if ri_host_ready s \<and> ri_guest_ready s then finish_ready (Ready (ack_kind (ri_ack s))) s
     else s)"

definition signal_host_ready :: "ready_inner \<Rightarrow> ready_inner" where
  "signal_host_ready s = try_complete (s\<lparr>ri_host_ready := True\<rparr>)"

definition signal_guest_ready :: "ready_ack_kind \<Rightarrow> ready_inner \<Rightarrow> ready_inner" where
  "signal_guest_ready a s =
    (if ri_guest_ready s then s else try_complete (s\<lparr>ri_guest_ready := True, ri_ack := ack_code a\<rparr>))"

definition ready_fail :: "ready_failure \<Rightarrow> ready_inner \<Rightarrow> ready_inner" where
  "ready_fail f = finish_ready (Failed f)"

section \<open>The waiter\<close>

datatype recv_result = RecvEvent ready_event | RecvTimeout | RecvDisconnected

text \<open>\<open>clock n\<close> is the time at the head of round \<open>n\<close>, \<open>recv n\<close> what \<open>recv_timeout\<close> returns in it.\<close>

partial_function (option) wait_until ::
  "nat \<Rightarrow> (nat \<Rightarrow> nat) \<Rightarrow> (nat \<Rightarrow> recv_result) \<Rightarrow> nat \<Rightarrow> (ready_failure + ready_ack_kind) option" where
  "wait_until deadline clock recv n =
    (if clock n < deadline then
       (case recv n of
          RecvEvent (Ready ack) \<Rightarrow> Some (Inr ack)
        | RecvEvent (Failed failure) \<Rightarrow> Some (Inl failure)
        | RecvTimeout \<Rightarrow> wait_until deadline clock recv (Suc n)
        | RecvDisconnected \<Rightarrow> Some (Inl ChannelClosed))
     else Some (Inl ReadyTimeout))"

lemma wait_until_returns:
  assumes "deadline \<le> clock (n + k)"
  shows "\<exists>r. wait_until deadline clock recv n = Some r"
  using assms
proof (induction k arbitrary: n)
  case 0
  then show ?case by (subst wait_until.simps) simp
next
  case (Suc k)
  then have "\<exists>r. wait_until deadline clock recv (Suc n) = Some r" using Suc.IH [of "Suc n"] by simp
  then show ?case by (subst wait_until.simps) (simp split: recv_result.split ready_event.split)
qed

section \<open>Atomic accesses and interleaving\<close>

datatype ready_call = SignalHost | SignalGuest ready_ack_kind | Fail ready_failure

datatype ready_pc =
    Idle
  | Begin ready_call
  | StoreAck ready_ack_kind
  | LoadCompleted
  | LoadHost
  | LoadGuest
  | LoadAck
  | SwapCompleted ready_event
  | SendEvent ready_event

fun ready_micro :: "ready_pc \<Rightarrow> ready_inner \<Rightarrow> ready_pc \<times> ready_inner" where
  "ready_micro Idle s = (Idle, s)"
| "ready_micro (Begin SignalHost) s = (LoadCompleted, s\<lparr>ri_host_ready := True\<rparr>)"
| "ready_micro (Begin (SignalGuest a)) s =
     (if ri_guest_ready s then (Idle, s) else (StoreAck a, s\<lparr>ri_guest_ready := True\<rparr>))"
| "ready_micro (Begin (Fail f)) s = (SwapCompleted (Failed f), s)"
| "ready_micro (StoreAck a) s = (LoadCompleted, s\<lparr>ri_ack := ack_code a\<rparr>)"
| "ready_micro LoadCompleted s = (if ri_completed s then Idle else LoadHost, s)"
| "ready_micro LoadHost s = (if ri_host_ready s then LoadGuest else Idle, s)"
| "ready_micro LoadGuest s = (if ri_guest_ready s then LoadAck else Idle, s)"
| "ready_micro LoadAck s = (SwapCompleted (Ready (ack_kind (ri_ack s))), s)"
| "ready_micro (SwapCompleted e) s = (if ri_completed s then (Idle, s) else (SendEvent e, s\<lparr>ri_completed := True\<rparr>))"
| "ready_micro (SendEvent e) s = (Idle, send_event e s)"

fun ready_run :: "nat \<Rightarrow> ready_pc \<Rightarrow> ready_inner \<Rightarrow> ready_pc \<times> ready_inner" where
  "ready_run 0 pc s = (pc, s)"
| "ready_run (Suc n) pc s = (case ready_micro pc s of (pc', s') \<Rightarrow> ready_run n pc' s')"

fun ready_call_result :: "ready_call \<Rightarrow> ready_inner \<Rightarrow> ready_inner" where
  "ready_call_result SignalHost s = signal_host_ready s"
| "ready_call_result (SignalGuest a) s = signal_guest_ready a s"
| "ready_call_result (Fail f) s = ready_fail f s"

text \<open>A call that no other thread disturbs makes at most eight accesses and is the function.\<close>

lemma ready_call_alone: "ready_run 8 (Begin c) s = (Idle, ready_call_result c s)"
  by (cases c) (simp_all add: eval_nat_numeral signal_host_ready_def signal_guest_ready_def
      ready_fail_def try_complete_def finish_ready_def send_event_def)

record ready_system =
  ry_inner :: ready_inner
  ry_pc :: "nat \<Rightarrow> ready_pc"
  ry_begun :: "ready_call list"

inductive ready_step :: "ready_system \<Rightarrow> ready_system \<Rightarrow> bool" where
  call: "ry_pc s t = Idle \<Longrightarrow>
    ready_step s (s\<lparr>ry_pc := (ry_pc s)(t := Begin c), ry_begun := ry_begun s @ [c]\<rparr>)"
| micro: "ready_micro (ry_pc s t) (ry_inner s) = (pc, i) \<Longrightarrow>
    ready_step s (s\<lparr>ry_pc := (ry_pc s)(t := pc), ry_inner := i\<rparr>)"

inductive_cases ready_stepE: "ready_step s t"

definition ready_init :: "ready_system \<Rightarrow> bool" where
  "ready_init s = (s = \<lparr>ry_inner = ready_new, ry_pc = (\<lambda>_. Idle), ry_begun = []\<rparr>)"

section \<open>What every interleaving keeps\<close>

fun event_ok :: "ready_call set \<Rightarrow> ready_inner \<Rightarrow> ready_event \<Rightarrow> bool" where
  "event_ok B s (Ready k) = (ri_host_ready s \<and> ri_guest_ready s \<and> (k = NotifyHostcall \<longrightarrow> SignalGuest NotifyHostcall \<in> B))"
| "event_ok B s (Failed f) = (Fail f \<in> B)"

fun pc_ok :: "ready_call set \<Rightarrow> ready_inner \<Rightarrow> ready_pc \<Rightarrow> bool" where
  "pc_ok B s Idle = True"
| "pc_ok B s (Begin c) = (c \<in> B)"
| "pc_ok B s (StoreAck a) = (SignalGuest a \<in> B \<and> ri_guest_ready s)"
| "pc_ok B s LoadCompleted = True"
| "pc_ok B s LoadHost = True"
| "pc_ok B s LoadGuest = ri_host_ready s"
| "pc_ok B s LoadAck = (ri_host_ready s \<and> ri_guest_ready s)"
| "pc_ok B s (SwapCompleted e) = event_ok B s e"
| "pc_ok B s (SendEvent e) = (event_ok B s e \<and> ri_completed s)"

definition inner_ok :: "ready_call set \<Rightarrow> ready_inner \<Rightarrow> bool" where
  "inner_ok B s = ((ri_host_ready s \<longrightarrow> SignalHost \<in> B) \<and> (ri_guest_ready s \<longrightarrow> (\<exists>a. SignalGuest a \<in> B))
     \<and> (ri_ack s = 1 \<longrightarrow> SignalGuest NotifyHostcall \<in> B)
     \<and> length (ri_sent s) = (if ri_tx s then 0 else 1) \<and> (\<forall>e \<in> set (ri_sent s). event_ok B s e))"

definition pending :: "ready_pc \<Rightarrow> bool" where
  "pending pc = (case pc of StoreAck _ \<Rightarrow> True | LoadCompleted \<Rightarrow> True | LoadHost \<Rightarrow> True | LoadGuest \<Rightarrow> True
     | LoadAck \<Rightarrow> True | SwapCompleted _ \<Rightarrow> True | _ \<Rightarrow> False)"

definition ready_safe :: "ready_system \<Rightarrow> bool" where
  "ready_safe s = (inner_ok (set (ry_begun s)) (ry_inner s) \<and> (\<forall>t. pc_ok (set (ry_begun s)) (ry_inner s) (ry_pc s t)))"

definition ready_live :: "ready_system \<Rightarrow> bool" where
  "ready_live s =
    ((ri_completed (ry_inner s) \<longrightarrow> ri_sent (ry_inner s) = [] \<longrightarrow> (\<exists>t e. ry_pc s t = SendEvent e))
     \<and> (ri_host_ready (ry_inner s) \<longrightarrow> ri_guest_ready (ry_inner s) \<longrightarrow> \<not> ri_completed (ry_inner s) \<longrightarrow> (\<exists>t. pending (ry_pc s t)))
     \<and> (SignalHost \<in> set (ry_begun s) \<longrightarrow> \<not> ri_host_ready (ry_inner s) \<longrightarrow> (\<exists>t. ry_pc s t = Begin SignalHost))
     \<and> (\<forall>a. SignalGuest a \<in> set (ry_begun s) \<longrightarrow> \<not> ri_guest_ready (ry_inner s) \<longrightarrow>
          (\<exists>t. ry_pc s t = Begin (SignalGuest a))))"

text \<open>Flags are only ever raised.\<close>

definition raised :: "ready_inner \<Rightarrow> ready_inner \<Rightarrow> bool" where
  "raised s s' = ((ri_host_ready s \<longrightarrow> ri_host_ready s') \<and> (ri_guest_ready s \<longrightarrow> ri_guest_ready s')
     \<and> (ri_completed s \<longrightarrow> ri_completed s') \<and> (ri_sent s \<noteq> [] \<longrightarrow> ri_sent s' \<noteq> []))"

lemma ready_micro_raised: "ready_micro pc s = (pc', s') \<Longrightarrow> raised s s'"
  by (cases "(pc, s)" rule: ready_micro.cases) (auto simp: raised_def send_event_def split: if_splits)

lemma event_ok_mono: "event_ok B s e \<Longrightarrow> raised s s' \<Longrightarrow> B \<subseteq> B' \<Longrightarrow> event_ok B' s' e"
  by (cases e) (auto simp: raised_def)

lemma event_ok_other [simp]:
  "event_ok B (s\<lparr>ri_completed := c\<rparr>) e = event_ok B s e" "event_ok B (s\<lparr>ri_ack := a\<rparr>) e = event_ok B s e"
  "event_ok B (s\<lparr>ri_tx := x\<rparr>) e = event_ok B s e" "event_ok B (s\<lparr>ri_sent := es\<rparr>) e = event_ok B s e"
  by (cases e; simp)+

lemma pc_ok_mono: "pc_ok B s pc \<Longrightarrow> raised s s' \<Longrightarrow> B \<subseteq> B' \<Longrightarrow> pc_ok B' s' pc"
  by (cases pc) (auto simp: raised_def intro: event_ok_mono [unfolded raised_def])

lemma ack_kind_notify: "ack_kind code = NotifyHostcall \<longleftrightarrow> code = 1"
  by (simp add: ack_kind_def)

lemma ack_code_one: "ack_code a = 1 \<longleftrightarrow> a = NotifyHostcall"
  by (cases a) simp_all

lemma ready_micro_pc_ok:
  assumes "ready_micro pc s = (pc', s')" "inner_ok B s" "pc_ok B s pc"
  shows "pc_ok B s' pc'"
  using assms by (cases "(pc, s)" rule: ready_micro.cases)
    (auto simp: inner_ok_def ack_kind_notify split: if_splits)

lemma ready_micro_inner_ok:
  assumes "ready_micro pc s = (pc', s')" "inner_ok B s" "pc_ok B s pc"
  shows "inner_ok B s'"
proof -
  have "event_ok B s' e" if "event_ok B s e" for e using event_ok_mono [OF that] ready_micro_raised [OF assms(1)] by blast
  then show ?thesis using assms by (cases "(pc, s)" rule: ready_micro.cases)
    (auto simp: inner_ok_def ack_code_one send_event_def split: if_splits)
qed

lemma ready_safe_step:
  assumes "ready_safe s" "ready_step s u"
  shows "ready_safe u"
  using assms(2)
proof cases
  case (call t c)
  have r: "raised (ry_inner s) (ry_inner s)" by (simp add: raised_def)
  have "pc_ok (set (ry_begun s @ [c])) (ry_inner s) (ry_pc s t')" for t'
    by (rule pc_ok_mono [OF _ r]) (use assms(1) in \<open>auto simp: ready_safe_def\<close>)
  moreover have "event_ok (set (ry_begun s @ [c])) (ry_inner s) e" if "e \<in> set (ri_sent (ry_inner s))" for e
    by (rule event_ok_mono [OF _ r]) (use assms(1) that in \<open>auto simp: ready_safe_def inner_ok_def\<close>)
  ultimately show ?thesis using assms(1) call by (auto simp: ready_safe_def inner_ok_def)
next
  case (micro t pc i)
  let ?B = "set (ry_begun s)"
  have ok: "inner_ok ?B (ry_inner s)" "pc_ok ?B (ry_inner s) (ry_pc s t)" using assms(1) by (simp_all add: ready_safe_def)
  have "pc_ok ?B i (ry_pc s t')" for t'
    by (rule pc_ok_mono [OF _ ready_micro_raised [OF micro(2)]]) (use assms(1) in \<open>auto simp: ready_safe_def\<close>)
  then show ?thesis
    using ready_micro_inner_ok [OF micro(2) ok] ready_micro_pc_ok [OF micro(2) ok] micro(1) by (simp add: ready_safe_def)
qed

lemma pending_simps [simp]:
  "pending (StoreAck a)" "pending LoadCompleted" "pending LoadHost" "pending LoadGuest" "pending LoadAck"
  "pending (SwapCompleted e)" "\<not> pending Idle" "\<not> pending (Begin c)" "\<not> pending (SendEvent e)"
  by (simp_all add: pending_def)

text \<open>Each wake-up obligation moves with the access of the thread that carries it.\<close>

lemma micro_sender:
  assumes "ready_micro pc s = (pc', s')" "inner_ok B s" "pc_ok B s pc" "ri_completed s'" "ri_sent s' = []"
  shows "ri_completed s \<and> ri_sent s = [] \<and> (\<forall>e. pc \<noteq> SendEvent e) \<or> (\<exists>e. pc' = SendEvent e)"
  using assms by (cases "(pc, s)" rule: ready_micro.cases) (auto simp: send_event_def inner_ok_def split: if_splits)

lemma micro_pending:
  assumes "ready_micro pc s = (pc', s')" "ri_host_ready s'" "ri_guest_ready s'" "\<not> ri_completed s'"
  shows "pending pc' \<or> (ri_host_ready s \<and> ri_guest_ready s \<and> \<not> ri_completed s \<and> \<not> pending pc)"
  using assms by (cases "(pc, s)" rule: ready_micro.cases) (auto simp: send_event_def split: if_splits)

lemma micro_host:
  assumes "ready_micro pc s = (pc', s')" "\<not> ri_host_ready s'"
  shows "\<not> ri_host_ready s \<and> pc \<noteq> Begin SignalHost"
  using assms by (cases "(pc, s)" rule: ready_micro.cases) (auto simp: send_event_def split: if_splits)

lemma micro_guest:
  assumes "ready_micro pc s = (pc', s')" "\<not> ri_guest_ready s'"
  shows "\<not> ri_guest_ready s \<and> pc \<noteq> Begin (SignalGuest a)"
  using assms by (cases "(pc, s)" rule: ready_micro.cases) (auto simp: send_event_def split: if_splits)

lemma ready_live_step:
  assumes "ready_live s" "ready_safe s" "ready_step s u"
  shows "ready_live u"
  using assms(3)
proof cases
  case (call t c)
  have keep: "\<exists>t'. P (((ry_pc s)(t := Begin c)) t')" if "\<exists>t'. P (ry_pc s t')" "\<not> P Idle" for P
    using that call(2) by (metis fun_upd_other)
  have new: "\<exists>t'. ((ry_pc s)(t := Begin c)) t' = Begin c" by (rule exI [of _ t]) simp
  show ?thesis
    using assms(1) call(1) new keep [of "\<lambda>pc. \<exists>e. pc = SendEvent e"] keep [of pending]
      keep [of "\<lambda>pc. pc = Begin SignalHost"] keep [of "\<lambda>pc. pc = Begin (SignalGuest a)" for a]
    by (auto simp: ready_live_def simp del: fun_upd_apply)
next
  case (micro t pc i)
  let ?i = "ry_inner s" let ?pcs = "(ry_pc s)(t := pc)"
  have ok: "inner_ok (set (ry_begun s)) ?i" "pc_ok (set (ry_begun s)) ?i (ry_pc s t)"
    using assms(2) by (simp_all add: ready_safe_def)
  have keep: "\<exists>x. P (?pcs x)" if "\<exists>t'. P (ry_pc s t')" "\<not> P (ry_pc s t)" for P
    using that by (metis fun_upd_other)
  have here: "\<exists>x. P (?pcs x)" if "P pc" for P
    using that by (intro exI [of _ t]) simp
  note live = assms(1) [unfolded ready_live_def]
  have "\<exists>x e. ?pcs x = SendEvent e" if "ri_completed i" "ri_sent i = []"
    using micro_sender [OF micro(2) ok that] live keep [of "\<lambda>pc. \<exists>e. pc = SendEvent e"] here [of "\<lambda>pc. \<exists>e. pc = SendEvent e"] by blast
  moreover have "\<exists>x. pending (?pcs x)" if "ri_host_ready i" "ri_guest_ready i" "\<not> ri_completed i"
    using micro_pending [OF micro(2) that] live keep [of pending] here [of pending] by blast
  moreover have "\<exists>x. ?pcs x = Begin SignalHost" if "SignalHost \<in> set (ry_begun s)" "\<not> ri_host_ready i"
    using micro_host [OF micro(2) that(2)] live that(1) keep [of "\<lambda>pc. pc = Begin SignalHost"] by blast
  moreover have "\<exists>x. ?pcs x = Begin (SignalGuest a)" if "SignalGuest a \<in> set (ry_begun s)" "\<not> ri_guest_ready i" for a
    using micro_guest [OF micro(2) that(2)] live that(1) keep [of "\<lambda>pc. pc = Begin (SignalGuest a)"] by blast
  ultimately show ?thesis using micro(1) unfolding ready_live_def by simp
qed

definition ready_ok :: "ready_system \<Rightarrow> bool" where
  "ready_ok s = (ready_safe s \<and> ready_live s)"

interpretation ready: invariant ready_init ready_step ready_ok
proof
  show "ready_ok s" if "ready_init s" for s
    using that by (simp add: ready_init_def ready_ok_def ready_safe_def ready_live_def inner_ok_def ready_new_def)
  show "ready_ok u" if "ready_ok s" "ready_step s u" for s u
    using that ready_safe_step ready_live_step by (auto simp: ready_ok_def)
qed

section \<open>The promises of the barrier\<close>

text \<open>Whatever the interleaving of host and guest, the barrier sends one event at most and only for
  cause: readiness after both sides have signalled, with the acknowledgement \<open>notify_hostcall\<close>
  only if the guest made that call, and a failure only if the host reported that failure.\<close>

theorem ready_event_for_cause:
  assumes "reachable ready_init ready_step s"
  shows "length (ri_sent (ry_inner s)) \<le> 1
    \<and> (\<forall>e \<in> set (ri_sent (ry_inner s)).
        (\<forall>k. e = Ready k \<longrightarrow> SignalHost \<in> set (ry_begun s) \<and> (\<exists>a. SignalGuest a \<in> set (ry_begun s))
           \<and> (k = NotifyHostcall \<longrightarrow> SignalGuest NotifyHostcall \<in> set (ry_begun s)))
        \<and> (\<forall>f. e = Failed f \<longrightarrow> Fail f \<in> set (ry_begun s)))"
proof -
  have "inner_ok (set (ry_begun s)) (ry_inner s)"
    using ready.reachable_inv [OF assms] by (simp add: ready_ok_def ready_safe_def)
  then show ?thesis by (fastforce simp: inner_ok_def split: if_splits)
qed

text \<open>C29: No wake-up is lost: in every reachable state in which the host and the guest have both signalled
  and no call is under way, the event has been sent, so the waiter does not wait in vain.\<close>

theorem ready_no_lost_wakeup:
  assumes "reachable ready_init ready_step s"
    and "SignalHost \<in> set (ry_begun s)" and "SignalGuest a \<in> set (ry_begun s)"
    and "\<forall>t. ry_pc s t = Idle"
  shows "length (ri_sent (ry_inner s)) = 1"
proof -
  have ok: "ready_safe s" "ready_live s" using ready.reachable_inv [OF assms(1)] by (simp_all add: ready_ok_def)
  then have "ri_sent (ry_inner s) \<noteq> []" using assms(2-4) by (auto simp: ready_live_def)
  then show ?thesis using ok(1) by (auto simp: ready_safe_def inner_ok_def split: if_splits)
qed

section \<open>Schedules\<close>

text \<open>Thread \<open>t\<close> begins a call, or makes its next access.\<close>

fun ready_schedule :: "(nat \<times> ready_call option) list \<Rightarrow> ready_system \<Rightarrow> ready_system" where
  "ready_schedule [] s = s"
| "ready_schedule ((t, Some c) # xs) s =
     ready_schedule xs (if ry_pc s t = Idle
       then s\<lparr>ry_pc := (ry_pc s)(t := Begin c), ry_begun := ry_begun s @ [c]\<rparr> else s)"
| "ready_schedule ((t, None) # xs) s =
     (case ready_micro (ry_pc s t) (ry_inner s) of
        (pc, i) \<Rightarrow> ready_schedule xs (s\<lparr>ry_pc := (ry_pc s)(t := pc), ry_inner := i\<rparr>))"

lemma ready_schedule_reachable:
  "reachable ready_init ready_step s \<Longrightarrow> reachable ready_init ready_step (ready_schedule xs s)"
proof (induction xs s rule: ready_schedule.induct)
  case (3 t xs s)
  obtain pc i where m: "ready_micro (ry_pc s t) (ry_inner s) = (pc, i)" by fastforce
  have "reachable ready_init ready_step (s\<lparr>ry_pc := (ry_pc s)(t := pc), ry_inner := i\<rparr>)"
    by (rule reachable.move [OF 3(2) ready_step.micro [OF m]])
  then show ?case using 3(1) m by simp
next
  case (2 t c xs s)
  have "reachable ready_init ready_step (s\<lparr>ry_pc := (ry_pc s)(t := Begin c), ry_begun := ry_begun s @ [c]\<rparr>)"
    if "ry_pc s t = Idle"
    by (rule reachable.move [OF 2(2) ready_step.call [OF that]])
  then show ?case using 2 by simp
qed simp

definition ready_start :: ready_system where
  "ready_start = \<lparr>ry_inner = ready_new, ry_pc = (\<lambda>_. Idle), ry_begun = []\<rparr>"

lemma ready_start_reachable: "reachable ready_init ready_step (ready_schedule xs ready_start)"
  by (rule ready_schedule_reachable, rule reachable.start) (simp add: ready_init_def ready_start_def)

text \<open>The acknowledgement can be mislabelled: when the host completes between the guest's two stores,
  an agent that called \<open>notify_ready\<close> is reported as \<open>mailbox_first_recv\<close>.\<close>

theorem ready_ack_mislabelled:
  "\<exists>s. reachable ready_init ready_step s \<and> ry_begun s = [SignalGuest NotifyHostcall, SignalHost]
    \<and> ri_sent (ry_inner s) = [Ready MailboxFirstRecv]"
  by (intro exI [of _ "ready_schedule ([(0, Some (SignalGuest NotifyHostcall)), (0, None), (1, Some SignalHost)]
        @ replicate 7 (1, None)) ready_start"] conjI ready_start_reachable)
    (simp_all add: ready_start_def ready_new_def eval_nat_numeral send_event_def ack_kind_def)

definition ready_demo :: ready_system where
  "ready_demo = ready_schedule ([(0, Some (SignalGuest NotifyHostcall))] @ replicate 4 (0, None) @ [(1, Some SignalHost)]
     @ replicate 7 (1, None)) ready_start"

lemma ready_demo_eval:
  "ry_begun ready_demo = [SignalGuest NotifyHostcall, SignalHost]"
  "ri_sent (ry_inner ready_demo) = [Ready NotifyHostcall]"
  "ry_pc ready_demo t = Idle"
  by (simp_all add: ready_demo_def ready_start_def ready_new_def eval_nat_numeral send_event_def ack_kind_def)

lemma ready_demo_reachable: "reachable ready_init ready_step ready_demo"
  unfolding ready_demo_def by (rule ready_start_reachable)

theorem ready_event_for_cause_witness:
  "SignalHost \<in> set (ry_begun ready_demo) \<and> ri_sent (ry_inner ready_demo) = [Ready NotifyHostcall]"
  using ready_event_for_cause [OF ready_demo_reachable] by (simp add: ready_demo_eval)

theorem ready_no_lost_wakeup_witness: "length (ri_sent (ry_inner ready_demo)) = 1"
  by (rule ready_no_lost_wakeup [of _ NotifyHostcall])
    (simp_all add: ready_demo_eval ready_demo_reachable)

end
