(* ===== verification/Runtime_Audit.thy ===== *)
theory Runtime_Audit
  imports Runtime_Caps
begin

text \<open>
  What the runtime records: the ring of audit events (\<open>crates/runtime/src/audit.rs\<close>), the ring of
  output bytes (\<open>output.rs\<close>), the audit policy (\<open>runtime.rs\<close>) and the capability audit record of the
  knowledge base (\<open>crates/kb/src/lib.rs\<close>). Lemmas: a ring keeps the last entries, as many as its
  capacity; a capacity of zero bounds nothing. The clock and the hash are parameters.
\<close>

section \<open>Rings\<close>

text \<open>\<open>VecDeque\<close>: drop the first entry when the length equals the capacity, then append.\<close>

definition ring_push :: "nat \<Rightarrow> 'a list \<Rightarrow> 'a \<Rightarrow> 'a list" where
  "ring_push capacity xs x = (if length xs = capacity then tl xs else xs) @ [x]"

definition last_n :: "nat \<Rightarrow> 'a list \<Rightarrow> 'a list" where
  "last_n n xs = drop (length xs - n) xs"

lemma last_n_length [simp]: "length (last_n n xs) = min n (length xs)"
  by (simp add: last_n_def min_def)

lemma ring_push_last_n:
  assumes "0 < n"
  shows "ring_push n (last_n n xs) x = last_n n (xs @ [x])"
proof (cases "length xs < n")
  case True
  then show ?thesis by (simp add: ring_push_def last_n_def)
next
  case False
  then have "ring_push n (last_n n xs) x = tl (drop (length xs - n) xs) @ [x]"
    by (simp add: ring_push_def last_n_def)
  also have "\<dots> = drop (Suc (length xs - n)) xs @ [x]" by (simp add: drop_Suc tl_drop)
  also have "\<dots> = last_n n (xs @ [x])" using False assms by (simp add: last_n_def Suc_diff_le)
  finally show ?thesis .
qed

lemma ring_fold:
  assumes "0 < n"
  shows "foldl (ring_push n) (last_n n xs) ys = last_n n (xs @ ys)"
  by (induction ys arbitrary: xs) (simp_all add: ring_push_last_n [OF assms])

text \<open>With capacity zero the ring drops nothing after the first entry: it grows without bound.\<close>

lemma ring_zero_grows: "xs \<noteq> [] \<Longrightarrow> foldl (ring_push 0) xs ys = xs @ ys"
  by (induction ys arbitrary: xs) (simp_all add: ring_push_def)

section \<open>Audit events\<close>

datatype audit_category = CapabilityDenied | HostError

record audit_event =
  ae_ts_ms :: u64
  ae_category :: audit_category
  ae_message :: string

record audit_sink =
  as_capacity :: nat
  as_events :: "audit_event list"

definition audit_sink_new :: "nat \<Rightarrow> audit_sink" where
  "audit_sink_new capacity = \<lparr>as_capacity = capacity, as_events = []\<rparr>"

definition audit_event_new :: "u64 \<Rightarrow> audit_category \<Rightarrow> string \<Rightarrow> audit_event" where
  "audit_event_new now category message = \<lparr>ae_ts_ms = now, ae_category = category, ae_message = message\<rparr>"

definition audit_record :: "u64 \<Rightarrow> audit_category \<Rightarrow> string \<Rightarrow> audit_sink \<Rightarrow> audit_sink" where
  "audit_record now category message a =
    a\<lparr>as_events := ring_push (as_capacity a) (as_events a) (audit_event_new now category message)\<rparr>"

definition default_sink :: audit_sink where
  "default_sink = audit_sink_new 512"

section \<open>Output of an agent\<close>

record output_ring =
  or_capacity :: nat
  or_data :: bytes

definition output_ring_new :: "nat \<Rightarrow> output_ring" where
  "output_ring_new capacity = \<lparr>or_capacity = capacity, or_data = []\<rparr>"

definition output_push :: "bytes \<Rightarrow> output_ring \<Rightarrow> output_ring" where
  "output_push bs r = (if bs = [] then r else r\<lparr>or_data := foldl (ring_push (or_capacity r)) (or_data r) bs\<rparr>)"

lemma output_push_capacity [simp]: "or_capacity (output_push bs r) = or_capacity r"
  by (simp add: output_push_def)

lemma output_pushes_capacity [simp]: "or_capacity (foldl (\<lambda>r bs. output_push bs r) r chunks) = or_capacity r"
  by (induction chunks arbitrary: r) simp_all

lemma output_ring_chunks:
  assumes "0 < n"
  shows "or_data (foldl (\<lambda>r bs. output_push bs r) (output_ring_new n) chunks) = last_n n (concat chunks)"
proof (induction chunks rule: rev_induct)
  case Nil
  then show ?case by (simp add: output_ring_new_def last_n_def)
next
  case (snoc bs chunks)
  then show ?case using ring_fold [OF assms, of "concat chunks" bs]
    by (simp add: output_push_def [of bs]) (simp add: output_ring_new_def)
qed

section \<open>The capability audit\<close>

datatype audit_decision = Allow | Deny
datatype audit_severity = Info | Warn | ErrorSeverity

record audit_policy =
  ap_on_allow :: bool
  ap_on_deny :: bool

definition default_audit_policy :: audit_policy where
  "default_audit_policy = \<lparr>ap_on_allow = False, ap_on_deny = True\<rparr>"

fun should_emit :: "audit_policy \<Rightarrow> audit_decision \<Rightarrow> bool" where
  "should_emit p Allow = ap_on_allow p"
| "should_emit p Deny = ap_on_deny p"

record cap_audit =
  ca_ts_ms :: u64
  ca_trace_id :: u128
  ca_agent_id :: u128
  ca_cap :: string
  ca_op :: string
  ca_target :: string
  ca_args_hash :: bytes
  ca_decision :: audit_decision
  ca_reason :: string
  ca_severity :: audit_severity

definition cap_audit_new ::
  "(bytes \<Rightarrow> bytes) \<Rightarrow> u64 \<Rightarrow> u128 \<Rightarrow> u128 \<Rightarrow> string \<Rightarrow> string \<Rightarrow> string \<Rightarrow> bytes \<Rightarrow> audit_decision \<Rightarrow> string \<Rightarrow> audit_severity \<Rightarrow> cap_audit" where
  "cap_audit_new blake3 now trace_id agent_id cap op target args decision reason severity =
    \<lparr>ca_ts_ms = now, ca_trace_id = trace_id, ca_agent_id = agent_id, ca_cap = cap, ca_op = op, ca_target = target,
     ca_args_hash = blake3 args, ca_decision = decision, ca_reason = reason, ca_severity = severity\<rparr>"

text \<open>Captured output is the tail of what the agent wrote: whatever the chunks, the ring holds the
  last bytes of the whole output, as many as its capacity.\<close>

theorem output_ring_keeps_tail:
  assumes "0 < n"
  shows "or_data (foldl (\<lambda>r bs. output_push bs r) (output_ring_new n) chunks) = last_n n (concat chunks)"
  by (rule output_ring_chunks [OF assms])

theorem output_ring_keeps_tail_witness:
  "or_data (foldl (\<lambda>r bs. output_push bs r) (output_ring_new 3) [[1, 2], [], [3, 4, 5]]) = [3, 4, 5]"
  using output_ring_keeps_tail [of 3 "[[1, 2], [], [3, 4, 5]]"] by (simp add: last_n_def)

end
