(* ===== verification/Runtime_Exec.thy ===== *)
theory Runtime_Exec
  imports Rust_Num
begin

text \<open>
  Child processes of the exec hostcalls (\<open>crates/runtime/src/hostcalls.rs\<close>): draining an output
  stream into a bounded preview, and polling the child until it ends or runs out of time. A
  child is a parameter: what each poll, each read and the wait after a kill return (\<open>None\<close>: the
  call never returns). Both loops may run for ever, so both are partial functions into
  \<open>option\<close>. Lemmas: the preview is the prefix of the output and the flag tells exactly whether
  output was lost; the poll loop ends when the child ends or time passes its limit, which does
  not bound the drain.
\<close>

datatype read_result = ReadOk bytes | ReadInterrupted | ReadError

datatype wait_result = Exited "i32 option" | StillRunning | WaitError

text \<open>Times are nanoseconds; \<open>ch_elapsed n\<close> is the time since the start at poll \<open>n\<close>.\<close>

record child =
  ch_try_wait :: "nat \<Rightarrow> wait_result"
  ch_elapsed :: "nat \<Rightarrow> nat"
  ch_wait_killed :: "(unit + i32 option) option"
  ch_stdout :: "nat \<Rightarrow> read_result option"
  ch_stderr :: "nat \<Rightarrow> read_result option"

section \<open>Draining a stream\<close>

partial_function (option) drain_stream_preview ::
  "(nat \<Rightarrow> read_result option) \<Rightarrow> nat \<Rightarrow> nat \<Rightarrow> bytes \<Rightarrow> bool \<Rightarrow> (bytes \<times> bool \<times> bool) option" where
  "drain_stream_preview reader limit n preview truncated =
    (case reader n of
       None \<Rightarrow> None
     | Some ReadError \<Rightarrow> Some (preview, False, truncated)
     | Some ReadInterrupted \<Rightarrow> drain_stream_preview reader limit (Suc n) preview truncated
     | Some (ReadOk buf) \<Rightarrow>
         if buf = [] then Some (preview, True, truncated)
         else
           let remaining = limit - length preview;
               take' = min remaining (length buf)
           in if 0 < remaining
              then drain_stream_preview reader limit (Suc n) (preview @ take take' buf) (truncated \<or> take' < length buf)
              else drain_stream_preview reader limit (Suc n) preview True)"

text \<open>The output of the reads \<open>n, \<dots>, n + k - 1\<close>, when none of them ends the stream.\<close>

fun read_output :: "(nat \<Rightarrow> read_result option) \<Rightarrow> nat \<Rightarrow> nat \<Rightarrow> bytes option" where
  "read_output reader n 0 = Some []"
| "read_output reader n (Suc k) =
     (case reader n of
        Some ReadInterrupted \<Rightarrow> read_output reader (Suc n) k
      | Some (ReadOk buf) \<Rightarrow> if buf = [] then None else map_option (\<lambda>out. buf @ out) (read_output reader (Suc n) k)
      | _ \<Rightarrow> None)"

lemma take_append_remaining:
  "length p \<le> l \<Longrightarrow> p @ take (min (l - length p) (length b)) b = take l (p @ b)"
  by (simp add: min_def)

lemma drain_reads:
  assumes "read_output reader n k = Some out" and "reader (n + k) = Some (ReadOk []) \<or> reader (n + k) = Some ReadError"
    and "seen = take limit whole" "truncated \<longleftrightarrow> limit < length whole"
  shows "drain_stream_preview reader limit n seen truncated =
    Some (take limit (whole @ out), reader (n + k) = Some (ReadOk []), limit < length (whole @ out))"
  using assms
proof (induction k arbitrary: n seen truncated whole out)
  case 0
  then show ?case by (subst drain_stream_preview.simps) auto
next
  case (Suc k)
  show ?case
  proof (cases "reader n = Some ReadInterrupted")
    case True
    then have "read_output reader (Suc n) k = Some out" using Suc.prems(1) by simp
    from Suc.IH [OF this _ Suc.prems(3,4)] Suc.prems(2) True show ?thesis
      by (subst drain_stream_preview.simps) simp
  next
    case False
    then obtain buf out' where b: "reader n = Some (ReadOk buf)" "buf \<noteq> []" "read_output reader (Suc n) k = Some out'"
        "out = buf @ out'"
      using Suc.prems(1) by (auto split: option.splits read_result.splits if_splits)
    show ?thesis
    proof (cases "length whole < limit")
      case True
      then have seen: "seen = whole" "\<not> truncated" using Suc.prems(3,4) by simp_all
      have eqs: "whole @ take (min (limit - length whole) (length buf)) buf = take limit (whole @ buf)"
          "min (limit - length whole) (length buf) < length buf \<longleftrightarrow> limit < length (whole @ buf)"
        using True by (simp_all add: take_append_remaining, linarith)
      have "drain_stream_preview reader limit n seen truncated =
          drain_stream_preview reader limit (Suc n) (take limit (whole @ buf)) (limit < length (whole @ buf))"
        by (subst drain_stream_preview.simps) (simp add: b seen True Let_def eqs del: append_take_drop_id take_append)
      also have "\<dots> = Some (take limit ((whole @ buf) @ out'), reader (Suc n + k) = Some (ReadOk []), limit < length ((whole @ buf) @ out'))"
        by (rule Suc.IH [OF b(3)]) (use Suc.prems(2) in simp_all)
      finally show ?thesis by (simp add: b(4))
    next
      case full: False
      have more: "limit < length whole + length buf" using full b(2) by (cases buf) simp_all
      from full have "drain_stream_preview reader limit n seen truncated = drain_stream_preview reader limit (Suc n) seen True"
        using b Suc.prems(3) by (subst drain_stream_preview.simps) (simp add: Let_def)
      also have "\<dots> = Some (take limit ((whole @ buf) @ out'), reader (Suc n + k) = Some (ReadOk []), limit < length ((whole @ buf) @ out'))"
        by (rule Suc.IH [OF b(3)]) (use Suc.prems(2,3) full more in auto)
      finally show ?thesis by (simp add: b(4))
    qed
  qed
qed

section \<open>Waiting for a child\<close>

definition parse_u64 :: "string \<Rightarrow> nat option" where
  "parse_u64 s = parse_nat_lt (2 ^ 64) s"

text \<open>\<open>override_secs\<close> is zero outside tests, \<open>var\<close> is \<open>RUNLOOP_EXEC_TIMEOUT_SECS\<close>.\<close>

definition exec_timeout :: "nat \<Rightarrow> string option \<Rightarrow> nat option" where
  "exec_timeout override_secs var =
    (if override_secs \<noteq> 0 then Some (override_secs * 10 ^ 9)
     else case Option.bind var parse_u64 of
       Some secs \<Rightarrow> if secs = 0 then None else Some (secs * 10 ^ 9)
     | None \<Rightarrow> None)"

partial_function (option) exec_wait :: "nat option \<Rightarrow> child \<Rightarrow> nat \<Rightarrow> (unit + i32 option) option" where
  "exec_wait timeout c n =
    (case ch_try_wait c n of
       Exited status \<Rightarrow> Some (Inr status)
     | WaitError \<Rightarrow> Some (Inl ())
     | StillRunning \<Rightarrow>
         if (case timeout of Some t \<Rightarrow> t < ch_elapsed c n | None \<Rightarrow> False) then ch_wait_killed c
         else exec_wait timeout c (Suc n))"

lemma exec_wait_ends:
  assumes "ch_try_wait c (n + k) \<noteq> StillRunning \<or> (\<exists>t. timeout = Some t \<and> t < ch_elapsed c (n + k) \<and> ch_wait_killed c \<noteq> None)"
    and "ch_wait_killed c \<noteq> None"
  shows "\<exists>r. exec_wait timeout c n = Some r"
  using assms
proof (induction k arbitrary: n)
  case 0
  then show ?case by (subst exec_wait.simps) (auto split: wait_result.split)
next
  case (Suc k)
  then have "\<exists>r. exec_wait timeout c (Suc n) = Some r" using Suc.IH [of "Suc n"] by simp
  then show ?case using Suc.prems(2) by (subst exec_wait.simps) (auto split: wait_result.split option.splits)
qed

end
