(* ===== verification/Runtime_Secrets.thy ===== *)
theory Runtime_Secrets
  imports Rust_Str
begin

text \<open>
  Secrets (\<open>crates/runtime/src/secrets.rs\<close>): the per-agent store of opaque handles, the providers
  and the cache in front of them. Parameters: environment variables, the \<open>pass\<close> program, the
  files, random UUIDs and their base32 text. Instants are nanoseconds. Lemmas: handles and
  identifiers correspond one to one, a handle gives the provider's present value, and a cached
  value is younger than its time to live.
\<close>

section \<open>The handle store\<close>

record handle_record =
  hr_secret_id :: string
  hr_value :: string
  hr_refreshed_at :: nat

record handle_store =
  hd_id_to_handle :: "string \<rightharpoonup> string"
  hd_handle_to_record :: "string \<rightharpoonup> handle_record"

definition handle_store_new :: handle_store where
  "handle_store_new = \<lparr>hd_id_to_handle = Map.empty, hd_handle_to_record = Map.empty\<rparr>"

text \<open>\<open>base32\<close> is \<open>BASE32_NOPAD\<close>.\<close>

definition generate_handle :: "(bytes \<Rightarrow> string) \<Rightarrow> bytes \<Rightarrow> string" where
  "generate_handle base32 uuid = ''rlsec_'' @ to_ascii_lowercase (base32 uuid)"

text \<open>\<open>resolve\<close> is the provider at the moment of the call, \<open>fresh\<close> the handle that would be drawn.\<close>

definition resolve_or_create ::
  "(string \<Rightarrow> string option) \<Rightarrow> string \<Rightarrow> nat \<Rightarrow> string \<Rightarrow> handle_store \<Rightarrow> handle_store \<times> string option" where
  "resolve_or_create resolve fresh now secret_id s =
    (case hd_id_to_handle s secret_id of
       Some handle \<Rightarrow>
         (case resolve secret_id of
            None \<Rightarrow> (s, None)
          | Some v \<Rightarrow> (s\<lparr>hd_handle_to_record := (hd_handle_to_record s)(handle \<mapsto>
               \<lparr>hr_secret_id = secret_id, hr_value = v, hr_refreshed_at = now\<rparr>)\<rparr>, Some handle))
     | None \<Rightarrow>
         (case resolve secret_id of
            None \<Rightarrow> (s, None)
          | Some v \<Rightarrow> (s\<lparr>hd_id_to_handle := (hd_id_to_handle s)(secret_id \<mapsto> fresh),
               hd_handle_to_record := (hd_handle_to_record s)(fresh \<mapsto>
                 \<lparr>hr_secret_id = secret_id, hr_value = v, hr_refreshed_at = now\<rparr>)\<rparr>, Some fresh)))"

definition dereference_with ::
  "(string \<Rightarrow> string option) \<Rightarrow> nat \<Rightarrow> string \<Rightarrow> handle_store \<Rightarrow> handle_store \<times> string option" where
  "dereference_with resolve now handle s =
    (case hd_handle_to_record s handle of
       None \<Rightarrow> (s, None)
     | Some rec \<Rightarrow>
         (case resolve (hr_secret_id rec) of
            Some fresh \<Rightarrow> (s\<lparr>hd_handle_to_record := (hd_handle_to_record s)(handle \<mapsto>
                rec\<lparr>hr_value := fresh, hr_refreshed_at := now\<rparr>)\<rparr>, Some fresh)
          | None \<Rightarrow> (s\<lparr>hd_id_to_handle := (hd_id_to_handle s)(hr_secret_id rec := None),
                      hd_handle_to_record := (hd_handle_to_record s)(handle := None)\<rparr>, None)))"

definition dereference :: "string \<Rightarrow> handle_store \<Rightarrow> string option" where
  "dereference handle s = map_option hr_value (hd_handle_to_record s handle)"

definition is_valid_handle :: "string \<Rightarrow> handle_store \<Rightarrow> bool" where
  "is_valid_handle handle s = (hd_handle_to_record s handle \<noteq> None)"

definition handle_store_clear :: "handle_store \<Rightarrow> handle_store" where
  "handle_store_clear s = s\<lparr>hd_id_to_handle := Map.empty, hd_handle_to_record := Map.empty\<rparr>"

section \<open>Providers\<close>

record secret_store =
  ss_allowed :: "string set"
  ss_values :: "string \<rightharpoonup> string"

definition secret_store_new :: secret_store where
  "secret_store_new = \<lparr>ss_allowed = {}, ss_values = Map.empty\<rparr>"

definition allow_id :: "string \<Rightarrow> secret_store \<Rightarrow> secret_store" where
  "allow_id i s = s\<lparr>ss_allowed := insert i (ss_allowed s)\<rparr>"

definition store_put :: "string \<Rightarrow> string \<Rightarrow> secret_store \<Rightarrow> secret_store" where
  "store_put i v s = s\<lparr>ss_allowed := insert i (ss_allowed s), ss_values := (ss_values s)(i \<mapsto> v)\<rparr>"

definition store_resolve :: "secret_store \<Rightarrow> string \<Rightarrow> string option" where
  "store_resolve s i = (if i \<notin> ss_allowed s then None else ss_values s i)"

definition store_exists :: "secret_store \<Rightarrow> string \<Rightarrow> bool" where
  "store_exists s i = (i \<in> ss_allowed s)"

definition normalize_secret_env_key :: "string \<Rightarrow> string" where
  "normalize_secret_env_key i = map (\<lambda>c. if is_ascii_alphanumeric c then ascii_upper c else CHR ''_'') i"

definition slugify_secret_id :: "string \<Rightarrow> string" where
  "slugify_secret_id i = map (\<lambda>c. if is_ascii_alphanumeric c then ascii_lower c else CHR ''_'') i"

text \<open>What the process sees: variables (\<open>None\<close> also when the value is not Unicode), the output of
  \<open>pass show\<close> (\<open>None\<close> when it fails or is not UTF-8), files, and whether the key file may be used.\<close>

record secret_env =
  se_var :: "string \<Rightarrow> string option"
  se_pass_show :: "string \<Rightarrow> string option"
  se_read_file :: "string \<Rightarrow> string option"
  se_master_key_ok :: bool

definition resolve_secret_from_env :: "secret_env \<Rightarrow> string \<Rightarrow> string option" where
  "resolve_secret_from_env env i =
    (case se_var env i of Some v \<Rightarrow> Some v | None \<Rightarrow> se_var env (normalize_secret_env_key i))"

text \<open>The first line of a text, without a final carriage return.\<close>

definition first_line :: "string \<Rightarrow> string option" where
  "first_line s =
    (if s = [] then None
     else let l = takeWhile (\<lambda>c. c \<noteq> CHR 0x0A) s
          in Some (if l \<noteq> s \<and> l \<noteq> [] \<and> last l = CHR 0x0D then butlast l else l))"

definition pass_read_secret :: "secret_env \<Rightarrow> string \<Rightarrow> string option" where
  "pass_read_secret env i =
    Option.bind (se_pass_show env (''runloop/'' @ i)) (\<lambda>stdout.
    Option.bind (first_line stdout) (\<lambda>line'. if trim line' = [] then None else Some (trim line')))"

text \<open>\<open>root\<close> is the directory of the age store; \<open>create_dir_all\<close> failing is part of \<open>se_master_key_ok\<close>.\<close>

definition age_resolve :: "secret_env \<Rightarrow> string \<Rightarrow> string \<Rightarrow> string option" where
  "age_resolve env root i =
    (if \<not> se_master_key_ok env then None
     else Option.bind (se_read_file env (path_join root (slugify_secret_id i @ ''.age''))) (\<lambda>content.
       if trim content = [] then None else Some (trim content)))"

datatype secret_backend = BackEnv | BackSecretService | BackPass | BackAge string | BackEnvThenStore

definition backend_resolve :: "secret_env \<Rightarrow> secret_store \<Rightarrow> secret_backend \<Rightarrow> string \<Rightarrow> string option" where
  "backend_resolve env store b i =
    (case b of
       BackEnv \<Rightarrow> resolve_secret_from_env env i
     | BackSecretService \<Rightarrow> None
     | BackPass \<Rightarrow> pass_read_secret env i
     | BackAge root \<Rightarrow> age_resolve env root i
     | BackEnvThenStore \<Rightarrow>
         (case resolve_secret_from_env env i of Some v \<Rightarrow> Some v | None \<Rightarrow> store_resolve store i))"

definition backend_exists :: "secret_env \<Rightarrow> secret_store \<Rightarrow> secret_backend \<Rightarrow> string \<Rightarrow> bool" where
  "backend_exists env store b i =
    (case b of
       BackEnv \<Rightarrow> resolve_secret_from_env env i \<noteq> None
     | BackSecretService \<Rightarrow> False
     | BackPass \<Rightarrow> pass_read_secret env i \<noteq> None
     | BackAge root \<Rightarrow> age_resolve env root i \<noteq> None
     | BackEnvThenStore \<Rightarrow> resolve_secret_from_env env i \<noteq> None \<or> store_exists store i)"

definition backend_allow :: "secret_backend \<Rightarrow> string \<Rightarrow> secret_store \<Rightarrow> secret_store" where
  "backend_allow b i store = (if b = BackEnvThenStore then allow_id i store else store)"

section \<open>The cache in front of a provider\<close>

record secret_cache_entry =
  sc_value :: string
  sc_expires_at :: "nat option"

type_synonym secret_cache = "string \<rightharpoonup> secret_cache_entry"

definition live_entry :: "nat \<Rightarrow> secret_cache_entry \<Rightarrow> bool" where
  "live_entry now e = (case sc_expires_at e of Some t \<Rightarrow> now < t | None \<Rightarrow> False)"

definition caching_resolve ::
  "nat \<Rightarrow> (string \<Rightarrow> string option) \<Rightarrow> nat \<Rightarrow> string \<Rightarrow> secret_cache \<Rightarrow> secret_cache \<times> string option" where
  "caching_resolve ttl inner now i c =
    (case c i of
       Some e \<Rightarrow> if live_entry now e then (c, Some (sc_value e))
                 else (case inner i of None \<Rightarrow> (c(i := None), None)
                   | Some v \<Rightarrow> (c(i \<mapsto> \<lparr>sc_value = v, sc_expires_at = (if ttl = 0 then None else Some (now + ttl))\<rparr>), Some v))
     | None \<Rightarrow> (case inner i of None \<Rightarrow> (c(i := None), None)
                   | Some v \<Rightarrow> (c(i \<mapsto> \<lparr>sc_value = v, sc_expires_at = (if ttl = 0 then None else Some (now + ttl))\<rparr>), Some v)))"

definition caching_allow :: "string \<Rightarrow> secret_cache \<Rightarrow> secret_cache" where
  "caching_allow i c = c(i := None)"

definition caching_exists :: "(string \<Rightarrow> bool) \<Rightarrow> nat \<Rightarrow> string \<Rightarrow> secret_cache \<Rightarrow> bool" where
  "caching_exists inner_exists now i c =
    ((case c i of Some e \<Rightarrow> live_entry now e | None \<Rightarrow> False) \<or> inner_exists i)"

section \<open>Selecting a provider\<close>

definition expand_root :: "string \<Rightarrow> string option \<Rightarrow> string" where
  "expand_root path home =
    (case (strip_prefix ''~/'' path, home) of (Some stripped, Some h) \<Rightarrow> path_join h stripped | _ \<Rightarrow> path)"

definition select_provider_backend :: "bool \<Rightarrow> bool \<Rightarrow> string option \<Rightarrow> string option \<Rightarrow> string \<Rightarrow> secret_backend" where
  "select_provider_backend pass_available age_available home root_config provider =
    (let root = expand_root (case root_config of Some r \<Rightarrow> r | None \<Rightarrow> ''~/.runloop/secrets'') home in
     if provider = ''env'' then BackEnv
     else if provider = ''secret-service'' then BackSecretService
     else if provider = ''pass'' then BackPass
     else if provider = ''age'' then BackAge root
     else if provider = ''auto'' then
       if pass_available then BackPass else if age_available then BackAge root else BackEnvThenStore
     else BackEnvThenStore)"

text \<open>The provider of a configuration: a backend, cached when the time to live is not zero.\<close>

record secret_provider =
  sp_backend :: secret_backend
  sp_store :: secret_store
  sp_ttl :: nat
  sp_cache :: secret_cache

definition secret_provider_from_config :: "secret_backend \<Rightarrow> u64 \<Rightarrow> secret_provider" where
  "secret_provider_from_config base ttl_secs =
    \<lparr>sp_backend = base, sp_store = secret_store_new, sp_ttl = unat ttl_secs * 10 ^ 9, sp_cache = Map.empty\<rparr>"

definition provider_resolve :: "secret_env \<Rightarrow> nat \<Rightarrow> string \<Rightarrow> secret_provider \<Rightarrow> secret_provider \<times> string option" where
  "provider_resolve env now i p =
    (if sp_ttl p = 0 then (p, backend_resolve env (sp_store p) (sp_backend p) i)
     else let (c, v) = caching_resolve (sp_ttl p) (backend_resolve env (sp_store p) (sp_backend p)) now i (sp_cache p)
          in (p\<lparr>sp_cache := c\<rparr>, v))"

definition provider_allow :: "string \<Rightarrow> secret_provider \<Rightarrow> secret_provider" where
  "provider_allow i p =
    (let p = p\<lparr>sp_store := backend_allow (sp_backend p) i (sp_store p)\<rparr>
     in if sp_ttl p = 0 then p else p\<lparr>sp_cache := caching_allow i (sp_cache p)\<rparr>)"

definition provider_exists :: "secret_env \<Rightarrow> nat \<Rightarrow> string \<Rightarrow> secret_provider \<Rightarrow> bool" where
  "provider_exists env now i p =
    (if sp_ttl p = 0 then backend_exists env (sp_store p) (sp_backend p) i
     else caching_exists (backend_exists env (sp_store p) (sp_backend p)) now i (sp_cache p))"

section \<open>Handles and identifiers\<close>

text \<open>The two maps of a handle store are inverse.\<close>

definition handles_ok :: "handle_store \<Rightarrow> bool" where
  "handles_ok s = (\<forall>i h. hd_id_to_handle s i = Some h \<longleftrightarrow> (\<exists>r. hd_handle_to_record s h = Some r \<and> hr_secret_id r = i))"

lemma handles_okD:
  assumes "handles_ok s"
  shows "hd_id_to_handle s i = Some h \<longleftrightarrow> (\<exists>r. hd_handle_to_record s h = Some r \<and> hr_secret_id r = i)"
  using assms by (simp add: handles_ok_def)

lemma handles_ok_new: "handles_ok handle_store_new"
  by (simp add: handles_ok_def handle_store_new_def)

lemma handles_ok_clear: "handles_ok (handle_store_clear s)"
  by (simp add: handles_ok_def handle_store_clear_def)

lemma handles_ok_resolve:
  assumes ok: "handles_ok s" and fresh: "hd_handle_to_record s fresh = None"
    and r: "resolve_or_create resolve fresh now i s = (s', h)"
  shows "handles_ok s'"
proof (cases "resolve i")
  case None
  then show ?thesis using ok r by (auto simp: resolve_or_create_def split: option.splits)
next
  case v: (Some v)
  show ?thesis
  proof (cases "hd_id_to_handle s i")
    case None
    then have s': "s' = s\<lparr>hd_id_to_handle := (hd_id_to_handle s)(i \<mapsto> fresh),
        hd_handle_to_record := (hd_handle_to_record s)(fresh \<mapsto> \<lparr>hr_secret_id = i, hr_value = v, hr_refreshed_at = now\<rparr>)\<rparr>"
      using r v by (auto simp: resolve_or_create_def)
    have "hd_id_to_handle s j \<noteq> Some fresh" for j using handles_okD [OF ok] fresh by simp
    moreover have "hr_secret_id r \<noteq> i" if "hd_handle_to_record s h' = Some r" for h' r
      using handles_okD [OF ok, of i h'] None that by auto
    ultimately have "hd_id_to_handle s' j = Some k \<longleftrightarrow> (\<exists>r. hd_handle_to_record s' k = Some r \<and> hr_secret_id r = j)" for j k
      using handles_okD [OF ok, of j k] by (cases "j = i"; cases "k = fresh") (auto simp: s')
    then show ?thesis by (simp add: handles_ok_def)
  next
    case (Some h')
    then have s': "s' = s\<lparr>hd_handle_to_record := (hd_handle_to_record s)(h' \<mapsto> \<lparr>hr_secret_id = i, hr_value = v, hr_refreshed_at = now\<rparr>)\<rparr>"
      using r v by (simp add: resolve_or_create_def)
    have "\<exists>r. hd_handle_to_record s h' = Some r \<and> hr_secret_id r = i" using handles_okD [OF ok] Some by simp
    then have "hd_id_to_handle s' j = Some k \<longleftrightarrow> (\<exists>r. hd_handle_to_record s' k = Some r \<and> hr_secret_id r = j)" for j k
      using handles_okD [OF ok, of j k] by (cases "k = h'") (auto simp: s')
    then show ?thesis by (simp add: handles_ok_def)
  qed
qed

lemma handles_ok_dereference:
  assumes ok: "handles_ok s" and r: "dereference_with resolve now h s = (s', v)"
  shows "handles_ok s'"
proof (cases "hd_handle_to_record s h")
  case None
  then show ?thesis using ok r by (simp add: dereference_with_def)
next
  case rec: (Some rec)
  show ?thesis
  proof (cases "resolve (hr_secret_id rec)")
    case None
    then have s': "s' = s\<lparr>hd_id_to_handle := (hd_id_to_handle s)(hr_secret_id rec := None),
        hd_handle_to_record := (hd_handle_to_record s)(h := None)\<rparr>"
      using r rec by (simp add: dereference_with_def)
    have here: "hd_id_to_handle s (hr_secret_id rec) = Some h" using handles_okD [OF ok] rec by simp
    have one: "i = hr_secret_id rec" if "hd_id_to_handle s i = Some h" for i
      using handles_okD [OF ok, of i h] that rec by auto
    have "hd_id_to_handle s' j = Some k \<longleftrightarrow> (\<exists>r. hd_handle_to_record s' k = Some r \<and> hr_secret_id r = j)" for j k
    proof -
      have "hd_id_to_handle s' j = Some k \<longleftrightarrow> j \<noteq> hr_secret_id rec \<and> hd_id_to_handle s j = Some k" by (simp add: s')
      moreover have "(\<exists>r. hd_handle_to_record s' k = Some r \<and> hr_secret_id r = j) \<longleftrightarrow> k \<noteq> h \<and> hd_id_to_handle s j = Some k"
        by (simp add: s' handles_okD [OF ok])
      moreover have "j = hr_secret_id rec \<longleftrightarrow> k = h" if "hd_id_to_handle s j = Some k"
      proof
        assume "j = hr_secret_id rec"
        then show "k = h" using that here by simp
      next
        assume "k = h"
        then show "j = hr_secret_id rec" using that one by blast
      qed
      ultimately show ?thesis by blast
    qed
    then show ?thesis by (simp add: handles_ok_def)
  next
    case (Some v')
    then have s': "s' = s\<lparr>hd_handle_to_record := (hd_handle_to_record s)(h \<mapsto> rec\<lparr>hr_value := v', hr_refreshed_at := now\<rparr>)\<rparr>"
      using r rec by (simp add: dereference_with_def)
    have "hd_id_to_handle s' j = Some k \<longleftrightarrow> (\<exists>r. hd_handle_to_record s' k = Some r \<and> hr_secret_id r = j)" for j k
      using handles_okD [OF ok, of j k] rec by (cases "k = h") (auto simp: s')
    then show ?thesis by (simp add: handles_ok_def)
  qed
qed

section \<open>The age of cached values\<close>

text \<open>A run of the caching provider: at each step time passes, the back end may change, and an
  identifier is resolved or allowed. \<open>past\<close> records every answer the back end gave, with its time.\<close>

record caching_run =
  cr_now :: nat
  cr_inner :: "string \<Rightarrow> string option"
  cr_cache :: secret_cache
  cr_past :: "(string \<times> string \<times> nat) set"

inductive caching_step :: "nat \<Rightarrow> caching_run \<Rightarrow> caching_run \<Rightarrow> bool" for ttl where
  later: "cr_now s \<le> t \<Longrightarrow> caching_step ttl s (s\<lparr>cr_now := t, cr_inner := inner\<rparr>)"
| resolve: "caching_resolve ttl (cr_inner s) (cr_now s) i (cr_cache s) = (c, v) \<Longrightarrow>
     caching_step ttl s (s\<lparr>cr_cache := c,
       cr_past := cr_past s \<union> {(i, w, cr_now s) | w. cr_inner s i = Some w}\<rparr>)"
| allow: "caching_step ttl s (s\<lparr>cr_cache := caching_allow i (cr_cache s)\<rparr>)"

inductive_cases caching_stepE: "caching_step ttl s t"

definition caching_init :: "caching_run \<Rightarrow> bool" where
  "caching_init s = (cr_cache s = Map.empty \<and> cr_past s = {})"

definition caching_ok :: "nat \<Rightarrow> caching_run \<Rightarrow> bool" where
  "caching_ok ttl s = (\<forall>i e t. cr_cache s i = Some e \<longrightarrow> sc_expires_at e = Some t \<longrightarrow>
     (\<exists>t0 \<le> cr_now s. (i, sc_value e, t0) \<in> cr_past s \<and> t = t0 + ttl))"

lemma caching_resolve_cases:
  obtains (cached) e where "c i = Some e" "live_entry now e" "caching_resolve ttl inner now i c = (c, Some (sc_value e))"
  | (missing) "inner i = None" "caching_resolve ttl inner now i c = (c(i := None), None)"
  | (stored) v where "inner i = Some v" "caching_resolve ttl inner now i c =
      (c(i \<mapsto> \<lparr>sc_value = v, sc_expires_at = (if ttl = 0 then None else Some (now + ttl))\<rparr>), Some v)"
proof (cases "c i")
  case None
  then show ?thesis using missing stored by (cases "inner i") (simp_all add: caching_resolve_def)
next
  case (Some e)
  then show ?thesis using cached missing stored
    by (cases "live_entry now e"; cases "inner i") (simp_all add: caching_resolve_def)
qed

interpretation caching: invariant caching_init "caching_step ttl" "caching_ok ttl" for ttl
proof
  fix s
  assume "caching_init s"
  then show "caching_ok ttl s" by (simp add: caching_init_def caching_ok_def)
next
  fix s t
  assume ok: "caching_ok ttl s" and step: "caching_step ttl s t"
  from step show "caching_ok ttl t"
  proof cases
    case (later t' inner)
    then show ?thesis using ok by (fastforce simp: caching_ok_def)
  next
    case (resolve i c v)
    show ?thesis
      by (rule caching_resolve_cases [of "cr_cache s" i "cr_now s" ttl "cr_inner s"])
        (use ok resolve in \<open>fastforce simp: caching_ok_def split: if_splits\<close>)+
  next
    case (allow i)
    then show ?thesis using ok by (simp add: caching_ok_def caching_allow_def)
  qed
qed

text \<open>The cache in front of a secret provider never serves a stale secret: whatever happened before,
  an answer is what the back end answers now or what it answered less than the time to live ago.\<close>

theorem cached_secret_is_recent:
  assumes "reachable caching_init (caching_step ttl) s"
    and "caching_resolve ttl (cr_inner s) (cr_now s) i (cr_cache s) = (c, Some v)"
  shows "cr_inner s i = Some v \<or> (\<exists>t0. (i, v, t0) \<in> cr_past s \<and> t0 \<le> cr_now s \<and> cr_now s - t0 < ttl)"
proof (rule caching_resolve_cases [of "cr_cache s" i "cr_now s" ttl "cr_inner s"])
  fix e
  assume e: "cr_cache s i = Some e" "live_entry (cr_now s) e"
    "caching_resolve ttl (cr_inner s) (cr_now s) i (cr_cache s) = (cr_cache s, Some (sc_value e))"
  then obtain t where "sc_expires_at e = Some t" "cr_now s < t" by (auto simp: live_entry_def split: option.splits)
  moreover obtain t0 where "t0 \<le> cr_now s" "(i, sc_value e, t0) \<in> cr_past s" "t = t0 + ttl"
    using caching.reachable_inv [OF assms(1)] e(1) calculation(1) unfolding caching_ok_def by blast
  ultimately show ?thesis using e(3) assms(2) by auto
qed (use assms(2) in auto)

definition demo_caching :: caching_run where
  "demo_caching = \<lparr>cr_now = 5, cr_inner = (\<lambda>_. Some ''v''), cr_cache = Map.empty, cr_past = {}\<rparr>"

theorem cached_secret_is_recent_witness:
  "cr_inner demo_caching ''k'' = Some ''v''
   \<or> (\<exists>t0. (''k'', ''v'', t0) \<in> cr_past demo_caching \<and> t0 \<le> cr_now demo_caching \<and> cr_now demo_caching - t0 < 30)"
  by (rule cached_secret_is_recent)
    (auto intro!: reachable.start simp: caching_init_def demo_caching_def caching_resolve_def)

section \<open>Handles over time\<close>

inductive handle_step :: "handle_store \<Rightarrow> handle_store \<Rightarrow> bool" where
  create: "hd_handle_to_record s fresh = None \<Longrightarrow> resolve_or_create resolve fresh now i s = (s', h) \<Longrightarrow> handle_step s s'"
| deref: "dereference_with resolve now h s = (s', v) \<Longrightarrow> handle_step s s'"
| clear: "handle_step s (handle_store_clear s)"

definition handle_init :: "handle_store \<Rightarrow> bool" where
  "handle_init s = (s = handle_store_new)"

interpretation handles: invariant handle_init handle_step handles_ok
proof
  show "handles_ok t" if "handles_ok s" "handle_step s t" for s t
    using that(2) by cases (use that(1) handles_ok_resolve handles_ok_dereference handles_ok_clear in \<open>blast+\<close>)
qed (simp add: handle_init_def handles_ok_new)

text \<open>As long as new handles are drawn apart from the known ones, a handle stands for one identifier:
  a handle issued for an identifier, dereferenced after any other operations on the store that
  leave it valid, gives the provider's present value of that very identifier.\<close>

theorem handle_gives_present_value:
  assumes "reachable handle_init handle_step s" and "hd_handle_to_record s fresh = None"
    and "resolve_or_create resolve fresh now i s = (s1, Some h)"
  shows "(\<forall>resolve' now'. snd (dereference_with resolve' now' h s1) = resolve' i)
    \<and> (\<forall>j. hd_id_to_handle s j = Some h \<longrightarrow> j = i)"
proof -
  have ok: "handles_ok s1" using handles.reachable_inv [OF assms(1)] handles_ok_resolve assms(2,3) by blast
  have "hd_id_to_handle s1 i = Some h"
    using assms(3) by (auto simp: resolve_or_create_def split: option.splits)
  then obtain rec where rec: "hd_handle_to_record s1 h = Some rec" "hr_secret_id rec = i"
    using handles_okD [OF ok] by auto
  then have "snd (dereference_with resolve' now' h s1) = resolve' i" for resolve' now'
    by (simp add: dereference_with_def split: option.split)
  moreover have "j = i" if "hd_id_to_handle s j = Some h" for j
  proof -
    have "hd_id_to_handle s1 j = Some h"
      using that assms(3) by (auto simp: resolve_or_create_def split: option.splits if_splits)
    then have "\<exists>r. hd_handle_to_record s1 h = Some r \<and> hr_secret_id r = j" by (simp only: handles_okD [OF ok])
    then show ?thesis using rec by simp
  qed
  ultimately show ?thesis by blast
qed

theorem handle_gives_present_value_witness:
  "snd (dereference_with (\<lambda>_. Some ''rotated'') 9 ''rlsec_x''
     (fst (resolve_or_create (\<lambda>_. Some ''first'') ''rlsec_x'' 3 ''k'' handle_store_new))) = Some ''rotated''"
proof -
  have 1: "reachable handle_init handle_step handle_store_new" by (rule reachable.start) (simp add: handle_init_def)
  have 2: "hd_handle_to_record handle_store_new ''rlsec_x'' = None" by (simp add: handle_store_new_def)
  have "resolve_or_create (\<lambda>_. Some ''first'') ''rlsec_x'' 3 ''k'' handle_store_new =
      (fst (resolve_or_create (\<lambda>_. Some ''first'') ''rlsec_x'' 3 ''k'' handle_store_new), Some ''rlsec_x'')"
    by (simp add: resolve_or_create_def handle_store_new_def)
  from handle_gives_present_value [OF 1 2 this] show ?thesis by simp
qed

end
