(* ===== verification/Runtime_Host.thy ===== *)
theory Runtime_Host
  imports Runtime_Ready Runtime_Audit Runtime_Exec Runtime_Secrets Model_Broker Rmp_Header
begin

text \<open>
  The hostcalls of the agent runtime (\<open>crates/runtime/src/hostcalls.rs\<close>): the state shared by an
  agent's hostcalls, the capability checks with their audit, guest memory, the mailbox, and
  the eleven functions of \<open>add_to_linker\<close>, collected in \<open>host_call\<close>. A call gives the new state and
  a trap (\<open>Inl\<close>) or a value, and \<open>None\<close> when it never returns. Parameters (\<open>host_env\<close>): hash, URL
  parser, clocks, secrets outside the process, UUIDs, MsgPack, child processes, and the loss of
  a broker task; each reading of the world has its own tick. \<open>usize\<close> has 64 bits.
\<close>

section \<open>State\<close>

record url =
  url_scheme :: string
  url_host :: "string option"
  url_port :: "u16 option"

record 'c host_env =
  he_blake3 :: "bytes \<Rightarrow> bytes"
  he_parse_url :: "string \<Rightarrow> url option"
  he_micros :: "nat \<Rightarrow> nat option"
  he_instant :: "nat \<Rightarrow> nat"
  he_secret_env :: "nat \<Rightarrow> secret_env"
  he_uuid :: "nat \<Rightarrow> bytes"
  he_base32 :: "bytes \<Rightarrow> string"
  he_decode_request :: "bytes \<Rightarrow> model_request option"
  he_encode_meta :: "model_output_meta \<Rightarrow> bytes option"
  he_cache_ops :: "'c cache_ops"
  he_broker_env :: broker_env
  he_async_handle :: bool
  he_task_lost :: "nat \<Rightarrow> 'c broker \<Rightarrow> 'c broker option"
  he_runtime_error :: "nat \<Rightarrow> string option"
  he_spawn :: "nat \<Rightarrow> string \<Rightarrow> child option"
  he_timeout_var :: "nat \<Rightarrow> string option"

text \<open>\<open>HostState\<close> with the mailbox and the memory of the guest's store. \<open>hs_spawned\<close> are the commands
  handed to the shell, \<open>hs_ticks\<close> counts the readings of the world.\<close>

record 'c host =
  hs_caps :: caps
  hs_audit :: audit_sink
  hs_cap_audits :: "cap_audit list"
  hs_broker :: "'c broker"
  hs_secrets :: secret_provider
  hs_handles :: handle_store
  hs_allowed :: u64
  hs_denied :: u64
  hs_agent_id :: u128
  hs_trace_id :: u128
  hs_identity :: string
  hs_deny_flag :: bool
  hs_ready :: "ready_inner option"
  hs_last_denial :: "cap_denied_info option"
  hs_audit_policy :: audit_policy
  hs_expose_raw :: bool
  hs_inbox :: "(header \<times> bytes) list"
  hs_peeked :: "(header \<times> bytes) option"
  hs_memory :: "bytes option"
  hs_spawned :: "string list"
  hs_ticks :: nat

type_synonym ('c, 'a) host_op = "'c host \<Rightarrow> 'c host \<times> (string + 'a)"
type_synonym ('c, 'a) host_fn = "'c host \<Rightarrow> ('c host \<times> (string + 'a)) option"

definition hbind :: "('c, 'a) host_op \<Rightarrow> ('a \<Rightarrow> ('c, 'b) host_op) \<Rightarrow> ('c, 'b) host_op" where
  "hbind m f s = (case m s of (s, Inl e) \<Rightarrow> (s, Inl e) | (s, Inr a) \<Rightarrow> f a s)"

definition hreturn :: "'a \<Rightarrow> ('c, 'a) host_op" where
  "hreturn a s = (s, Inr a)"

definition hfail :: "string \<Rightarrow> ('c, 'a) host_op" where
  "hfail e s = (s, Inl e)"

definition hfn :: "('c, 'a) host_op \<Rightarrow> ('a \<Rightarrow> ('c, 'b) host_fn) \<Rightarrow> ('c, 'b) host_fn" where
  "hfn m f s = (case m s of (s, Inl e) \<Rightarrow> Some (s, Inl e) | (s, Inr a) \<Rightarrow> f a s)"

definition lift_op :: "('c, 'a) host_op \<Rightarrow> ('c, 'a) host_fn" where
  "lift_op m s = Some (m s)"

definition tick :: "'c host \<Rightarrow> 'c host" where
  "tick s = s\<lparr>hs_ticks := Suc (hs_ticks s)\<rparr>"

definition now_ms :: "'c host_env \<Rightarrow> 'c host \<Rightarrow> u64" where
  "now_ms env s = (case he_micros env (hs_ticks s) of Some us \<Rightarrow> word_of_nat (us div 1000) | None \<Rightarrow> 0)"

section \<open>Audit and denial\<close>

definition redact_secret_id :: "'c host_env \<Rightarrow> string \<Rightarrow> string" where
  "redact_secret_id env i = ''secret#'' @ to_hex (he_blake3 env (utf8_bytes i))"

definition sink_record :: "'c host_env \<Rightarrow> string \<Rightarrow> 'c host \<Rightarrow> 'c host" where
  "sink_record env message s = tick (s\<lparr>hs_audit := audit_record (now_ms env s) CapabilityDenied message (hs_audit s)\<rparr>)"

definition record_cap_audit ::
  "'c host_env \<Rightarrow> audit_decision \<Rightarrow> string \<Rightarrow> string \<Rightarrow> string \<Rightarrow> bytes \<Rightarrow> string \<Rightarrow> audit_severity \<Rightarrow> 'c host \<Rightarrow> 'c host" where
  "record_cap_audit env decision cap op target args reason severity s =
    (if \<not> should_emit (hs_audit_policy s) decision then s
     else tick (s\<lparr>hs_cap_audits := hs_cap_audits s @
       [cap_audit_new (he_blake3 env) (now_ms env s) (hs_trace_id s) (hs_agent_id s) cap op target args decision reason severity]\<rparr>))"

definition record_caps_empty :: "'c host_env \<Rightarrow> 'c host \<Rightarrow> 'c host" where
  "record_caps_empty env s =
    record_cap_audit env Deny ''caps.empty'' ''_start'' (hs_identity s) [] ''caps_empty'' Warn
      (sink_record env (''agent launched with empty capabilities; hostcalls will be denied (identity='' @ hs_identity s @ '')'') s)"

definition host_allow :: "'c host_env \<Rightarrow> string \<Rightarrow> string \<Rightarrow> string \<Rightarrow> bytes \<Rightarrow> 'c host \<Rightarrow> 'c host" where
  "host_allow env cap op target args s =
    record_cap_audit env Allow cap op target args ''granted'' Info (s\<lparr>hs_allowed := hs_allowed s + 1\<rparr>)"

definition record_cap_denial ::
  "'c host_env \<Rightarrow> string \<Rightarrow> string \<Rightarrow> string \<Rightarrow> bytes \<Rightarrow> string \<Rightarrow> 'c host \<Rightarrow> 'c host" where
  "record_cap_denial env cap op target args reason s =
    (let s = s\<lparr>hs_denied := hs_denied s + 1, hs_deny_flag := True\<rparr>;
         s = sink_record env (''capability denied: agent='' @ hs_identity s @ '' cap='' @ cap @ '' op='' @ op @
               '' target='' @ target @ '' reason='' @ reason) s;
         s = record_cap_audit env Deny cap op target args reason Warn s
     in s\<lparr>hs_last_denial := Some \<lparr>cdi_cap = from_label cap, cdi_op = op, cdi_detail = target, cdi_reason = reason,
                                   cdi_audit_event = None\<rparr>\<rparr>)"

definition host_deny ::
  "'c host_env \<Rightarrow> string \<Rightarrow> string \<Rightarrow> string \<Rightarrow> bytes \<Rightarrow> string \<Rightarrow> ('c, 'a) host_op" where
  "host_deny env cap op target args reason s =
    (record_cap_denial env cap op target args reason s, Inl (''capability denied: '' @ cap @ '' ('' @ reason @ '')''))"

definition record_external_cap_denial ::
  "'c host_env \<Rightarrow> string \<Rightarrow> string \<Rightarrow> string \<Rightarrow> string \<Rightarrow> 'c host \<Rightarrow> 'c host" where
  "record_external_cap_denial env cap op target reason s =
    (record_cap_denial env cap op target (utf8_bytes reason) reason s)\<lparr>hs_deny_flag := False\<rparr>"

definition reset_denial_flag :: "'c host \<Rightarrow> 'c host" where
  "reset_denial_flag s = s\<lparr>hs_deny_flag := False, hs_last_denial := None\<rparr>"

definition consume_denial_flag :: "'c host \<Rightarrow> 'c host \<times> bool" where
  "consume_denial_flag s = (s\<lparr>hs_deny_flag := False\<rparr>, hs_deny_flag s)"

definition take_last_denial :: "'c host \<Rightarrow> 'c host \<times> cap_denied_info option" where
  "take_last_denial s = (s\<lparr>hs_last_denial := None\<rparr>, hs_last_denial s)"

section \<open>Capability checks\<close>

definition gate :: "'c host_env \<Rightarrow> bool \<Rightarrow> string \<Rightarrow> string \<Rightarrow> string \<Rightarrow> bytes \<Rightarrow> string \<Rightarrow> ('c, unit) host_op" where
  "gate env granted cap op target args reason s =
    (if granted then (host_allow env cap op target args s, Inr ()) else host_deny env cap op target args reason s)"

definition ensure_time :: "'c host_env \<Rightarrow> string \<Rightarrow> ('c, unit) host_op" where
  "ensure_time env op s = gate env (cap_time (hs_caps s)) ''time.now'' op [] [] ''cap_missing'' s"

definition host_matches :: "net_location \<Rightarrow> string \<Rightarrow> u16 option \<Rightarrow> bool" where
  "host_matches entry host port =
    (if (case nl_port entry of Some expected \<Rightarrow> (case port of Some p \<Rightarrow> p | None \<Rightarrow> expected) \<noteq> expected | None \<Rightarrow> False)
     then False else nl_host entry = host)"

definition host_allows :: "'c host_env \<Rightarrow> net_location \<Rightarrow> string \<Rightarrow> bool" where
  "host_allows env entry host =
    (case he_parse_url env host of
       Some u \<Rightarrow> host_matches entry (case url_host u of Some h \<Rightarrow> h | None \<Rightarrow> host) (url_port u)
     | None \<Rightarrow> host_matches entry host None)"

definition plain_http :: "'c host_env \<Rightarrow> string \<Rightarrow> bool" where
  "plain_http env host = (case he_parse_url env host of Some u \<Rightarrow> url_scheme u = ''http'' | None \<Rightarrow> False)"

definition ensure_net :: "'c host_env \<Rightarrow> string \<Rightarrow> ('c, unit) host_op" where
  "ensure_net env host s =
    (let deny = \<lambda>reason. host_deny env ''net.http'' ''http_request'' host (utf8_bytes host) reason s in
     if cap_net_hosts (hs_caps s) = [] then deny ''no_hosts''
     else if plain_http env host \<and> \<not> cap_net_allow_http (hs_caps s) then deny ''http_not_permitted''
     else if \<not> list_ex (\<lambda>allowed. host_allows env allowed host) (cap_net_hosts (hs_caps s)) then deny ''host_not_permitted''
     else (host_allow env ''net.http'' ''http_request'' host (utf8_bytes host) s, Inr ()))"

definition permits_namespace :: "capability_set \<Rightarrow> string \<Rightarrow> bool" where
  "permits_namespace set' namespace =
    (case set' of CapAll \<Rightarrow> True | CapNone \<Rightarrow> False | CapDomains domains \<Rightarrow> namespace \<in> domains)"

definition ensure_kb_read :: "'c host_env \<Rightarrow> string \<Rightarrow> ('c, unit) host_op" where
  "ensure_kb_read env namespace s =
    gate env (permits_namespace (cap_kb_read (hs_caps s)) namespace) ''kb.read'' ''kb_read'' namespace (utf8_bytes namespace)
      ''namespace_not_permitted'' s"

definition ensure_kb_write :: "'c host_env \<Rightarrow> string \<Rightarrow> ('c, unit) host_op" where
  "ensure_kb_write env namespace s =
    gate env (permits_namespace (cap_kb_write (hs_caps s)) namespace) ''kb.write'' ''kb_write'' namespace (utf8_bytes namespace)
      ''namespace_not_permitted'' s"

definition ensure_model :: "'c host_env \<Rightarrow> ('c, unit) host_op" where
  "ensure_model env s = gate env (cap_model (hs_caps s)) ''model.use'' ''model_complete'' [] [] ''cap_missing'' s"

definition ensure_secret :: "'c host_env \<Rightarrow> string \<Rightarrow> ('c, unit) host_op" where
  "ensure_secret env secret_id s =
    (let redacted = redact_secret_id env secret_id in
     gate env (permits_secret (hs_caps s) secret_id) ''secrets.get'' ''resolve_secret'' redacted (utf8_bytes redacted)
       ''secret_not_permitted'' s)"

definition ensure_exec :: "'c host_env \<Rightarrow> ('c, unit) host_op" where
  "ensure_exec env s = gate env (cap_exec (hs_caps s)) ''exec.spawn'' ''exec_spawn'' [] [] ''cap_missing'' s"

section \<open>Guest memory\<close>

definition as_usize :: "i32 \<Rightarrow> nat" where
  "as_usize p = unat (scast p :: u64)"

definition checked_add4 :: "i32 \<Rightarrow> i32 option" where
  "checked_add4 p = (if sint p + 4 < 2 ^ 31 then Some (p + 4) else None)"

definition le32 :: "u32 \<Rightarrow> bytes" where
  "le32 w = rev (put_uint 4 w)"

lemma sint32: "- (2 ^ 31) \<le> sint (p :: 32 word)" "sint p < 2 ^ 31"
  using sint_ge [of p] sint_lt [of p] by simp_all

lemma as_usize_int: "int (as_usize p) = sint p mod 2 ^ 64"
proof -
  have "uint (word_of_int (sint p) :: 64 word) = take_bit 64 (sint p)" by (subst unsigned_of_int) simp
  then show ?thesis unfolding as_usize_def scast_eq by (simp add: take_bit_eq_mod)
qed

lemma as_usize_nonneg: "0 \<le> sint p \<Longrightarrow> as_usize p = nat (sint p)"
  using as_usize_int [of p] sint32 [of p] by simp

lemma as_usize_neg: "sint p < 0 \<Longrightarrow> 9223372036854775808 \<le> as_usize p"
proof -
  assume neg: "sint p < 0"
  have "sint p mod 2 ^ 64 = (sint p + 2 ^ 64) mod 2 ^ 64" by simp
  also have "\<dots> = sint p + 2 ^ 64" using neg sint32 [of p] by (intro mod_pos_pos_trivial) simp_all
  finally have "int (as_usize p) = sint p + 2 ^ 64" using as_usize_int [of p] by simp
  then have "9223372036854775808 \<le> int (as_usize p)" using sint32 [of p] by simp
  then show ?thesis by linarith
qed

lemma sint_add4: "sint p + 4 < 2 ^ 31 \<Longrightarrow> sint (p + 4 :: 32 word) = sint p + 4"
  using sint32 [of p] by (simp add: sint_word_add signed_take_bit_int_eq_self)

definition read_bytes :: "i32 \<Rightarrow> i32 \<Rightarrow> ('c, bytes) host_op" where
  "read_bytes ptr len s =
    (if sint len \<le> 0 then (s, Inr [])
     else case hs_memory s of
       None \<Rightarrow> (s, Inl ''guest module missing exported memory'')
     | Some mem \<Rightarrow>
         if as_usize ptr + as_usize len \<le> length mem then (s, Inr (take (as_usize len) (drop (as_usize ptr) mem)))
         else (s, Inl ''memory read failed: out of bounds memory access''))"

definition read_utf8 :: "i32 \<Rightarrow> i32 \<Rightarrow> ('c, string) host_op" where
  "read_utf8 ptr len = hbind (read_bytes ptr len) (\<lambda>bs.
    case utf8_decode bs of Some text \<Rightarrow> hreturn text | None \<Rightarrow> hfail ''invalid utf8 argument'')"

definition mem_write :: "bytes \<Rightarrow> nat \<Rightarrow> bytes \<Rightarrow> bytes" where
  "mem_write mem off data = take off mem @ data @ drop (off + length data) mem"

definition write_bytes :: "i32 \<Rightarrow> bytes \<Rightarrow> ('c, unit) host_op" where
  "write_bytes ptr data s =
    (if data = [] then (s, Inr ())
     else case hs_memory s of
       None \<Rightarrow> (s, Inl ''guest module missing exported memory'')
     | Some mem \<Rightarrow>
         if as_usize ptr + length data \<le> length mem
         then (s\<lparr>hs_memory := Some (mem_write mem (as_usize ptr) data)\<rparr>, Inr ())
         else (s, Inl ''memory write failed: out of bounds memory access''))"

definition write_utf8 :: "i32 \<Rightarrow> string \<Rightarrow> ('c, unit) host_op" where
  "write_utf8 ptr value = write_bytes ptr (utf8_bytes value)"

section \<open>Secrets\<close>

text \<open>The provider as the handle store sees it in one call, and its state afterwards.\<close>

definition host_provider :: "'c host_env \<Rightarrow> 'c host \<Rightarrow> string \<Rightarrow> secret_provider \<times> string option" where
  "host_provider env s i =
    provider_resolve (he_secret_env env (hs_ticks s)) (he_instant env (hs_ticks s)) i (hs_secrets s)"

definition issue_secret_handle :: "'c host_env \<Rightarrow> string \<Rightarrow> 'c host \<Rightarrow> 'c host \<times> string option" where
  "issue_secret_handle env i s =
    (let (p, _) = host_provider env s i;
         (h, r) = resolve_or_create (\<lambda>j. snd (host_provider env s j)) (generate_handle (he_base32 env) (he_uuid env (hs_ticks s)))
                    (he_instant env (hs_ticks s)) i (hs_handles s)
     in (tick (s\<lparr>hs_secrets := p, hs_handles := h\<rparr>), r))"

definition resolve_secret_value :: "'c host_env \<Rightarrow> string \<Rightarrow> 'c host \<Rightarrow> 'c host \<times> string option" where
  "resolve_secret_value env token s =
    (if starts_with ''rlsec_'' token then
       let p = (case hd_handle_to_record (hs_handles s) token of
                  Some rec \<Rightarrow> fst (host_provider env s (hr_secret_id rec)) | None \<Rightarrow> hs_secrets s);
           (h, r) = dereference_with (\<lambda>j. snd (host_provider env s j)) (he_instant env (hs_ticks s)) token (hs_handles s)
       in (tick (s\<lparr>hs_secrets := p, hs_handles := h\<rparr>), r)
     else let (p, r) = host_provider env s token in (tick (s\<lparr>hs_secrets := p\<rparr>), r))"

definition give_text :: "i32 \<Rightarrow> string \<Rightarrow> ('c, i32) host_op" where
  "give_text ptr value = hbind (write_utf8 ptr value) (\<lambda>_. hreturn (word_of_nat (byte_len value)))"

definition secret_unknown :: "'c host_env \<Rightarrow> string \<Rightarrow> ('c, i32) host_op" where
  "secret_unknown env i =
    (let redacted = redact_secret_id env i
     in host_deny env ''secrets.get'' ''resolve_secret'' redacted (utf8_bytes redacted) ''secret_unknown'')"

definition host_resolve_secret :: "'c host_env \<Rightarrow> i32 \<Rightarrow> i32 \<Rightarrow> ('c, i32) host_op" where
  "host_resolve_secret env ptr len =
    hbind (read_utf8 ptr len) (\<lambda>secret_id.
    hbind (ensure_secret env secret_id) (\<lambda>_ s.
      case (if hs_expose_raw s then resolve_secret_value env secret_id s else issue_secret_handle env secret_id s) of
        (s, Some value) \<Rightarrow> give_text ptr value s
      | (s, None) \<Rightarrow> secret_unknown env secret_id s))"

section \<open>Clock, network and knowledge base\<close>

definition host_time_now :: "'c host_env \<Rightarrow> ('c, i64) host_op" where
  "host_time_now env =
    hbind (ensure_time env ''clock_time_get'') (\<lambda>_ s.
      case he_micros env (hs_ticks s) of
        Some us \<Rightarrow> (tick s, Inr (word_of_nat us))
      | None \<Rightarrow> (tick s, Inl ''system clock before unix epoch''))"

definition host_http_request :: "'c host_env \<Rightarrow> i32 \<Rightarrow> i32 \<Rightarrow> ('c, i32) host_op" where
  "host_http_request env ptr len =
    hbind (read_utf8 ptr len) (\<lambda>url. hbind (ensure_net env url) (\<lambda>_. hreturn 200))"

definition host_kb_read :: "'c host_env \<Rightarrow> i32 \<Rightarrow> i32 \<Rightarrow> ('c, i32) host_op" where
  "host_kb_read env ptr len =
    hbind (read_utf8 ptr len) (\<lambda>namespace. hbind (ensure_kb_read env namespace) (\<lambda>_. hreturn 0))"

definition host_kb_write :: "'c host_env \<Rightarrow> i32 \<Rightarrow> i32 \<Rightarrow> ('c, i32) host_op" where
  "host_kb_write env ptr len =
    hbind (read_utf8 ptr len) (\<lambda>namespace. hbind (ensure_kb_write env namespace) (\<lambda>_. hreturn 0))"

section \<open>Model completions\<close>

definition MODEL_ESTREAM :: i32 where "MODEL_ESTREAM = - 1"
definition MODEL_EBUDGET :: i32 where "MODEL_EBUDGET = - 2"
definition MODEL_ETIMEOUT :: i32 where "MODEL_ETIMEOUT = - 3"
definition MODEL_EPROVIDER :: i32 where "MODEL_EPROVIDER = - 4"
definition MODEL_EINVAL :: i32 where "MODEL_EINVAL = - 5"
definition MODEL_ENOSPACE :: i32 where "MODEL_ENOSPACE = - 6"
definition MODEL_ECANCELLED :: i32 where "MODEL_ECANCELLED = - 7"

fun map_broker_error :: "broker_error \<Rightarrow> i32" where
  "map_broker_error StreamingUnsupported = MODEL_ESTREAM"
| "map_broker_error (BudgetExceeded _ _) = MODEL_EBUDGET"
| "map_broker_error (BrokerTimeout _) = MODEL_ETIMEOUT"
| "map_broker_error (ProviderFault _ _) = MODEL_EPROVIDER"
| "map_broker_error (InvalidRequest _) = MODEL_EINVAL"
| "map_broker_error Cancelled = MODEL_ECANCELLED"
| "map_broker_error (OutputTooLarge _) = MODEL_ENOSPACE"

text \<open>With a handle of the caller's executor the completion is a task of it, which may be dropped
  half way, leaving the broker in some state; without one it runs on an executor of its own.\<close>

definition host_broker_complete ::
  "'c host_env \<Rightarrow> model_request \<Rightarrow> 'c host \<Rightarrow> ('c host \<times> (broker_error + model_output)) option" where
  "host_broker_complete env request s =
    (let t = hs_ticks s; s = tick s; run = broker_complete (he_cache_ops env) (he_broker_env env) request (hs_broker s) in
     if he_async_handle env then
       (case he_task_lost env t (hs_broker s) of
          Some b \<Rightarrow> Some (s\<lparr>hs_broker := b\<rparr>, Inl Cancelled)
        | None \<Rightarrow> map_option (\<lambda>(b, r). (s\<lparr>hs_broker := b\<rparr>, r)) run)
     else
       (case he_runtime_error env t of
          Some err \<Rightarrow> Some (s, Inl (ProviderFault ''runtime_init'' err))
        | None \<Rightarrow> map_option (\<lambda>(b, r). (s\<lparr>hs_broker := b\<rparr>, r)) run))"

definition write_meta :: "'c host_env \<Rightarrow> model_output \<Rightarrow> i32 \<Rightarrow> i32 \<Rightarrow> i32 \<Rightarrow> ('c, i32) host_op" where
  "write_meta env response meta_ptr meta_cap written =
    (if sint meta_cap < 4 then hreturn MODEL_ENOSPACE
     else case he_encode_meta env (output_meta response) of
       None \<Rightarrow> hreturn MODEL_EPROVIDER
     | Some meta_bytes \<Rightarrow>
         if as_usize meta_cap - 4 < length meta_bytes then hreturn MODEL_ENOSPACE
         else
           hbind (write_bytes meta_ptr (le32 (word_of_nat (length meta_bytes)))) (\<lambda>_.
           case checked_add4 meta_ptr of
             None \<Rightarrow> hfail ''meta pointer overflow''
           | Some p \<Rightarrow> hbind (write_bytes p meta_bytes) (\<lambda>_. hreturn written)))"

definition give_completion :: "'c host_env \<Rightarrow> model_output \<Rightarrow> i32 \<Rightarrow> i32 \<Rightarrow> i32 \<Rightarrow> i32 \<Rightarrow> ('c, i32) host_op" where
  "give_completion env response out_ptr out_cap meta_ptr meta_cap =
    (let output_bytes = utf8_bytes (mo_text response) in
     if 2 ^ 31 - 1 < length output_bytes then hreturn MODEL_ENOSPACE
     else if as_usize out_cap < length output_bytes then hreturn MODEL_ENOSPACE
     else
       hbind (write_bytes out_ptr output_bytes) (\<lambda>_.
       if 0 < sint meta_cap then write_meta env response meta_ptr meta_cap (word_of_nat (length output_bytes))
       else hreturn (word_of_nat (length output_bytes))))"

definition host_model_complete ::
  "'c host_env \<Rightarrow> i32 \<Rightarrow> i32 \<Rightarrow> i32 \<Rightarrow> i32 \<Rightarrow> i32 \<Rightarrow> i32 \<Rightarrow> ('c, i32) host_fn" where
  "host_model_complete env req_ptr req_len out_ptr out_cap meta_ptr meta_cap =
    hfn (ensure_model env) (\<lambda>_.
    if sint req_len \<le> 0 \<or> sint out_cap < 0 \<or> sint meta_cap < 0 then lift_op (hfail ''invalid buffer length'')
    else
      hfn (read_bytes req_ptr req_len) (\<lambda>request_bytes.
      case he_decode_request env request_bytes of
        None \<Rightarrow> lift_op (hreturn MODEL_EINVAL)
      | Some request \<Rightarrow> (\<lambda>s. map_option (\<lambda>(s, result).
          case result of
            Inl err \<Rightarrow> (s, Inr (map_broker_error err))
          | Inr response \<Rightarrow> give_completion env response out_ptr out_cap meta_ptr meta_cap s)
          (host_broker_complete env request s))))"

section \<open>Commands\<close>

definition EXEC_OUTPUT_PREVIEW_LIMIT :: nat where "EXEC_OUTPUT_PREVIEW_LIMIT = 512"
definition EXEC_EINVAL :: i32 where "EXEC_EINVAL = - 1"
definition EXEC_ESPAWN :: i32 where "EXEC_ESPAWN = - 2"
definition EXEC_ESIGNAL :: i32 where "EXEC_ESIGNAL = - 3"
definition EXEC_ENOSPACE :: i32 where "EXEC_ENOSPACE = - 4"
definition EXEC_CAPTURE_MAX_BUF :: nat where "EXEC_CAPTURE_MAX_BUF = 64 * 1024"

text \<open>Start \<open>sh -c command\<close> and wait: \<open>Inl\<close> is the code of an early return.\<close>

definition exec_start :: "'c host_env \<Rightarrow> string \<Rightarrow> 'c host \<Rightarrow> ('c host \<times> (i32 + child \<times> i32 option)) option" where
  "exec_start env command s =
    (let t = hs_ticks s; s = tick (s\<lparr>hs_spawned := hs_spawned s @ [command]\<rparr>) in
     case he_spawn env t command of
       None \<Rightarrow> Some (s, Inl EXEC_ESPAWN)
     | Some c \<Rightarrow>
         map_option (\<lambda>r. (s, case r of Inl _ \<Rightarrow> Inl EXEC_ESPAWN | Inr status \<Rightarrow> Inr (c, status)))
           (exec_wait (exec_timeout 0 (he_timeout_var env t)) c 0))"

definition exit_code :: "i32 option \<Rightarrow> i32" where
  "exit_code status = (case status of Some code \<Rightarrow> code | None \<Rightarrow> EXEC_ESIGNAL)"

definition with_child :: "'c host_env \<Rightarrow> string \<Rightarrow> (i32 + child \<times> i32 option \<Rightarrow> ('c, 'a) host_fn) \<Rightarrow> ('c, 'a) host_fn" where
  "with_child env command k s = Option.bind (exec_start env command s) (\<lambda>(s, started). k started s)"

definition when_drained :: "(bytes \<times> bool \<times> bool) option \<Rightarrow> (bytes \<times> bool \<times> bool \<Rightarrow> ('c, 'a) host_fn) \<Rightarrow> ('c, 'a) host_fn" where
  "when_drained handle k s = Option.bind handle (\<lambda>drained. k drained s)"

definition spawn_finish :: "i32 + child \<times> i32 option \<Rightarrow> ('c, i32) host_fn" where
  "spawn_finish started =
    (case started of
       Inl code \<Rightarrow> lift_op (hreturn code)
     | Inr (c, status) \<Rightarrow>
         when_drained (drain_stream_preview (ch_stdout c) EXEC_OUTPUT_PREVIEW_LIMIT 0 [] False) (\<lambda>_.
         when_drained (drain_stream_preview (ch_stderr c) EXEC_OUTPUT_PREVIEW_LIMIT 0 [] False) (\<lambda>_.
         lift_op (hreturn (exit_code status)))))"

definition host_exec_spawn :: "'c host_env \<Rightarrow> i32 \<Rightarrow> i32 \<Rightarrow> ('c, i32) host_fn" where
  "host_exec_spawn env ptr len =
    hfn (ensure_exec env) (\<lambda>_.
    if sint len \<le> 0 then lift_op (hreturn EXEC_EINVAL)
    else hfn (read_utf8 ptr len) (\<lambda>command. with_child env command spawn_finish))"

text \<open>\<open>cap.saturating_sub(4) as usize\<close>.\<close>

definition capture_limit :: "i32 \<Rightarrow> nat" where
  "capture_limit cap = as_usize (if sint cap - 4 < - (2 ^ 31) then - (2 ^ 31) else cap - 4)"

text \<open>Write a drained stream into the guest's buffer; \<open>Some code\<close> is an early return.\<close>

definition deliver_capture ::
  "string \<Rightarrow> i32 \<Rightarrow> i32 \<Rightarrow> bytes \<times> bool \<times> bool \<Rightarrow> ('c, i32 option) host_op" where
  "deliver_capture overflow ptr cap drained =
    (case drained of (preview, ok, truncated) \<Rightarrow>
      if ok \<and> 0 < sint cap then
        if truncated \<or> capture_limit cap < length preview then hreturn (Some EXEC_ENOSPACE)
        else
          hbind (write_bytes ptr (le32 (word_of_nat (length preview)))) (\<lambda>_.
          if preview = [] then hreturn None
          else case checked_add4 ptr of
            None \<Rightarrow> hfail overflow
          | Some p \<Rightarrow> hbind (write_bytes p preview) (\<lambda>_. hreturn None))
      else if 4 \<le> sint cap then hbind (write_bytes ptr (le32 0)) (\<lambda>_. hreturn None)
      else hreturn None)"

definition capture_stream ::
  "string \<Rightarrow> i32 \<Rightarrow> i32 \<Rightarrow> (nat \<Rightarrow> read_result option) \<Rightarrow> ('c, i32) host_fn \<Rightarrow> ('c, i32) host_fn" where
  "capture_stream overflow ptr cap stream k =
    when_drained (drain_stream_preview stream (capture_limit cap) 0 [] False) (\<lambda>drained.
    hfn (deliver_capture overflow ptr cap drained) (\<lambda>early.
    case early of Some code \<Rightarrow> lift_op (hreturn code) | None \<Rightarrow> k))"

definition capture_finish :: "i32 \<Rightarrow> i32 \<Rightarrow> i32 \<Rightarrow> i32 \<Rightarrow> i32 + child \<times> i32 option \<Rightarrow> ('c, i32) host_fn" where
  "capture_finish stdout_ptr stdout_cap stderr_ptr stderr_cap started =
    (case started of
       Inl code \<Rightarrow> lift_op (hreturn code)
     | Inr (c, status) \<Rightarrow>
         capture_stream ''stdout pointer overflow'' stdout_ptr stdout_cap (ch_stdout c)
           (capture_stream ''stderr pointer overflow'' stderr_ptr stderr_cap (ch_stderr c)
             (lift_op (hreturn (exit_code status)))))"

definition host_exec_spawn_capture ::
  "'c host_env \<Rightarrow> i32 \<Rightarrow> i32 \<Rightarrow> i32 \<Rightarrow> i32 \<Rightarrow> i32 \<Rightarrow> i32 \<Rightarrow> ('c, i32) host_fn" where
  "host_exec_spawn_capture env ptr len stdout_ptr stdout_cap stderr_ptr stderr_cap =
    hfn (ensure_exec env) (\<lambda>_.
    if sint len \<le> 0 \<or> sint stdout_cap < 0 \<or> sint stderr_cap < 0 then lift_op (hreturn EXEC_EINVAL)
    else if (0 < sint stdout_cap \<and> sint stdout_cap < 4) \<or> (0 < sint stderr_cap \<and> sint stderr_cap < 4)
    then lift_op (hreturn EXEC_ENOSPACE)
    else if EXEC_CAPTURE_MAX_BUF < as_usize stdout_cap \<or> EXEC_CAPTURE_MAX_BUF < as_usize stderr_cap
    then lift_op (hreturn EXEC_ENOSPACE)
    else hfn (read_utf8 ptr len) (\<lambda>command.
      with_child env command (capture_finish stdout_ptr stdout_cap stderr_ptr stderr_cap)))"

section \<open>Readiness and mailbox\<close>

definition notify_ready_hostcall :: "'c host \<Rightarrow> 'c host" where
  "notify_ready_hostcall s = s\<lparr>hs_ready := map_option (signal_guest_ready NotifyHostcall) (hs_ready s)\<rparr>"

definition notify_mailbox_recv :: "'c host \<Rightarrow> 'c host" where
  "notify_mailbox_recv s = s\<lparr>hs_ready := map_option (signal_guest_ready MailboxFirstRecv) (hs_ready s)\<rparr>"

definition host_notify_ready :: "('c, unit) host_op" where
  "host_notify_ready s = (notify_ready_hostcall s, Inr ())"

definition mailbox_try_recv :: "'c host \<Rightarrow> 'c host \<times> (header \<times> bytes) option" where
  "mailbox_try_recv s =
    (case hs_peeked s of
       Some envelope \<Rightarrow> (s\<lparr>hs_peeked := None\<rparr>, Some envelope)
     | None \<Rightarrow> (case hs_inbox s of
         [] \<Rightarrow> (s, None)
       | envelope # rest \<Rightarrow> (s\<lparr>hs_inbox := rest\<rparr>, Some envelope)))"

definition mailbox_peek_meta :: "'c host \<Rightarrow> 'c host \<times> header option" where
  "mailbox_peek_meta s =
    (let s = (case hs_peeked s of
                Some _ \<Rightarrow> s
              | None \<Rightarrow> (case hs_inbox s of
                  [] \<Rightarrow> s
                | envelope # rest \<Rightarrow> s\<lparr>hs_inbox := rest, hs_peeked := Some envelope\<rparr>))
     in (s, map_option fst (hs_peeked s)))"

definition host_mailbox_recv :: "i32 \<Rightarrow> i32 \<Rightarrow> ('c, i32) host_op" where
  "host_mailbox_recv ptr len s =
    (case mailbox_try_recv (notify_mailbox_recv s) of
       (s, None) \<Rightarrow> (s, Inr 0)
     | (s, Some (_, body)) \<Rightarrow>
         if as_usize len < length body then (s, Inl ''mailbox buffer too small'')
         else hbind (write_bytes ptr body) (\<lambda>_. hreturn (word_of_nat (length body))) s)"

definition field :: "string \<Rightarrow> string" where
  "field name = [CHR 0x22] @ name @ [CHR 0x22, CHR '':'']"

definition meta_json :: "header \<Rightarrow> string" where
  "meta_json h =
    ''{'' @ field ''trace_id'' @ [CHR 0x22] @ to_hex (put_uint 16 (hdr_trace_id h)) @ [CHR 0x22]
    @ '','' @ field ''msg_id'' @ decimal (unat (hdr_msg_id h))
    @ '','' @ field ''created_at_ms'' @ decimal (unat (hdr_created_at_ms h))
    @ '','' @ field ''ttl_ms'' @ decimal (unat (hdr_ttl_ms h))
    @ '','' @ field ''schema_id'' @ decimal (unat (hdr_schema_id h)) @ ''}''"

definition host_mailbox_peek_meta :: "i32 \<Rightarrow> i32 \<Rightarrow> ('c, i32) host_op" where
  "host_mailbox_peek_meta ptr len s =
    (if sint len \<le> 0 then (s, Inr 0)
     else case mailbox_peek_meta s of
       (s, None) \<Rightarrow> (s, Inr 0)
     | (s, Some h) \<Rightarrow>
         let bs = utf8_bytes (meta_json h) in
         if as_usize len < length bs then (s, Inl ''mailbox meta buffer too small'')
         else hbind (write_bytes ptr bs) (\<lambda>_. hreturn (word_of_nat (length bs))) s)"

section \<open>The linker\<close>

datatype hostcall =
    TimeNow
  | HttpRequest i32 i32
  | KbRead i32 i32
  | KbWrite i32 i32
  | ModelComplete i32 i32 i32 i32 i32 i32
  | ResolveSecret i32 i32
  | ExecSpawn i32 i32
  | ExecSpawnCapture i32 i32 i32 i32 i32 i32
  | NotifyReady
  | MailboxPeekMeta i32 i32
  | MailboxRecv i32 i32

datatype host_value = Unit | Value32 i32 | Value64 i64

definition returns :: "('a \<Rightarrow> 'b) \<Rightarrow> ('c, 'a) host_fn \<Rightarrow> ('c, 'b) host_fn" where
  "returns f m s = map_option (\<lambda>(s, r). (s, map_sum id f r)) (m s)"

fun host_call :: "'c host_env \<Rightarrow> hostcall \<Rightarrow> ('c, host_value) host_fn" where
  "host_call env TimeNow = returns Value64 (lift_op (host_time_now env))"
| "host_call env (HttpRequest p n) = returns Value32 (lift_op (host_http_request env p n))"
| "host_call env (KbRead p n) = returns Value32 (lift_op (host_kb_read env p n))"
| "host_call env (KbWrite p n) = returns Value32 (lift_op (host_kb_write env p n))"
| "host_call env (ModelComplete p n op oc mp mc) = returns Value32 (host_model_complete env p n op oc mp mc)"
| "host_call env (ResolveSecret p n) = returns Value32 (lift_op (host_resolve_secret env p n))"
| "host_call env (ExecSpawn p n) = returns Value32 (host_exec_spawn env p n)"
| "host_call env (ExecSpawnCapture p n op oc ep ec) = returns Value32 (host_exec_spawn_capture env p n op oc ep ec)"
| "host_call env NotifyReady = returns (\<lambda>_. Unit) (lift_op host_notify_ready)"
| "host_call env (MailboxPeekMeta p n) = returns Value32 (lift_op (host_mailbox_peek_meta p n))"
| "host_call env (MailboxRecv p n) = returns Value32 (lift_op (host_mailbox_recv p n))"

end
