(* ===== verification/Runtime_Host_Props.thy ===== *)
theory Runtime_Host_Props
  imports Runtime_Host
begin

text \<open>
  Properties of the hostcalls (\<open>Runtime_Host\<close>): no call does anything but audit without its
  capability, in one call and in a whole run of a guest; the counters agree with the audit
  records; the mailbox is a queue;
  and where the checks fall short of their intent.
\<close>

section \<open>Combinators\<close>

named_theorems host_simps \<open>unfolding the combinators of hostcalls\<close>

lemma hbind_eq [host_simps]:
  "hbind m f s = (case m s of (s, Inl e) \<Rightarrow> (s, Inl e) | (s, Inr a) \<Rightarrow> f a s)"
  by (simp add: hbind_def)

lemma hfn_eq [host_simps]:
  "hfn m f s = (case m s of (s, Inl e) \<Rightarrow> Some (s, Inl e) | (s, Inr a) \<Rightarrow> f a s)"
  by (simp add: hfn_def)

declare hreturn_def [host_simps] hfail_def [host_simps] lift_op_def [host_simps]

section \<open>What an audit changes\<close>

text \<open>Everything of the state but the audit trail, its counters and the clock ticks.\<close>

definition audit_only :: "'c host \<Rightarrow> 'c host \<Rightarrow> bool" where
  "audit_only s s' = (s'\<lparr>hs_audit := hs_audit s, hs_cap_audits := hs_cap_audits s, hs_allowed := hs_allowed s,
     hs_denied := hs_denied s, hs_deny_flag := hs_deny_flag s, hs_last_denial := hs_last_denial s,
     hs_ticks := hs_ticks s\<rparr> = s)"

lemma audit_only_refl [simp]: "audit_only s s"
  by (simp add: audit_only_def)

lemma audit_only_trans: "audit_only s t \<Longrightarrow> audit_only t u \<Longrightarrow> audit_only s u"
  unfolding audit_only_def by (cases s; cases t; cases u) simp

lemma audit_only_record [simp]:
  "audit_only s (record_cap_audit env d cap op target args reason sev s)"
  by (simp add: audit_only_def record_cap_audit_def tick_def)

lemma audit_only_allow [simp]: "audit_only s (host_allow env cap op target args s)"
  by (simp add: audit_only_def host_allow_def record_cap_audit_def tick_def)

lemma audit_only_denial [simp]: "audit_only s (record_cap_denial env cap op target args reason s)"
  by (simp add: audit_only_def record_cap_denial_def record_cap_audit_def sink_record_def tick_def Let_def)

lemma audit_only_fields:
  assumes "audit_only s s'"
  shows "hs_caps s' = hs_caps s" "hs_broker s' = hs_broker s" "hs_secrets s' = hs_secrets s"
    "hs_handles s' = hs_handles s" "hs_identity s' = hs_identity s" "hs_ready s' = hs_ready s"
    "hs_audit_policy s' = hs_audit_policy s" "hs_expose_raw s' = hs_expose_raw s" "hs_inbox s' = hs_inbox s"
    "hs_peeked s' = hs_peeked s" "hs_memory s' = hs_memory s" "hs_spawned s' = hs_spawned s"
  using assms unfolding audit_only_def by (cases s; cases s'; simp)+

lemmas audit_only_fields_simps [simp] =
  audit_only_fields [OF audit_only_allow] audit_only_fields [OF audit_only_denial]

section \<open>Denied calls\<close>

lemma gate_granted: "gate env True cap op target args reason s = (host_allow env cap op target args s, Inr ())"
  by (simp add: gate_def)

lemma gate_denied:
  "gate env False cap op target args reason s =
     (record_cap_denial env cap op target args reason s, Inl (''capability denied: '' @ cap @ '' ('' @ reason @ '')''))"
  by (simp add: gate_def host_deny_def)

lemma read_bytes_state [simp]: "fst (read_bytes p n s) = s"
  by (simp add: read_bytes_def split: option.split)

lemma read_utf8_state [simp]: "fst (read_utf8 p n s) = s"
  by (auto simp: read_utf8_def read_bytes_def host_simps split: option.split)

definition net_permitted :: "'c host_env \<Rightarrow> caps \<Rightarrow> string \<Rightarrow> bool" where
  "net_permitted env c host =
    ((plain_http env host \<longrightarrow> cap_net_allow_http c) \<and> list_ex (\<lambda>allowed. host_allows env allowed host) (cap_net_hosts c))"

lemma ensure_net_permitted:
  "net_permitted env (hs_caps s) host \<Longrightarrow>
     ensure_net env host s = (host_allow env ''net.http'' ''http_request'' host (utf8_bytes host) s, Inr ())"
  by (auto simp: ensure_net_def net_permitted_def Let_def)

lemma ensure_net_refused:
  "\<not> net_permitted env (hs_caps s) host \<Longrightarrow> \<exists>s' e. ensure_net env host s = (s', Inl e) \<and> audit_only s s'"
  by (auto simp: ensure_net_def net_permitted_def host_deny_def Let_def)

text \<open>What a call needs: its capability for the argument it names.\<close>

definition named :: "i32 \<Rightarrow> i32 \<Rightarrow> (string \<Rightarrow> bool) \<Rightarrow> 'c host \<Rightarrow> bool" where
  "named ptr len P s = (case snd (read_utf8 ptr len s) of Inr text \<Rightarrow> P text | Inl _ \<Rightarrow> False)"

fun hostcall_granted :: "'c host_env \<Rightarrow> hostcall \<Rightarrow> 'c host \<Rightarrow> bool" where
  "hostcall_granted env TimeNow s = cap_time (hs_caps s)"
| "hostcall_granted env (HttpRequest p n) s = named p n (net_permitted env (hs_caps s)) s"
| "hostcall_granted env (KbRead p n) s = named p n (permits_namespace (cap_kb_read (hs_caps s))) s"
| "hostcall_granted env (KbWrite p n) s = named p n (permits_namespace (cap_kb_write (hs_caps s))) s"
| "hostcall_granted env (ModelComplete _ _ _ _ _ _) s = cap_model (hs_caps s)"
| "hostcall_granted env (ResolveSecret p n) s = named p n (permits_secret (hs_caps s)) s"
| "hostcall_granted env (ExecSpawn _ _) s = cap_exec (hs_caps s)"
| "hostcall_granted env (ExecSpawnCapture _ _ _ _ _ _) s = cap_exec (hs_caps s)"
| "hostcall_granted env _ s = True"

lemma named_refused:
  assumes "\<not> named p n P s" and "\<And>text. \<not> P text \<Longrightarrow> \<exists>s' e. f text s = (s', Inl e) \<and> audit_only s s'"
  shows "\<exists>s' e. hbind (read_utf8 p n) f s = (s', Inl e) \<and> audit_only s s'"
proof -
  obtain r where r: "read_utf8 p n s = (s, r)" using read_utf8_state [of p n s] by (metis prod.collapse)
  then show ?thesis using assms by (cases r) (auto simp: named_def host_simps)
qed

lemma hbind_refused:
  assumes "\<exists>s' e. m s = (s', Inl e) \<and> audit_only s s'"
  shows "\<exists>s' e. hbind m f s = (s', Inl e) \<and> audit_only s s'"
  using assms by (auto simp: host_simps)

lemma gate_refused:
  "\<not> granted \<Longrightarrow> \<exists>s' e. gate env granted cap op target args reason s = (s', Inl e) \<and> audit_only s s'"
  by (simp add: gate_denied)

lemma returns_trap: "m s = Some (s', Inl e) \<Longrightarrow> returns f m s = Some (s', Inl e)"
  by (simp add: returns_def)

lemma hostcall_refused:
  assumes "\<not> hostcall_granted env hc s"
  shows "\<exists>s' e. host_call env hc s = Some (s', Inl e) \<and> audit_only s s'"
proof -
  have op: "\<exists>s' e. returns f (lift_op m) s = Some (s', Inl e) \<and> audit_only s s'"
    if "\<exists>s' e. m s = (s', Inl e) \<and> audit_only s s'" for f :: "'b \<Rightarrow> host_value" and m :: "('a, 'b) host_op"
    using that by (auto simp: returns_def lift_op_def)
  have fn: "\<exists>s' e. returns f (hfn m k) s = Some (s', Inl e) \<and> audit_only s s'"
    if "\<exists>s' e. m s = (s', Inl e) \<and> audit_only s s'" for f :: "i32 \<Rightarrow> host_value" and m :: "('a, unit) host_op" and k
    using that by (auto simp: returns_def host_simps)
  show ?thesis
  proof (cases hc)
    case TimeNow
    then show ?thesis using assms
      by (simp only: host_call.simps hostcall_granted.simps host_time_now_def)
        (intro op hbind_refused, simp add: ensure_time_def gate_denied)
  next
    case (HttpRequest p n)
    then show ?thesis using assms
      by (simp only: host_call.simps hostcall_granted.simps host_http_request_def)
        (intro op, erule named_refused, intro hbind_refused ensure_net_refused)
  next
    case (KbRead p n)
    then show ?thesis using assms
      by (simp only: host_call.simps hostcall_granted.simps host_kb_read_def)
        (intro op, erule named_refused, intro hbind_refused, simp add: ensure_kb_read_def gate_denied)
  next
    case (KbWrite p n)
    then show ?thesis using assms
      by (simp only: host_call.simps hostcall_granted.simps host_kb_write_def)
        (intro op, erule named_refused, intro hbind_refused, simp add: ensure_kb_write_def gate_denied)
  next
    case (ModelComplete p n op' oc mp mc)
    then show ?thesis using assms
      by (simp only: host_call.simps hostcall_granted.simps host_model_complete_def)
        (intro fn, simp add: ensure_model_def gate_denied)
  next
    case (ResolveSecret p n)
    then show ?thesis using assms
      by (simp only: host_call.simps hostcall_granted.simps host_resolve_secret_def)
        (intro op, erule named_refused, intro hbind_refused, simp add: ensure_secret_def Let_def gate_denied)
  next
    case (ExecSpawn p n)
    then show ?thesis using assms
      by (simp only: host_call.simps hostcall_granted.simps host_exec_spawn_def)
        (intro fn, simp add: ensure_exec_def gate_denied)
  next
    case (ExecSpawnCapture p n op' oc ep ec)
    then show ?thesis using assms
      by (simp only: host_call.simps hostcall_granted.simps host_exec_spawn_capture_def)
        (intro fn, simp add: ensure_exec_def gate_denied)
  qed (use assms in simp_all)
qed

section \<open>Predicates that every call keeps\<close>

text \<open>\<open>c\<close> are the capabilities of the agent, which no call changes.\<close>

definition keeps :: "('c host \<Rightarrow> bool) \<Rightarrow> caps \<Rightarrow> ('c, 'a) host_op \<Rightarrow> bool" where
  "keeps P c m = (\<forall>s. P s \<and> hs_caps s = c \<longrightarrow> P (fst (m s)) \<and> hs_caps (fst (m s)) = c)"

definition keeps_fn :: "('c host \<Rightarrow> bool) \<Rightarrow> caps \<Rightarrow> ('c, 'a) host_fn \<Rightarrow> bool" where
  "keeps_fn P c m = (\<forall>s s' r. P s \<and> hs_caps s = c \<and> m s = Some (s', r) \<longrightarrow> P s' \<and> hs_caps s' = c)"

lemma keepsI: "(\<And>s. P s \<Longrightarrow> hs_caps s = c \<Longrightarrow> P (fst (m s)) \<and> hs_caps (fst (m s)) = c) \<Longrightarrow> keeps P c m"
  by (simp add: keeps_def)

lemma keeps_fnI:
  "(\<And>s s' r. P s \<Longrightarrow> hs_caps s = c \<Longrightarrow> m s = Some (s', r) \<Longrightarrow> P s' \<and> hs_caps s' = c) \<Longrightarrow> keeps_fn P c m"
  unfolding keeps_fn_def by blast

lemma keepsD: "keeps P c m \<Longrightarrow> P s \<Longrightarrow> hs_caps s = c \<Longrightarrow> m s = (s', r) \<Longrightarrow> P s' \<and> hs_caps s' = c"
  unfolding keeps_def by (metis fst_conv)

lemma keeps_fnD: "keeps_fn P c m \<Longrightarrow> P s \<Longrightarrow> hs_caps s = c \<Longrightarrow> m s = Some (s', r) \<Longrightarrow> P s' \<and> hs_caps s' = c"
  unfolding keeps_fn_def by blast

lemma keeps_hreturn [intro]: "keeps P c (hreturn a)"
  by (simp add: keeps_def hreturn_def)

lemma keeps_hfail [intro]: "keeps P c (hfail e)"
  by (simp add: keeps_def hfail_def)

lemma keeps_hbind:
  assumes "keeps P c m" "\<And>a. keeps P c (f a)"
  shows "keeps P c (hbind m f)"
proof (rule keepsI)
  fix s
  assume s: "P s" "hs_caps s = c"
  obtain s' r where m: "m s = (s', r)" by fastforce
  note s' = keepsD [OF assms(1) s m]
  show "P (fst (hbind m f s)) \<and> hs_caps (fst (hbind m f s)) = c"
  proof (cases r)
    case (Inr a)
    obtain s'' r' where f: "f a s' = (s'', r')" by fastforce
    then show ?thesis using m Inr keepsD [OF assms(2) _ _ f] s' by (simp add: host_simps)
  qed (use m s' in \<open>simp add: host_simps\<close>)
qed

lemma keeps_lift: "keeps P c m \<Longrightarrow> keeps_fn P c (lift_op m)"
  by (auto simp: lift_op_def dest: keepsD intro!: keeps_fnI)

lemma keeps_hfn:
  assumes "keeps P c m" "\<And>a. keeps_fn P c (f a)"
  shows "keeps_fn P c (hfn m f)"
proof (rule keeps_fnI)
  fix s s' r
  assume s: "P s" "hs_caps s = c" and run: "hfn m f s = Some (s', r)"
  obtain t r0 where m: "m s = (t, r0)" by fastforce
  note t = keepsD [OF assms(1) s m]
  show "P s' \<and> hs_caps s' = c"
  proof (cases r0)
    case (Inr a)
    then have "f a t = Some (s', r)" using run m by (simp add: host_simps)
    then show ?thesis using keeps_fnD [OF assms(2)] t by blast
  qed (use run m t in \<open>simp add: host_simps\<close>)
qed

lemma keeps_returns: "keeps_fn P c m \<Longrightarrow> keeps_fn P c (returns f m)"
  by (auto simp: returns_def dest: keeps_fnD intro!: keeps_fnI)

lemma keeps_read_utf8: "keeps P c (read_utf8 p n)"
  by (simp add: keeps_def)

lemma keeps_read_bytes: "keeps P c (read_bytes p n)"
  by (simp add: keeps_def)

text \<open>A predicate on the state that survives the elementary changes: audits, ticks, guest memory,
  the mailbox, readiness, and the resources behind a capability when that is granted.\<close>

locale host_invariant =
  fixes P :: "'c host \<Rightarrow> bool"
  assumes kept_allow: "P s \<Longrightarrow> cap \<noteq> ''caps.empty'' \<Longrightarrow> P (host_allow env cap op target args s)"
    and kept_denial: "P s \<Longrightarrow> cap \<noteq> ''caps.empty'' \<Longrightarrow> P (record_cap_denial env cap op target args reason s)"
    and kept_tick: "P s \<Longrightarrow> P (tick s)"
    and kept_memory: "P s \<Longrightarrow> P (s\<lparr>hs_memory := mem\<rparr>)"
    and kept_mailbox: "P s \<Longrightarrow> P (s\<lparr>hs_inbox := q, hs_peeked := e\<rparr>)"
    and kept_ready: "P s \<Longrightarrow> P (s\<lparr>hs_ready := i\<rparr>)"
    and kept_flag: "P s \<Longrightarrow> P (s\<lparr>hs_deny_flag := b, hs_last_denial := l\<rparr>)"
    and kept_broker: "P s \<Longrightarrow> cap_model (hs_caps s) \<Longrightarrow> P (s\<lparr>hs_broker := br\<rparr>)"
    and kept_spawned: "P s \<Longrightarrow> cap_exec (hs_caps s) \<Longrightarrow> P (s\<lparr>hs_spawned := cs\<rparr>)"
    and kept_secrets: "P s \<Longrightarrow> cap_secrets (hs_caps s) \<noteq> {} \<Longrightarrow> P (s\<lparr>hs_secrets := p, hs_handles := h\<rparr>)"
begin

lemma keeps_gate: "cap \<noteq> ''caps.empty'' \<Longrightarrow> keeps P c (gate env granted cap op target args reason)"
  by (cases granted) (auto simp: keeps_def gate_granted gate_denied kept_allow kept_denial)

lemma keeps_deny: "cap \<noteq> ''caps.empty'' \<Longrightarrow> keeps P c (host_deny env cap op target args reason)"
  by (auto simp: keeps_def host_deny_def kept_denial)

lemma keeps_ensure:
  "keeps P c (ensure_time env op)" "keeps P c (ensure_kb_read env ns)" "keeps P c (ensure_kb_write env ns)"
  "keeps P c (ensure_model env)" "keeps P c (ensure_secret env i)" "keeps P c (ensure_exec env)"
  using keeps_gate by (simp_all add: keeps_def ensure_time_def ensure_kb_read_def ensure_kb_write_def ensure_model_def
      ensure_secret_def ensure_exec_def Let_def)

lemma keeps_ensure_net: "keeps P c (ensure_net env host)"
proof (rule keepsI)
  fix s :: "'c host"
  assume s: "P s" "hs_caps s = c"
  show "P (fst (ensure_net env host s)) \<and> hs_caps (fst (ensure_net env host s)) = c"
    using s by (simp add: ensure_net_def Let_def host_deny_def kept_allow kept_denial)
qed

lemma keeps_write: "keeps P c (write_bytes p data)"
  by (auto simp: keeps_def write_bytes_def kept_memory split: option.split)

lemma keeps_tick: "P s \<Longrightarrow> hs_caps s = c \<Longrightarrow> P (tick s) \<and> hs_caps (tick s) = c"
  using kept_tick by (simp add: tick_def)

lemma keeps_secrets:
  assumes "P s" "cap_secrets (hs_caps s) \<noteq> {}"
  shows "P (fst (issue_secret_handle env i s))" "P (fst (resolve_secret_value env i s))"
    "hs_caps (fst (issue_secret_handle env i s)) = hs_caps s" "hs_caps (fst (resolve_secret_value env i s)) = hs_caps s"
proof -
  have only: "P (s\<lparr>hs_secrets := p\<rparr>)" for p
    using kept_secrets [OF assms, where p = p and h = "hs_handles s"] by simp
  show "P (fst (issue_secret_handle env i s))" "P (fst (resolve_secret_value env i s))"
    using kept_tick kept_secrets [OF assms] only
    by (auto simp: issue_secret_handle_def resolve_secret_value_def Let_def split: prod.split)
  show "hs_caps (fst (issue_secret_handle env i s)) = hs_caps s" "hs_caps (fst (resolve_secret_value env i s)) = hs_caps s"
    by (auto simp: issue_secret_handle_def resolve_secret_value_def tick_def Let_def split: prod.split)
qed

lemma keeps_resolve_secret:
  assumes "cap_secrets c \<noteq> {}"
  shows "keeps P c (host_resolve_secret env p n)"
  unfolding host_resolve_secret_def
proof (intro keeps_hbind keeps_read_utf8 keeps_ensure keepsI)
  fix i :: string and s :: "'c host"
  let ?run = "\<lambda>s. if hs_expose_raw s then resolve_secret_value env i s else issue_secret_handle env i s"
  assume s: "P s" "hs_caps s = c"
  obtain s1 v where run: "?run s = (s1, v)" by fastforce
  have s1: "P s1" "hs_caps s1 = c"
    using keeps_secrets [OF s(1), of env i] s assms run by (auto split: if_splits)
  have "keeps P c (give_text p w)" for w
    unfolding give_text_def write_utf8_def by (intro keeps_hbind keeps_write keeps_hreturn)
  moreover have "keeps P c (secret_unknown env i)" by (simp add: secret_unknown_def Let_def keeps_deny)
  ultimately show "P (fst (case ?run s of (s, Some value) \<Rightarrow> give_text p value s | (s, None) \<Rightarrow> secret_unknown env i s)) \<and>
      hs_caps (fst (case ?run s of (s, Some value) \<Rightarrow> give_text p value s | (s, None) \<Rightarrow> secret_unknown env i s)) = c"
    using s1 run by (cases v) (simp_all add: keeps_def)
qed

lemma keeps_simple_calls:
  "keeps P c (host_time_now env)" "keeps P c (host_http_request env p n)"
  "keeps P c (host_kb_read env p n)" "keeps P c (host_kb_write env p n)"
proof -
  have "keeps P c (\<lambda>s. case he_micros env (hs_ticks s) of Some us \<Rightarrow> (tick s, Inr (word_of_nat us :: i64))
      | None \<Rightarrow> (tick s, Inl ''system clock before unix epoch''))"
    by (rule keepsI) (simp add: keeps_tick split: option.split)
  then show "keeps P c (host_time_now env)" unfolding host_time_now_def by (intro keeps_hbind keeps_ensure)
  show "keeps P c (host_http_request env p n)" "keeps P c (host_kb_read env p n)" "keeps P c (host_kb_write env p n)"
    unfolding host_http_request_def host_kb_read_def host_kb_write_def
    by (intro keeps_hbind keeps_read_utf8 keeps_ensure keeps_ensure_net keeps_hreturn)+
qed

lemma keeps_mailbox:
  "keeps P c (host_mailbox_recv p n)" "keeps P c (host_mailbox_peek_meta p n)" "keeps P c host_notify_ready"
proof -
  have peeked: "P (s\<lparr>hs_peeked := e\<rparr>)" if "P s" for s e using kept_mailbox [OF that, where q = "hs_inbox s" and e = e] by simp
  have inbox: "P (s\<lparr>hs_inbox := q\<rparr>)" if "P s" for s q using kept_mailbox [OF that, where q = q and e = "hs_peeked s"] by simp
  have give: "keeps P c (hbind (write_bytes p bs) (\<lambda>_. hreturn v))" for bs and v :: i32
    by (intro keeps_hbind keeps_write keeps_hreturn)
  have recv: "P (fst (mailbox_try_recv s)) \<and> hs_caps (fst (mailbox_try_recv s)) = hs_caps s" if "P s" for s
    using that peeked inbox by (auto simp: mailbox_try_recv_def split: option.split list.split)
  have peek: "P (fst (mailbox_peek_meta s)) \<and> hs_caps (fst (mailbox_peek_meta s)) = hs_caps s" if "P s" for s
    using that kept_mailbox by (auto simp: mailbox_peek_meta_def Let_def split: option.split list.split)
  show "keeps P c (host_mailbox_recv p n)"
  proof (rule keepsI)
    fix s :: "'c host"
    assume s: "P s" "hs_caps s = c"
    have n: "P (notify_mailbox_recv s)" "hs_caps (notify_mailbox_recv s) = c"
      using kept_ready s by (simp_all add: notify_mailbox_recv_def)
    obtain s1 e where r: "mailbox_try_recv (notify_mailbox_recv s) = (s1, e)" by fastforce
    then have s1: "P s1" "hs_caps s1 = c" using recv [OF n(1)] n(2) by simp_all
    show "P (fst (host_mailbox_recv p n s)) \<and> hs_caps (fst (host_mailbox_recv p n s)) = c"
    proof (cases e)
      case (Some m)
      then show ?thesis using r s1 give [unfolded keeps_def] by (cases m) (simp add: host_mailbox_recv_def)
    qed (use r s1 in \<open>simp add: host_mailbox_recv_def\<close>)
  qed
  show "keeps P c (host_mailbox_peek_meta p n)"
  proof (rule keepsI)
    fix s :: "'c host"
    assume s: "P s" "hs_caps s = c"
    obtain s1 e where r: "mailbox_peek_meta s = (s1, e)" by fastforce
    then have s1: "P s1" "hs_caps s1 = c" using peek [OF s(1)] s(2) by simp_all
    show "P (fst (host_mailbox_peek_meta p n s)) \<and> hs_caps (fst (host_mailbox_peek_meta p n s)) = c"
      using r s s1 give [unfolded keeps_def] by (cases e) (simp_all add: host_mailbox_peek_meta_def Let_def)
  qed
  show "keeps P c host_notify_ready"
    by (simp add: keeps_def host_notify_ready_def notify_ready_hostcall_def kept_ready)
qed

lemma keeps_completion: "keeps P c (give_completion env response op oc mp mc)"
proof -
  have "keeps P c (write_meta env response mp mc v)" for v
    by (auto simp: write_meta_def split: option.split intro!: keeps_hbind keeps_write)
  then show ?thesis by (auto simp: give_completion_def Let_def intro!: keeps_hbind keeps_write)
qed

lemma keeps_broker:
  assumes "P s" "cap_model (hs_caps s)" "host_broker_complete env request s = Some (s', r)"
  shows "P s' \<and> hs_caps s' = hs_caps s"
proof -
  have "P (tick s)" "cap_model (hs_caps (tick s))" using assms kept_tick by (simp_all add: tick_def)
  then have br: "P ((tick s)\<lparr>hs_broker := b\<rparr>)" for b by (rule kept_broker)
  have "(\<exists>b. s' = (tick s)\<lparr>hs_broker := b\<rparr>) \<or> s' = tick s"
    using assms(3) by (auto simp: host_broker_complete_def Let_def split: if_splits option.splits)
  then show ?thesis using br \<open>P (tick s)\<close> by (auto simp: tick_def)
qed

lemma keeps_model_complete:
  assumes "cap_model c"
  shows "keeps_fn P c (host_model_complete env p n op oc mp mc)"
proof -
  have "keeps_fn P c (\<lambda>s. map_option (\<lambda>(s, result). case result of
        Inl err \<Rightarrow> (s, Inr (map_broker_error err)) | Inr response \<Rightarrow> give_completion env response op oc mp mc s)
      (host_broker_complete env request s))" for request
  proof (rule keeps_fnI)
    fix s s' :: "'c host" and r
    assume s: "P s" "hs_caps s = c"
      and run: "map_option (\<lambda>(s, result). case result of
        Inl err \<Rightarrow> (s, Inr (map_broker_error err)) | Inr response \<Rightarrow> give_completion env response op oc mp mc s)
      (host_broker_complete env request s) = Some (s', r)"
    then obtain t res where t: "host_broker_complete env request s = Some (t, res)" by (cases "host_broker_complete env request s") auto
    have t': "P t" "hs_caps t = c" using keeps_broker [OF s(1) _ t] s(2) assms by simp_all
    show "P s' \<and> hs_caps s' = c"
    proof (cases res)
      case (Inr response)
      then have "give_completion env response op oc mp mc t = (s', r)" using run t by simp
      then show ?thesis by (rule keepsD [OF keeps_completion t'])
    qed (use run t t' in simp)
  qed
  then show ?thesis unfolding host_model_complete_def
    by (auto intro!: keeps_hfn keeps_ensure keeps_read_bytes keeps_lift split: option.split)
qed

lemma keeps_start:
  assumes "P s" "cap_exec (hs_caps s)" "exec_start env command s = Some (s', r)"
  shows "P s' \<and> hs_caps s' = hs_caps s"
proof -
  let ?t = "tick (s\<lparr>hs_spawned := hs_spawned s @ [command]\<rparr>)"
  have "P ?t" by (intro kept_tick kept_spawned assms)
  moreover have "s' = ?t" using assms(3) by (auto simp: exec_start_def Let_def split: option.splits)
  ultimately show ?thesis by (simp add: tick_def)
qed

lemma keeps_with_child:
  assumes "cap_exec c" "\<And>x. keeps_fn P c (k x)"
  shows "keeps_fn P c (with_child env command k)"
proof (rule keeps_fnI)
  fix s s' :: "'c host" and r
  assume s: "P s" "hs_caps s = c" and run: "with_child env command k s = Some (s', r)"
  then obtain t started where t: "exec_start env command s = Some (t, started)" "k started t = Some (s', r)"
    by (cases "exec_start env command s") (auto simp: with_child_def)
  have "P t \<and> hs_caps t = c" using keeps_start [OF s(1) _ t(1)] s(2) assms(1) by simp
  then show "P s' \<and> hs_caps s' = c" using keeps_fnD [OF assms(2)] t(2) by blast
qed

lemma keeps_when_drained: "(\<And>x. keeps_fn P c (k x)) \<Longrightarrow> keeps_fn P c (when_drained v k)"
proof (rule keeps_fnI)
  fix s s' :: "'c host" and r
  assume k: "\<And>x. keeps_fn P c (k x)" and s: "P s" "hs_caps s = c" and run: "when_drained v k s = Some (s', r)"
  then obtain x where "k x s = Some (s', r)" by (cases v) (auto simp: when_drained_def)
  then show "P s' \<and> hs_caps s' = c" using keeps_fnD [OF k s] by blast
qed

lemma keeps_deliver: "keeps P c (deliver_capture overflow p cap drained)"
proof -
  obtain preview ok truncated where "drained = (preview, ok, truncated)" by (cases drained)
  then show ?thesis
    by (auto simp: deliver_capture_def split: option.split intro!: keeps_hbind keeps_write)
qed

lemma keeps_exec:
  assumes "cap_exec c"
  shows "keeps_fn P c (host_exec_spawn env p n)" "keeps_fn P c (host_exec_spawn_capture env p n op oc ep ec)"
proof -
  have spawn: "keeps_fn P c (spawn_finish started)" for started
    by (auto simp: spawn_finish_def split: sum.split intro!: keeps_when_drained keeps_lift)
  have stream: "keeps_fn P c (capture_stream overflow ptr cap stream k)" if "keeps_fn P c k" for overflow ptr cap stream k
    unfolding capture_stream_def
    by (intro keeps_when_drained keeps_hfn keeps_deliver) (use that in \<open>auto split: option.split intro!: keeps_lift\<close>)
  have capture: "keeps_fn P c (capture_finish op oc ep ec started)" for started
    by (auto simp: capture_finish_def split: sum.split intro!: stream keeps_lift)
  have code: "keeps_fn P c (lift_op (hreturn v))" for v :: i32 by (intro keeps_lift keeps_hreturn)
  show "keeps_fn P c (host_exec_spawn env p n)" unfolding host_exec_spawn_def
    by (intro keeps_hfn keeps_ensure if_split [of "keeps_fn P c", THEN iffD2] conjI impI code keeps_read_utf8
        keeps_with_child assms spawn)
  show "keeps_fn P c (host_exec_spawn_capture env p n op oc ep ec)" unfolding host_exec_spawn_capture_def
    by (intro keeps_hfn keeps_ensure if_split [of "keeps_fn P c", THEN iffD2] conjI impI code keeps_read_utf8
        keeps_with_child assms capture)
qed

lemma keeps_refused:
  "\<not> cap_model c \<Longrightarrow> keeps_fn P c (hfn (ensure_model env) f)"
  "\<not> cap_exec c \<Longrightarrow> keeps_fn P c (hfn (ensure_exec env) f)"
  "cap_secrets c = {} \<Longrightarrow> keeps P c (hbind (ensure_secret env i) g)"
  by (auto simp: keeps_fn_def keeps_def host_simps ensure_model_def ensure_exec_def ensure_secret_def permits_secret_def
      gate_denied kept_denial Let_def)

lemma keeps_call: "keeps_fn P c (host_call env hc)"
proof (cases hc)
  case (ModelComplete p n op oc mp mc)
  have "keeps_fn P c (host_model_complete env p n op oc mp mc)"
  proof (cases "cap_model c")
    case False
    then show ?thesis unfolding host_model_complete_def by (rule keeps_refused(1))
  qed (rule keeps_model_complete)
  then show ?thesis using ModelComplete by (simp add: keeps_returns)
next
  case (ResolveSecret p n)
  have "keeps P c (host_resolve_secret env p n)"
  proof (cases "cap_secrets c = {}")
    case True
    then show ?thesis unfolding host_resolve_secret_def by (intro keeps_hbind keeps_read_utf8 keeps_refused)
  qed (rule keeps_resolve_secret)
  then show ?thesis using ResolveSecret by (simp add: keeps_returns keeps_lift)
next
  case (ExecSpawn p n)
  have "keeps_fn P c (host_exec_spawn env p n)"
  proof (cases "cap_exec c")
    case False
    then show ?thesis unfolding host_exec_spawn_def by (rule keeps_refused(2))
  qed (rule keeps_exec(1))
  then show ?thesis using ExecSpawn by (simp add: keeps_returns)
next
  case (ExecSpawnCapture p n op oc ep ec)
  have "keeps_fn P c (host_exec_spawn_capture env p n op oc ep ec)"
  proof (cases "cap_exec c")
    case False
    then show ?thesis unfolding host_exec_spawn_capture_def by (rule keeps_refused(2))
  qed (rule keeps_exec(2))
  then show ?thesis using ExecSpawnCapture by (simp add: keeps_returns)
qed (simp_all add: keeps_returns keeps_lift keeps_simple_calls keeps_mailbox)

end

section \<open>Runs of a guest\<close>

text \<open>The guest computes and calls; meanwhile messages arrive, the host signals readiness, the file
  system layer reports denials, and the runtime reads and resets the denial flag.\<close>

inductive host_step :: "'c host_env \<Rightarrow> 'c host \<Rightarrow> 'c host \<Rightarrow> bool" for env where
  call: "host_call env hc s = Some (s', r) \<Longrightarrow> host_step env s s'"
| compute: "host_step env s (s\<lparr>hs_memory := mem\<rparr>)"
| message: "host_step env s (s\<lparr>hs_inbox := hs_inbox s @ [m]\<rparr>)"
| host_ready: "host_step env s (s\<lparr>hs_ready := map_option signal_host_ready (hs_ready s)\<rparr>)"
| external: "cap \<noteq> ''caps.empty'' \<Longrightarrow> host_step env s (record_external_cap_denial env cap op target reason s)"
| reset: "host_step env s (reset_denial_flag s)"
| consume: "host_step env s (fst (consume_denial_flag s))"
| take: "host_step env s (fst (take_last_denial s))"

inductive_cases host_stepE: "host_step env s t"

locale guest_invariant = host_invariant P for P :: "'c host \<Rightarrow> bool" +
  fixes env :: "'c host_env"

sublocale guest_invariant \<subseteq> guest: invariant P "host_step env" P
proof
  fix s t :: "'c host"
  assume P: "P s" and step: "host_step env s t"
  have flag: "P (u\<lparr>hs_deny_flag := b\<rparr>)" "P (u\<lparr>hs_last_denial := l\<rparr>)" if "P u" for u b l
    using kept_flag [OF that, where b = b and l = "hs_last_denial u"] kept_flag [OF that, where b = "hs_deny_flag u" and l = l]
    by simp_all
  from step show "P t"
  proof cases
    case (call hc r)
    then show ?thesis using keeps_fnD [OF keeps_call P refl] by blast
  next
    case (message m)
    then show ?thesis using kept_mailbox [OF P, where q = "hs_inbox s @ [m]" and e = "hs_peeked s"] by simp
  next
    case (external cap op target reason)
    then show ?thesis using kept_denial [OF P] flag by (simp add: record_external_cap_denial_def)
  qed (use P kept_memory kept_ready kept_flag flag in
      \<open>simp_all add: reset_denial_flag_def consume_denial_flag_def take_last_denial_def\<close>)
qed simp

section \<open>The counters agree with the audit\<close>

definition counted :: "audit_decision \<Rightarrow> 'c host \<Rightarrow> u64" where
  "counted d s = of_nat (length (filter (\<lambda>r. ca_decision r = d \<and> ca_cap r \<noteq> ''caps.empty'') (hs_cap_audits s)))"

definition audit_ok :: "'c host \<Rightarrow> bool" where
  "audit_ok s = ((ap_on_deny (hs_audit_policy s) \<longrightarrow> hs_denied s = counted Deny s)
     \<and> (ap_on_allow (hs_audit_policy s) \<longrightarrow> hs_allowed s = counted Allow s))"

lemma audit_ok_cong:
  "hs_cap_audits t = hs_cap_audits s \<Longrightarrow> hs_denied t = hs_denied s \<Longrightarrow> hs_allowed t = hs_allowed s \<Longrightarrow>
     hs_audit_policy t = hs_audit_policy s \<Longrightarrow> audit_ok t = audit_ok s"
  by (simp add: audit_ok_def counted_def)

lemma counted_record:
  assumes "cap \<noteq> ''caps.empty''"
  shows "counted d' (record_cap_audit env d cap op target args reason sev s) =
      counted d' s + (if should_emit (hs_audit_policy s) d \<and> d' = d then 1 else 0)"
  using assms by (simp add: record_cap_audit_def counted_def tick_def cap_audit_new_def)

lemma record_counters [simp]:
  "hs_denied (record_cap_audit env d cap op target args reason sev s) = hs_denied s"
  "hs_allowed (record_cap_audit env d cap op target args reason sev s) = hs_allowed s"
  by (simp_all add: record_cap_audit_def tick_def)

lemma counted_cong: "hs_cap_audits t = hs_cap_audits s \<Longrightarrow> counted d t = counted d s"
  by (simp add: counted_def)

lemma allow_counters:
  assumes "cap \<noteq> ''caps.empty''"
  shows "hs_denied (host_allow env cap op target args s) = hs_denied s"
    "hs_allowed (host_allow env cap op target args s) = hs_allowed s + 1"
    "counted d (host_allow env cap op target args s) = counted d s + (if ap_on_allow (hs_audit_policy s) \<and> d = Allow then 1 else 0)"
  using assms by (simp_all add: host_allow_def counted_record counted_cong [of "s\<lparr>hs_allowed := hs_allowed s + 1\<rparr>" s])

lemma denial_counters:
  assumes "cap \<noteq> ''caps.empty''"
  shows "hs_denied (record_cap_denial env cap op target args reason s) = hs_denied s + 1"
    "hs_allowed (record_cap_denial env cap op target args reason s) = hs_allowed s"
    "counted d (record_cap_denial env cap op target args reason s) =
       counted d s + (if ap_on_deny (hs_audit_policy s) \<and> d = Deny then 1 else 0)"
proof -
  define m where "m = ''capability denied: agent='' @ hs_identity s @ '' cap='' @ cap @ '' op='' @ op @
      '' target='' @ target @ '' reason='' @ reason"
  define t where "t = sink_record env m (s\<lparr>hs_denied := hs_denied s + 1, hs_deny_flag := True\<rparr>)"
  have t: "hs_denied t = hs_denied s + 1" "hs_allowed t = hs_allowed s" "hs_audit_policy t = hs_audit_policy s"
      "hs_cap_audits t = hs_cap_audits s"
    by (simp_all add: t_def sink_record_def tick_def)
  have r: "record_cap_denial env cap op target args reason s =
      (record_cap_audit env Deny cap op target args reason Warn t)\<lparr>hs_last_denial := Some \<lparr>cdi_cap = from_label cap, cdi_op = op,
        cdi_detail = target, cdi_reason = reason, cdi_audit_event = None\<rparr>\<rparr>"
    by (simp add: record_cap_denial_def Let_def t_def m_def)
  have u: "counted d (u\<lparr>hs_last_denial := l\<rparr>) = counted d u" for u :: "'a host" and l by (simp add: counted_def)
  show "hs_denied (record_cap_denial env cap op target args reason s) = hs_denied s + 1"
    "hs_allowed (record_cap_denial env cap op target args reason s) = hs_allowed s" using t by (simp_all add: r)
  show "counted d (record_cap_denial env cap op target args reason s) =
       counted d s + (if ap_on_deny (hs_audit_policy s) \<and> d = Deny then 1 else 0)"
    using counted_cong [OF t(4)] t(3) by (simp add: r u counted_record [OF assms])
qed

interpretation audit: guest_invariant audit_ok env for env :: "'c host_env"
proof
  fix s :: "'c host" and env cap op target args reason
  assume s: "audit_ok s"
  show "audit_ok (host_allow env cap op target args s)" if "cap \<noteq> ''caps.empty''"
    using s by (simp add: audit_ok_def allow_counters [OF that])
  show "audit_ok (record_cap_denial env cap op target args reason s)" if "cap \<noteq> ''caps.empty''"
    using s by (simp add: audit_ok_def denial_counters [OF that])
  show "audit_ok (tick s)" using s by (simp add: audit_ok_def tick_def counted_def)
qed (simp_all add: audit_ok_def counted_def)

section \<open>Resources behind missing capabilities\<close>

text \<open>\<open>s0\<close> is the state in which the guest starts.\<close>

definition within_grants :: "'c host \<Rightarrow> 'c host \<Rightarrow> bool" where
  "within_grants s0 s = (hs_caps s = hs_caps s0
     \<and> (\<not> cap_model (hs_caps s0) \<longrightarrow> hs_broker s = hs_broker s0)
     \<and> (\<not> cap_exec (hs_caps s0) \<longrightarrow> hs_spawned s = hs_spawned s0)
     \<and> (cap_secrets (hs_caps s0) = {} \<longrightarrow> hs_secrets s = hs_secrets s0 \<and> hs_handles s = hs_handles s0))"

interpretation grants: guest_invariant "within_grants s0" env for s0 :: "'c host" and env
  by unfold_locales (simp_all add: within_grants_def tick_def)

section \<open>Properties of hostcalls\<close>

text \<open>C4: A hostcall does nothing without its capability: unless the agent's capabilities grant the call
  for the argument that the guest names, it traps, and nothing but the audit trail (with its
  counters and flags) has changed: no memory, broker, secret, process, mailbox or other state.\<close>

theorem hostcall_needs_capability:
  assumes "\<not> hostcall_granted env hc s" and "host_call env hc s = Some (s', r)"
  shows "(\<exists>e. r = Inl e) \<and> audit_only s s'"
  using hostcall_refused [OF assms(1)] assms(2) by auto

text \<open>C9: In a whole run of a guest, whatever it computes and calls, a resource whose capability is not
  granted stays as it was: the broker, the commands spawned, the secrets and their handles.\<close>

theorem run_stays_within_grants:
  assumes "(host_step env)\<^sup>*\<^sup>* s0 s"
  shows "within_grants s0 s"
  using assms by (rule grants.guest.steps_inv) (simp add: within_grants_def)

text \<open>The counters of allowed and denied operations agree with the audit: in every run that starts with
  an empty audit, the counters are (modulo $2^{64}$) the numbers of audit records of that decision,
  for each decision that the audit policy records; the launch record for empty capabilities
  counts neither.\<close>

theorem audit_is_complete:
  assumes "(host_step env)\<^sup>*\<^sup>* s0 s"
    and "hs_allowed s0 = 0" "hs_denied s0 = 0" "\<forall>r \<in> set (hs_cap_audits s0). ca_cap r = ''caps.empty''"
  shows "(ap_on_deny (hs_audit_policy s) \<longrightarrow> hs_denied s = counted Deny s)
    \<and> (ap_on_allow (hs_audit_policy s) \<longrightarrow> hs_allowed s = counted Allow s)"
proof -
  have "counted d s0 = 0" for d using assms(4) by (simp add: counted_def filter_empty_conv)
  then have "audit_ok s0" using assms(2,3) by (simp add: audit_ok_def)
  from audit.guest.steps_inv [OF assms(1) this] show ?thesis by (simp add: audit_ok_def)
qed

section \<open>A concrete agent\<close>

text \<open>A world with one secret in the environment and clocks that stand still, and an agent of given
  capabilities with a small memory and one message waiting.\<close>

definition agent_secret_env :: secret_env where
  "agent_secret_env = \<lparr>se_var = (\<lambda>i. if i = ''K'' then Some ''value'' else None), se_pass_show = (\<lambda>_. None),
     se_read_file = (\<lambda>_. None), se_master_key_ok = False\<rparr>"

definition agent_env :: "unit host_env" where
  "agent_env = \<lparr>he_blake3 = (\<lambda>_. []), he_parse_url = (\<lambda>_. None), he_micros = (\<lambda>_. Some 5000), he_instant = (\<lambda>_. 0),
     he_secret_env = (\<lambda>_. agent_secret_env), he_uuid = (\<lambda>_. []), he_base32 = (\<lambda>_. ''AB''),
     he_decode_request = (\<lambda>_. None), he_encode_meta = (\<lambda>_. None),
     he_cache_ops = \<lparr>co_new = (\<lambda>_. ()), co_get = (\<lambda>c k. (c, None)), co_put = (\<lambda>c k e. c), co_pop = (\<lambda>c k. c)\<rparr>,
     he_broker_env = \<lparr>bn_clock = id, bn_digest = (\<lambda>_. []), bn_params_json = (\<lambda>_. None), bn_extras_json = (\<lambda>_. None)\<rparr>,
     he_async_handle = True, he_task_lost = (\<lambda>_ _. None), he_runtime_error = (\<lambda>_. None), he_spawn = (\<lambda>_ _. None),
     he_timeout_var = (\<lambda>_. None)\<rparr>"

definition agent_broker :: "unit broker" where
  "agent_broker = \<lparr>bk_providers = Map.empty, bk_routes = [], bk_cache = None,
     bk_budgets = \<lparr>bl_default_tokens = None, bl_per_request_cap = None, bl_hard_cap_usd = None\<rparr>,
     bk_calls = 0, bk_cache_hits = 0, bk_tokens_prompt = 0, bk_tokens_completion = 0, bk_ticks = 0, bk_provider_calls = 0\<rparr>"

definition agent_host :: "caps \<Rightarrow> bytes \<Rightarrow> unit host" where
  "agent_host c mem = \<lparr>hs_caps = c, hs_audit = default_sink, hs_cap_audits = [], hs_broker = agent_broker,
     hs_secrets = secret_provider_from_config BackEnv 0, hs_handles = handle_store_new, hs_allowed = 0, hs_denied = 0,
     hs_agent_id = 1, hs_trace_id = 2, hs_identity = ''demo'', hs_deny_flag = False, hs_ready = None,
     hs_last_denial = None, hs_audit_policy = default_audit_policy, hs_expose_raw = True,
     hs_inbox = [(default_header, [7, 8])], hs_peeked = None, hs_memory = Some mem, hs_spawned = [], hs_ticks = 0\<rparr>"

lemma agent_call: "\<exists>s e. host_call agent_env TimeNow (agent_host deny_all mem) = Some (s, Inl e)"
  using hostcall_refused [of agent_env TimeNow "agent_host deny_all mem"] by (auto simp: agent_host_def deny_all_def)

theorem hostcall_needs_capability_witness:
  "\<exists>s e. host_call agent_env TimeNow (agent_host deny_all []) = Some (s, Inl e) \<and> audit_only (agent_host deny_all []) s"
proof -
  obtain s e where r: "host_call agent_env TimeNow (agent_host deny_all []) = Some (s, Inl e)" using agent_call by blast
  have "\<not> hostcall_granted agent_env TimeNow (agent_host deny_all [])" by (simp add: agent_host_def deny_all_def)
  from hostcall_needs_capability [OF this r] r show ?thesis by blast
qed

theorem run_stays_within_grants_witness:
  "\<exists>s. host_step agent_env (agent_host deny_all []) s \<and> hs_broker s = agent_broker \<and> hs_spawned s = []"
proof -
  obtain s e where "host_call agent_env TimeNow (agent_host deny_all []) = Some (s, Inl e)" using agent_call by blast
  then have step: "host_step agent_env (agent_host deny_all []) s" by (rule host_step.call)
  then have steps: "(host_step agent_env)\<^sup>*\<^sup>* (agent_host deny_all []) s" by simp
  from run_stays_within_grants [OF steps] step
  show ?thesis by (auto simp: within_grants_def agent_host_def deny_all_def)
qed

theorem audit_is_complete_witness:
  "\<exists>s. host_step agent_env (agent_host deny_all []) s \<and> hs_denied s = counted Deny s"
proof -
  obtain s e where r: "host_call agent_env TimeNow (agent_host deny_all []) = Some (s, Inl e)" using agent_call by blast
  then have step: "host_step agent_env (agent_host deny_all []) s" by (rule host_step.call)
  then have steps: "(host_step agent_env)\<^sup>*\<^sup>* (agent_host deny_all []) s" by simp
  have "audit_only (agent_host deny_all []) s"
    using hostcall_refused [of agent_env TimeNow "agent_host deny_all []"] r by (auto simp: agent_host_def deny_all_def)
  then have "hs_audit_policy s = default_audit_policy" using audit_only_fields(7) by (fastforce simp: agent_host_def)
  then show ?thesis
    using audit_is_complete [OF steps] step
    by (auto simp: agent_host_def default_audit_policy_def)
qed

end
