(* ===== verification/Runtime_Host_Calls.thy ===== *)
theory Runtime_Host_Calls
  imports Runtime_Host_Memory
begin

text \<open>
  Behaviour of single hostcalls (\<open>crates/runtime/src/hostcalls.rs\<close>): the mailbox refines a queue, a
  receive consumes its message whether or not it fits, commands return when their streams end,
  and three gaps: ports of URLs, the buffer of secrets, and captures without a buffer.
\<close>

section \<open>The mailbox is a queue\<close>

text \<open>What the guest relies on: messages come out once each, in the order they went in, and looking
  at the next one does not consume it.\<close>

locale fifo =
  fixes view :: "'s \<Rightarrow> 'm list"
    and deliver :: "'m \<Rightarrow> 's \<Rightarrow> 's"
    and receive :: "'s \<Rightarrow> 's \<times> 'm option"
    and peek :: "'s \<Rightarrow> 's \<times> 'h option"
    and head :: "'m \<Rightarrow> 'h"
  assumes view_deliver: "view (deliver m s) = view s @ [m]"
    and receive_empty: "view s = [] \<Longrightarrow> view (fst (receive s)) = [] \<and> snd (receive s) = None"
    and receive_next: "view s = m # q \<Longrightarrow> view (fst (receive s)) = q \<and> snd (receive s) = Some m"
    and view_peek: "view (fst (peek s)) = view s"
    and peek_next: "snd (peek s) = (case view s of [] \<Rightarrow> None | m # _ \<Rightarrow> Some (head m))"
begin

lemma receive_conserves:
  "receive s = (t, r) \<Longrightarrow> (case r of Some m \<Rightarrow> [m] | None \<Rightarrow> []) @ view t = view s"
  by (cases "view s") (auto dest: receive_empty receive_next)

end

definition mailbox :: "'c host \<Rightarrow> (header \<times> bytes) list" where
  "mailbox s = (case hs_peeked s of Some m \<Rightarrow> [m] | None \<Rightarrow> []) @ hs_inbox s"

definition mailbox_deliver :: "header \<times> bytes \<Rightarrow> 'c host \<Rightarrow> 'c host" where
  "mailbox_deliver m s = s\<lparr>hs_inbox := hs_inbox s @ [m]\<rparr>"

interpretation mbox: fifo mailbox mailbox_deliver mailbox_try_recv mailbox_peek_meta fst
  by unfold_locales (auto simp: mailbox_def mailbox_deliver_def mailbox_try_recv_def mailbox_peek_meta_def Let_def
      split: option.splits list.splits)

datatype mailbox_event = Deliver header bytes | Receive | Peek

fun mailbox_run :: "mailbox_event list \<Rightarrow> 'c host \<Rightarrow> 'c host \<times> (header \<times> bytes) list" where
  "mailbox_run [] s = (s, [])"
| "mailbox_run (Deliver h b # es) s = mailbox_run es (mailbox_deliver (h, b) s)"
| "mailbox_run (Peek # es) s = mailbox_run es (fst (mailbox_peek_meta s))"
| "mailbox_run (Receive # es) s =
     (case mailbox_try_recv s of (s, r) \<Rightarrow>
        case mailbox_run es s of (s, got) \<Rightarrow> (s, (case r of Some m \<Rightarrow> [m] | None \<Rightarrow> []) @ got))"

fun delivered :: "mailbox_event list \<Rightarrow> (header \<times> bytes) list" where
  "delivered [] = []"
| "delivered (Deliver h b # es) = (h, b) # delivered es"
| "delivered (_ # es) = delivered es"

lemma mailbox_run_conserves: "mailbox_run es s = (t, got) \<Longrightarrow> got @ mailbox t = mailbox s @ delivered es"
proof (induction es s arbitrary: t got rule: mailbox_run.induct)
  case (2 h b es s)
  then show ?case by (simp add: mbox.view_deliver)
next
  case (3 es s)
  then show ?case by (simp add: mbox.view_peek)
next
  case (4 es s)
  obtain s1 r where r: "mailbox_try_recv s = (s1, r)" by fastforce
  obtain t' g where g: "mailbox_run es s1 = (t', g)" by fastforce
  have "g @ mailbox t' = mailbox s1 @ delivered es" using "4.IH" [OF r [symmetric] g] .
  moreover have "(case r of Some m \<Rightarrow> [m] | None \<Rightarrow> []) @ mailbox s1 = mailbox s" by (rule mbox.receive_conserves [OF r])
  ultimately show ?case using "4.prems" r g by (metis (no_types, lifting) append_assoc case_prod_conv delivered.simps(3)
        mailbox_run.simps(4) prod.inject)
qed simp

text \<open>C28: The mailbox refines a queue: whatever the interleaving of deliveries, receives and peeks, the
  messages received, followed by those still waiting, are the messages that waited before followed
  by those delivered: none is lost, doubled or reordered, and peeking consumes nothing.\<close>

theorem mailbox_refines_queue:
  assumes "mailbox_run es s = (t, got)"
  shows "got @ mailbox t = mailbox s @ delivered es"
  by (rule mailbox_run_conserves [OF assms])

theorem mailbox_refines_queue_witness:
  "snd (mailbox_run [Peek, Deliver default_header [9], Receive, Receive] (agent_host deny_all [])) =
     [(default_header, [7, 8]), (default_header, [9])]"
proof -
  have run: "mailbox_run [Peek, Deliver default_header [9], Receive, Receive] (agent_host deny_all []) =
      ((agent_host deny_all [])\<lparr>hs_inbox := []\<rparr>, [(default_header, [7, 8]), (default_header, [9])])"
    by (simp add: agent_host_def mailbox_peek_meta_def mailbox_deliver_def mailbox_try_recv_def)
  from mailbox_refines_queue [OF run] run show ?thesis by simp
qed

lemma mailbox_notify [simp]: "mailbox (notify_mailbox_recv s) = mailbox s"
  by (simp add: mailbox_def notify_mailbox_recv_def)

lemma mailbox_recv_result:
  assumes "mailbox s = (h, body) # q" and "hs_memory s = Some mem"
  obtains t where "mailbox t = q" "hs_memory t = Some mem"
    "host_mailbox_recv p n s =
       (if as_usize n < length body then (t, Inl ''mailbox buffer too small'')
        else hbind (write_bytes p body) (\<lambda>_. hreturn (word_of_nat (length body))) t)"
proof -
  obtain t r where t: "mailbox_try_recv (notify_mailbox_recv s) = (t, r)" by fastforce
  have "mailbox t = q" "r = Some (h, body)"
    using mbox.receive_next [of "notify_mailbox_recv s"] assms(1) t by simp_all
  moreover have "hs_memory t = Some mem"
    using t assms(2) by (auto simp: mailbox_try_recv_def notify_mailbox_recv_def split: option.splits list.splits)
  ultimately show ?thesis using t by (intro that [of t]) (simp_all add: host_mailbox_recv_def)
qed

text \<open>Receiving a message is exact, and final: the call takes the next message from the mailbox in
  every case; it writes the body to the buffer and returns its length if it fits into the stated
  length (a negative length fits everything) and into the memory, and otherwise traps with the
  memory unchanged, so that a message that did not fit is lost.\<close>

theorem mailbox_recv_outcome:
  assumes "mailbox s = (h, body) # q" and "hs_memory s = Some mem"
    and "host_mailbox_recv p n s = (s', r)"
  shows "mailbox s' = q \<and>
    (if length body \<le> as_usize n \<and> (body = [] \<or> as_usize p + length body \<le> length mem)
     then r = Inr (word_of_nat (length body)) \<and> hs_memory s' = Some (mem_write mem (as_usize p) body)
     else (\<exists>e. r = Inl e) \<and> hs_memory s' = Some mem)"
proof (rule mailbox_recv_result [OF assms(1,2), of p n])
  fix t
  assume t: "mailbox t = q" "hs_memory t = Some mem" and recv: "host_mailbox_recv p n s =
       (if as_usize n < length body then (t, Inl ''mailbox buffer too small'')
        else hbind (write_bytes p body) (\<lambda>_. hreturn (word_of_nat (length body))) t)"
  have nil: "mem_write mem (as_usize p) [] = mem" by (simp add: mem_write_def)
  show ?thesis
  proof (cases "as_usize n < length body")
    case True
    then show ?thesis using assms(3) recv t by auto
  next
    case False
    then have "(s', r) = hbind (write_bytes p body) (\<lambda>_. hreturn (word_of_nat (length body))) t" using assms(3) recv by simp
    then show ?thesis using t nil False
      by (cases "body = []"; cases "as_usize p + length body \<le> length mem")
        (auto simp: host_simps write_bytes_def mailbox_def)
  qed
qed

theorem mailbox_recv_outcome_witness:
  "(\<exists>e. snd (host_mailbox_recv 0 1 (agent_host deny_all [0, 0])) = Inl e)
   \<and> mailbox (fst (host_mailbox_recv 0 1 (agent_host deny_all [0, 0]))) = []"
  using mailbox_recv_outcome [of "agent_host deny_all [0, 0]" default_header "[7, 8]" "[]" "[0, 0]" 0 1
      "fst (host_mailbox_recv 0 1 (agent_host deny_all [0, 0]))" "snd (host_mailbox_recv 0 1 (agent_host deny_all [0, 0]))"]
  by (simp add: agent_host_def mailbox_def as_usize_def)

section \<open>Ports of URLs\<close>

text \<open>A port restriction does not restrict URLs that name no port: an \<open>https\<close> URL whose parsed form has
  no port (the parser drops the default port of the scheme) is allowed by every entry for its
  host, whatever port the entry demands.\<close>

theorem port_restriction_ignored:
  assumes "he_parse_url env u = Some \<lparr>url_scheme = ''https'', url_host = Some h, url_port = None\<rparr>"
    and "\<lparr>nl_host = h, nl_port = Some port\<rparr> \<in> set (cap_net_hosts (hs_caps s))"
  shows "snd (ensure_net env u s) = Inr ()"
proof -
  have "host_allows env \<lparr>nl_host = h, nl_port = Some port\<rparr> u" using assms(1) by (simp add: host_allows_def host_matches_def)
  then have "net_permitted env (hs_caps s) u"
    using assms by (auto simp: net_permitted_def plain_http_def list_ex_iff)
  then show ?thesis by (simp add: ensure_net_permitted)
qed

definition https_env :: "unit host_env" where
  "https_env = agent_env\<lparr>he_parse_url := (\<lambda>u. if u = ''https://h/'' then
     Some \<lparr>url_scheme = ''https'', url_host = Some ''h'', url_port = None\<rparr> else None)\<rparr>"

theorem port_restriction_ignored_witness:
  "snd (ensure_net https_env ''https://h/''
     (agent_host (deny_all\<lparr>cap_net_hosts := [\<lparr>nl_host = ''h'', nl_port = Some 8443\<rparr>]\<rparr>) [])) = Inr ()"
  by (rule port_restriction_ignored [of _ _ "''h''" 8443]) (simp_all add: https_env_def agent_host_def)

section \<open>Secrets and buffers\<close>

text \<open>The buffer of a secret is not bounded: an agent that passes the one-byte identifier \<open>K\<close> gets the
  five-byte value written over the four bytes behind it.\<close>

theorem secret_overruns_identifier:
  "(case host_resolve_secret agent_env 0 1 (agent_host (deny_all\<lparr>cap_secrets := {''K''}\<rparr>) (utf8_bytes ''K.......'')) of
      (s, r) \<Rightarrow> (hs_memory s, r)) = (Some (utf8_bytes ''value...''), Inr 5)"
proof -
  define s where "s = agent_host (deny_all\<lparr>cap_secrets := {''K''}\<rparr>) (utf8_bytes ''K.......'')"
  define t where "t = host_allow agent_env ''secrets.get'' ''resolve_secret'' (redact_secret_id agent_env ''K'')
      (utf8_bytes (redact_secret_id agent_env ''K'')) s"
  have s: "hs_caps s = deny_all\<lparr>cap_secrets := {''K''}\<rparr>" "hs_memory s = Some (utf8_bytes ''K.......'')"
      "hs_expose_raw s" "hs_secrets s = secret_provider_from_config BackEnv 0"
    by (simp_all add: s_def agent_host_def)
  have size: "as_usize 0 = 0" "as_usize 1 = 1" by (simp_all add: as_usize_def)
  have decode: "utf8_decode [75] = Some ''K''"
    using utf8_decode_bytes [of "''K''"] by (simp del: utf8_decode.simps utf8_decode_bytes)
  have read: "read_utf8 0 1 s = (s, Inr ''K'')"
    by (simp add: read_utf8_def read_bytes_def size host_simps s decode del: utf8_decode.simps)
  have ensure: "ensure_secret agent_env ''K'' s = (t, Inr ())"
    by (simp add: ensure_secret_def permits_secret_def gate_def Let_def s t_def)
  have t: "hs_expose_raw t" "hs_secrets t = secret_provider_from_config BackEnv 0" "hs_memory t = Some (utf8_bytes ''K.......'')"
    by (simp_all add: t_def s)
  have resolved: "resolve_secret_value agent_env ''K'' t = (tick t, Some ''value'')"
    using t(2) by (simp add: resolve_secret_value_def starts_with_def host_provider_def provider_resolve_def
        secret_provider_from_config_def backend_resolve_def resolve_secret_from_env_def agent_env_def agent_secret_env_def tick_def)
  have "give_text 0 ''value'' (tick t) = ((tick t)\<lparr>hs_memory := Some (utf8_bytes ''value...'')\<rparr>, Inr 5)"
    using t(3) by (simp add: give_text_def write_utf8_def write_bytes_def size host_simps mem_write_def byte_len_def tick_def)
  then have "host_resolve_secret agent_env 0 1 s = ((tick t)\<lparr>hs_memory := Some (utf8_bytes ''value...'')\<rparr>, Inr 5)"
    using t(1) resolved by (simp add: host_resolve_secret_def hbind_def read ensure del: utf8_bytes_simps)
  then show ?thesis unfolding s_def by (simp del: utf8_bytes_simps)
qed

section \<open>Commands\<close>

definition stream_ends :: "(nat \<Rightarrow> read_result option) \<Rightarrow> bool" where
  "stream_ends stream = (\<exists>k out. read_output stream 0 k = Some out \<and> (stream k = Some (ReadOk []) \<or> stream k = Some ReadError))"

definition child_ends :: "nat option \<Rightarrow> child \<Rightarrow> bool" where
  "child_ends timeout c = (ch_wait_killed c \<noteq> None
     \<and> (\<exists>k. ch_try_wait c k \<noteq> StillRunning \<or> (\<exists>t. timeout = Some t \<and> t < ch_elapsed c k)))"

lemma stream_ends_drain:
  assumes "stream_ends stream"
  shows "\<exists>out. drain_stream_preview stream limit 0 [] False = Some out"
proof -
  obtain k out where k: "read_output stream 0 k = Some out" "stream (0 + k) = Some (ReadOk []) \<or> stream (0 + k) = Some ReadError"
    using assms by (auto simp: stream_ends_def)
  show ?thesis using drain_reads [OF k, of "[]" limit "[]" False] by simp
qed

lemma child_ends_wait:
  assumes "child_ends timeout c"
  shows "\<exists>r. exec_wait timeout c 0 = Some r"
proof -
  obtain k where "ch_try_wait c (0 + k) \<noteq> StillRunning \<or>
      (\<exists>t. timeout = Some t \<and> t < ch_elapsed c (0 + k) \<and> ch_wait_killed c \<noteq> None)"
    using assms by (auto simp: child_ends_def)
  from exec_wait_ends [OF this] show ?thesis using assms by (simp add: child_ends_def)
qed

text \<open>What a call to \<open>exec_spawn\<close> amounts to, for an agent that may execute commands.\<close>

lemma exec_spawn_run:
  assumes "cap_exec (hs_caps s)" "0 < sint n" "snd (read_utf8 p n s) = Inr command"
    and "he_spawn env (hs_ticks (host_allow env ''exec.spawn'' ''exec_spawn'' [] [] s)) command = Some c"
  obtains t where "host_exec_spawn env p n s = Option.bind
    (exec_wait (exec_timeout 0 (he_timeout_var env (hs_ticks (host_allow env ''exec.spawn'' ''exec_spawn'' [] [] s)))) c 0)
    (\<lambda>r. spawn_finish (case r of Inl _ \<Rightarrow> Inl EXEC_ESPAWN | Inr status \<Rightarrow> Inr (c, status)) t)"
proof -
  let ?a = "host_allow env ''exec.spawn'' ''exec_spawn'' [] [] s"
  have r: "read_utf8 p n ?a = (?a, Inr command)"
    using assms(3) read_utf8_state [of p n ?a] by (cases "read_utf8 p n ?a") (auto simp: read_utf8_def read_bytes_def host_simps
        split: if_splits option.splits)
  have "host_exec_spawn env p n s = with_child env command spawn_finish ?a"
    using assms(1,2) r by (simp add: host_exec_spawn_def hfn_def ensure_exec_def gate_granted)
  also have "\<dots> = Option.bind (exec_wait (exec_timeout 0 (he_timeout_var env (hs_ticks ?a))) c 0)
      (\<lambda>r. spawn_finish (case r of Inl _ \<Rightarrow> Inl EXEC_ESPAWN | Inr status \<Rightarrow> Inr (c, status))
        (tick (?a\<lparr>hs_spawned := hs_spawned ?a @ [command]\<rparr>)))"
    using assms(4) by (cases "exec_wait (exec_timeout 0 (he_timeout_var env (hs_ticks ?a))) c 0")
      (simp_all add: with_child_def exec_start_def Let_def)
  finally show ?thesis by (rule that)
qed

text \<open>C38: A command returns: if the child ends by itself or time passes the configured limit, the wait after
  a kill returns, and both output streams end, then \<open>exec_spawn\<close> returns a code to the guest.\<close>

theorem exec_spawn_returns:
  assumes "cap_exec (hs_caps s)" "0 < sint n" "snd (read_utf8 p n s) = Inr command"
    and "he_spawn env (hs_ticks (host_allow env ''exec.spawn'' ''exec_spawn'' [] [] s)) command = Some c"
    and "child_ends (exec_timeout 0 (he_timeout_var env (hs_ticks (host_allow env ''exec.spawn'' ''exec_spawn'' [] [] s)))) c"
    and "stream_ends (ch_stdout c)" "stream_ends (ch_stderr c)"
  shows "\<exists>s' code. host_exec_spawn env p n s = Some (s', Inr code)"
proof -
  obtain r where r: "exec_wait (exec_timeout 0 (he_timeout_var env (hs_ticks (host_allow env ''exec.spawn'' ''exec_spawn'' [] [] s)))) c 0
      = Some r" using child_ends_wait [OF assms(5)] by blast
  obtain t where t: "host_exec_spawn env p n s = spawn_finish (case r of Inl _ \<Rightarrow> Inl EXEC_ESPAWN | Inr status \<Rightarrow> Inr (c, status)) t"
    using exec_spawn_run [OF assms(1-4)] r by (metis bind.bind_lunit)
  show ?thesis
    using stream_ends_drain [OF assms(6), of EXEC_OUTPUT_PREVIEW_LIMIT] stream_ends_drain [OF assms(7), of EXEC_OUTPUT_PREVIEW_LIMIT]
    by (cases r) (auto simp: t spawn_finish_def when_drained_def lift_op_def hreturn_def)
qed

text \<open>The limit on commands does not bound the call: when the child is gone (killed in time or not) but
  another process keeps its output open, \<open>exec_spawn\<close> does not return, whatever the limit.\<close>

theorem exec_timeout_does_not_bound_drain:
  assumes "cap_exec (hs_caps s)" "0 < sint n" "snd (read_utf8 p n s) = Inr command"
    and "he_spawn env (hs_ticks (host_allow env ''exec.spawn'' ''exec_spawn'' [] [] s)) command = Some c"
    and "exec_wait (exec_timeout 0 (he_timeout_var env (hs_ticks (host_allow env ''exec.spawn'' ''exec_spawn'' [] [] s)))) c 0 = Some (Inr status)"
    and "ch_stdout c 0 = None"
  shows "host_exec_spawn env p n s = None"
proof -
  obtain t where t: "host_exec_spawn env p n s = spawn_finish (Inr (c, status)) t"
    using exec_spawn_run [OF assms(1-4)] assms(5) by (metis bind.bind_lunit sum.simps(6))
  have "drain_stream_preview (ch_stdout c) EXEC_OUTPUT_PREVIEW_LIMIT 0 [] False = None"
    by (subst drain_stream_preview.simps) (simp add: assms(6))
  then show ?thesis by (simp add: t spawn_finish_def when_drained_def)
qed

definition quick_child :: child where
  "quick_child = \<lparr>ch_try_wait = (\<lambda>_. Exited (Some 7)), ch_elapsed = (\<lambda>_. 0), ch_wait_killed = Some (Inr None),
     ch_stdout = (\<lambda>_. Some (ReadOk [])), ch_stderr = (\<lambda>_. Some (ReadOk []))\<rparr>"

definition held_child :: child where
  "held_child = \<lparr>ch_try_wait = (\<lambda>_. StillRunning), ch_elapsed = (\<lambda>n. n * 10 ^ 10), ch_wait_killed = Some (Inr None),
     ch_stdout = (\<lambda>_. None), ch_stderr = (\<lambda>_. None)\<rparr>"

definition exec_env :: "child \<Rightarrow> unit host_env" where
  "exec_env c = agent_env\<lparr>he_spawn := (\<lambda>_ _. Some c), he_timeout_var := (\<lambda>_. Some ''1'')\<rparr>"

definition exec_agent :: "unit host" where
  "exec_agent = agent_host (deny_all\<lparr>cap_exec := True\<rparr>) (utf8_bytes ''ls'')"

lemma exec_agent_reads: "\<exists>command. snd (read_utf8 0 2 exec_agent) = Inr command"
proof -
  have "read_bytes 0 2 exec_agent = (exec_agent, Inr (utf8_bytes ''ls''))"
    by (simp add: read_bytes_def as_usize_def exec_agent_def agent_host_def)
  then have "snd (read_utf8 0 2 exec_agent) = Inr ''ls''"
    by (simp add: read_utf8_def host_simps del: utf8_bytes_simps utf8_decode.simps)
  then show ?thesis by blast
qed

theorem exec_spawn_returns_witness:
  "\<exists>s' code. host_exec_spawn (exec_env quick_child) 0 2 exec_agent = Some (s', Inr code)"
proof -
  obtain command where r: "snd (read_utf8 0 2 exec_agent) = Inr command" using exec_agent_reads by blast
  have "child_ends t quick_child" for t by (simp add: child_ends_def quick_child_def)
  moreover have "stream_ends (ch_stdout quick_child)" "stream_ends (ch_stderr quick_child)"
    by (simp_all add: stream_ends_def quick_child_def exI [of _ 0])
  ultimately show ?thesis
    by (intro exec_spawn_returns [OF _ _ r, of _ quick_child]) (simp_all add: exec_agent_def agent_host_def exec_env_def)
qed

theorem exec_timeout_does_not_bound_drain_witness:
  "host_exec_spawn (exec_env held_child) 0 2 exec_agent = None"
proof -
  obtain command where r: "snd (read_utf8 0 2 exec_agent) = Inr command" using exec_agent_reads by blast
  have limit: "exec_timeout 0 (he_timeout_var (exec_env held_child) k) = Some (10 ^ 9)" for k
    by (simp add: exec_timeout_def exec_env_def parse_u64_def parse_nat_lt_def Let_def all_digits_def digits_value_def
        digit_value_def is_ascii_digit_def)
  have poll: "ch_try_wait held_child n = StillRunning" "ch_elapsed held_child n = n * 10 ^ 10" "ch_wait_killed held_child = Some (Inr None)" for n
    by (simp_all add: held_child_def)
  have "exec_wait (Some (10 ^ 9)) held_child 1 = Some (Inr None)" by (subst exec_wait.simps) (simp add: poll)
  then have "exec_wait (Some (10 ^ 9)) held_child 0 = Some (Inr None)" by (subst exec_wait.simps) (simp add: poll)
  then show ?thesis
    by (intro exec_timeout_does_not_bound_drain [OF _ _ r, of _ held_child None])
      (simp_all add: limit, simp_all add: exec_agent_def agent_host_def exec_env_def held_child_def)
qed

text \<open>A capture without a buffer is unbounded: for capacity zero the preview limit wraps around, so the
  runtime keeps all the output of the command (up to $2^{64} - 4$ bytes) in its own memory, only
  to discard it.\<close>

theorem capture_without_buffer_keeps_all:
  assumes "read_output stream 0 k = Some out" "stream k = Some (ReadOk [])" "length out \<le> 2 ^ 64 - 4"
  shows "drain_stream_preview stream (capture_limit 0) 0 [] False = Some (out, True, False)"
proof -
  have limit: "capture_limit 0 = 2 ^ 64 - 4" by (simp add: capture_limit_def as_usize_def)
  show ?thesis using drain_reads [of stream 0 k out "[]" "capture_limit 0" "[]" False] assms by (simp add: limit)
qed

theorem capture_without_buffer_keeps_all_witness:
  "drain_stream_preview (\<lambda>n. Some (ReadOk (if n = 0 then [1, 2, 3] else []))) (capture_limit 0) 0 [] False = Some ([1, 2, 3], True, False)"
  by (rule capture_without_buffer_keeps_all [of _ 1]) simp_all

text \<open>Draining a stream is exact: the preview is the prefix of the whole output up to the limit, and the
  flag says whether anything was cut off.\<close>

theorem preview_is_prefix:
  assumes "read_output stream 0 k = Some out" "stream k = Some (ReadOk [])"
  shows "drain_stream_preview stream limit 0 [] False = Some (take limit out, True, limit < length out)"
  using drain_reads [of stream 0 k out "[]" limit "[]" False] assms by simp

theorem preview_is_prefix_witness:
  "drain_stream_preview (\<lambda>n. Some (ReadOk (if n = 0 then [1, 2, 3] else []))) 2 0 [] False = Some ([1, 2], True, True)"
  using preview_is_prefix [of "\<lambda>n. Some (ReadOk (if n = 0 then [1, 2, 3] else []))" 1 "[1, 2, 3]" 2] by simp

end
