(* ===== verification/Runtime_Host_Secrecy.thy ===== *)
theory Runtime_Host_Secrecy
  imports Runtime_Host_Calls
begin

text \<open>
  Secrets do not reach the guest in handle mode (\<open>expose_raw_secrets\<close> off). Two states are
  indistinguishable when they agree up to the values of secrets; every hostcall that does not
  touch secrets commutes with erasing the values, \<open>resolve_secret\<close> only tells whether a secret
  exists, and so a guest that may not execute commands sees the same in two worlds that differ in the
  values alone. A guest that may can ask a command, which inherits the environment.
\<close>

section \<open>Erasing values\<close>

definition erase_handles :: "handle_store \<Rightarrow> handle_store" where
  "erase_handles h = h\<lparr>hd_handle_to_record := (\<lambda>k. map_option (\<lambda>r. r\<lparr>hr_value := []\<rparr>) (hd_handle_to_record h k))\<rparr>"

definition erase_provider :: "secret_provider \<Rightarrow> secret_provider" where
  "erase_provider p = p\<lparr>sp_cache := (\<lambda>i. map_option (\<lambda>e. e\<lparr>sc_value := []\<rparr>) (sp_cache p i)),
     sp_store := (sp_store p)\<lparr>ss_values := (\<lambda>i. map_option (\<lambda>_. []) (ss_values (sp_store p) i))\<rparr>\<rparr>"

definition low :: "'c host \<Rightarrow> 'c host" where
  "low s = s\<lparr>hs_secrets := erase_provider (hs_secrets s), hs_handles := erase_handles (hs_handles s)\<rparr>"

lemma low_fields [simp]:
  "hs_caps (low s) = hs_caps s" "hs_audit (low s) = hs_audit s" "hs_cap_audits (low s) = hs_cap_audits s"
  "hs_broker (low s) = hs_broker s" "hs_allowed (low s) = hs_allowed s" "hs_denied (low s) = hs_denied s"
  "hs_agent_id (low s) = hs_agent_id s" "hs_trace_id (low s) = hs_trace_id s" "hs_identity (low s) = hs_identity s"
  "hs_deny_flag (low s) = hs_deny_flag s" "hs_ready (low s) = hs_ready s" "hs_last_denial (low s) = hs_last_denial s"
  "hs_audit_policy (low s) = hs_audit_policy s" "hs_expose_raw (low s) = hs_expose_raw s" "hs_inbox (low s) = hs_inbox s"
  "hs_peeked (low s) = hs_peeked s" "hs_memory (low s) = hs_memory s" "hs_spawned (low s) = hs_spawned s"
  "hs_ticks (low s) = hs_ticks s"
  by (simp_all add: low_def)

lemma low_updates [simp]:
  "low (s\<lparr>hs_audit := a\<rparr>) = (low s)\<lparr>hs_audit := a\<rparr>" "low (s\<lparr>hs_cap_audits := ca\<rparr>) = (low s)\<lparr>hs_cap_audits := ca\<rparr>"
  "low (s\<lparr>hs_broker := b\<rparr>) = (low s)\<lparr>hs_broker := b\<rparr>" "low (s\<lparr>hs_allowed := n\<rparr>) = (low s)\<lparr>hs_allowed := n\<rparr>"
  "low (s\<lparr>hs_denied := n\<rparr>) = (low s)\<lparr>hs_denied := n\<rparr>" "low (s\<lparr>hs_deny_flag := f\<rparr>) = (low s)\<lparr>hs_deny_flag := f\<rparr>"
  "low (s\<lparr>hs_ready := i\<rparr>) = (low s)\<lparr>hs_ready := i\<rparr>" "low (s\<lparr>hs_last_denial := l\<rparr>) = (low s)\<lparr>hs_last_denial := l\<rparr>"
  "low (s\<lparr>hs_inbox := q\<rparr>) = (low s)\<lparr>hs_inbox := q\<rparr>" "low (s\<lparr>hs_peeked := e\<rparr>) = (low s)\<lparr>hs_peeked := e\<rparr>"
  "low (s\<lparr>hs_memory := m\<rparr>) = (low s)\<lparr>hs_memory := m\<rparr>" "low (s\<lparr>hs_spawned := cs\<rparr>) = (low s)\<lparr>hs_spawned := cs\<rparr>"
  "low (s\<lparr>hs_ticks := t\<rparr>) = (low s)\<lparr>hs_ticks := t\<rparr>"
  by (simp_all add: low_def)

section \<open>Operations that do not see values\<close>

definition blind :: "('c, 'a) host_op \<Rightarrow> bool" where
  "blind m = (\<forall>s. m (low s) = apfst low (m s))"

definition blind_fn :: "('c, 'a) host_fn \<Rightarrow> bool" where
  "blind_fn m = (\<forall>s. m (low s) = map_option (apfst low) (m s))"

lemma blind_return [simp, intro]: "blind (hreturn a)" "blind (hfail e)"
  by (simp_all add: blind_def hreturn_def hfail_def)

lemma blind_bind: "blind m \<Longrightarrow> (\<And>a. blind (f a)) \<Longrightarrow> blind (hbind m f)"
  by (simp add: blind_def host_simps split: prod.split sum.split)

lemma blind_lift: "blind m \<Longrightarrow> blind_fn (lift_op m)"
  by (simp add: blind_def blind_fn_def lift_op_def)

lemma blind_bind_fn: "blind m \<Longrightarrow> (\<And>a. blind_fn (f a)) \<Longrightarrow> blind_fn (hfn m f)"
  by (simp add: blind_def blind_fn_def host_simps split: prod.split sum.split)

lemma blind_returns: "blind_fn m \<Longrightarrow> blind_fn (returns g m)"
proof -
  assume m: "blind_fn m"
  have "returns g m (low s) = map_option (apfst low) (returns g m s)" for s
    using m [unfolded blind_fn_def, rule_format, of s] by (cases "m s") (auto simp: returns_def)
  then show ?thesis by (simp add: blind_fn_def)
qed

lemma blind_if: "(b \<Longrightarrow> blind_fn m) \<Longrightarrow> (\<not> b \<Longrightarrow> blind_fn n) \<Longrightarrow> blind_fn (if b then m else n)"
  by simp

lemma blind_drained: "(\<And>x. blind_fn (k x)) \<Longrightarrow> blind_fn (when_drained v k)"
  by (cases v) (simp_all add: blind_fn_def when_drained_def)

lemma low_audit [simp]:
  "record_cap_audit env d cap op target args reason sev (low s) = low (record_cap_audit env d cap op target args reason sev s)"
  "host_allow env cap op target args (low s) = low (host_allow env cap op target args s)"
  "record_cap_denial env cap op target args reason (low s) = low (record_cap_denial env cap op target args reason s)"
  "tick (low s) = low (tick s)"
  by (simp_all add: record_cap_audit_def host_allow_def record_cap_denial_def sink_record_def now_ms_def tick_def Let_def)

lemma blind_gates [simp, intro]:
  "blind (host_deny env cap op target args reason)" "blind (gate env granted cap op target args reason)"
  "blind (ensure_time env op)" "blind (ensure_net env host)" "blind (ensure_kb_read env ns)" "blind (ensure_kb_write env ns)"
  "blind (ensure_model env)" "blind (ensure_secret env i)" "blind (ensure_exec env)" "blind (secret_unknown env i)"
  by (simp_all add: blind_def host_deny_def gate_def ensure_time_def ensure_net_def ensure_kb_read_def ensure_kb_write_def
      ensure_model_def ensure_secret_def ensure_exec_def secret_unknown_def Let_def)

lemma blind_memory [simp, intro]: "blind (read_bytes p n)" "blind (write_bytes p bs)" "blind (read_utf8 p n)"
proof -
  show "blind (read_bytes p n)" by (simp add: blind_def read_bytes_def split: option.split)
  then show "blind (read_utf8 p n)" unfolding read_utf8_def by (intro blind_bind) (auto split: option.split)
  show "blind (write_bytes p bs)" by (simp add: blind_def write_bytes_def split: option.split)
qed

lemma blind_mailbox:
  "blind (host_mailbox_recv p n :: ('c, i32) host_op)" "blind (host_mailbox_peek_meta p n :: ('c, i32) host_op)"
  "blind (host_notify_ready :: ('c, unit) host_op)"
proof -
  have give: "hbind (write_bytes p bs) (\<lambda>_. hreturn v) (low s) = apfst low (hbind (write_bytes p bs) (\<lambda>_. hreturn v) s)"
    for bs and v :: i32 and s :: "'c host"
  proof -
    have "blind (hbind (write_bytes p bs) (\<lambda>_. hreturn v) :: ('c, i32) host_op)" by (intro blind_bind blind_memory blind_return)
    then show ?thesis by (simp add: blind_def)
  qed
  show "blind (host_mailbox_recv p n :: ('c, i32) host_op)"
    by (auto simp: blind_def host_mailbox_recv_def mailbox_try_recv_def notify_mailbox_recv_def give
        simp flip: low_updates split: option.split list.split)
  show "blind (host_mailbox_peek_meta p n :: ('c, i32) host_op)"
    by (auto simp: blind_def host_mailbox_peek_meta_def mailbox_peek_meta_def Let_def give
        simp flip: low_updates split: option.split list.split)
  show "blind (host_notify_ready :: ('c, unit) host_op)"
    by (simp add: blind_def host_notify_ready_def notify_ready_hostcall_def)
qed

lemma blind_model: "blind_fn (host_model_complete env rp rn op oc mp mc)"
proof -
  have meta: "blind (write_meta env response mp mc v)" for response v
    unfolding write_meta_def by (auto intro!: blind_bind split: option.split)
  have give: "blind (give_completion env response op oc mp mc)" for response
    unfolding give_completion_def Let_def by (auto intro!: blind_bind meta)
  have "host_broker_complete env request (low s) = map_option (apfst low) (host_broker_complete env request s)" for request s
    by (cases "broker_complete (he_cache_ops env) (he_broker_env env) request (hs_broker s)")
      (auto simp: host_broker_complete_def tick_def Let_def split: option.split)
  then have "blind_fn (\<lambda>s. map_option (\<lambda>(s, result). case result of
        Inl err \<Rightarrow> (s, Inr (map_broker_error err)) | Inr response \<Rightarrow> give_completion env response op oc mp mc s)
      (host_broker_complete env request s))" for request
    using give [unfolded blind_def] unfolding blind_fn_def
    by (intro allI, rename_tac s, case_tac "host_broker_complete env request s") (auto split: sum.split)
  then show ?thesis unfolding host_model_complete_def
    by (intro blind_bind_fn blind_gates blind_memory blind_if blind_lift blind_return) (auto intro: blind_lift split: option.split)
qed

lemma blind_child:
  assumes "\<And>x. blind_fn (k x)"
  shows "blind_fn (with_child env command k)"
proof -
  have "exec_start env command (low s) = map_option (apfst low) (exec_start env command s)" for s
    by (simp add: exec_start_def Let_def option.map_comp comp_def split: option.split flip: low_updates)
  then have "with_child env command k (low s) = map_option (apfst low) (with_child env command k s)" for s
    using assms [unfolded blind_fn_def] by (cases "exec_start env command s") (auto simp: with_child_def)
  then show ?thesis by (simp add: blind_fn_def)
qed

lemma blind_exec: "blind_fn (host_exec_spawn env p n)" "blind_fn (host_exec_spawn_capture env p n op oc ep ec)"
proof -
  have spawn: "blind_fn (spawn_finish started)" for started
    by (auto simp: spawn_finish_def split: sum.split intro!: blind_drained blind_lift)
  have deliver: "blind (deliver_capture overflow ptr cap drained)" for overflow ptr cap drained
    by (cases drained) (auto simp: deliver_capture_def split: option.split intro!: blind_bind)
  have stream: "blind_fn (capture_stream overflow ptr cap stream k)" if "blind_fn k" for overflow ptr cap stream k
    unfolding capture_stream_def
    by (intro blind_drained blind_bind_fn deliver) (use that in \<open>auto split: option.split intro!: blind_lift\<close>)
  have capture: "blind_fn (capture_finish op oc ep ec started)" for started
    by (auto simp: capture_finish_def split: sum.split intro!: stream blind_lift)
  show "blind_fn (host_exec_spawn env p n)" unfolding host_exec_spawn_def
    by (intro blind_bind_fn blind_gates blind_memory blind_if blind_lift blind_return blind_child spawn)
  show "blind_fn (host_exec_spawn_capture env p n op oc ep ec)" unfolding host_exec_spawn_capture_def
    by (intro blind_bind_fn blind_gates blind_memory blind_if blind_lift blind_return blind_child capture)
qed

lemma blind_simple: "blind (host_time_now env)" "blind (host_http_request env p n)" "blind (host_kb_read env p n)"
  "blind (host_kb_write env p n)"
proof -
  have "blind (\<lambda>s. case he_micros env (hs_ticks s) of Some us \<Rightarrow> (tick s, Inr (word_of_nat us :: i64))
      | None \<Rightarrow> (tick s, Inl ''system clock before unix epoch''))"
    by (simp add: blind_def split: option.split)
  then show "blind (host_time_now env)" unfolding host_time_now_def by (intro blind_bind blind_gates)
qed (simp_all add: host_http_request_def host_kb_read_def host_kb_write_def blind_bind)

lemma blind_call: "(\<forall>p n. hc \<noteq> ResolveSecret p n) \<Longrightarrow> blind_fn (host_call env hc)"
  by (cases hc) (simp_all add: blind_returns blind_lift blind_simple blind_mailbox blind_exec blind_model)

section \<open>The world behind the secrets\<close>

text \<open>The environment gives the secrets, and the commands that are spawned inherit it.\<close>

definition with_secrets :: "'c host_env \<Rightarrow> (nat \<Rightarrow> secret_env) \<Rightarrow> (nat \<Rightarrow> string \<Rightarrow> child option) \<Rightarrow> 'c host_env" where
  "with_secrets env e sp = env\<lparr>he_secret_env := e, he_spawn := sp\<rparr>"

lemma with_secrets_fields [simp]:
  "he_blake3 (with_secrets env e sp) = he_blake3 env" "he_parse_url (with_secrets env e sp) = he_parse_url env"
  "he_micros (with_secrets env e sp) = he_micros env" "he_instant (with_secrets env e sp) = he_instant env"
  "he_uuid (with_secrets env e sp) = he_uuid env" "he_base32 (with_secrets env e sp) = he_base32 env"
  "he_decode_request (with_secrets env e sp) = he_decode_request env" "he_encode_meta (with_secrets env e sp) = he_encode_meta env"
  "he_cache_ops (with_secrets env e sp) = he_cache_ops env" "he_broker_env (with_secrets env e sp) = he_broker_env env"
  "he_async_handle (with_secrets env e sp) = he_async_handle env" "he_task_lost (with_secrets env e sp) = he_task_lost env"
  "he_runtime_error (with_secrets env e sp) = he_runtime_error env" "he_spawn (with_secrets env e sp) = sp"
  "he_timeout_var (with_secrets env e sp) = he_timeout_var env" "he_secret_env (with_secrets env e sp) = e"
  by (simp_all add: with_secrets_def)

lemma with_secrets_audit [simp]:
  "now_ms (with_secrets env e sp) = now_ms env" "redact_secret_id (with_secrets env e sp) = redact_secret_id env"
  "sink_record (with_secrets env e sp) = sink_record env" "record_cap_audit (with_secrets env e sp) = record_cap_audit env"
  "host_allow (with_secrets env e sp) = host_allow env" "record_cap_denial (with_secrets env e sp) = record_cap_denial env"
  "host_deny (with_secrets env e sp) = host_deny env" "gate (with_secrets env e sp) = gate env"
  "host_allows (with_secrets env e sp) = host_allows env" "plain_http (with_secrets env e sp) = plain_http env"
proof -
  show now: "now_ms (with_secrets env e sp) = now_ms env" by (rule ext) (simp add: now_ms_def)
  show "redact_secret_id (with_secrets env e sp) = redact_secret_id env" by (rule ext) (simp add: redact_secret_id_def)
  show sink: "sink_record (with_secrets env e sp) = sink_record env" by (intro ext) (simp add: sink_record_def now)
  show audit: "record_cap_audit (with_secrets env e sp) = record_cap_audit env" by (intro ext) (simp add: record_cap_audit_def now)
  show allow: "host_allow (with_secrets env e sp) = host_allow env" by (intro ext) (simp add: host_allow_def audit)
  show denial: "record_cap_denial (with_secrets env e sp) = record_cap_denial env"
    by (intro ext) (simp add: record_cap_denial_def audit sink)
  show deny: "host_deny (with_secrets env e sp) = host_deny env" by (intro ext) (simp add: host_deny_def denial)
  show "gate (with_secrets env e sp) = gate env" by (intro ext) (simp add: gate_def allow deny)
  show "host_allows (with_secrets env e sp) = host_allows env" by (intro ext) (simp add: host_allows_def)
  show "plain_http (with_secrets env e sp) = plain_http env" by (intro ext) (simp add: plain_http_def)
qed

lemma with_secrets_ensure [simp]:
  "ensure_time (with_secrets env e sp) = ensure_time env" "ensure_net (with_secrets env e sp) = ensure_net env"
  "ensure_kb_read (with_secrets env e sp) = ensure_kb_read env" "ensure_kb_write (with_secrets env e sp) = ensure_kb_write env"
  "ensure_model (with_secrets env e sp) = ensure_model env" "ensure_secret (with_secrets env e sp) = ensure_secret env"
  "ensure_exec (with_secrets env e sp) = ensure_exec env" "secret_unknown (with_secrets env e sp) = secret_unknown env"
  by (intro ext, simp add: ensure_time_def ensure_net_def ensure_kb_read_def ensure_kb_write_def ensure_model_def
      ensure_secret_def ensure_exec_def secret_unknown_def)+

lemma with_secrets_model [simp]: "host_model_complete (with_secrets env e sp) = host_model_complete env"
proof -
  have 1: "host_broker_complete (with_secrets env e sp) = host_broker_complete env" by (intro ext) (simp only: host_broker_complete_def with_secrets_fields)
  have 2: "write_meta (with_secrets env e sp) = write_meta env" by (intro ext) (simp add: write_meta_def)
  have 3: "give_completion (with_secrets env e sp) = give_completion env" by (intro ext) (simp only: give_completion_def 2)
  show ?thesis by (intro ext) (simp only: host_model_complete_def with_secrets_ensure with_secrets_fields 1 3)
qed

definition is_exec :: "hostcall \<Rightarrow> bool" where
  "is_exec hc = (case hc of ExecSpawn _ _ \<Rightarrow> True | ExecSpawnCapture _ _ _ _ _ _ \<Rightarrow> True | _ \<Rightarrow> False)"

lemma with_secrets_call:
  "(\<forall>p n. hc \<noteq> ResolveSecret p n) \<Longrightarrow> \<not> is_exec hc \<Longrightarrow> host_call (with_secrets env e sp) hc = host_call env hc"
  by (cases hc) (simp_all add: is_exec_def host_time_now_def host_http_request_def host_kb_read_def host_kb_write_def)

text \<open>Without the capability a command is refused before anything of it is read.\<close>

lemma exec_refused:
  assumes "is_exec hc" "\<not> cap_exec (hs_caps s)"
  shows "host_call (with_secrets env e sp) hc s = returns Value32 (lift_op (hbind (ensure_exec env) (\<lambda>_. hreturn 0))) s"
  using assms by (cases hc) (simp_all add: is_exec_def returns_def lift_op_def hfn_def hbind_def host_exec_spawn_def
      host_exec_spawn_capture_def ensure_exec_def gate_def host_deny_def)

text \<open>Two worlds with the same secrets up to their values.\<close>

definition same_presence :: "(nat \<Rightarrow> secret_env) \<Rightarrow> (nat \<Rightarrow> secret_env) \<Rightarrow> bool" where
  "same_presence e e' = (\<forall>t b st st' i. ss_allowed st = ss_allowed st' \<longrightarrow>
     (\<forall>j. (ss_values st j = None) = (ss_values st' j = None)) \<longrightarrow>
     (backend_resolve (e t) st b i = None) = (backend_resolve (e' t) st' b i = None))"

lemma erase_providerD:
  assumes "erase_provider p = erase_provider q"
  shows "sp_backend p = sp_backend q" "sp_ttl p = sp_ttl q" "ss_allowed (sp_store p) = ss_allowed (sp_store q)"
    "(ss_values (sp_store p) i = None) = (ss_values (sp_store q) i = None)"
    "map_option (\<lambda>e. e\<lparr>sc_value := []\<rparr>) (sp_cache p i) = map_option (\<lambda>e. e\<lparr>sc_value := []\<rparr>) (sp_cache q i)"
proof -
  note eq = assms [unfolded erase_provider_def]
  have "sp_cache (erase_provider p) i = sp_cache (erase_provider q) i" "ss_values (sp_store (erase_provider p)) i = ss_values (sp_store (erase_provider q)) i"
    by (simp_all add: assms)
  then show "map_option (\<lambda>e. e\<lparr>sc_value := []\<rparr>) (sp_cache p i) = map_option (\<lambda>e. e\<lparr>sc_value := []\<rparr>) (sp_cache q i)"
    "(ss_values (sp_store p) i = None) = (ss_values (sp_store q) i = None)"
    by (simp_all add: erase_provider_def) (metis None_eq_map_option_iff)
  show "sp_backend p = sp_backend q" "sp_ttl p = sp_ttl q" "ss_allowed (sp_store p) = ss_allowed (sp_store q)"
    using arg_cong [OF assms, of sp_backend] arg_cong [OF assms, of sp_ttl] arg_cong [OF assms, of "\<lambda>p. ss_allowed (sp_store p)"]
    by (simp_all add: erase_provider_def)
qed

definition erase_entry :: "secret_cache_entry \<Rightarrow> secret_cache_entry" where
  "erase_entry e = e\<lparr>sc_value := []\<rparr>"

lemma erase_entry_live: "erase_entry e = erase_entry e' \<Longrightarrow> live_entry now e = live_entry now e'"
  by (cases e; cases e') (simp add: erase_entry_def live_entry_def)

lemma caching_presence:
  assumes c: "\<And>j. map_option erase_entry (c j) = map_option erase_entry (c' j)"
    and inner: "(inner i = None) = (inner' i = None)"
  shows "(snd (caching_resolve ttl inner now i c) = None) = (snd (caching_resolve ttl inner' now i c') = None)"
    "map_option erase_entry (fst (caching_resolve ttl inner now i c) j) =
     map_option erase_entry (fst (caching_resolve ttl inner' now i c') j)"
proof -
  have "(snd (caching_resolve ttl inner now i c) = None) = (snd (caching_resolve ttl inner' now i c') = None)
    \<and> map_option erase_entry (fst (caching_resolve ttl inner now i c) j) =
     map_option erase_entry (fst (caching_resolve ttl inner' now i c') j)"
  proof (cases "(\<exists>e. c i = Some e \<and> live_entry now e)")
    case True
    then obtain e where e: "c i = Some e" "live_entry now e" by blast
    then obtain e' where e': "c' i = Some e'" "erase_entry e' = erase_entry e"
      using c [of i] by (metis map_option_eq_Some option.map(2))
    then have "live_entry now e'" using e(2) erase_entry_live by blast
    then show ?thesis using e e' c by (simp add: caching_resolve_def)
  next
    case dead: False
    have dead': "\<not> (\<exists>e. c' i = Some e \<and> live_entry now e)"
    proof
      assume "\<exists>e. c' i = Some e \<and> live_entry now e"
      then obtain e' where e': "c' i = Some e'" "live_entry now e'" by blast
      then obtain e where "c i = Some e" "erase_entry e = erase_entry e'"
        using c [of i] by (metis map_option_eq_Some option.map(2))
      then show False using dead e'(2) erase_entry_live by blast
    qed
    have miss: "caching_resolve ttl f now i d = (case f i of None \<Rightarrow> (d(i := None), None)
        | Some v \<Rightarrow> (d(i \<mapsto> \<lparr>sc_value = v, sc_expires_at = (if ttl = 0 then None else Some (now + ttl))\<rparr>), Some v))"
      if "\<not> (\<exists>e. d i = Some e \<and> live_entry now e)" for d f
      using that by (cases "d i") (simp_all add: caching_resolve_def)
    show ?thesis
      using c inner by (cases "inner i"; cases "inner' i") (simp_all add: miss [of c, OF dead] miss [of c', OF dead'] erase_entry_def)
  qed
  then show "(snd (caching_resolve ttl inner now i c) = None) = (snd (caching_resolve ttl inner' now i c') = None)"
    "map_option erase_entry (fst (caching_resolve ttl inner now i c) j) =
     map_option erase_entry (fst (caching_resolve ttl inner' now i c') j)" by blast+
qed

lemma erase_providerI:
  assumes "sp_backend p = sp_backend q" "sp_ttl p = sp_ttl q" "ss_allowed (sp_store p) = ss_allowed (sp_store q)"
    "\<And>i. (ss_values (sp_store p) i = None) = (ss_values (sp_store q) i = None)"
    "\<And>i. map_option erase_entry (sp_cache p i) = map_option erase_entry (sp_cache q i)"
  shows "erase_provider p = erase_provider q"
proof -
  have "map_option (\<lambda>_. [] :: string) (ss_values (sp_store p) i) = map_option (\<lambda>_. []) (ss_values (sp_store q) i)" for i
    using assms(4) [of i] by (cases "ss_values (sp_store p) i"; cases "ss_values (sp_store q) i") simp_all
  then show ?thesis using assms(1-3) assms(5) [unfolded erase_entry_def]
    by (cases p; cases q; cases "sp_store p"; cases "sp_store q") (simp add: erase_provider_def fun_eq_iff)
qed

lemma provider_presence:
  assumes e: "same_presence e e'" and p: "erase_provider p = erase_provider q"
  shows "(snd (provider_resolve (e t) now i p) = None) = (snd (provider_resolve (e' t) now i q) = None)"
    "erase_provider (fst (provider_resolve (e t) now i p)) = erase_provider (fst (provider_resolve (e' t) now i q))"
proof -
  note D = erase_providerD [OF p]
  let ?f = "backend_resolve (e t) (sp_store p) (sp_backend p)" and ?g = "backend_resolve (e' t) (sp_store q) (sp_backend q)"
  have inner: "(?f i = None) = (?g i = None)" using e D(1,3,4) unfolding same_presence_def by metis
  have c: "map_option erase_entry (sp_cache p j) = map_option erase_entry (sp_cache q j)" for j
    using D(5) by (simp add: erase_entry_def [abs_def])
  note C = caching_presence [of "sp_cache p" "sp_cache q" ?f i ?g "sp_ttl p" now, OF c inner]
  have r: "provider_resolve (e t) now i p = (if sp_ttl p = 0 then (p, ?f i)
      else (p\<lparr>sp_cache := fst (caching_resolve (sp_ttl p) ?f now i (sp_cache p))\<rparr>, snd (caching_resolve (sp_ttl p) ?f now i (sp_cache p))))"
    "provider_resolve (e' t) now i q = (if sp_ttl p = 0 then (q, ?g i)
      else (q\<lparr>sp_cache := fst (caching_resolve (sp_ttl p) ?g now i (sp_cache q))\<rparr>, snd (caching_resolve (sp_ttl p) ?g now i (sp_cache q))))"
    using D(2) by (simp_all add: provider_resolve_def split_def Let_def)
  show "(snd (provider_resolve (e t) now i p) = None) = (snd (provider_resolve (e' t) now i q) = None)"
    using inner C(1) by (simp add: r)
  show "erase_provider (fst (provider_resolve (e t) now i p)) = erase_provider (fst (provider_resolve (e' t) now i q))"
    using p C(2) D(1-4) by (auto simp: r intro!: erase_providerI)
qed

section \<open>Indistinguishable states\<close>

lemma erase_handlesD:
  assumes "erase_handles h = erase_handles h'"
  shows "hd_id_to_handle h = hd_id_to_handle h'"
    "map_option (\<lambda>r. r\<lparr>hr_value := []\<rparr>) (hd_handle_to_record h k) = map_option (\<lambda>r. r\<lparr>hr_value := []\<rparr>) (hd_handle_to_record h' k)"
  using arg_cong [OF assms, of hd_id_to_handle] arg_cong [OF assms, of "\<lambda>h. hd_handle_to_record h k"]
  by (simp_all add: erase_handles_def)

lemma erase_handlesI:
  assumes "hd_id_to_handle h = hd_id_to_handle h'"
    "\<And>k. map_option (\<lambda>r. r\<lparr>hr_value := []\<rparr>) (hd_handle_to_record h k) = map_option (\<lambda>r. r\<lparr>hr_value := []\<rparr>) (hd_handle_to_record h' k)"
  shows "erase_handles h = erase_handles h'"
  using assms by (cases h; cases h') (simp add: erase_handles_def fun_eq_iff)

lemma resolve_or_create_presence:
  assumes h: "erase_handles h = erase_handles h'" and f: "(f i = None) = (f' i = None)"
  shows "snd (resolve_or_create f fresh now i h) = snd (resolve_or_create f' fresh now i h')"
    "erase_handles (fst (resolve_or_create f fresh now i h)) = erase_handles (fst (resolve_or_create f' fresh now i h'))"
proof -
  note D = erase_handlesD [OF h]
  show "snd (resolve_or_create f fresh now i h) = snd (resolve_or_create f' fresh now i h')"
    using D(1) f by (auto simp: resolve_or_create_def split: option.split)
  show "erase_handles (fst (resolve_or_create f fresh now i h)) = erase_handles (fst (resolve_or_create f' fresh now i h'))"
  proof (cases "f i")
    case None
    then have "f' i = None" using f by simp
    then show ?thesis using h None by (simp add: resolve_or_create_def split: option.split)
  next
    case (Some v)
    then obtain v' where v': "f' i = Some v'" using f by auto
    show ?thesis using D Some v' by (cases "hd_id_to_handle h i") (auto simp: resolve_or_create_def intro!: erase_handlesI)
  qed
qed

lemma low_eqI:
  assumes "low s = low t" "erase_provider p = erase_provider q" "erase_handles h = erase_handles k"
  shows "low (s\<lparr>hs_secrets := p, hs_handles := h\<rparr>) = low (t\<lparr>hs_secrets := q, hs_handles := k\<rparr>)"
  using assms by (cases s; cases t) (simp add: low_def)

lemma low_eqD:
  assumes "low s = low t"
  shows "erase_provider (hs_secrets s) = erase_provider (hs_secrets t)" "erase_handles (hs_handles s) = erase_handles (hs_handles t)"
    "hs_ticks s = hs_ticks t" "hs_expose_raw s = hs_expose_raw t" "hs_memory s = hs_memory t" "hs_caps s = hs_caps t"
  using arg_cong [OF assms, of hs_caps] arg_cong [OF assms, of hs_secrets] arg_cong [OF assms, of hs_handles] arg_cong [OF assms, of hs_ticks]
    arg_cong [OF assms, of hs_expose_raw] arg_cong [OF assms, of hs_memory]
  by (simp_all add: low_def)

lemma issue_presence:
  assumes e: "same_presence e e'" and low: "low s = low t"
  shows "snd (issue_secret_handle (with_secrets env e sp) i s) = snd (issue_secret_handle (with_secrets env e' sp') i t)"
    "low (fst (issue_secret_handle (with_secrets env e sp) i s)) = low (fst (issue_secret_handle (with_secrets env e' sp') i t))"
proof -
  note D = low_eqD [OF low]
  let ?P = "provider_resolve (e (hs_ticks s)) (he_instant env (hs_ticks s)) i (hs_secrets s)"
  let ?Q = "provider_resolve (e' (hs_ticks s)) (he_instant env (hs_ticks s)) i (hs_secrets t)"
  let ?f = "\<lambda>j. snd (provider_resolve (e (hs_ticks s)) (he_instant env (hs_ticks s)) j (hs_secrets s))"
  let ?g = "\<lambda>j. snd (provider_resolve (e' (hs_ticks s)) (he_instant env (hs_ticks s)) j (hs_secrets t))"
  let ?fresh = "generate_handle (he_base32 env) (he_uuid env (hs_ticks s))" and ?now = "he_instant env (hs_ticks s)"
  have run: "issue_secret_handle (with_secrets env e sp) i s =
      (tick (s\<lparr>hs_secrets := fst ?P, hs_handles := fst (resolve_or_create ?f ?fresh ?now i (hs_handles s))\<rparr>),
       snd (resolve_or_create ?f ?fresh ?now i (hs_handles s)))"
    "issue_secret_handle (with_secrets env e' sp') i t =
      (tick (t\<lparr>hs_secrets := fst ?Q, hs_handles := fst (resolve_or_create ?g ?fresh ?now i (hs_handles t))\<rparr>),
       snd (resolve_or_create ?g ?fresh ?now i (hs_handles t)))"
    using D(3) by (simp_all add: issue_secret_handle_def host_provider_def split_def Let_def)
  note P = provider_presence [OF e D(1), of "hs_ticks s" ?now i]
  note H = resolve_or_create_presence [of "hs_handles s" "hs_handles t" ?f i ?g ?fresh ?now, OF D(2) P(1)]
  show "snd (issue_secret_handle (with_secrets env e sp) i s) = snd (issue_secret_handle (with_secrets env e' sp') i t)"
    using H(1) by (simp add: run)
  have "tick x = x\<lparr>hs_ticks := Suc (hs_ticks x)\<rparr>" for x :: "'a host" by (simp add: tick_def)
  then show "low (fst (issue_secret_handle (with_secrets env e sp) i s)) = low (fst (issue_secret_handle (with_secrets env e' sp') i t))"
    using low_eqI [OF low P(2) H(2)] D(3) by (simp add: run)
qed

interpretation raw: guest_invariant "\<lambda>s. hs_expose_raw s = b \<and> hs_caps s = c" env for b c env
  by unfold_locales (simp_all add: tick_def)

lemma blind_low: "blind m \<Longrightarrow> low s = low t \<Longrightarrow> apfst low (m s) = apfst low (m t)"
  unfolding blind_def by metis

lemma blind_fn_low: "blind_fn m \<Longrightarrow> low s = low t \<Longrightarrow> map_option (apfst low) (m s) = map_option (apfst low) (m t)"
  unfolding blind_fn_def by metis

lemma apfst_eq: "apfst low x = apfst low y \<longleftrightarrow> low (fst x) = low (fst y) \<and> snd x = snd y"
  by (cases x; cases y) simp

lemma hbind_low:
  assumes "apfst low (m s) = apfst low (m' t)"
    and "\<And>a s' t'. m s = (s', Inr a) \<Longrightarrow> m' t = (t', Inr a) \<Longrightarrow> low s' = low t' \<Longrightarrow> apfst low (f a s') = apfst low (g a t')"
  shows "apfst low (hbind m f s) = apfst low (hbind m' g t)"
proof -
  obtain s' r where m: "m s = (s', r)" by fastforce
  obtain t' where m': "m' t = (t', r)" using assms(1) m by (cases "m' t") simp
  show ?thesis using assms m m' by (cases r) (simp_all add: host_simps)
qed

lemma resolve_secret_low:
  assumes e: "same_presence e e'" and low: "low s = low t" and hidden: "\<not> hs_expose_raw s"
  shows "apfst low (host_resolve_secret (with_secrets env e sp) p n s) = apfst low (host_resolve_secret (with_secrets env e' sp') p n t)"
  unfolding host_resolve_secret_def with_secrets_ensure
proof (rule hbind_low, rule blind_low [OF blind_memory(3) low])
  fix i s1 t1
  assume read: "read_utf8 p n s = (s1, Inr i)" "low s1 = low t1"
  then have s1: "s1 = s" using read_utf8_state [of p n s] by simp
  show "apfst low (hbind (ensure_secret env i) (\<lambda>_ s. case if hs_expose_raw s then resolve_secret_value (with_secrets env e sp) i s
            else issue_secret_handle (with_secrets env e sp) i s of
          (s, Some v) \<Rightarrow> give_text p v s | (s, None) \<Rightarrow> secret_unknown env i s) s1) =
      apfst low (hbind (ensure_secret env i) (\<lambda>_ s. case if hs_expose_raw s then resolve_secret_value (with_secrets env e' sp') i s
            else issue_secret_handle (with_secrets env e' sp') i s of
          (s, Some v) \<Rightarrow> give_text p v s | (s, None) \<Rightarrow> secret_unknown env i s) t1)"
  proof (rule hbind_low, rule blind_low [OF blind_gates(8) read(2)])
    fix u s2 t2
    assume ensure: "ensure_secret env i s1 = (s2, Inr u)" and low2: "low s2 = low t2"
    have "hs_expose_raw s2 = hs_expose_raw s"
      using ensure s1 by (auto simp: ensure_secret_def gate_def host_deny_def Let_def split: if_splits)
    then have raw: "\<not> hs_expose_raw s2" "\<not> hs_expose_raw t2" using hidden low_eqD(4) [OF low2] by simp_all
    note issue = issue_presence [OF e low2, of env sp i sp']
    obtain s3 v where s3: "issue_secret_handle (with_secrets env e sp) i s2 = (s3, v)" by fastforce
    obtain t3 where t3: "issue_secret_handle (with_secrets env e' sp') i t2 = (t3, v)" "low s3 = low t3"
      using issue s3 by (cases "issue_secret_handle (with_secrets env e' sp') i t2") simp
    have give: "blind (give_text p w)" for w
      unfolding give_text_def write_utf8_def by (intro blind_bind blind_memory blind_return)
    show "apfst low (case if hs_expose_raw s2 then resolve_secret_value (with_secrets env e sp) i s2
            else issue_secret_handle (with_secrets env e sp) i s2 of
          (s, Some v) \<Rightarrow> give_text p v s | (s, None) \<Rightarrow> secret_unknown env i s) =
        apfst low (case if hs_expose_raw t2 then resolve_secret_value (with_secrets env e' sp') i t2
            else issue_secret_handle (with_secrets env e' sp') i t2 of
          (s, Some v) \<Rightarrow> give_text p v s | (s, None) \<Rightarrow> secret_unknown env i s)"
      using raw s3 t3 blind_low [OF give t3(2)] blind_low [OF blind_gates(10) t3(2)] by (cases v) simp_all
  qed
qed

lemma call_low:
  assumes "same_presence e e'" "low s = low t" "\<not> hs_expose_raw s" "\<not> cap_exec (hs_caps s)"
  shows "map_option (apfst low) (host_call (with_secrets env e sp) hc s) = map_option (apfst low) (host_call (with_secrets env e' sp') hc t)"
proof (cases "\<exists>p n. hc = ResolveSecret p n")
  case True
  then obtain p n where hc: "hc = ResolveSecret p n" by blast
  show ?thesis using resolve_secret_low [OF assms(1-3), of env sp p n sp']
    by (simp add: hc returns_def lift_op_def apfst_eq split_def)
next
  case other: False
  show ?thesis
  proof (cases "is_exec hc")
    case True
    have "blind_fn (returns Value32 (lift_op (hbind (ensure_exec env) (\<lambda>_. hreturn 0))))"
      by (intro blind_returns blind_lift blind_bind blind_gates blind_return)
    from blind_fn_low [OF this assms(2)] show ?thesis
      using exec_refused [OF True] assms(4) low_eqD(6) [OF assms(2)] by metis
  next
    case False
    then have "host_call (with_secrets env e sp) hc = host_call env hc" "host_call (with_secrets env e' sp') hc = host_call env hc"
      "blind_fn (host_call env hc)"
      using other by (intro with_secrets_call blind_call; blast)+
    then show ?thesis using blind_fn_low [OF _ assms(2)] by simp
  qed
qed

section \<open>What a guest learns\<close>

text \<open>A guest program chooses its next memory and call from its memory and the results so far.\<close>

type_synonym guest = "bytes option \<Rightarrow> (string + host_value) list \<Rightarrow> bytes option \<times> hostcall"

fun guest_run ::
  "'c host_env \<Rightarrow> guest \<Rightarrow> nat \<Rightarrow> (string + host_value) list \<Rightarrow> 'c host \<Rightarrow> ((string + host_value) list \<times> bytes option) option" where
  "guest_run env guest 0 seen s = Some (seen, hs_memory s)"
| "guest_run env guest (Suc k) seen s =
     (case guest (hs_memory s) seen of (mem, hc) \<Rightarrow>
        Option.bind (host_call env hc (s\<lparr>hs_memory := mem\<rparr>)) (\<lambda>(s', r). guest_run env guest k (seen @ [r]) s'))"

lemma call_keeps_raw:
  assumes "host_call env hc s = Some (s', r)"
  shows "hs_expose_raw s' = hs_expose_raw s \<and> hs_caps s' = hs_caps s"
  using keeps_fnD [OF raw.keeps_call [where b = "hs_expose_raw s" and c = "hs_caps s"] _ refl assms] by simp

lemma guest_run_low:
  assumes "same_presence e e'" "low s = low t" "\<not> hs_expose_raw s" "\<not> cap_exec (hs_caps s)"
  shows "guest_run (with_secrets env e sp) guest k seen s = guest_run (with_secrets env e' sp') guest k seen t"
  using assms(2-4)
proof (induction k arbitrary: seen s t)
  case 0
  then show ?case using low_eqD(5) by fastforce
next
  case (Suc k)
  obtain mem hc where g: "guest (hs_memory s) seen = (mem, hc)" by fastforce
  have g': "guest (hs_memory t) seen = (mem, hc)" using g low_eqD(5) [OF Suc.prems(1)] by simp
  let ?s = "s\<lparr>hs_memory := mem\<rparr>" and ?t = "t\<lparr>hs_memory := mem\<rparr>"
  have low: "low ?s = low ?t" using Suc.prems(1) by simp
  have call: "map_option (apfst low) (host_call (with_secrets env e sp) hc ?s) = map_option (apfst low) (host_call (with_secrets env e' sp') hc ?t)"
    using call_low [OF assms(1) low] Suc.prems(2,3) by simp
  show ?case
  proof (cases "host_call (with_secrets env e sp) hc ?s")
    case None
    then show ?thesis using call g g' by simp
  next
    case (Some x)
    obtain s' r where x: "x = (s', r)" by fastforce
    obtain t' where t': "host_call (with_secrets env e' sp') hc ?t = Some (t', r)" "low s' = low t'"
      using call Some x by (cases "host_call (with_secrets env e' sp') hc ?t") auto
    have "\<not> hs_expose_raw s'" "\<not> cap_exec (hs_caps s')"
      using call_keeps_raw [of _ hc ?s s' r] Some x Suc.prems(2,3) by simp_all
    from Suc.IH [OF t'(2) this] show ?thesis using Some x t'(1) g g' by simp
  qed
qed

text \<open>C3: In handle mode secrets do not reach a guest that may not execute commands: in two worlds that have
  the same secrets with different values, where spawned commands may do anything (they inherit the environment),
  and from states that differ in stored values only, every guest program without the capability to
  execute commands sees the same results of its hostcalls and ends with the same memory, after any number of
  calls. The providers of the model broker are the same in both worlds: what a provider makes
  of the secret it sends is outside the host.\<close>

theorem handle_mode_hides_secrets:
  assumes "same_presence e e'" and "low s = low t" and "\<not> hs_expose_raw s" and "\<not> cap_exec (hs_caps s)"
  shows "guest_run (with_secrets env e sp) guest k [] s = guest_run (with_secrets env e' sp') guest k [] t"
  by (rule guest_run_low [OF assms])

definition other_secret_env :: secret_env where
  "other_secret_env = agent_secret_env\<lparr>se_var := (\<lambda>i. if i = ''K'' then Some ''other'' else None)\<rparr>"

lemma other_presence: "same_presence (\<lambda>_. agent_secret_env) (\<lambda>_. other_secret_env)"
proof -
  have "(backend_resolve agent_secret_env st b i = None) = (backend_resolve other_secret_env st' b i = None)"
    if "ss_allowed st = ss_allowed st'" "\<forall>j. (ss_values st j = None) = (ss_values st' j = None)" for st st' b i
    using that by (cases b) (auto simp: backend_resolve_def resolve_secret_from_env_def pass_read_secret_def age_resolve_def
        store_resolve_def agent_secret_env_def other_secret_env_def split: option.split)
  then show ?thesis unfolding same_presence_def by blast
qed

text \<open>A child that compares the variable \<open>K\<close> of its environment with \<open>value\<close>.\<close>

definition env_child :: "secret_env \<Rightarrow> child" where
  "env_child e = quick_child\<lparr>ch_try_wait := (\<lambda>_. Exited (Some (if se_var e ''K'' = Some ''value'' then 0 else 1)))\<rparr>"

theorem handle_mode_hides_secrets_witness:
  "guest_run (with_secrets agent_env (\<lambda>_. agent_secret_env) (\<lambda>_ _. Some (env_child agent_secret_env))) (\<lambda>mem seen. (mem, ResolveSecret 0 1)) 2 []
      ((agent_host (deny_all\<lparr>cap_secrets := {''K''}\<rparr>) (utf8_bytes ''K.......''))\<lparr>hs_expose_raw := False\<rparr>) =
   guest_run (with_secrets agent_env (\<lambda>_. other_secret_env) (\<lambda>_ _. Some (env_child other_secret_env))) (\<lambda>mem seen. (mem, ResolveSecret 0 1)) 2 []
      ((agent_host (deny_all\<lparr>cap_secrets := {''K''}\<rparr>) (utf8_bytes ''K.......''))\<lparr>hs_expose_raw := False\<rparr>)"
  by (rule handle_mode_hides_secrets [OF other_presence refl]) (simp_all add: agent_host_def deny_all_def)

section \<open>Commands see the secrets\<close>

lemma exec_spawn_code:
  assumes "cap_exec (hs_caps s)" "0 < sint n" "snd (read_utf8 p n s) = Inr command"
    and "\<And>k. he_spawn env k command = Some (env_child e)"
  shows "\<exists>t. host_exec_spawn env p n s = Some (t, Inr (if se_var e ''K'' = Some ''value'' then 0 else 1))"
proof -
  have w: "exec_wait timeout (env_child e) 0 = Some (Inr (Some (if se_var e ''K'' = Some ''value'' then 0 else 1)))" for timeout
    by (subst exec_wait.simps) (simp add: env_child_def)
  have d: "drain_stream_preview (ch_stdout (env_child e)) l 0 [] False = Some ([], True, False)"
    "drain_stream_preview (ch_stderr (env_child e)) l 0 [] False = Some ([], True, False)" for l
    by (subst drain_stream_preview.simps, simp add: env_child_def quick_child_def)+
  obtain t where t: "host_exec_spawn env p n s = Option.bind
    (exec_wait (exec_timeout 0 (he_timeout_var env (hs_ticks (host_allow env ''exec.spawn'' ''exec_spawn'' [] [] s)))) (env_child e) 0)
    (\<lambda>r. spawn_finish (case r of Inl _ \<Rightarrow> Inl EXEC_ESPAWN | Inr status \<Rightarrow> Inr (env_child e, status)) t)"
    using exec_spawn_run [OF assms(1-3) assms(4)] by blast
  show ?thesis unfolding t w
    by (simp add: spawn_finish_def when_drained_def d lift_op_def hreturn_def exit_code_def)
qed

text \<open>
  The hypothesis on commands is needed: handle mode does not hide a secret of the environment from an agent that
  may execute commands, even if it has no capability for any secret.
\<close>

theorem commands_reveal_secrets:
  "\<exists>s. \<not> hs_expose_raw s \<and> cap_secrets (hs_caps s) = {} \<and>
     guest_run (with_secrets agent_env (\<lambda>_. agent_secret_env) (\<lambda>_ _. Some (env_child agent_secret_env))) (\<lambda>mem seen. (mem, ExecSpawn 0 2)) 1 [] s \<noteq>
     guest_run (with_secrets agent_env (\<lambda>_. other_secret_env) (\<lambda>_ _. Some (env_child other_secret_env))) (\<lambda>mem seen. (mem, ExecSpawn 0 2)) 1 [] s"
proof -
  let ?s = "exec_agent\<lparr>hs_expose_raw := False\<rparr>"
  have m: "?s\<lparr>hs_memory := hs_memory ?s\<rparr> = ?s" by (simp add: exec_agent_def agent_host_def)
  have caps: "cap_exec (hs_caps ?s)" "cap_secrets (hs_caps ?s) = {}" by (simp_all add: exec_agent_def agent_host_def deny_all_def)
  obtain command where r: "snd (read_utf8 0 2 exec_agent) = Inr command" using exec_agent_reads by blast
  then have r': "snd (read_utf8 0 2 ?s) = Inr command"
    by (auto simp: read_utf8_def read_bytes_def exec_agent_def agent_host_def host_simps split: if_splits option.splits)
  have run: "\<exists>mem. guest_run (with_secrets agent_env (\<lambda>_. e) (\<lambda>_ _. Some (env_child e))) (\<lambda>mem seen. (mem, ExecSpawn 0 2)) 1 [] ?s =
      Some ([Inr (Value32 (if se_var e ''K'' = Some ''value'' then 0 else 1))], mem)" for e
  proof -
    let ?env = "with_secrets agent_env (\<lambda>_. e) (\<lambda>_ _. Some (env_child e))"
    obtain t where "host_exec_spawn ?env 0 2 ?s = Some (t, Inr (if se_var e ''K'' = Some ''value'' then 0 else 1))"
      using exec_spawn_code [OF caps(1) _ r', of ?env e] by auto
    then show ?thesis by (simp add: m returns_def)
  qed
  have "se_var agent_secret_env ''K'' = Some ''value''" "se_var other_secret_env ''K'' \<noteq> Some ''value''"
    by (simp_all add: agent_secret_env_def other_secret_env_def)
  then show ?thesis using run [of agent_secret_env] run [of other_secret_env] caps
    by (intro exI [of _ ?s]) auto
qed

end
