(* ===== verification/Kb_Redact.thy ===== *)
theory Kb_Redact
  imports Opening_Values
begin

text \<open>
  The redaction of e-mail addresses in \<open>crates/kb/src/lib.rs\<close> (\<open>Redactor\<close>, \<open>RedactionContext\<close>,
  \<open>EVENT_PII_FIELDS\<close>). The hash BLAKE3 and the Base32 encoder are arguments.
\<close>

section \<open>Accessors of JSON values\<close>

fun json_get :: "json \<Rightarrow> string \<Rightarrow> json option" where
  "json_get (JObject m) k = map_of m k"
| "json_get v k = None"

fun json_as_str :: "json \<Rightarrow> string option" where
  "json_as_str (JString s) = Some s"
| "json_as_str v = None"

fun json_as_array :: "json \<Rightarrow> json list option" where
  "json_as_array (JArray vs) = Some vs"
| "json_as_array v = None"

fun json_as_i64 :: "json \<Rightarrow> int option" where
  "json_as_i64 (JNumber n) = number_as_i64 n"
| "json_as_i64 v = None"

fun number_as_f64 :: "number \<Rightarrow> f64" where
  "number_as_f64 (PosInt n) = f64_of_int (uint n)"
| "number_as_f64 (NegInt n) = f64_of_int (sint n)"
| "number_as_f64 (Float f) = f"

fun json_as_f64 :: "json \<Rightarrow> f64 option" where
  "json_as_f64 (JNumber n) = Some (number_as_f64 n)"
| "json_as_f64 v = None"

section \<open>Configuration and context\<close>

record redaction_config =
  rc_mask_email :: bool
  rc_level :: string
  rc_at_query_time :: bool
  rc_materialize_masked_columns :: bool
  rc_url_param_denylist :: "string list"
  rc_salt :: string
  rc_allow_unredacted_admin :: bool
  rc_drop_masked_rows :: bool

record redaction_context =
  rx_pii_clearance :: bool
  rx_drop_masked_rows :: bool

definition context_masked :: "bool \<Rightarrow> redaction_context" where
  "context_masked drop_masked_rows = \<lparr>rx_pii_clearance = False, rx_drop_masked_rows = drop_masked_rows\<rparr>"

definition context_unredacted :: redaction_context where
  "context_unredacted = \<lparr>rx_pii_clearance = True, rx_drop_masked_rows = False\<rparr>"

text \<open>\<open>rd_blake3\<close> and \<open>rd_base32\<close> are the third-party hash and encoder.\<close>

record redactor =
  rd_config :: redaction_config
  rd_salt :: bytes
  rd_blake3 :: "bytes \<Rightarrow> bytes"
  rd_base32 :: "bytes \<Rightarrow> string"

definition redactor_new :: "(bytes \<Rightarrow> bytes) \<Rightarrow> (bytes \<Rightarrow> string) \<Rightarrow> redaction_config \<Rightarrow> redactor" where
  "redactor_new blake3 base32 config =
    \<lparr>rd_config = config, rd_salt = utf8_bytes (rc_salt config), rd_blake3 = blake3, rd_base32 = base32\<rparr>"

definition default_context :: "redactor \<Rightarrow> redaction_context" where
  "default_context rd = context_masked (rc_drop_masked_rows (rd_config rd))"

definition privileged_context :: "redactor \<Rightarrow> bool \<Rightarrow> redaction_context" where
  "privileged_context rd allowed =
    (if allowed \<and> rc_allow_unredacted_admin (rd_config rd) then context_unredacted else default_context rd)"

definition should_mask :: "redactor \<Rightarrow> redaction_context \<Rightarrow> bool" where
  "should_mask rd ctx = (rc_mask_email (rd_config rd) \<and> \<not> rx_pii_clearance ctx)"

section \<open>Masking\<close>

definition mask_email_string :: "redactor \<Rightarrow> redaction_context \<Rightarrow> string \<Rightarrow> string \<times> bool" where
  "mask_email_string rd ctx email =
    (if \<not> should_mask rd ctx then (email, False)
     else case split_once ''@'' email of
       None \<Rightarrow> (email, False)
     | Some (local_part, domain) \<Rightarrow>
         if local_part = [] \<or> domain = [] then (email, False)
         else
           let encoded = rd_base32 rd (rd_blake3 rd (rd_salt rd @ utf8_bytes local_part));
               short = to_ascii_lowercase (take 6 encoded);
               first = (case local_part of c # _ \<Rightarrow> c | [] \<Rightarrow> CHR ''x'')
           in (first # short @ ''@'' @ domain, True))"

fun mask_email_value :: "redactor \<Rightarrow> redaction_context \<Rightarrow> json \<Rightarrow> json \<times> bool" where
  "mask_email_value rd ctx (JString s) = apfst JString (mask_email_string rd ctx s)"
| "mask_email_value rd ctx (JArray vs) =
     (JArray (map (\<lambda>v. fst (mask_email_value rd ctx v)) vs), \<exists>v \<in> set vs. snd (mask_email_value rd ctx v))"
| "mask_email_value rd ctx v = (v, False)"

fun mask_value_emails_deep :: "redactor \<Rightarrow> redaction_context \<Rightarrow> json \<Rightarrow> json \<times> bool" where
  "mask_value_emails_deep rd ctx (JString s) = apfst JString (mask_email_string rd ctx s)"
| "mask_value_emails_deep rd ctx (JArray vs) =
     (JArray (map (\<lambda>v. fst (mask_value_emails_deep rd ctx v)) vs),
      \<exists>v \<in> set vs. snd (mask_value_emails_deep rd ctx v))"
| "mask_value_emails_deep rd ctx (JObject m) =
     (JObject (map (\<lambda>(k, v). (k, fst (mask_value_emails_deep rd ctx v))) m),
      \<exists>(k, v) \<in> set m. snd (mask_value_emails_deep rd ctx v))"
| "mask_value_emails_deep rd ctx v = (v, False)"

definition mask_payload_generic :: "redactor \<Rightarrow> redaction_context \<Rightarrow> json \<Rightarrow> json \<times> bool" where
  "mask_payload_generic rd ctx payload = mask_value_emails_deep rd ctx payload"

text \<open>The fields \<open>/email\<close>, \<open>/to\<close>, \<open>/cc\<close>: a JSON pointer of one token that is not an array index.\<close>

definition EVENT_PII_FIELDS :: "(string \<times> string list) list" where
  "EVENT_PII_FIELDS = [(''contact.upserted'', [''email'']), (''email.sent'', [''to'', ''cc''])]"

definition pii_fields_for_kind :: "string \<Rightarrow> string list option" where
  "pii_fields_for_kind kind = map_of EVENT_PII_FIELDS kind"

definition mask_field :: "redactor \<Rightarrow> redaction_context \<Rightarrow> string \<Rightarrow> json \<times> bool \<Rightarrow> json \<times> bool" where
  "mask_field rd ctx field acc =
    (case acc of
       (JObject m, masked) \<Rightarrow>
         (case map_of m field of
            None \<Rightarrow> acc
          | Some original \<Rightarrow>
              (case mask_email_value rd ctx original of
                 (v, did) \<Rightarrow> (JObject (AList.update field v m), masked \<or> did)))
     | _ \<Rightarrow> acc)"

definition mask_payload_for_kind :: "redactor \<Rightarrow> redaction_context \<Rightarrow> string \<Rightarrow> json \<Rightarrow> json \<times> bool" where
  "mask_payload_for_kind rd ctx kind payload =
    (case pii_fields_for_kind kind of
       None \<Rightarrow> (payload, False)
     | Some pii_fields \<Rightarrow> fold (mask_field rd ctx) pii_fields (payload, False))"

definition column_carries_email :: "string \<Rightarrow> bool" where
  "column_carries_email column =
    (let lower = to_ascii_lowercase column
     in lower = ''email'' \<or> lower = ''to'' \<or> lower = ''cc'' \<or> strip_suffix ''_email'' lower \<noteq> None)"

definition mask_column_value :: "redactor \<Rightarrow> redaction_context \<Rightarrow> string \<Rightarrow> json \<Rightarrow> json \<times> bool" where
  "mask_column_value rd ctx column v =
    (if \<not> column_carries_email column then (v, False) else mask_email_value rd ctx v)"

definition mask_email_option :: "redactor \<Rightarrow> redaction_context \<Rightarrow> string option \<Rightarrow> string option \<times> bool" where
  "mask_email_option rd ctx email =
    (case email of
       Some raw \<Rightarrow> (case mask_email_value rd ctx (JString raw) of (v, masked) \<Rightarrow> (json_as_str v, masked))
     | None \<Rightarrow> (None, False))"

section \<open>Values that differ in addresses only\<close>

text \<open>
  What a masked address may still show: its domain, the first character of its local part and the
  first six characters of the salted hash of the local part. Two strings have the same pseudonym when
  they are equal or two addresses that agree in these.
\<close>

definition short_token :: "redactor \<Rightarrow> string \<Rightarrow> string" where
  "short_token rd local_part = to_ascii_lowercase (take 6 (rd_base32 rd (rd_blake3 rd (rd_salt rd @ utf8_bytes local_part))))"

definition same_pseudonym :: "redactor \<Rightarrow> string \<Rightarrow> string \<Rightarrow> bool" where
  "same_pseudonym rd s t \<longleftrightarrow> s = t \<or>
    (\<exists>c l l' domain. s = (c # l) @ ''@'' @ domain \<and> t = (c # l') @ ''@'' @ domain \<and> domain \<noteq> [] \<and>
       CHR ''@'' \<notin> set (c # l) \<and> CHR ''@'' \<notin> set (c # l') \<and> short_token rd (c # l) = short_token rd (c # l'))"

inductive json_alike :: "redactor \<Rightarrow> json \<Rightarrow> json \<Rightarrow> bool" for rd where
  alike_same: "json_alike rd v v"
| alike_string: "same_pseudonym rd s t \<Longrightarrow> json_alike rd (JString s) (JString t)"
| alike_array: "list_all2 (json_alike rd) vs ws \<Longrightarrow> json_alike rd (JArray vs) (JArray ws)"
| alike_object: "list_all2 (\<lambda>x y. fst x = fst y \<and> json_alike rd (snd x) (snd y)) m n \<Longrightarrow>
    json_alike rd (JObject m) (JObject n)"

inductive_cases json_alikeE: "json_alike rd v w"

lemma mask_address:
  assumes "should_mask rd ctx" "CHR ''@'' \<notin> set local_part" "local_part \<noteq> []" "domain \<noteq> []"
  shows "mask_email_string rd ctx (local_part @ ''@'' @ domain) = (hd local_part # short_token rd local_part @ ''@'' @ domain, True)"
  using assms split_once_char_free [of "CHR ''@''" local_part domain]
  by (simp add: mask_email_string_def short_token_def Let_def split: list.split)

lemma should_maskI: "rc_mask_email (rd_config rd) \<Longrightarrow> \<not> rx_pii_clearance ctx \<Longrightarrow> should_mask rd ctx"
  by (simp add: should_mask_def)

lemma same_pseudonym_mask:
  assumes "should_mask rd ctx" "same_pseudonym rd s t"
  shows "mask_email_string rd ctx s = mask_email_string rd ctx t"
  using assms(2) unfolding same_pseudonym_def
proof (elim disjE exE conjE)
  fix c l l' domain
  assume "s = (c # l) @ ''@'' @ domain" "t = (c # l') @ ''@'' @ domain" "domain \<noteq> []"
    "CHR ''@'' \<notin> set (c # l)" "CHR ''@'' \<notin> set (c # l')" "short_token rd (c # l) = short_token rd (c # l')"
  then show ?thesis
    using mask_address [OF assms(1), of "c # l" domain] mask_address [OF assms(1), of "c # l'" domain] by simp
qed simp

lemma list_all2_alike_same [simp]: "list_all2 (\<lambda>x y. fst x = fst y \<and> json_alike rd (snd x) (snd y)) m m"
  by (induction m) (auto intro: alike_same)

lemma alike_mask_deep:
  "json_alike rd v w \<Longrightarrow> should_mask rd ctx \<Longrightarrow> mask_value_emails_deep rd ctx v = mask_value_emails_deep rd ctx w"
proof (induction rule: json_alike.induct)
  case (alike_string s t)
  then show ?case by (simp add: same_pseudonym_mask)
next
  case (alike_array vs ws)
  then show ?case by (induction rule: list_all2_induct) auto
next
  case (alike_object m n)
  then show ?case by (induction rule: list_all2_induct) auto
qed simp

lemma alike_mask_value:
  "json_alike rd v w \<Longrightarrow> should_mask rd ctx \<Longrightarrow>
    json_alike rd (fst (mask_email_value rd ctx v)) (fst (mask_email_value rd ctx w)) \<and>
    snd (mask_email_value rd ctx v) = snd (mask_email_value rd ctx w)"
proof (induction rule: json_alike.induct)
  case (alike_same v)
  then show ?case by (auto intro: json_alike.intros)
next
  case (alike_string s t)
  then show ?case by (auto simp: same_pseudonym_mask [of rd ctx s t] intro: json_alike.intros)
next
  case (alike_array vs ws)
  have "list_all2 (json_alike rd) (map (\<lambda>v. fst (mask_email_value rd ctx v)) vs) (map (\<lambda>v. fst (mask_email_value rd ctx v)) ws)"
    using alike_array by (induction rule: list_all2_induct) auto
  moreover have "(\<exists>v \<in> set vs. snd (mask_email_value rd ctx v)) = (\<exists>v \<in> set ws. snd (mask_email_value rd ctx v))"
    using alike_array by (induction rule: list_all2_induct) auto
  ultimately show ?case by (auto intro: json_alike.intros)
next
  case (alike_object m n)
  then show ?case by (auto intro: json_alike.intros elim: list_all2_mono)
qed

lemma alike_map_of:
  assumes "list_all2 (\<lambda>x y. fst x = fst y \<and> json_alike rd (snd x) (snd y)) m n"
  shows "rel_option (json_alike rd) (map_of m f) (map_of n f)"
  using assms by (induction rule: list_all2_induct) auto

lemma alike_update:
  assumes "list_all2 (\<lambda>x y. fst x = fst y \<and> json_alike rd (snd x) (snd y)) m n" "json_alike rd x y"
  shows "list_all2 (\<lambda>x y. fst x = fst y \<and> json_alike rd (snd x) (snd y)) (AList.update f x m) (AList.update f y n)"
  using assms(1) by (induction rule: list_all2_induct) (use assms(2) in auto)

lemma alike_JObject:
  "json_alike rd (JObject m) w \<Longrightarrow>
    \<exists>n. w = JObject n \<and> list_all2 (\<lambda>x y. fst x = fst y \<and> json_alike rd (snd x) (snd y)) m n"
  by (erule json_alikeE) auto

lemma alike_mask_field:
  assumes "json_alike rd v w" "should_mask rd ctx"
  shows "json_alike rd (fst (mask_field rd ctx f (v, d))) (fst (mask_field rd ctx f (w, d))) \<and>
    snd (mask_field rd ctx f (v, d)) = snd (mask_field rd ctx f (w, d))"
proof (cases "\<exists>m. v = JObject m")
  case True
  then obtain m n where v: "v = JObject m" and w: "w = JObject n"
    and mn: "list_all2 (\<lambda>x y. fst x = fst y \<and> json_alike rd (snd x) (snd y)) m n"
    using alike_JObject assms(1) by blast
  show ?thesis
  proof (cases "map_of m f")
    case None
    then have "map_of n f = None" using alike_map_of [OF mn, of f] by simp
    then show ?thesis using None assms by (simp add: mask_field_def v w)
  next
    case (Some x)
    then obtain y where y: "map_of n f = Some y" "json_alike rd x y"
      using alike_map_of [OF mn, of f] by (auto simp: option_rel_Some1)
    show ?thesis using alike_mask_value [OF y(2) assms(2)] alike_update [OF mn] Some y(1)
      by (auto simp: mask_field_def split_def v w intro!: alike_object)
  qed
next
  case False
  then have "mask_field rd ctx f (v, d) = (v, d)" "mask_field rd ctx f (w, d) = (w, d)"
    using assms by (auto simp: mask_field_def split: json.split elim: json_alikeE)
  then show ?thesis using assms by simp
qed

lemma alike_mask_kind:
  assumes "json_alike rd v w" "should_mask rd ctx"
  shows "json_alike rd (fst (mask_payload_for_kind rd ctx kind v)) (fst (mask_payload_for_kind rd ctx kind w)) \<and>
    snd (mask_payload_for_kind rd ctx kind v) = snd (mask_payload_for_kind rd ctx kind w)"
proof -
  have fields: "json_alike rd v w \<Longrightarrow>
      json_alike rd (fst (fold (mask_field rd ctx) fs (v, d))) (fst (fold (mask_field rd ctx) fs (w, d))) \<and>
      snd (fold (mask_field rd ctx) fs (v, d)) = snd (fold (mask_field rd ctx) fs (w, d))" for fs v w d
  proof (induction fs arbitrary: v w d)
    case (Cons f fs)
    obtain v' d' w' d'' where "mask_field rd ctx f (v, d) = (v', d')" "mask_field rd ctx f (w, d) = (w', d'')"
      by fastforce
    then show ?case using Cons.IH [of v' w' d'] alike_mask_field [OF Cons.prems assms(2), of f d] by simp
  qed simp
  show ?thesis using fields assms
    by (auto simp: mask_payload_for_kind_def split: option.split)
qed

section \<open>Without masking nothing changes\<close>

lemma unmasked_string: "\<not> should_mask rd ctx \<Longrightarrow> mask_email_string rd ctx s = (s, False)"
  by (simp add: mask_email_string_def)

lemma unmasked_value: "\<not> should_mask rd ctx \<Longrightarrow> mask_email_value rd ctx v = (v, False)"
  by (induction rd ctx v rule: mask_email_value.induct) (auto simp: unmasked_string intro: map_idI)

lemma unmasked_deep: "\<not> should_mask rd ctx \<Longrightarrow> mask_value_emails_deep rd ctx v = (v, False)"
proof (induction rd ctx v rule: mask_value_emails_deep.induct)
  case (3 rd ctx m)
  then have m: "\<And>k v. (k, v) \<in> set m \<Longrightarrow> mask_value_emails_deep rd ctx v = (v, False)" by blast
  have "map (\<lambda>(k, v). (k, fst (mask_value_emails_deep rd ctx v))) m = m"
    by (rule map_idI) (use m in auto)
  then show ?case using m by auto
qed (auto simp: unmasked_string intro: map_idI)

text \<open>\<open>impl Default for KbRedactionConfig\<close>\<close>

definition default_redaction_config :: redaction_config where
  "default_redaction_config =
    \<lparr>rc_mask_email = True, rc_level = ''strict'', rc_at_query_time = True, rc_materialize_masked_columns = True,
     rc_url_param_denylist = [''token'', ''key'', ''password'', ''signature'', ''auth''], rc_salt = ''runloop-dev-salt'', rc_allow_unredacted_admin = False, rc_drop_masked_rows = False\<rparr>"

end
