(* ===== verification/Kb_Ledger.thy ===== *)
theory Kb_Ledger
  imports Kb_Redact Runtime_Audit
begin

text \<open>
  The ledger of the knowledge base (\<open>crates/kb/src/lib.rs\<close>: \<open>propose\<close>, \<open>verify\<close>, the capability
  audit; \<open>trace_store.rs\<close>). The table \<open>events\<close> is the list of its rows by id, with the constraints
  of its schema: an id is assigned once and grows, and the hash is unique. The schema validator,
  canonical JSON, the JSON reader, BLAKE3 and the formatting of UUIDs are fields of the environment;
  \<open>ke_fault\<close> says which database transactions fail.
\<close>

section \<open>Types\<close>

datatype kb_error =
    KbConfig string
  | KbSqlite string
  | KbUnknownSchema string
  | KbSchema string
  | KbInvalidScope string
  | KbMissingEvidence int
  | KbCanon string
  | KbQueryNotReadOnly

record provenance =
  pv_trace_id :: string
  pv_opening_id :: string
  pv_agent_id :: string
  pv_inputs_hash :: "string option"
  pv_rationale :: "string option"

definition provenance_value :: "provenance \<Rightarrow> json" where
  "provenance_value p = JObject
    ([(''trace_id'', JString (pv_trace_id p)), (''opening_id'', JString (pv_opening_id p)), (''agent_id'', JString (pv_agent_id p))]
     @ (case pv_inputs_hash p of Some h \<Rightarrow> [(''inputs_hash'', JString h)] | None \<Rightarrow> [])
     @ (case pv_rationale p of Some r \<Rightarrow> [(''rationale'', JString r)] | None \<Rightarrow> []))"

record state_delta =
  sd_kind :: string
  sd_actor :: string
  sd_scope :: "string option"
  sd_payload :: json
  sd_provenance :: provenance

definition delta_scope :: "state_delta \<Rightarrow> string" where
  "delta_scope d = (case sd_scope d of Some s \<Rightarrow> s | None \<Rightarrow> ''user'')"

record event_row =
  ev_id :: int
  ev_ts_ms :: int
  ev_actor :: string
  ev_kind :: string
  ev_scope :: string
  ev_payload_json :: string
  ev_provenance_json :: string
  ev_hash :: bytes

record kb_env =
  ke_schema_errors :: "string \<Rightarrow> json \<Rightarrow> string list"
  ke_canon :: "json \<Rightarrow> string + string"
  ke_parse :: "string \<Rightarrow> string + json"
  ke_show :: "json \<Rightarrow> string"
  ke_blake3 :: "bytes \<Rightarrow> bytes"
  ke_uuid :: "u128 \<Rightarrow> string"
  ke_now :: "nat \<Rightarrow> u64"
  ke_fault :: "nat \<Rightarrow> string option"

text \<open>\<open>lg_next_id\<close> is the counter of \<open>AUTOINCREMENT\<close>.\<close>

record ledger =
  lg_events :: "event_row list"
  lg_next_id :: int
  lg_cap_audits :: "cap_audit list"
  lg_ticks :: nat

definition ledger_new :: ledger where
  "ledger_new = \<lparr>lg_events = [], lg_next_id = 1, lg_cap_audits = [], lg_ticks = 0\<rparr>"

text \<open>The kinds of the embedded schemas.\<close>

definition EMBEDDED_SCHEMAS :: "string list" where
  "EMBEDDED_SCHEMAS = [''contact.upserted'', ''artifact.created'', ''email.sent'', ''run.started'', ''run.finished'',
     ''node.finished'', ''run.trace'', ''cap.audit'']"

section \<open>Proposing an event\<close>

definition validate_scope :: "string \<Rightarrow> kb_error + unit" where
  "validate_scope scope =
    guard_or (scope = ''user'' \<or> scope = ''system'' \<or> starts_with ''agent:'' scope) (KbInvalidScope scope)"

definition event_exists :: "event_row list \<Rightarrow> int \<Rightarrow> bool" where
  "event_exists events i = (\<exists>e \<in> set events. ev_id e = i)"

fun check_evidence :: "event_row list \<Rightarrow> json list \<Rightarrow> kb_error + unit" where
  "check_evidence events [] = Inr ()"
| "check_evidence events (v # vs) =
     (case json_as_i64 v of
        Some i \<Rightarrow> if event_exists events i then check_evidence events vs else Inl (KbMissingEvidence i)
      | None \<Rightarrow> check_evidence events vs)"

definition validate_referential_integrity :: "event_row list \<Rightarrow> state_delta \<Rightarrow> kb_error + unit" where
  "validate_referential_integrity events d =
    (case Option.bind (json_get (sd_payload d) ''evidence'') json_as_array of
       Some evidence \<Rightarrow> check_evidence events evidence
     | None \<Rightarrow> Inr ())"

definition canonicalize_value :: "kb_env \<Rightarrow> json \<Rightarrow> kb_error + string" where
  "canonicalize_value env v = map_sum KbCanon id (ke_canon env v)"

definition envelope_value :: "string \<Rightarrow> string \<Rightarrow> string \<Rightarrow> json \<Rightarrow> json \<Rightarrow> json" where
  "envelope_value kind actor scope payload provenance =
    JObject [(''kind'', JString kind), (''actor'', JString actor), (''scope'', JString scope),
      (''payload'', payload), (''provenance'', provenance)]"

text \<open>The row to insert, without its id: the validations in the order of the code.\<close>

definition prepare_row :: "kb_env \<Rightarrow> state_delta \<Rightarrow> ledger \<Rightarrow> kb_error + event_row" where
  "prepare_row env d lg =
    res_bind (validate_scope (delta_scope d)) (\<lambda>_.
    res_bind (guard_or (sd_kind d \<in> set EMBEDDED_SCHEMAS) (KbUnknownSchema (sd_kind d))) (\<lambda>_.
    res_bind (let errors = ke_schema_errors env (sd_kind d) (sd_payload d)
              in guard_or (errors = []) (KbSchema (join_str ''; '' errors))) (\<lambda>_.
    res_bind (validate_referential_integrity (lg_events lg) d) (\<lambda>_.
    res_bind (canonicalize_value env (sd_payload d)) (\<lambda>payload_canonical.
    res_bind (canonicalize_value env (provenance_value (sd_provenance d))) (\<lambda>provenance_canonical.
    res_bind (canonicalize_value env (envelope_value (sd_kind d) (sd_actor d) (delta_scope d) (sd_payload d)
                (provenance_value (sd_provenance d)))) (\<lambda>envelope_canonical.
    res_bind (guard_or (uint (ke_now env (lg_ticks lg)) < 2 ^ 63)
                (KbConfig (''timestamp out of range: '' @ decimal (unat (ke_now env (lg_ticks lg)))))) (\<lambda>_.
    Inr \<lparr>ev_id = lg_next_id lg, ev_ts_ms = uint (ke_now env (lg_ticks lg)), ev_actor = sd_actor d, ev_kind = sd_kind d,
         ev_scope = delta_scope d, ev_payload_json = payload_canonical, ev_provenance_json = provenance_canonical,
         ev_hash = ke_blake3 env (utf8_bytes envelope_canonical)\<rparr>))))))))"

text \<open>The transaction: the insertion fails on a repeated hash, and rolls back.\<close>

definition insert_event :: "kb_env \<Rightarrow> event_row \<Rightarrow> ledger \<Rightarrow> kb_error + ledger" where
  "insert_event env row lg =
    (case ke_fault env (lg_ticks lg) of
       Some e \<Rightarrow> Inl (KbSqlite e)
     | None \<Rightarrow>
         if \<exists>e \<in> set (lg_events lg). ev_hash e = ev_hash row
         then Inl (KbSqlite ''UNIQUE constraint failed: events.hash_blake3'')
         else if 2 ^ 63 \<le> ev_id row then Inl (KbSqlite ''database or disk is full'')
         else Inr (lg\<lparr>lg_events := lg_events lg @ [row], lg_next_id := lg_next_id lg + 1\<rparr>))"

definition propose :: "kb_env \<Rightarrow> state_delta \<Rightarrow> ledger \<Rightarrow> ledger \<times> (kb_error + int)" where
  "propose env d lg =
    (case res_bind (prepare_row env d lg) (\<lambda>row. res_bind (insert_event env row lg) (\<lambda>lg'. Inr (lg', ev_id row))) of
       Inl e \<Rightarrow> (lg\<lparr>lg_ticks := Suc (lg_ticks lg)\<rparr>, Inl e)
     | Inr (lg', i) \<Rightarrow> (lg'\<lparr>lg_ticks := Suc (lg_ticks lg)\<rparr>, Inr i))"

section \<open>Verification of the ledger\<close>

record hash_mismatch =
  hm_event_id :: int
  hm_stored :: string
  hm_computed :: string

record non_canonical_field =
  ncf_event_id :: int
  ncf_field :: string

record parse_failure =
  pf_event_id :: int
  pf_field :: string
  pf_error :: string

record verify_report =
  vr_events_checked :: nat
  vr_hash_mismatches :: "hash_mismatch list"
  vr_non_canonical_fields :: "non_canonical_field list"
  vr_parse_failures :: "parse_failure list"

definition empty_report :: verify_report where
  "empty_report = \<lparr>vr_events_checked = 0, vr_hash_mismatches = [], vr_non_canonical_fields = [], vr_parse_failures = []\<rparr>"

definition push_failure :: "event_row \<Rightarrow> string \<Rightarrow> string \<Rightarrow> verify_report \<Rightarrow> verify_report" where
  "push_failure row f err r =
    r\<lparr>vr_parse_failures := vr_parse_failures r @ [\<lparr>pf_event_id = ev_id row, pf_field = f, pf_error = err\<rparr>]\<rparr>"

definition push_non_canonical :: "event_row \<Rightarrow> string \<Rightarrow> verify_report \<Rightarrow> verify_report" where
  "push_non_canonical row f r =
    r\<lparr>vr_non_canonical_fields := vr_non_canonical_fields r @ [\<lparr>ncf_event_id = ev_id row, ncf_field = f\<rparr>]\<rparr>"

definition check_hash :: "kb_env \<Rightarrow> event_row \<Rightarrow> json \<Rightarrow> json \<Rightarrow> verify_report \<Rightarrow> verify_report" where
  "check_hash env row payload provenance r =
    (case ke_canon env (envelope_value (ev_kind row) (ev_actor row) (ev_scope row) payload provenance) of
       Inl err \<Rightarrow> push_failure row ''envelope'' err r
     | Inr canonical \<Rightarrow>
         (let computed = ke_blake3 env (utf8_bytes canonical)
          in if ev_hash row \<noteq> computed
             then r\<lparr>vr_hash_mismatches := vr_hash_mismatches r @
                    [\<lparr>hm_event_id = ev_id row, hm_stored = to_hex (ev_hash row), hm_computed = to_hex computed\<rparr>]\<rparr>
             else r))"

text \<open>Check that a stored field is canonical, then go on; \<open>continue\<close> is the return of the report.\<close>

definition check_canonical ::
  "kb_env \<Rightarrow> event_row \<Rightarrow> string \<Rightarrow> string \<Rightarrow> json \<Rightarrow> (verify_report \<Rightarrow> verify_report) \<Rightarrow> verify_report \<Rightarrow> verify_report" where
  "check_canonical env row f raw v k r =
    (case ke_canon env v of
       Inl err \<Rightarrow> push_failure row f err r
     | Inr canonical \<Rightarrow> k (if canonical \<noteq> raw then push_non_canonical row f r else r))"

definition verify_row :: "kb_env \<Rightarrow> event_row \<Rightarrow> verify_report \<Rightarrow> verify_report" where
  "verify_row env row r =
    (let r = r\<lparr>vr_events_checked := Suc (vr_events_checked r)\<rparr>
     in case ke_parse env (ev_payload_json row) of
          Inl err \<Rightarrow> push_failure row ''payload_json'' err r
        | Inr payload \<Rightarrow>
            (case ke_parse env (ev_provenance_json row) of
               Inl err \<Rightarrow> push_failure row ''provenance_json'' err r
             | Inr provenance \<Rightarrow>
                 check_canonical env row ''payload_json'' (ev_payload_json row) payload
                   (check_canonical env row ''provenance_json'' (ev_provenance_json row) provenance
                     (check_hash env row payload provenance)) r))"

definition verify :: "kb_env \<Rightarrow> ledger \<Rightarrow> verify_report" where
  "verify env lg = fold (verify_row env) (lg_events lg) empty_report"

section \<open>Capability audits\<close>

fun audit_decision_str :: "audit_decision \<Rightarrow> string" where
  "audit_decision_str Allow = ''allow''"
| "audit_decision_str Deny = ''deny''"

fun audit_severity_str :: "audit_severity \<Rightarrow> string" where
  "audit_severity_str Info = ''info''"
| "audit_severity_str Warn = ''warn''"
| "audit_severity_str ErrorSeverity = ''error''"

definition agent_label :: "kb_env \<Rightarrow> u128 \<Rightarrow> string" where
  "agent_label env i = ''agent:'' @ ke_uuid env i"

definition trace_label :: "kb_env \<Rightarrow> u128 \<Rightarrow> string" where
  "trace_label env i = ''trace:'' @ ke_uuid env i"

definition opening_label :: "kb_env \<Rightarrow> u128 \<Rightarrow> string" where
  "opening_label env i = ''opening:'' @ ke_uuid env i"

definition cap_audit_payload :: "kb_env \<Rightarrow> cap_audit \<Rightarrow> json" where
  "cap_audit_payload env r = JObject
    [(''agent'', JString (agent_label env (ca_agent_id r))), (''cap'', JString (ca_cap r)), (''op'', JString (ca_op r)),
     (''target'', JString (ca_target r)), (''args_hash'', JString (to_hex (ca_args_hash r))),
     (''decision'', JString (audit_decision_str (ca_decision r))),
     (''severity'', JString (audit_severity_str (ca_severity r))), (''reason'', JString (ca_reason r))]"

definition audit_delta :: "kb_env \<Rightarrow> cap_audit \<Rightarrow> state_delta" where
  "audit_delta env r =
    \<lparr>sd_kind = ''cap.audit'', sd_actor = agent_label env (ca_agent_id r), sd_scope = Some ''system'',
     sd_payload = cap_audit_payload env r,
     sd_provenance = \<lparr>pv_trace_id = trace_label env (ca_trace_id r), pv_opening_id = ''opening:none'',
       pv_agent_id = agent_label env (ca_agent_id r), pv_inputs_hash = None, pv_rationale = Some ''capability audit''\<rparr>\<rparr>"

definition persist_cap_audit :: "kb_env \<Rightarrow> cap_audit \<Rightarrow> ledger \<Rightarrow> ledger \<times> (kb_error + unit)" where
  "persist_cap_audit env r lg = apsnd (map_sum id (\<lambda>_. ())) (propose env (audit_delta env r) lg)"

text \<open>A failed persistence is only logged.\<close>

definition kb_record_cap_audit :: "kb_env \<Rightarrow> cap_audit \<Rightarrow> ledger \<Rightarrow> ledger" where
  "kb_record_cap_audit env r lg =
    (case persist_cap_audit env r lg of (lg, _) \<Rightarrow> lg\<lparr>lg_cap_audits := lg_cap_audits lg @ [r]\<rparr>)"

section \<open>The trace store\<close>

record trace_store =
  tst_actor :: string
  tst_scope :: "string option"

record node_finished_record =
  nfr_node_id :: string
  nfr_status :: string
  nfr_attempt :: u32
  nfr_duration_ms :: u64
  nfr_outputs_hash :: "string option"
  nfr_error :: "string option"

definition store_provenance :: "kb_env \<Rightarrow> trace_store \<Rightarrow> u128 \<Rightarrow> u128 \<Rightarrow> provenance" where
  "store_provenance env ts trace_id opening_id =
    \<lparr>pv_trace_id = trace_label env trace_id, pv_opening_id = opening_label env opening_id, pv_agent_id = tst_actor ts,
     pv_inputs_hash = None, pv_rationale = None\<rparr>"

definition store_delta :: "kb_env \<Rightarrow> trace_store \<Rightarrow> string \<Rightarrow> u128 \<Rightarrow> u128 \<Rightarrow> json \<Rightarrow> state_delta" where
  "store_delta env ts kind trace_id opening_id payload =
    \<lparr>sd_kind = kind, sd_actor = tst_actor ts, sd_scope = tst_scope ts, sd_payload = payload,
     sd_provenance = store_provenance env ts trace_id opening_id\<rparr>"

definition store_propose ::
  "kb_env \<Rightarrow> trace_store \<Rightarrow> string \<Rightarrow> u128 \<Rightarrow> u128 \<Rightarrow> json \<Rightarrow> ledger \<Rightarrow> ledger \<times> (kb_error + unit)" where
  "store_propose env ts kind trace_id opening_id payload lg =
    apsnd (map_sum id (\<lambda>_. ())) (propose env (store_delta env ts kind trace_id opening_id payload) lg)"

definition record_status ::
  "kb_env \<Rightarrow> trace_store \<Rightarrow> string \<Rightarrow> u128 \<Rightarrow> u128 \<Rightarrow> string \<Rightarrow> ledger \<Rightarrow> ledger \<times> (kb_error + unit)" where
  "record_status env ts kind trace_id opening_id status =
    store_propose env ts kind trace_id opening_id
      (JObject [(''opening_id'', JString (opening_label env opening_id)), (''status'', JString status)])"

definition record_run_started :: "kb_env \<Rightarrow> trace_store \<Rightarrow> u128 \<Rightarrow> u128 \<Rightarrow> ledger \<Rightarrow> ledger \<times> (kb_error + unit)" where
  "record_run_started env ts trace_id opening_id = record_status env ts ''run.started'' trace_id opening_id ''started''"

definition record_run_finished ::
  "kb_env \<Rightarrow> trace_store \<Rightarrow> u128 \<Rightarrow> u128 \<Rightarrow> string \<Rightarrow> ledger \<Rightarrow> ledger \<times> (kb_error + unit)" where
  "record_run_finished env ts trace_id opening_id status = record_status env ts ''run.finished'' trace_id opening_id status"

definition json_option :: "string option \<Rightarrow> json" where
  "json_option x = (case x of Some s \<Rightarrow> JString s | None \<Rightarrow> JNull)"

definition node_finished_payload :: "kb_env \<Rightarrow> u128 \<Rightarrow> u128 \<Rightarrow> node_finished_record \<Rightarrow> json" where
  "node_finished_payload env trace_id opening_id r = JObject
    [(''trace_id'', JString (trace_label env trace_id)), (''opening_id'', JString (opening_label env opening_id)),
     (''node_id'', JString (nfr_node_id r)), (''status'', JString (nfr_status r)),
     (''attempt'', JNumber (PosInt (ucast (nfr_attempt r)))), (''duration_ms'', JNumber (PosInt (nfr_duration_ms r))),
     (''outputs_hash'', json_option (nfr_outputs_hash r)), (''error'', json_option (nfr_error r))]"

definition record_node_finished ::
  "kb_env \<Rightarrow> trace_store \<Rightarrow> u128 \<Rightarrow> u128 \<Rightarrow> node_finished_record \<Rightarrow> ledger \<Rightarrow> ledger \<times> (kb_error + unit)" where
  "record_node_finished env ts trace_id opening_id r =
    store_propose env ts ''node.finished'' trace_id opening_id (node_finished_payload env trace_id opening_id r)"

fun record_nodes ::
  "kb_env \<Rightarrow> trace_store \<Rightarrow> u128 \<Rightarrow> u128 \<Rightarrow> node_finished_record list \<Rightarrow> ledger \<Rightarrow> ledger \<times> (kb_error + unit)" where
  "record_nodes env ts trace_id opening_id [] lg = (lg, Inr ())"
| "record_nodes env ts trace_id opening_id (r # rs) lg =
     (case record_node_finished env ts trace_id opening_id r lg of
        (lg, Inl e) \<Rightarrow> (lg, Inl e)
      | (lg, Inr _) \<Rightarrow> record_nodes env ts trace_id opening_id rs lg)"

text \<open>\<open>trace_value\<close> is the serialised \<open>RunTrace\<close>.\<close>

definition record_run_trace ::
  "kb_env \<Rightarrow> trace_store \<Rightarrow> u128 \<Rightarrow> u128 \<Rightarrow> json \<Rightarrow> ledger \<Rightarrow> ledger \<times> (kb_error + unit)" where
  "record_run_trace env ts trace_id opening_id trace_value =
    store_propose env ts ''run.trace'' trace_id opening_id trace_value"

end
