(* ===== verification/Kb_Views.thy ===== *)
theory Kb_Views
  imports Kb_Ledger
begin

text \<open>
  The materialized views of the knowledge base (\<open>crates/kb/src/lib.rs\<close>: \<open>Materializer\<close>,
  \<open>apply_event\<close>). A table is an association list by its primary key, the statement
  \<open>INSERT .. ON CONFLICT DO UPDATE\<close> an update of it; the table \<open>entity_history\<close>, whose rows are
  their own key, is a list without repetition.
\<close>

section \<open>Tables\<close>

record contact_row =
  con_name :: "string option"
  con_email :: "string option"
  con_org :: "string option"
  con_trust :: f64
  con_source_event :: int

record artifact_row =
  art_kind :: string
  art_path :: string
  art_summary :: "string option"
  art_source_event :: int

record run_row =
  run_status :: string
  run_opening_id :: string
  run_source_event :: int

record node_row =
  nrw_status :: string
  nrw_attempt :: int
  nrw_duration_ms :: int
  nrw_outputs_hash :: "string option"
  nrw_error :: "string option"
  nrw_source_event :: int

record run_trace_row =
  rtr_trace_json :: string
  rtr_final_hash :: string
  rtr_success :: bool
  rtr_source_event :: int

record views =
  vw_contacts :: "(string \<times> contact_row) list"
  vw_artifacts :: "(string \<times> artifact_row) list"
  vw_runs :: "(string \<times> run_row) list"
  vw_run_nodes :: "((string \<times> string) \<times> node_row) list"
  vw_run_traces :: "(string \<times> run_trace_row) list"
  vw_history :: "(string \<times> int) list"
  vw_watermark :: int

definition views_new :: views where
  "views_new = \<lparr>vw_contacts = [], vw_artifacts = [], vw_runs = [], vw_run_nodes = [], vw_run_traces = [], vw_history = [], vw_watermark = 0\<rparr>"

section \<open>Keys\<close>

definition normalize_email :: "string \<Rightarrow> string" where
  "normalize_email email = to_ascii_lowercase (trim email)"

definition derive_contact_key :: "kb_env \<Rightarrow> string option \<Rightarrow> string option \<Rightarrow> string option \<Rightarrow> string option" where
  "derive_contact_key env email name org =
    (case Option.bind email (\<lambda>s. if trim s \<noteq> [] then Some s else None) of
       Some e \<Rightarrow> Some (to_hex (ke_blake3 env (utf8_bytes (normalize_email e))))
     | None \<Rightarrow>
         (case name of
            Some n \<Rightarrow> Some (to_hex (ke_blake3 env
              (utf8_bytes (trim n) @ (case org of Some x \<Rightarrow> utf8_bytes ''|'' @ utf8_bytes (trim x) | None \<Rightarrow> []))))
          | None \<Rightarrow> None))"

definition derive_artifact_key :: "kb_env \<Rightarrow> string option \<Rightarrow> string option \<Rightarrow> string option" where
  "derive_artifact_key env sha256 path =
    (case Option.bind sha256 (\<lambda>s. if trim s \<noteq> [] then Some s else None) of
       Some h \<Rightarrow> Some (to_ascii_lowercase h)
     | None \<Rightarrow> map_option (\<lambda>p. to_hex (ke_blake3 env (utf8_bytes (trim p)))) path)"

section \<open>Applying events\<close>

record pending_event =
  pe_id :: int
  pe_kind :: string
  pe_payload :: json
  pe_provenance :: json

definition get_str :: "json \<Rightarrow> string \<Rightarrow> string option" where
  "get_str v k = Option.bind (json_get v k) json_as_str"

definition get_trimmed :: "json \<Rightarrow> string \<Rightarrow> string option" where
  "get_trimmed v k = map_option trim (get_str v k)"

definition record_history :: "string \<Rightarrow> int \<Rightarrow> views \<Rightarrow> views" where
  "record_history key i vw = vw\<lparr>vw_history := List.insert (key, i) (vw_history vw)\<rparr>"

definition apply_contact_event :: "kb_env \<Rightarrow> pending_event \<Rightarrow> views \<Rightarrow> kb_error + views" where
  "apply_contact_event env e vw =
    (let name = get_trimmed (pe_payload e) ''name'';
         email = map_option normalize_email (get_str (pe_payload e) ''email'');
         org = get_trimmed (pe_payload e) ''org'';
         trust = (case Option.bind (json_get (pe_payload e) ''trust'') json_as_f64 of Some t \<Rightarrow> t | None \<Rightarrow> 0x3FE0000000000000)
     in res_bind (ok_or (KbConfig ''contact.upserted requires email or name for key derivation'')
            (derive_contact_key env email name org)) (\<lambda>key.
        Inr (record_history (''contact:'' @ key) (pe_id e)
          (vw\<lparr>vw_contacts := AList.update key
            \<lparr>con_name = name, con_email = email, con_org = org, con_trust = trust, con_source_event = pe_id e\<rparr> (vw_contacts vw)\<rparr>))))"

definition apply_artifact_event :: "kb_env \<Rightarrow> pending_event \<Rightarrow> views \<Rightarrow> kb_error + views" where
  "apply_artifact_event env e vw =
    (let sha256 = get_trimmed (pe_payload e) ''sha256'';
         path = get_trimmed (pe_payload e) ''path''
     in res_bind (ok_or (KbConfig (''artifact.created missing '' @ quoted ''kind'')) (get_trimmed (pe_payload e) ''kind'')) (\<lambda>kind.
        res_bind (ok_or (KbConfig ''artifact.created requires sha256 or path'') (derive_artifact_key env sha256 path)) (\<lambda>key.
        Inr (record_history (''artifact:'' @ key) (pe_id e)
          (vw\<lparr>vw_artifacts := AList.update key
            \<lparr>art_kind = kind, art_path = (case path of Some p \<Rightarrow> p | None \<Rightarrow> []),
             art_summary = get_str (pe_payload e) ''summary'', art_source_event = pe_id e\<rparr> (vw_artifacts vw)\<rparr>)))))"

definition apply_run_event :: "pending_event \<Rightarrow> views \<Rightarrow> kb_error + views" where
  "apply_run_event e vw =
    res_bind (ok_or (KbConfig ''run event missing provenance.trace_id'') (get_trimmed (pe_provenance e) ''trace_id'')) (\<lambda>trace_id.
    res_bind (ok_or (KbConfig ''run event missing payload.opening_id'') (get_trimmed (pe_payload e) ''opening_id'')) (\<lambda>opening_id.
    let status = (case get_trimmed (pe_payload e) ''status'' of Some s \<Rightarrow> s | None \<Rightarrow> pe_kind e)
    in Inr (record_history (''run:'' @ trace_id) (pe_id e)
      (vw\<lparr>vw_runs := AList.update trace_id
        \<lparr>run_status = status, run_opening_id = opening_id, run_source_event = pe_id e\<rparr> (vw_runs vw)\<rparr>))))"

definition apply_node_finished_event :: "pending_event \<Rightarrow> views \<Rightarrow> kb_error + views" where
  "apply_node_finished_event e vw =
    res_bind (ok_or (KbConfig ''node.finished missing payload.trace_id'') (get_trimmed (pe_payload e) ''trace_id'')) (\<lambda>trace_id.
    res_bind (ok_or (KbConfig ''node.finished missing payload.opening_id'') (get_trimmed (pe_payload e) ''opening_id'')) (\<lambda>opening_id.
    res_bind (ok_or (KbConfig ''node.finished missing payload.node_id'') (get_trimmed (pe_payload e) ''node_id'')) (\<lambda>node_id.
    res_bind (ok_or (KbConfig ''node.finished missing payload.status'') (get_trimmed (pe_payload e) ''status'')) (\<lambda>status.
    let get_int = (\<lambda>k. case Option.bind (json_get (pe_payload e) k) json_as_i64 of Some i \<Rightarrow> i | None \<Rightarrow> 0);
        vw = vw\<lparr>vw_run_nodes := AList.update (trace_id, node_id)
          \<lparr>nrw_status = status, nrw_attempt = get_int ''attempt'', nrw_duration_ms = get_int ''duration_ms'',
           nrw_outputs_hash = get_trimmed (pe_payload e) ''outputs_hash'', nrw_error = get_trimmed (pe_payload e) ''error'',
           nrw_source_event = pe_id e\<rparr> (vw_run_nodes vw)\<rparr>
    in Inr (record_history (''opening:'' @ opening_id) (pe_id e)
      (record_history (''node:'' @ trace_id @ ''#'' @ node_id) (pe_id e)
        (record_history (''run:'' @ trace_id) (pe_id e) vw)))))))"

definition apply_run_trace_event :: "kb_env \<Rightarrow> pending_event \<Rightarrow> views \<Rightarrow> kb_error + views" where
  "apply_run_trace_event env e vw =
    res_bind (ok_or (KbConfig ''run.trace missing provenance.trace_id'') (get_trimmed (pe_provenance e) ''trace_id'')) (\<lambda>trace_id.
    res_bind (ok_or (KbConfig ''run.trace missing payload.final_hash'') (get_trimmed (pe_payload e) ''final_hash'')) (\<lambda>final_hash.
    res_bind (ok_or (KbConfig ''run.trace missing payload.success'')
        (Option.bind (json_get (pe_payload e) ''success'') json_as_bool)) (\<lambda>success.
    Inr (record_history (''run:'' @ trace_id) (pe_id e)
      (vw\<lparr>vw_run_traces := AList.update trace_id
        \<lparr>rtr_trace_json = ke_show env (pe_payload e), rtr_final_hash = final_hash, rtr_success = success,
         rtr_source_event = pe_id e\<rparr> (vw_run_traces vw)\<rparr>)))))"

definition apply_email_event :: "pending_event \<Rightarrow> views \<Rightarrow> kb_error + views" where
  "apply_email_event e vw =
    Inr (case Option.bind (json_get (pe_payload e) ''artifact_id'') json_as_i64 of
           Some i \<Rightarrow> record_history (''artifact:event:'' @ (if i < 0 then ''-'' else []) @ decimal (nat \<bar>i\<bar>)) (pe_id e) vw
         | None \<Rightarrow> vw)"

definition apply_event :: "kb_env \<Rightarrow> pending_event \<Rightarrow> views \<Rightarrow> kb_error + views" where
  "apply_event env e vw =
    (if pe_kind e = ''contact.upserted'' then apply_contact_event env e vw
     else if pe_kind e = ''artifact.created'' then apply_artifact_event env e vw
     else if pe_kind e = ''run.started'' \<or> pe_kind e = ''run.finished'' then apply_run_event e vw
     else if pe_kind e = ''node.finished'' then apply_node_finished_event e vw
     else if pe_kind e = ''run.trace'' then apply_run_trace_event env e vw
     else if pe_kind e = ''email.sent'' then apply_email_event e vw
     else Inr vw)"

section \<open>The materializer\<close>

record kb_state =
  ks_ledger :: ledger
  ks_views :: views

definition kb_new :: kb_state where
  "kb_new = \<lparr>ks_ledger = ledger_new, ks_views = views_new\<rparr>"

definition DEFAULT_BATCH :: nat where "DEFAULT_BATCH = 512"

definition with_batch_size :: "nat \<Rightarrow> nat" where
  "with_batch_size n = max n 1"

definition read_pending :: "kb_env \<Rightarrow> event_row \<Rightarrow> kb_error + pending_event" where
  "read_pending env row =
    res_bind (map_sum (\<lambda>err. KbConfig (''invalid payload json: '' @ err)) id (ke_parse env (ev_payload_json row))) (\<lambda>payload.
    res_bind (map_sum (\<lambda>err. KbConfig (''invalid provenance json: '' @ err)) id (ke_parse env (ev_provenance_json row))) (\<lambda>provenance.
    Inr \<lparr>pe_id = ev_id row, pe_kind = ev_kind row, pe_payload = payload, pe_provenance = provenance\<rparr>))"

definition load_events_after :: "kb_env \<Rightarrow> nat \<Rightarrow> int \<Rightarrow> ledger \<Rightarrow> kb_error + pending_event list" where
  "load_events_after env batch watermark lg =
    res_map (read_pending env) (take batch (filter (\<lambda>e. watermark < ev_id e) (lg_events lg)))"

fun apply_events :: "kb_env \<Rightarrow> pending_event list \<Rightarrow> views \<Rightarrow> kb_error + views" where
  "apply_events env [] vw = Inr vw"
| "apply_events env (e # es) vw = res_bind (apply_event env e vw) (apply_events env es)"

text \<open>The transaction on the views: they change as a whole or not at all.\<close>

definition sync_views :: "kb_env \<Rightarrow> nat \<Rightarrow> kb_state \<Rightarrow> kb_error + (views \<times> bool)" where
  "sync_views env batch s =
    res_bind (load_events_after env batch (vw_watermark (ks_views s)) (ks_ledger s)) (\<lambda>pending.
    if pending = [] then Inr (ks_views s, False)
    else
      res_bind (apply_events env pending (ks_views s)) (\<lambda>vw.
      case ke_fault env (lg_ticks (ks_ledger s)) of
        Some err \<Rightarrow> Inl (KbSqlite err)
      | None \<Rightarrow> Inr (vw\<lparr>vw_watermark := pe_id (last pending)\<rparr>, True)))"

definition sync :: "kb_env \<Rightarrow> nat \<Rightarrow> kb_state \<Rightarrow> kb_state \<times> (kb_error + bool)" where
  "sync env batch s =
    (let lg = (ks_ledger s)\<lparr>lg_ticks := Suc (lg_ticks (ks_ledger s))\<rparr>
     in case sync_views env batch s of
          Inl e \<Rightarrow> (s\<lparr>ks_ledger := lg\<rparr>, Inl e)
        | Inr (vw, b) \<Rightarrow> (\<lparr>ks_ledger = lg, ks_views = vw\<rparr>, Inr b))"

text \<open>\<open>while materializer.sync()? {}\<close>, as \<open>ensure_views\<close>, \<open>flush\<close> and \<open>catch_up_views\<close> run it.\<close>

partial_function (option) catch_up :: "kb_env \<Rightarrow> nat \<Rightarrow> kb_state \<Rightarrow> (kb_state \<times> (kb_error + unit)) option" where
  "catch_up env batch s =
    (case sync env batch s of
       (s, Inl e) \<Rightarrow> Some (s, Inl e)
     | (s, Inr b) \<Rightarrow> if b then catch_up env batch s else Some (s, Inr ()))"

end
