(* ===== verification/Kb_Query.thy ===== *)
theory Kb_Query
  imports Kb_Views
begin

text \<open>
  Reading the knowledge base (\<open>crates/kb/src/lib.rs\<close>: \<open>query\<close>, \<open>query_events\<close>, \<open>search\<close>, \<open>why\<close>,
  \<open>load_run_trace\<close>) with the redaction of what is read. For a query given as text, the database
  prepares a statement, which is an argument; the statements of \<open>search\<close> and \<open>why\<close> are written out.
\<close>

section \<open>SQL values and LIKE\<close>

text \<open>The values of a cell; a text is what \<open>from_utf8_lossy\<close> makes of it.\<close>

datatype sql_value = SqlNull | SqlInteger int | SqlReal f64 | SqlText string | SqlBlob bytes

fun f64_finite :: "f64 \<Rightarrow> bool" where
  "f64_finite f \<longleftrightarrow> f64_magnitude f < f64_infinity"

fun cell_value :: "sql_value \<Rightarrow> json" where
  "cell_value SqlNull = JNull"
| "cell_value (SqlInteger i) = JNumber (if 0 \<le> i then PosInt (word_of_int i) else NegInt (word_of_int i))"
| "cell_value (SqlReal r) = (if f64_finite r then JNumber (Float r) else JNull)"
| "cell_value (SqlText s) = JString s"
| "cell_value (SqlBlob b) = JString (to_hex b)"

text \<open>\<open>text LIKE pattern [ESCAPE c]\<close> of SQL, with the ASCII case folding of the database.\<close>

fun sql_like :: "char option \<Rightarrow> string \<Rightarrow> string \<Rightarrow> bool" where
  "sql_like esc [] t = (t = [])"
| "sql_like esc (p # ps) t =
     (if esc = Some p then
        (case ps of
           [] \<Rightarrow> False
         | q # qs \<Rightarrow> (case t of [] \<Rightarrow> False | c # cs \<Rightarrow> ascii_lower q = ascii_lower c \<and> sql_like esc qs cs))
      else if p = CHR ''%'' then
        sql_like esc ps t \<or> (case t of [] \<Rightarrow> False | c # cs \<Rightarrow> sql_like esc (p # ps) cs)
      else
        (case t of [] \<Rightarrow> False | c # cs \<Rightarrow> (p = CHR ''_'' \<or> ascii_lower p = ascii_lower c) \<and> sql_like esc ps cs))"

section \<open>Queries given as text\<close>

record statement =
  st_readonly :: bool
  st_columns :: "string list"
  st_rows :: "sql_value list list"

record query_result =
  qr_columns :: "string list"
  qr_rows :: "json list"
  qr_masked_rows :: "bool list"

text \<open>\<open>iter().position\<close>\<close>

fun position :: "('a \<Rightarrow> bool) \<Rightarrow> 'a list \<Rightarrow> nat option" where
  "position p [] = None"
| "position p (x # xs) = (if p x then Some 0 else map_option Suc (position p xs))"

definition column_index :: "string \<Rightarrow> string list \<Rightarrow> nat option" where
  "column_index name columns = position (\<lambda>c. to_ascii_lowercase c = name) columns"

record row_state =
  rs_map :: json_map
  rs_masked_row :: bool
  rs_kind_value :: "string option"
  rs_payload_value :: "json option"

definition collect_cell ::
  "kb_env \<Rightarrow> redactor \<Rightarrow> redaction_context \<Rightarrow> nat option \<Rightarrow> nat option \<Rightarrow> nat \<times> string \<times> sql_value \<Rightarrow> row_state \<Rightarrow> row_state" where
  "collect_cell env rd ctx kind_idx payload_idx cell rs =
    (case cell of (idx, name, cv) \<Rightarrow>
      let v = cell_value cv in
      if Some idx = kind_idx then
        rs\<lparr>rs_kind_value := (case json_as_str v of Some s \<Rightarrow> Some s | None \<Rightarrow> rs_kind_value rs),
           rs_map := AList.update name v (rs_map rs)\<rparr>
      else if Some idx = payload_idx then
        rs\<lparr>rs_payload_value := Some
            (case v of JString s \<Rightarrow> (case ke_parse env s of Inr p \<Rightarrow> p | Inl _ \<Rightarrow> JString s) | _ \<Rightarrow> v)\<rparr>
      else
        (case mask_column_value rd ctx name v of (v, masked) \<Rightarrow>
          rs\<lparr>rs_masked_row := (rs_masked_row rs \<or> masked), rs_map := AList.update name v (rs_map rs)\<rparr>))"

definition collect_payload ::
  "kb_env \<Rightarrow> redactor \<Rightarrow> redaction_context \<Rightarrow> string list \<Rightarrow> nat option \<Rightarrow> row_state \<Rightarrow> row_state" where
  "collect_payload env rd ctx columns payload_idx rs =
    (case payload_idx of
       None \<Rightarrow> rs
     | Some idx \<Rightarrow>
         let payload = (case rs_payload_value rs of Some p \<Rightarrow> p | None \<Rightarrow> JNull);
             (payload, m1) = (case rs_kind_value rs of
                 Some kind \<Rightarrow> mask_payload_for_kind rd ctx kind payload | None \<Rightarrow> (payload, False));
             (payload, m2) = mask_payload_generic rd ctx payload
         in rs\<lparr>rs_masked_row := (rs_masked_row rs \<or> m1 \<or> m2),
               rs_map := AList.update (columns ! idx) (JString (ke_show env payload)) (rs_map rs)\<rparr>)"

definition collect_row ::
  "kb_env \<Rightarrow> redactor \<Rightarrow> redaction_context \<Rightarrow> string list \<Rightarrow> sql_value list \<Rightarrow> (json \<times> bool) option" where
  "collect_row env rd ctx columns cells =
    (let kind_idx = column_index ''kind'' columns;
         payload_idx = column_index ''payload_json'' columns;
         rs = fold (collect_cell env rd ctx kind_idx payload_idx) (zip [0..<length columns] (zip columns cells))
                \<lparr>rs_map = [], rs_masked_row = False, rs_kind_value = None, rs_payload_value = None\<rparr>;
         rs = collect_payload env rd ctx columns payload_idx rs
     in if rs_masked_row rs \<and> rx_drop_masked_rows ctx then None
        else Some (JObject (rs_map rs), rs_masked_row rs))"

definition collect_event_rows ::
  "kb_env \<Rightarrow> redactor \<Rightarrow> redaction_context \<Rightarrow> string list \<Rightarrow> sql_value list list \<Rightarrow> json list \<times> bool list" where
  "collect_event_rows env rd ctx columns rows =
    (let kept = List.map_filter (collect_row env rd ctx columns) rows in (map fst kept, map snd kept))"

text \<open>\<open>query_with_ctx\<close> on the views and \<open>query_events_with_ctx\<close> on the ledger differ in the connection only.\<close>

definition query_with_ctx ::
  "kb_env \<Rightarrow> redactor \<Rightarrow> redaction_context \<Rightarrow> string + statement \<Rightarrow> kb_error + query_result" where
  "query_with_ctx env rd ctx prepared =
    (case prepared of
       Inl e \<Rightarrow> Inl (KbSqlite e)
     | Inr st \<Rightarrow>
         if \<not> st_readonly st then Inl KbQueryNotReadOnly
         else case collect_event_rows env rd ctx (st_columns st) (st_rows st) of
           (rows, masked_rows) \<Rightarrow>
             Inr \<lparr>qr_columns = st_columns st, qr_rows = rows, qr_masked_rows = masked_rows\<rparr>)"

definition query :: "kb_env \<Rightarrow> redactor \<Rightarrow> (views \<Rightarrow> string \<Rightarrow> string + statement) \<Rightarrow> string \<Rightarrow> kb_state \<Rightarrow> kb_error + query_result" where
  "query env rd prepare sql s = query_with_ctx env rd (default_context rd) (prepare (ks_views s) sql)"

definition query_events ::
  "kb_env \<Rightarrow> redactor \<Rightarrow> (event_row list \<Rightarrow> string \<Rightarrow> string + statement) \<Rightarrow> string \<Rightarrow> kb_state \<Rightarrow> kb_error + query_result" where
  "query_events env rd prepare sql s =
    query_with_ctx env rd (default_context rd) (prepare (lg_events (ks_ledger s)) sql)"

section \<open>Search\<close>

datatype search_domain = Contacts | Artifacts | Events | Runs

record search_hit =
  sh_domain :: search_domain
  sh_key :: string
  sh_label :: string
  sh_source_event :: int
  sh_extra :: json_map
  sh_masked :: bool

definition json_entry :: "string \<Rightarrow> string option \<Rightarrow> json_map" where
  "json_entry k x = (case x of Some s \<Rightarrow> [(k, JString s)] | None \<Rightarrow> [])"

definition contact_hit :: "redactor \<Rightarrow> redaction_context \<Rightarrow> string \<times> contact_row \<Rightarrow> search_hit" where
  "contact_hit rd ctx row =
    (case row of (key, c) \<Rightarrow>
      case mask_email_option rd ctx (con_email c) of (email, masked) \<Rightarrow>
        \<lparr>sh_domain = Contacts, sh_key = key, sh_label = (case con_name c of Some n \<Rightarrow> n | None \<Rightarrow> ''contact''),
         sh_source_event = con_source_event c,
         sh_extra = json_entry ''email'' email @ json_entry ''org'' (con_org c)
           @ (if f64_finite (con_trust c) then [(''trust'', JNumber (Float (con_trust c)))] else []),
         sh_masked = masked\<rparr>)"

definition artifact_hit :: "string \<times> artifact_row \<Rightarrow> search_hit" where
  "artifact_hit row =
    (case row of (key, a) \<Rightarrow>
      \<lparr>sh_domain = Artifacts, sh_key = key, sh_label = ''artifact'', sh_source_event = art_source_event a,
       sh_extra = [(''kind'', JString (art_kind a)), (''path'', JString (art_path a))] @ json_entry ''summary'' (art_summary a),
       sh_masked = False\<rparr>)"

definition run_hit :: "string \<times> run_row \<Rightarrow> search_hit" where
  "run_hit row =
    (case row of (trace_id, r) \<Rightarrow>
      \<lparr>sh_domain = Runs, sh_key = ''run:'' @ trace_id, sh_label = run_status r, sh_source_event = run_source_event r,
       sh_extra = [(''trace_id'', JString trace_id), (''opening_id'', JString (run_opening_id r))], sh_masked = False\<rparr>)"

definition event_label :: "int \<Rightarrow> string" where
  "event_label i = ''event:'' @ (if i < 0 then ''-'' else []) @ decimal (nat \<bar>i\<bar>)"

definition event_hit :: "event_row \<Rightarrow> search_hit" where
  "event_hit e =
    \<lparr>sh_domain = Events, sh_key = event_label (ev_id e), sh_label = ev_kind e, sh_source_event = ev_id e,
     sh_extra = [(''ts_ms'', cell_value (SqlInteger (ev_ts_ms e)))], sh_masked = False\<rparr>"

definition like_option :: "string \<Rightarrow> string option \<Rightarrow> bool" where
  "like_option pattern x = (case x of Some s \<Rightarrow> sql_like None pattern s | None \<Rightarrow> False)"

definition contact_matches :: "string \<Rightarrow> string \<times> contact_row \<Rightarrow> bool" where
  "contact_matches pattern row =
    (like_option pattern (con_name (snd row)) \<or> like_option pattern (con_email (snd row)) \<or> like_option pattern (con_org (snd row)))"

definition artifact_matches :: "string \<Rightarrow> string \<times> artifact_row \<Rightarrow> bool" where
  "artifact_matches pattern row =
    (sql_like None pattern (art_kind (snd row)) \<or> sql_like None pattern (art_path (snd row)) \<or> like_option pattern (art_summary (snd row)))"

definition run_matches :: "string \<Rightarrow> string \<times> run_row \<Rightarrow> bool" where
  "run_matches pattern row =
    (sql_like None pattern (fst row) \<or> sql_like None pattern (run_status (snd row)) \<or> sql_like None pattern (run_opening_id (snd row)))"

definition search_with_ctx :: "redactor \<Rightarrow> redaction_context \<Rightarrow> string \<Rightarrow> kb_state \<Rightarrow> search_hit list" where
  "search_with_ctx rd ctx keyword s =
    (let like = ''%'' @ keyword @ ''%''; vw = ks_views s
     in filter (\<lambda>h. \<not> (sh_masked h \<and> rx_drop_masked_rows ctx)) (map (contact_hit rd ctx) (filter (contact_matches like) (vw_contacts vw)))
      @ map artifact_hit (filter (artifact_matches like) (vw_artifacts vw))
      @ map run_hit (filter (run_matches like) (vw_runs vw))
      @ map event_hit (filter (\<lambda>e. sql_like None like (ev_kind e)) (lg_events (ks_ledger s))))"

definition search :: "redactor \<Rightarrow> string \<Rightarrow> kb_state \<Rightarrow> search_hit list" where
  "search rd keyword s = search_with_ctx rd (default_context rd) keyword s"

section \<open>Why\<close>

record event_record =
  er_id :: int
  er_ts_ms :: int
  er_kind :: string
  er_actor :: string
  er_scope :: string
  er_payload :: json
  er_provenance :: json
  er_masked :: bool

definition entity_key_candidates :: "string \<Rightarrow> string list" where
  "entity_key_candidates key =
    (if CHR '':'' \<in> set key then [key] else [key, ''contact:'' @ key, ''artifact:'' @ key, ''run:'' @ key])"

definition parse_or_text :: "kb_env \<Rightarrow> string \<Rightarrow> json" where
  "parse_or_text env raw = (case ke_parse env raw of Inr v \<Rightarrow> v | Inl _ \<Rightarrow> JString raw)"

definition load_event :: "kb_env \<Rightarrow> ledger \<Rightarrow> int \<Rightarrow> event_record option" where
  "load_event env lg i =
    map_option (\<lambda>e. \<lparr>er_id = ev_id e, er_ts_ms = ev_ts_ms e, er_kind = ev_kind e, er_actor = ev_actor e, er_scope = ev_scope e,
        er_payload = parse_or_text env (ev_payload_json e), er_provenance = parse_or_text env (ev_provenance_json e),
        er_masked = False\<rparr>)
      (find (\<lambda>e. ev_id e = i) (lg_events lg))"

definition redact_record :: "redactor \<Rightarrow> redaction_context \<Rightarrow> event_record \<Rightarrow> event_record" where
  "redact_record rd ctx r =
    (case mask_payload_for_kind rd ctx (er_kind r) (er_payload r) of
       (payload, masked) \<Rightarrow> r\<lparr>er_payload := payload, er_masked := masked\<rparr>)"

definition history_ids :: "views \<Rightarrow> string \<Rightarrow> int list" where
  "history_ids vw key = sort (map snd (filter (\<lambda>h. fst h = key) (vw_history vw)))"

definition why_with_ctx :: "kb_env \<Rightarrow> redactor \<Rightarrow> redaction_context \<Rightarrow> string \<Rightarrow> kb_state \<Rightarrow> event_record list" where
  "why_with_ctx env rd ctx key s =
    (let event_ids = remdups_adj (sort (concat (map (history_ids (ks_views s)) (entity_key_candidates key))))
     in filter (\<lambda>r. \<not> (er_masked r \<and> rx_drop_masked_rows ctx))
          (map (redact_record rd ctx) (List.map_filter (load_event env (ks_ledger s)) event_ids)))"

definition why :: "kb_env \<Rightarrow> redactor \<Rightarrow> string \<Rightarrow> kb_state \<Rightarrow> event_record list" where
  "why env rd key s = why_with_ctx env rd (default_context rd) key s"

section \<open>Run traces\<close>

definition load_run_trace_by_key :: "kb_env \<Rightarrow> string \<Rightarrow> kb_state \<Rightarrow> kb_error + json option" where
  "load_run_trace_by_key env key s =
    (case map_of (vw_run_traces (ks_views s)) key of
       Some row \<Rightarrow> (case ke_parse env (rtr_trace_json row) of Inl err \<Rightarrow> Inl (KbConfig err) | Inr v \<Rightarrow> Inr (Some v))
     | None \<Rightarrow> Inr None)"

definition load_run_trace :: "kb_env \<Rightarrow> u128 \<Rightarrow> kb_state \<Rightarrow> kb_error + json option" where
  "load_run_trace env trace_id s =
    res_bind (load_run_trace_by_key env (trace_label env trace_id) s) (\<lambda>found.
    case found of
      Some v \<Rightarrow> Inr (Some v)
    | None \<Rightarrow>
        (case strip_prefix ''trace:'' (trace_label env trace_id) of
           Some stripped \<Rightarrow> load_run_trace_by_key env stripped s
         | None \<Rightarrow> Inr None))"

section \<open>Paths\<close>

definition resolve_paths :: "string \<Rightarrow> string \<Rightarrow> string \<Rightarrow> kb_error + string \<times> string \<times> string" where
  "resolve_paths root_dir events_db view_db =
    (if root_dir = [] then Inl (KbConfig ''kb.root_dir must not be empty'')
     else Inr (root_dir, path_join root_dir events_db, path_join root_dir view_db))"

end
