(* ===== verification/Kb_Props.thy ===== *)
theory Kb_Props
  imports Kb_Query
begin

text \<open>
  Properties of the knowledge base: the ledger is sealed and verifiable, and the views are a replay of
  it, whatever the order of proposals and synchronisations.
\<close>

section \<open>Proposals\<close>

lemma propose_cases:
  obtains (failed) e where "propose env d lg = (lg\<lparr>lg_ticks := Suc (lg_ticks lg)\<rparr>, Inl e)"
  | (added) row where "prepare_row env d lg = Inr row" "\<forall>e \<in> set (lg_events lg). ev_hash e \<noteq> ev_hash row"
      "propose env d lg = (lg\<lparr>lg_events := lg_events lg @ [row], lg_next_id := lg_next_id lg + 1, lg_ticks := Suc (lg_ticks lg)\<rparr>, Inr (ev_id row))"
proof (cases "prepare_row env d lg")
  case (Inl e)
  then show ?thesis using failed by (simp add: propose_def)
next
  case (Inr row)
  show ?thesis
  proof (cases "insert_event env row lg")
    case (Inl e)
    then show ?thesis using failed Inr by (simp add: propose_def)
  next
    case ins: (Inr lg')
    then have lg': "lg' = lg\<lparr>lg_events := lg_events lg @ [row], lg_next_id := lg_next_id lg + 1\<rparr>"
      and fresh: "\<forall>e \<in> set (lg_events lg). ev_hash e \<noteq> ev_hash row"
      by (auto simp: insert_event_def split: option.splits if_splits)
    show ?thesis by (rule added [OF Inr fresh]) (simp add: propose_def Inr ins lg')
  qed
qed

text \<open>A row is sealed when its stored fields and its hash are those of one canonical envelope of a
  valid payload.\<close>

definition row_sealed :: "kb_env \<Rightarrow> event_row \<Rightarrow> bool" where
  "row_sealed env row \<longleftrightarrow>
    (\<exists>payload p canonical.
      ev_kind row \<in> set EMBEDDED_SCHEMAS \<and> ke_schema_errors env (ev_kind row) payload = [] \<and>
      ke_canon env payload = Inr (ev_payload_json row) \<and> ke_canon env (provenance_value p) = Inr (ev_provenance_json row) \<and>
      ke_canon env (envelope_value (ev_kind row) (ev_actor row) (ev_scope row) payload (provenance_value p)) = Inr canonical \<and>
      ev_hash row = ke_blake3 env (utf8_bytes canonical))"

lemma row_sealedI:
  assumes "ev_kind row \<in> set EMBEDDED_SCHEMAS" "ke_schema_errors env (ev_kind row) payload = []"
    "ke_canon env payload = Inr (ev_payload_json row)" "ke_canon env (provenance_value p) = Inr (ev_provenance_json row)"
    "ke_canon env (envelope_value (ev_kind row) (ev_actor row) (ev_scope row) payload (provenance_value p)) = Inr canonical"
    "ev_hash row = ke_blake3 env (utf8_bytes canonical)"
  shows "row_sealed env row"
  unfolding row_sealed_def using assms by blast

lemma prepare_row_sealed:
  assumes "prepare_row env d lg = Inr row"
  shows "row_sealed env row \<and> ev_id row = lg_next_id lg"
proof -
  have canon: "\<And>v s. map_sum KbCanon id (ke_canon env v) = Inr s \<Longrightarrow> ke_canon env v = Inr s"
    by (case_tac "ke_canon env v") auto
  show ?thesis using assms
    by (auto simp: prepare_row_def res_bind_eq_Inr canonicalize_value_def Let_def dest!: canon intro: row_sealedI)
qed

section \<open>Steps of the knowledge base\<close>

inductive kb_step :: "kb_env \<Rightarrow> kb_state \<Rightarrow> kb_state \<Rightarrow> bool" for env where
  step_propose: "kb_step env s (s\<lparr>ks_ledger := fst (propose env d (ks_ledger s))\<rparr>)"
| step_audit: "kb_step env s (s\<lparr>ks_ledger := kb_record_cap_audit env r (ks_ledger s)\<rparr>)"
| step_sync: "kb_step env s (fst (sync env (with_batch_size n) s))"

inductive_cases kb_stepE: "kb_step env s t"

definition kb_init :: "kb_state \<Rightarrow> bool" where
  "kb_init s \<longleftrightarrow> s = kb_new"

section \<open>The ledger invariant\<close>

definition ledger_ok :: "kb_env \<Rightarrow> ledger \<Rightarrow> bool" where
  "ledger_ok env lg \<longleftrightarrow>
    map ev_id (lg_events lg) = map int [1..<Suc (length (lg_events lg))] \<and>
    lg_next_id lg = int (Suc (length (lg_events lg))) \<and>
    distinct (map ev_hash (lg_events lg)) \<and>
    (\<forall>row \<in> set (lg_events lg). row_sealed env row)"

lemma ledger_ok_new: "ledger_ok env ledger_new"
  by (simp add: ledger_ok_def ledger_new_def)

lemma ledger_ok_fields:
  "ledger_ok env (lg\<lparr>lg_ticks := n\<rparr>) = ledger_ok env lg"
  "ledger_ok env (lg\<lparr>lg_cap_audits := a\<rparr>) = ledger_ok env lg"
  by (simp_all add: ledger_ok_def)

lemma ledger_ok_propose:
  assumes "ledger_ok env lg"
  shows "ledger_ok env (fst (propose env d lg))"
proof (cases rule: propose_cases [of env d lg])
  case (failed e)
  then show ?thesis using assms by (simp add: ledger_ok_fields)
next
  case (added row)
  then show ?thesis using assms prepare_row_sealed [OF added(1)]
    by (auto simp: ledger_ok_def image_iff)
qed

lemma ledger_ok_audit: "ledger_ok env lg \<Longrightarrow> ledger_ok env (kb_record_cap_audit env r lg)"
  using ledger_ok_propose [of env lg "audit_delta env r"]
  by (simp add: kb_record_cap_audit_def persist_cap_audit_def split_def ledger_ok_fields)

section \<open>Replaying the ledger\<close>

definition view_replay :: "kb_env \<Rightarrow> event_row list \<Rightarrow> views \<Rightarrow> kb_error + views" where
  "view_replay env rows vw = res_bind (res_map (read_pending env) rows) (\<lambda>es. apply_events env es vw)"

lemma apply_events_append:
  "apply_events env (xs @ ys) vw = res_bind (apply_events env xs vw) (apply_events env ys)"
  by (induction xs arbitrary: vw) (auto simp: res_bind_def split: sum.split)

lemma res_map_append:
  "res_map f (xs @ ys) = res_bind (res_map f xs) (\<lambda>us. res_bind (res_map f ys) (\<lambda>vs. Inr (us @ vs)))"
  by (induction xs) (auto simp: res_bind_def split: sum.split)

lemma vreplay_append:
  assumes "view_replay env xs vw = Inr vw'"
  shows "view_replay env (xs @ ys) vw = view_replay env ys vw'"
  using assms by (auto simp: view_replay_def res_map_append apply_events_append res_bind_eq_Inr res_bind_def split: sum.split)

named_theorems apply_defs \<open>definitions of the event handlers\<close>

lemmas handler_defs [apply_defs] =
  apply_contact_event_def apply_artifact_event_def apply_run_event_def apply_node_finished_event_def
  apply_run_trace_event_def apply_email_event_def record_history_def Let_def

lemma res_bind_map_sum:
  "map_sum id f (res_bind x g) = res_bind x (\<lambda>a. map_sum id f (g a))"
  by (simp add: res_bind_def split: sum.split)

lemma apply_event_watermark:
  "apply_event env e (vw\<lparr>vw_watermark := w\<rparr>) = map_sum id (\<lambda>v. v\<lparr>vw_watermark := w\<rparr>) (apply_event env e vw)"
proof -
  have "apply_contact_event env e (vw\<lparr>vw_watermark := w\<rparr>) = map_sum id (\<lambda>v. v\<lparr>vw_watermark := w\<rparr>) (apply_contact_event env e vw)"
    "apply_artifact_event env e (vw\<lparr>vw_watermark := w\<rparr>) = map_sum id (\<lambda>v. v\<lparr>vw_watermark := w\<rparr>) (apply_artifact_event env e vw)"
    "apply_run_event e (vw\<lparr>vw_watermark := w\<rparr>) = map_sum id (\<lambda>v. v\<lparr>vw_watermark := w\<rparr>) (apply_run_event e vw)"
    "apply_node_finished_event e (vw\<lparr>vw_watermark := w\<rparr>) = map_sum id (\<lambda>v. v\<lparr>vw_watermark := w\<rparr>) (apply_node_finished_event e vw)"
    "apply_run_trace_event env e (vw\<lparr>vw_watermark := w\<rparr>) = map_sum id (\<lambda>v. v\<lparr>vw_watermark := w\<rparr>) (apply_run_trace_event env e vw)"
    by (cases vw, simp add: apply_defs res_bind_map_sum)+
  moreover have "apply_email_event e (vw\<lparr>vw_watermark := w\<rparr>) = map_sum id (\<lambda>v. v\<lparr>vw_watermark := w\<rparr>) (apply_email_event e vw)"
    by (cases vw) (simp add: apply_defs split: option.split)
  ultimately show ?thesis by (simp add: apply_event_def)
qed

lemma apply_events_watermark:
  "apply_events env es (vw\<lparr>vw_watermark := w\<rparr>) = map_sum id (\<lambda>v. v\<lparr>vw_watermark := w\<rparr>) (apply_events env es vw)"
proof (induction es arbitrary: vw)
  case (Cons e es)
  show ?case
    by (cases "apply_event env e vw") (simp_all add: apply_event_watermark Cons)
qed simp

lemma watermark_same: "vw_watermark vw = w \<Longrightarrow> vw\<lparr>vw_watermark := w\<rparr> = vw"
  by (cases vw) simp

lemma apply_events_keeps:
  assumes "apply_events env es vw = Inr vw'"
  shows "vw_watermark vw' = vw_watermark vw"
proof -
  have "Inr vw' = map_sum id (\<lambda>v. v\<lparr>vw_watermark := vw_watermark vw\<rparr>) (Inr vw' :: kb_error + views)"
    using apply_events_watermark [where env = env and es = es and vw = vw and w = "vw_watermark vw"] by (simp add: watermark_same assms)
  then have "vw' = vw'\<lparr>vw_watermark := vw_watermark vw\<rparr>" by simp
  then show ?thesis by (metis (no_types) views.select_convs(7) views.surjective views.update_convs(7))
qed

lemma vreplay_watermark:
  "view_replay env rows (vw\<lparr>vw_watermark := w\<rparr>) = map_sum id (\<lambda>v. v\<lparr>vw_watermark := w\<rparr>) (view_replay env rows vw)"
  by (cases "res_map (read_pending env) rows") (simp_all add: view_replay_def apply_events_watermark)

lemma read_pending_id: "read_pending env row = Inr e \<Longrightarrow> pe_id e = ev_id row"
  by (auto simp: read_pending_def res_bind_eq_Inr)

lemma read_pending_ids: "res_map (read_pending env) rows = Inr es \<Longrightarrow> map pe_id es = map ev_id rows"
  by (induction rows arbitrary: es) (auto simp: res_bind_eq_Inr read_pending_id)

definition views_ok :: "kb_env \<Rightarrow> kb_state \<Rightarrow> bool" where
  "views_ok env s \<longleftrightarrow>
    (\<exists>k \<le> length (lg_events (ks_ledger s)). vw_watermark (ks_views s) = int k \<and>
      view_replay env (take k (lg_events (ks_ledger s))) views_new = Inr ((ks_views s)\<lparr>vw_watermark := 0\<rparr>))"

definition kb_ok :: "kb_env \<Rightarrow> kb_state \<Rightarrow> bool" where
  "kb_ok env s \<longleftrightarrow> ledger_ok env (ks_ledger s) \<and> views_ok env s"

lemma pending_rows:
  assumes "map ev_id events = map int [1..<Suc n]"
  shows "filter (\<lambda>e. int k < ev_id e) events = drop k events"
proof -
  have len: "length events = n" using arg_cong [OF assms, of length] by simp
  have ids: "\<And>i. i < n \<Longrightarrow> ev_id (events ! i) = int (Suc i)"
  proof -
    fix i assume i: "i < n"
    have "map ev_id events ! i = map int [1..<Suc n] ! i" by (simp only: assms)
    then show "ev_id (events ! i) = int (Suc i)" using i len by (simp del: upt_Suc)
  qed
  have "filter (\<lambda>e. int k < ev_id e) (take k events) = []"
    using ids len by (auto simp: filter_empty_conv in_set_conv_nth)
  moreover have "filter (\<lambda>e. int k < ev_id e) (drop k events) = drop k events"
    using ids len by (auto simp: filter_id_conv in_set_conv_nth)
  ultimately show ?thesis
    using filter_append [of "\<lambda>e. int k < ev_id e" "take k events" "drop k events"] by simp
qed

lemma applied_rows:
  assumes "map ev_id events = map int [1..<Suc n]"
  shows "filter (\<lambda>e. ev_id e \<le> int k) events = take k events"
proof -
  have "filter (\<lambda>e. int k < ev_id e) events = drop k events" by (rule pending_rows [OF assms])
  moreover have "filter (\<lambda>e. ev_id e \<le> int k) (take k events) = take k events"
    "filter (\<lambda>e. ev_id e \<le> int k) (drop k events) = []"
  proof -
    have e: "set (drop k events) \<subseteq> {e. int k < ev_id e}" unfolding pending_rows [OF assms, symmetric] by auto
    then show "filter (\<lambda>e. ev_id e \<le> int k) (drop k events) = []" by (auto simp: filter_empty_conv)
    have len: "length events = n" using arg_cong [OF assms, of length] by simp
    have "ev_id (events ! i) \<le> int k" if "i < k" "i < n" for i
    proof -
      have "map ev_id events ! i = map int [1..<Suc n] ! i" by (simp only: assms)
      then show ?thesis using that len by (simp del: upt_Suc)
    qed
    then show "filter (\<lambda>e. ev_id e \<le> int k) (take k events) = take k events"
      using len by (auto simp: filter_id_conv in_set_conv_nth)
  qed
  ultimately show ?thesis
    using filter_append [of "\<lambda>e. ev_id e \<le> int k" "take k events" "drop k events"] by simp
qed

lemma propose_events:
  "\<exists>rows. lg_events (fst (propose env d lg)) = lg_events lg @ rows"
  by (cases rule: propose_cases [of env d lg]) auto

lemma audit_events:
  "\<exists>rows. lg_events (kb_record_cap_audit env r lg) = lg_events lg @ rows"
  using propose_events [of env "audit_delta env r" lg]
  by (simp add: kb_record_cap_audit_def persist_cap_audit_def split_def)

lemma views_ok_extend:
  assumes "views_ok env s" "lg_events lg = lg_events (ks_ledger s) @ rows"
  shows "views_ok env (s\<lparr>ks_ledger := lg\<rparr>)"
proof -
  obtain k where k: "k \<le> length (lg_events (ks_ledger s))" "vw_watermark (ks_views s) = int k"
    "view_replay env (take k (lg_events (ks_ledger s))) views_new = Inr ((ks_views s)\<lparr>vw_watermark := 0\<rparr>)"
    using assms(1) unfolding views_ok_def by blast
  then show ?thesis unfolding views_ok_def using assms(2) by (intro exI [of _ k]) simp
qed

text \<open>What a synchronisation does when it succeeds: it replays the next batch of rows.\<close>

lemma sync_views_batch:
  assumes ledger: "ledger_ok env (ks_ledger s)" and k: "vw_watermark (ks_views s) = int k" "k \<le> length (lg_events (ks_ledger s))"
    and sync: "sync_views env batch s = Inr (vw, b)"
  shows "\<exists>k'. k' = k + min batch (length (lg_events (ks_ledger s)) - k) \<and> vw_watermark vw = int k' \<and> (b \<longleftrightarrow> k < k') \<and>
    view_replay env (take batch (drop k (lg_events (ks_ledger s)))) (ks_views s) = Inr (vw\<lparr>vw_watermark := int k\<rparr>)"
proof -
  let ?events = "lg_events (ks_ledger s)"
  let ?rows = "take batch (drop k ?events)"
  have ids: "map ev_id ?events = map int [1..<Suc (length ?events)]" using ledger by (simp add: ledger_ok_def)
  obtain pending where p: "res_map (read_pending env) ?rows = Inr pending"
    and rest: "(if pending = [] then Inr (ks_views s, False)
      else res_bind (apply_events env pending (ks_views s)) (\<lambda>vw. case ke_fault env (lg_ticks (ks_ledger s)) of
        Some err \<Rightarrow> Inl (KbSqlite err) | None \<Rightarrow> Inr (vw\<lparr>vw_watermark := pe_id (last pending)\<rparr>, True))) = Inr (vw, b)"
    using sync by (auto simp: sync_views_def load_events_after_def res_bind_eq_Inr k(1) pending_rows [OF ids])
  have pids: "map pe_id pending = map ev_id ?rows" by (rule read_pending_ids [OF p])
  have len: "length pending = min batch (length ?events - k)" using arg_cong [OF pids, of length] by simp
  show ?thesis
  proof (cases "pending = []")
    case True
    then have "?rows = []" using pids by simp
    then show ?thesis using rest True len k(1) p by (simp add: view_replay_def watermark_same)
  next
    case False
    then obtain vw' where app: "apply_events env pending (ks_views s) = Inr vw'"
      and vw: "vw = vw'\<lparr>vw_watermark := pe_id (last pending)\<rparr>" and b
      using rest by (auto simp: res_bind_eq_Inr split: option.splits)
    have "vw_watermark vw' = vw_watermark (ks_views s)"
      by (rule apply_events_keeps [OF app])
    let ?i = "length pending - 1"
    have rows: "length ?rows = length pending" using arg_cong [OF pids, of length] by simp
    have i: "?i < length pending" "?i < length ?rows" using False unfolding rows by simp_all
    have "map pe_id pending ! ?i = map ev_id ?rows ! ?i" by (simp only: pids)
    then have "pe_id (pending ! ?i) = ev_id (?rows ! ?i)" by (simp only: nth_map [OF i(1)] nth_map [OF i(2)])
    moreover have "?rows ! ?i = ?events ! (k + ?i)" using i(2) k(2) by simp
    ultimately have "pe_id (last pending) = ev_id (?events ! (k + ?i))" using False by (simp add: last_conv_nth)
    also have "\<dots> = int (k + length pending)"
    proof -
      have ki: "k + ?i < length ?events" using i(2) by auto
      have "map ev_id ?events ! (k + ?i) = map int [1..<Suc (length ?events)] ! (k + ?i)" by (simp only: ids)
      then have "ev_id (?events ! (k + ?i)) = map int [1..<Suc (length ?events)] ! (k + ?i)" by (simp only: nth_map [OF ki])
      then show ?thesis using ki False by (cases pending) (simp_all del: upt_Suc)
    qed
    finally have last: "pe_id (last pending) = int (k + length pending)" .
    have "view_replay env ?rows (ks_views s) = Inr vw'" by (simp add: view_replay_def p app)
    moreover have "0 < length pending" using False by simp
    ultimately show ?thesis using vw last len \<open>b\<close> \<open>vw_watermark vw' = _\<close> k(1) by (simp add: watermark_same)
  qed
qed

lemma views_ok_batch:
  assumes "ledger_ok env (ks_ledger s)" "views_ok env s" "sync_views env batch s = Inr (vw, b)"
  shows "views_ok env (s\<lparr>ks_views := vw\<rparr>)"
proof -
  let ?events = "lg_events (ks_ledger s)"
  obtain k where k: "k \<le> length ?events" "vw_watermark (ks_views s) = int k"
    "view_replay env (take k ?events) views_new = Inr ((ks_views s)\<lparr>vw_watermark := 0\<rparr>)"
    using assms(2) unfolding views_ok_def by blast
  obtain k' where k': "k' = k + min batch (length ?events - k)" "vw_watermark vw = int k'"
    "view_replay env (take batch (drop k ?events)) (ks_views s) = Inr (vw\<lparr>vw_watermark := int k\<rparr>)"
    using sync_views_batch [OF assms(1) k(2,1) assms(3)] by blast
  have rows: "take k' ?events = take k ?events @ take batch (drop k ?events)"
    unfolding k'(1) take_add by (simp add: min_def)
  have "view_replay env (take batch (drop k ?events)) ((ks_views s)\<lparr>vw_watermark := 0\<rparr>) = Inr (vw\<lparr>vw_watermark := 0\<rparr>)"
    by (simp add: vreplay_watermark k'(3))
  then have "view_replay env (take k' ?events) views_new = Inr (vw\<lparr>vw_watermark := 0\<rparr>)"
    by (simp add: rows vreplay_append [OF k(3)])
  then show ?thesis unfolding views_ok_def using k'(1,2) k(1) by (intro exI [of _ k']) auto
qed

lemma kb_ok_sync: "kb_ok env s \<Longrightarrow> kb_ok env (fst (sync env batch s))"
proof (cases "sync_views env batch s")
  case (Inl e)
  assume "kb_ok env s"
  then show ?thesis using Inl by (simp add: sync_def Let_def kb_ok_def ledger_ok_fields views_ok_def)
next
  case (Inr x)
  assume ok: "kb_ok env s"
  obtain vw b where x: "x = (vw, b)" by fastforce
  have "views_ok env (s\<lparr>ks_views := vw\<rparr>)" using views_ok_batch ok Inr x unfolding kb_ok_def by blast
  then show ?thesis using Inr x ok by (simp add: sync_def Let_def kb_ok_def ledger_ok_fields views_ok_def)
qed

lemma kb_ok_new: "kb_ok env kb_new"
proof -
  have "lg_events (ks_ledger kb_new) = []" "ks_views kb_new = views_new" "views_new\<lparr>vw_watermark := 0\<rparr> = views_new"
    by (simp_all add: kb_new_def ledger_new_def views_new_def)
  moreover have "ledger_ok env (ks_ledger kb_new)" by (simp add: kb_new_def ledger_ok_new)
  ultimately show ?thesis by (simp add: kb_ok_def views_ok_def view_replay_def views_new_def)
qed

interpretation kb: invariant kb_init "kb_step env" "kb_ok env" for env
proof
  fix s assume "kb_init s"
  then show "kb_ok env s"
    by (simp add: kb_init_def kb_ok_new)
next
  fix s t assume ok: "kb_ok env s" and "kb_step env s t"
  from this(2) show "kb_ok env t"
  proof cases
    case (step_propose d)
    then show ?thesis using ok ledger_ok_propose views_ok_extend propose_events unfolding kb_ok_def by fastforce
  next
    case (step_audit r)
    then show ?thesis using ok ledger_ok_audit views_ok_extend audit_events unfolding kb_ok_def by fastforce
  next
    case (step_sync n)
    then show ?thesis using kb_ok_sync ok by blast
  qed
qed

text \<open>C17: The views are a function of the ledger: whatever proposals, audits and synchronisations of any
  batch size led to a state, its views are what replaying the events up to the watermark, in the
  order of their ids and from empty tables, gives.\<close>

theorem views_are_replay:
  assumes "reachable kb_init (kb_step env) s"
  shows "view_replay env (filter (\<lambda>e. ev_id e \<le> vw_watermark (ks_views s)) (lg_events (ks_ledger s))) views_new =
    Inr ((ks_views s)\<lparr>vw_watermark := 0\<rparr>)"
proof -
  have ok: "ledger_ok env (ks_ledger s)" "views_ok env s" using kb.reachable_inv [OF assms] by (simp_all add: kb_ok_def)
  obtain k where k: "k \<le> length (lg_events (ks_ledger s))" "vw_watermark (ks_views s) = int k"
    "view_replay env (take k (lg_events (ks_ledger s))) views_new = Inr ((ks_views s)\<lparr>vw_watermark := 0\<rparr>)"
    using ok(2) unfolding views_ok_def by blast
  have "filter (\<lambda>e. ev_id e \<le> int k) (lg_events (ks_ledger s)) = take k (lg_events (ks_ledger s))"
    using ok(1) by (intro applied_rows) (simp add: ledger_ok_def)
  then show ?thesis using k by simp
qed

section \<open>Catching up\<close>

text \<open>The laws of canonical JSON that the ledger relies on (RFC 8785): what the reader gives back is the
  value up to a normal form (order of keys, spelling of numbers) that keeps strings, truth values
  and the members of objects, and that the canonical form does not depend on.\<close>

definition jcs_laws :: "kb_env \<Rightarrow> (json \<Rightarrow> json) \<Rightarrow> bool" where
  "jcs_laws env norm \<longleftrightarrow>
    (\<forall>v s. ke_canon env v = Inr s \<longrightarrow> ke_parse env s = Inr (norm v)) \<and>
    (\<forall>v. ke_canon env (norm v) = ke_canon env v) \<and>
    (\<forall>k a c p q. ke_canon env (envelope_value k a c (norm p) (norm q)) = ke_canon env (envelope_value k a c p q)) \<and>
    (\<forall>s. norm (JString s) = JString s) \<and> (\<forall>b. norm (JBool b) = JBool b) \<and>
    (\<forall>m k. json_get (norm (JObject m)) k = map_option norm (map_of m k))"

text \<open>The members that the schemas of \<open>crates/kb/schemas\<close> require as strings; \<open>run.trace\<close> also
  requires a truth value.\<close>

definition schema_strings :: "(string \<times> string list) list" where
  "schema_strings =
    [(''contact.upserted'', [''name'', ''email'']), (''artifact.created'', [''kind'', ''path'', ''sha256'']),
     (''run.started'', [''opening_id'', ''status'']), (''run.finished'', [''opening_id'', ''status'']),
     (''node.finished'', [''trace_id'', ''opening_id'', ''node_id'', ''status'']),
     (''run.trace'', [''trace_id'', ''opening_id'', ''final_hash'']), (''email.sent'', [''subject'']),
     (''cap.audit'', [''agent'', ''cap'', ''op'', ''target'', ''args_hash'', ''decision'', ''severity'', ''reason''])]"

definition schema_required :: "string \<Rightarrow> json \<Rightarrow> bool" where
  "schema_required kind v \<longleftrightarrow>
    (\<forall>ks. map_of schema_strings kind = Some ks \<longrightarrow> (\<forall>k \<in> set ks. \<exists>s. json_get v k = Some (JString s))) \<and>
    (kind = ''run.trace'' \<longrightarrow> (\<exists>b. json_get v ''success'' = Some (JBool b)))"

definition schema_law :: "kb_env \<Rightarrow> bool" where
  "schema_law env \<longleftrightarrow> (\<forall>kind v. ke_schema_errors env kind v = [] \<longrightarrow> schema_required kind v)"

lemma json_get_norm:
  assumes "jcs_laws env norm"
  shows "json_get v k = Some (JString s) \<Longrightarrow> json_get (norm v) k = Some (JString s)"
    "json_get v k = Some (JBool b) \<Longrightarrow> json_get (norm v) k = Some (JBool b)"
  using assms by (cases v; simp add: jcs_laws_def)+

lemma schema_required_norm:
  assumes "jcs_laws env norm" "schema_required kind v"
  shows "schema_required kind (norm v)"
  using assms(2) json_get_norm [OF assms(1)] unfolding schema_required_def by blast

lemma get_trimmed_string: "json_get v k = Some (JString s) \<Longrightarrow> get_trimmed v k = Some (trim s)"
  by (simp add: get_trimmed_def get_str_def)

lemma derive_contact_key_named: "\<exists>key. derive_contact_key env email (Some n) org = Some key"
  by (cases "Option.bind email (\<lambda>s. if trim s \<noteq> [] then Some s else None)") (simp_all add: derive_contact_key_def)

lemma derive_artifact_key_path: "\<exists>key. derive_artifact_key env sha (Some p) = Some key"
  by (cases "Option.bind sha (\<lambda>s. if trim s \<noteq> [] then Some s else None)") (simp_all add: derive_artifact_key_def)

lemma required_trimmed:
  assumes "schema_required kind v" "map_of schema_strings kind = Some ks" "k \<in> set ks"
  shows "\<exists>s. get_trimmed v k = Some s"
  using assms get_trimmed_string unfolding schema_required_def by blast

lemma apply_event_total:
  assumes valid: "schema_required (pe_kind e) (pe_payload e)" and trace: "json_get (pe_provenance e) ''trace_id'' = Some (JString t)"
  shows "\<exists>vw'. apply_event env e vw = Inr vw'"
proof -
  let ?k = "pe_kind e"
  note req = required_trimmed [OF valid]
  note trace_id = get_trimmed_string [OF trace]
  have "\<exists>vw'. apply_contact_event env e vw = Inr vw'" if k: "?k = ''contact.upserted''"
  proof -
    obtain n where "get_trimmed (pe_payload e) ''name'' = Some n" using req [of _ "''name''"] by (auto simp: k schema_strings_def)
    moreover obtain key where "derive_contact_key env (map_option normalize_email (get_str (pe_payload e) ''email'')) (Some n)
        (get_trimmed (pe_payload e) ''org'') = Some key" using derive_contact_key_named by blast
    ultimately show ?thesis by (simp add: apply_contact_event_def Let_def)
  qed
  moreover have "\<exists>vw'. apply_artifact_event env e vw = Inr vw'" if k: "?k = ''artifact.created''"
  proof -
    obtain kind where "get_trimmed (pe_payload e) ''kind'' = Some kind" using req [of _ "''kind''"] by (auto simp: k schema_strings_def)
    moreover obtain p where "get_trimmed (pe_payload e) ''path'' = Some p" using req [of _ "''path''"] by (auto simp: k schema_strings_def)
    moreover obtain key where "derive_artifact_key env (get_trimmed (pe_payload e) ''sha256'') (Some p) = Some key"
      using derive_artifact_key_path by blast
    ultimately show ?thesis by (simp add: apply_artifact_event_def Let_def)
  qed
  moreover have "\<exists>vw'. apply_run_event e vw = Inr vw'" if k: "?k = ''run.started'' \<or> ?k = ''run.finished''"
  proof -
    obtain o1 where "get_trimmed (pe_payload e) ''opening_id'' = Some o1"
      using req [of _ "''opening_id''"] k by (auto simp: schema_strings_def)
    then show ?thesis by (simp add: apply_run_event_def trace_id Let_def)
  qed
  moreover have "\<exists>vw'. apply_node_finished_event e vw = Inr vw'" if k: "?k = ''node.finished''"
  proof -
    have m: "map_of schema_strings ?k = Some [''trace_id'', ''opening_id'', ''node_id'', ''status'']"
      by (simp add: k schema_strings_def)
    obtain a b c d where "get_trimmed (pe_payload e) ''trace_id'' = Some a" "get_trimmed (pe_payload e) ''opening_id'' = Some b"
      "get_trimmed (pe_payload e) ''node_id'' = Some c" "get_trimmed (pe_payload e) ''status'' = Some d"
      using req [OF m, of "''trace_id''"] req [OF m, of "''opening_id''"] req [OF m, of "''node_id''"] req [OF m, of "''status''"]
      by auto
    then show ?thesis by (simp add: apply_node_finished_event_def Let_def)
  qed
  moreover have "\<exists>vw'. apply_run_trace_event env e vw = Inr vw'" if k: "?k = ''run.trace''"
  proof -
    obtain h where "get_trimmed (pe_payload e) ''final_hash'' = Some h" using req [of _ "''final_hash''"] by (auto simp: k schema_strings_def)
    moreover obtain b where "json_get (pe_payload e) ''success'' = Some (JBool b)" using valid by (auto simp: k schema_required_def)
    ultimately show ?thesis by (simp add: apply_run_trace_event_def trace_id)
  qed
  moreover have "\<exists>vw'. apply_email_event e vw = Inr vw'" by (simp add: apply_email_event_def)
  ultimately show ?thesis unfolding apply_event_def by auto
qed

lemma sealed_read:
  assumes laws: "jcs_laws env norm" and row: "row_sealed env row"
  shows "\<exists>payload p. ke_schema_errors env (ev_kind row) payload = [] \<and>
    read_pending env row = Inr \<lparr>pe_id = ev_id row, pe_kind = ev_kind row, pe_payload = norm payload, pe_provenance = norm (provenance_value p)\<rparr>"
proof -
  obtain payload p where "ke_schema_errors env (ev_kind row) payload = []"
    and c: "ke_canon env payload = Inr (ev_payload_json row)" "ke_canon env (provenance_value p) = Inr (ev_provenance_json row)"
    using row unfolding row_sealed_def by blast
  moreover have "ke_parse env (ev_payload_json row) = Inr (norm payload)" "ke_parse env (ev_provenance_json row) = Inr (norm (provenance_value p))"
    using laws c by (simp_all add: jcs_laws_def)
  ultimately show ?thesis by (auto simp: read_pending_def)
qed

lemma sealed_applies:
  assumes laws: "jcs_laws env norm" "schema_law env" and row: "row_sealed env row"
  shows "\<exists>e. read_pending env row = Inr e \<and> (\<forall>vw. \<exists>vw'. apply_event env e vw = Inr vw')"
proof -
  obtain payload p where v: "ke_schema_errors env (ev_kind row) payload = []"
    and r: "read_pending env row = Inr \<lparr>pe_id = ev_id row, pe_kind = ev_kind row, pe_payload = norm payload, pe_provenance = norm (provenance_value p)\<rparr>"
    using sealed_read [OF laws(1) row] by blast
  have "schema_required (ev_kind row) (norm payload)"
    using schema_required_norm [OF laws(1)] laws(2) v by (simp add: schema_law_def)
  moreover have "json_get (norm (provenance_value p)) ''trace_id'' = Some (JString (pv_trace_id p))"
    by (rule json_get_norm(1) [OF laws(1)]) (simp add: provenance_value_def)
  ultimately show ?thesis using r apply_event_total by fastforce
qed

lemma vreplay_Cons:
  assumes "read_pending env row = Inr e" "apply_event env e vw = Inr vw'"
  shows "view_replay env (row # rows) vw = view_replay env rows vw'"
  using assms by (cases "res_map (read_pending env) rows") (simp_all add: view_replay_def)

lemma vreplay_total:
  assumes "jcs_laws env norm" "schema_law env" "\<forall>row \<in> set rows. row_sealed env row"
  shows "\<exists>vw'. view_replay env rows vw = Inr vw'"
  using assms(3)
proof (induction rows arbitrary: vw)
  case (Cons row rows)
  obtain e vw' where "read_pending env row = Inr e" "apply_event env e vw = Inr vw'"
    using sealed_applies [OF assms(1,2), of row] Cons.prems by fastforce
  then show ?case using Cons.IH [of vw'] Cons.prems by (simp add: vreplay_Cons)
qed (simp add: view_replay_def)

lemma sync_total:
  assumes "jcs_laws env norm" "schema_law env" "\<And>n. ke_fault env n = None" "kb_ok env s"
  shows "\<exists>vw b. sync_views env batch s = Inr (vw, b)"
proof -
  let ?rows = "take batch (filter (\<lambda>e. vw_watermark (ks_views s) < ev_id e) (lg_events (ks_ledger s)))"
  have "\<forall>row \<in> set ?rows. row_sealed env row" using assms(4) by (auto simp: kb_ok_def ledger_ok_def dest!: in_set_takeD)
  then obtain vw where "view_replay env ?rows (ks_views s) = Inr vw" using vreplay_total [OF assms(1,2)] by blast
  then obtain es where "res_map (read_pending env) ?rows = Inr es" "apply_events env es (ks_views s) = Inr vw"
    by (auto simp: view_replay_def res_bind_eq_Inr)
  then show ?thesis by (cases "es = []") (auto simp: sync_views_def load_events_after_def assms(3))
qed

lemma catch_up_returns:
  assumes laws: "jcs_laws env norm" "schema_law env" "\<And>n. ke_fault env n = None" and batch: "0 < batch" and ok: "kb_ok env s"
  shows "\<exists>s'. catch_up env batch s = Some (s', Inr ()) \<and> kb_ok env s' \<and> lg_events (ks_ledger s') = lg_events (ks_ledger s) \<and>
    vw_watermark (ks_views s') = int (length (lg_events (ks_ledger s)))"
  using ok
proof (induction "length (lg_events (ks_ledger s)) - nat (vw_watermark (ks_views s))" arbitrary: s rule: less_induct)
  case less
  let ?n = "length (lg_events (ks_ledger s))"
  obtain vw b where sv: "sync_views env batch s = Inr (vw, b)" using sync_total [OF laws less.prems] by blast
  obtain k where k: "k \<le> ?n" "vw_watermark (ks_views s) = int k" using less.prems unfolding kb_ok_def views_ok_def by blast
  obtain k' where k': "k' = k + min batch (?n - k)" "vw_watermark vw = int k'" "b \<longleftrightarrow> k < k'"
    using sync_views_batch [OF _ k(2,1) sv] less.prems unfolding kb_ok_def by blast
  obtain s1 where s: "sync env batch s = (s1, Inr b)" "ks_views s1 = vw" "lg_events (ks_ledger s1) = lg_events (ks_ledger s)"
    by (rule that [of "fst (sync env batch s)"]) (simp_all add: sync_def Let_def sv)
  have ok: "kb_ok env s1" using kb_ok_sync [OF less.prems, of batch] by (simp add: s(1))
  show ?case
  proof (cases b)
    case True
    then have "?n - nat (vw_watermark vw) < ?n - nat (vw_watermark (ks_views s))" using k k' by auto
    then obtain s' where "catch_up env batch s1 = Some (s', Inr ())" "kb_ok env s'" "lg_events (ks_ledger s') = lg_events (ks_ledger s)"
      "vw_watermark (ks_views s') = int ?n"
      using less.hyps [of s1] ok s by auto
    moreover have "catch_up env batch s = catch_up env batch s1" using True by (subst catch_up.simps) (simp add: s(1))
    ultimately show ?thesis by simp
  next
    case False
    then have "k' = ?n" using k k' batch by auto
    moreover have "catch_up env batch s = Some (s1, Inr ())" using False by (subst catch_up.simps) (simp add: s(1))
    ultimately show ?thesis using s ok k'(2) by simp
  qed
qed

lemma with_batch_positive: "0 < with_batch_size n"
  by (simp add: with_batch_size_def)

text \<open>C18: Bringing the views up to date always succeeds and gives the replay of the whole ledger: in
  every reachable state of a knowledge base whose database does not fail, the loop of
  synchronisations returns without an error for every batch size, leaves the ledger alone, and its
  views are those of replaying all events from empty tables. No event that was accepted blocks it.\<close>

theorem catch_up_replays_ledger:
  assumes "reachable kb_init (kb_step env) s" and "jcs_laws env norm" and "schema_law env" and "\<And>n. ke_fault env n = None"
  shows "\<exists>s'. catch_up env (with_batch_size batch) s = Some (s', Inr ()) \<and> lg_events (ks_ledger s') = lg_events (ks_ledger s) \<and>
    view_replay env (lg_events (ks_ledger s)) views_new = Inr ((ks_views s')\<lparr>vw_watermark := 0\<rparr>)"
proof -
  have ok: "kb_ok env s" by (rule kb.reachable_inv [OF assms(1)])
  obtain s' where s': "catch_up env (with_batch_size batch) s = Some (s', Inr ())" "kb_ok env s'"
    "lg_events (ks_ledger s') = lg_events (ks_ledger s)" "vw_watermark (ks_views s') = int (length (lg_events (ks_ledger s)))"
    using catch_up_returns [OF assms(2-4) with_batch_positive ok] by blast
  then obtain k where "k \<le> length (lg_events (ks_ledger s))" "int k = int (length (lg_events (ks_ledger s)))"
    "view_replay env (take k (lg_events (ks_ledger s))) views_new = Inr ((ks_views s')\<lparr>vw_watermark := 0\<rparr>)"
    unfolding kb_ok_def views_ok_def by auto
  then show ?thesis using s' by simp
qed

section \<open>A knowledge base with one event\<close>

definition demo_delta :: state_delta where
  "demo_delta = \<lparr>sd_kind = ''run.started'', sd_actor = ''agent:a'', sd_scope = None,
     sd_payload = JObject [(''opening_id'', JString ''o''), (''status'', JString ''started'')],
     sd_provenance = \<lparr>pv_trace_id = ''t'', pv_opening_id = ''o'', pv_agent_id = ''a'', pv_inputs_hash = None, pv_rationale = None\<rparr>\<rparr>"

definition demo_provenance :: json where
  "demo_provenance = provenance_value (sd_provenance demo_delta)"

definition demo_envelope :: json where
  "demo_envelope = envelope_value ''run.started'' ''agent:a'' ''user'' (sd_payload demo_delta) demo_provenance"

definition demo_kb_env :: kb_env where
  "demo_kb_env = \<lparr>
     ke_schema_errors = (\<lambda>kind v. if kind = ''run.started'' \<and> v = sd_payload demo_delta then [] else [''invalid'']),
     ke_canon = (\<lambda>v. if v = sd_payload demo_delta then Inr ''p'' else if v = demo_provenance then Inr ''q''
        else if v = demo_envelope then Inr ''e'' else Inl ''unsupported''),
     ke_parse = (\<lambda>s. if s = ''p'' then Inr (sd_payload demo_delta) else if s = ''q'' then Inr demo_provenance
        else if s = ''e'' then Inr demo_envelope else Inl ''syntax''),
     ke_show = (\<lambda>_. ''p''), ke_blake3 = id, ke_uuid = (\<lambda>_. ''u''), ke_now = (\<lambda>n. word_of_nat n), ke_fault = (\<lambda>_. None)\<rparr>"

definition demo_kb :: kb_state where
  "demo_kb = kb_new\<lparr>ks_ledger := fst (propose demo_kb_env demo_delta (ks_ledger kb_new))\<rparr>"

lemma demo_jcs: "jcs_laws demo_kb_env id"
  by (simp add: jcs_laws_def demo_kb_env_def option.map_id)

lemma demo_schema: "schema_law demo_kb_env"
  by (simp add: schema_law_def demo_kb_env_def schema_required_def schema_strings_def demo_delta_def)

lemma demo_kb_reachable: "reachable kb_init (kb_step demo_kb_env) demo_kb"
proof (rule reachable.move)
  show "reachable kb_init (kb_step demo_kb_env) kb_new" by (rule reachable.start) (simp add: kb_init_def)
  show "kb_step demo_kb_env kb_new demo_kb" unfolding demo_kb_def by (rule kb_step.step_propose)
qed

theorem views_are_replay_witness:
  "view_replay demo_kb_env (filter (\<lambda>e. ev_id e \<le> vw_watermark (ks_views demo_kb)) (lg_events (ks_ledger demo_kb))) views_new =
    Inr ((ks_views demo_kb)\<lparr>vw_watermark := 0\<rparr>)"
  by (rule views_are_replay [OF demo_kb_reachable])

theorem catch_up_replays_ledger_witness:
  "\<exists>s'. catch_up demo_kb_env (with_batch_size 0) demo_kb = Some (s', Inr ()) \<and> lg_events (ks_ledger s') = lg_events (ks_ledger demo_kb) \<and>
    view_replay demo_kb_env (lg_events (ks_ledger demo_kb)) views_new = Inr ((ks_views s')\<lparr>vw_watermark := 0\<rparr>)"
  by (rule catch_up_replays_ledger [OF demo_kb_reachable demo_jcs demo_schema]) (simp add: demo_kb_env_def)

end
