(* ===== verification/Kb_Seal.thy ===== *)
theory Kb_Seal
  imports Kb_Props
begin

text \<open>
  The seal of the ledger: what \<open>verify\<close> reports, what it detects, and what the uniqueness of the hash
  does to repeated events.
\<close>

section \<open>When a report is clean\<close>

definition clean :: "verify_report \<Rightarrow> bool" where
  "clean r \<longleftrightarrow> vr_hash_mismatches r = [] \<and> vr_non_canonical_fields r = [] \<and> vr_parse_failures r = []"

definition row_clean :: "kb_env \<Rightarrow> event_row \<Rightarrow> bool" where
  "row_clean env row \<longleftrightarrow>
    (case (ke_parse env (ev_payload_json row), ke_parse env (ev_provenance_json row)) of
       (Inr payload, Inr provenance) \<Rightarrow>
         ke_canon env payload = Inr (ev_payload_json row) \<and> ke_canon env provenance = Inr (ev_provenance_json row) \<and>
         map_sum id (\<lambda>c. ke_blake3 env (utf8_bytes c))
           (ke_canon env (envelope_value (ev_kind row) (ev_actor row) (ev_scope row) payload provenance)) = Inr (ev_hash row)
     | _ \<Rightarrow> False)"

lemma clean_pushes [simp]:
  "\<not> clean (push_failure row f err r)"
  "\<not> clean (push_non_canonical row f r)"
  "clean (r\<lparr>vr_events_checked := n\<rparr>) = clean r"
  by (simp_all add: clean_def push_failure_def push_non_canonical_def)

lemma check_hash_clean:
  "clean (check_hash env row p q r) \<longleftrightarrow> clean r \<and> map_sum id (\<lambda>c. ke_blake3 env (utf8_bytes c))
    (ke_canon env (envelope_value (ev_kind row) (ev_actor row) (ev_scope row) p q)) = Inr (ev_hash row)"
proof (cases "ke_canon env (envelope_value (ev_kind row) (ev_actor row) (ev_scope row) p q)")
  case (Inl e)
  then show ?thesis by (simp add: check_hash_def)
next
  case (Inr c)
  then show ?thesis by (auto simp: check_hash_def Let_def clean_def)
qed

lemma check_canonical_clean:
  assumes "\<And>r. clean (k r) \<longleftrightarrow> clean r \<and> P"
  shows "clean (check_canonical env row f raw v k r) \<longleftrightarrow> clean r \<and> ke_canon env v = Inr raw \<and> P"
  using assms by (auto simp: check_canonical_def split: sum.split)

lemma verify_row_clean: "clean (verify_row env row r) \<longleftrightarrow> clean r \<and> row_clean env row"
proof (cases "ke_parse env (ev_payload_json row)")
  case (Inl e)
  then show ?thesis by (simp add: verify_row_def row_clean_def)
next
  case p: (Inr payload)
  show ?thesis
  proof (cases "ke_parse env (ev_provenance_json row)")
    case (Inl e)
    then show ?thesis using p by (simp add: verify_row_def row_clean_def)
  next
    case (Inr provenance)
    have "clean (check_canonical env row ''payload_json'' (ev_payload_json row) payload
        (check_canonical env row ''provenance_json'' (ev_provenance_json row) provenance (check_hash env row payload provenance)) r) \<longleftrightarrow>
      clean r \<and> row_clean env row" for r
      unfolding row_clean_def by (simp add: check_canonical_clean [OF check_canonical_clean [OF check_hash_clean]] p Inr)
    then show ?thesis using p Inr by (simp add: verify_row_def)
  qed
qed

lemma verify_rows_clean: "clean (fold (verify_row env) rows r) \<longleftrightarrow> clean r \<and> (\<forall>row \<in> set rows. row_clean env row)"
  by (induction rows arbitrary: r) (auto simp: verify_row_clean)

lemma verify_row_checked: "vr_events_checked (verify_row env row r) = Suc (vr_events_checked r)"
  by (simp add: verify_row_def check_canonical_def check_hash_def push_failure_def push_non_canonical_def Let_def split: sum.split)

lemma verify_rows_checked: "vr_events_checked (fold (verify_row env) rows r) = vr_events_checked r + length rows"
  by (induction rows arbitrary: r) (simp_all add: verify_row_checked)

lemma verify_clean: "clean (verify env lg) \<longleftrightarrow> (\<forall>row \<in> set (lg_events lg). row_clean env row)"
  by (simp add: verify_def verify_rows_clean) (simp add: clean_def empty_report_def)

section \<open>A sealed row is clean\<close>

definition same_content :: "event_row \<Rightarrow> event_row \<Rightarrow> bool" where
  "same_content a b \<longleftrightarrow> ev_kind a = ev_kind b \<and> ev_actor a = ev_actor b \<and> ev_scope a = ev_scope b \<and>
    ev_payload_json a = ev_payload_json b \<and> ev_provenance_json a = ev_provenance_json b"

lemma sealed_clean:
  assumes laws: "jcs_laws env norm" and row: "row_sealed env row"
  shows "row_clean env row"
proof -
  obtain payload p canonical where c: "ke_canon env payload = Inr (ev_payload_json row)"
    "ke_canon env (provenance_value p) = Inr (ev_provenance_json row)"
    "ke_canon env (envelope_value (ev_kind row) (ev_actor row) (ev_scope row) payload (provenance_value p)) = Inr canonical"
    "ev_hash row = ke_blake3 env (utf8_bytes canonical)"
    using row unfolding row_sealed_def by blast
  have "ke_parse env (ev_payload_json row) = Inr (norm payload)" "ke_parse env (ev_provenance_json row) = Inr (norm (provenance_value p))"
    using laws c(1,2) by (simp_all add: jcs_laws_def)
  then show ?thesis using c laws by (simp add: row_clean_def jcs_laws_def)
qed

lemma utf8_inj: "utf8_bytes s = utf8_bytes t \<Longrightarrow> s = t"
  using utf8_decode_bytes by (metis option.inject)

lemma envelope_norm_inj:
  assumes laws: "jcs_laws env norm" and eq: "norm (envelope_value k a c p q) = norm (envelope_value k' a' c' p' q')"
  shows "k = k' \<and> a = a' \<and> c = c' \<and> norm p = norm p' \<and> norm q = norm q'"
proof -
  have get: "\<And>x. json_get (norm (envelope_value k a c p q)) x = json_get (norm (envelope_value k' a' c' p' q')) x" by (simp add: eq)
  have str: "\<And>s t. norm (JString s) = norm (JString t) \<Longrightarrow> s = t" using laws by (simp add: jcs_laws_def)
  have "norm (JString k) = norm (JString k')" using get [of "''kind''"] laws by (simp add: envelope_value_def jcs_laws_def)
  moreover have "norm (JString a) = norm (JString a')" using get [of "''actor''"] laws by (simp add: envelope_value_def jcs_laws_def)
  moreover have "norm (JString c) = norm (JString c')" using get [of "''scope''"] laws by (simp add: envelope_value_def jcs_laws_def)
  moreover have "norm p = norm p'" using get [of "''payload''"] laws by (simp add: envelope_value_def jcs_laws_def)
  moreover have "norm q = norm q'" using get [of "''provenance''"] laws by (simp add: envelope_value_def jcs_laws_def)
  ultimately show ?thesis using str by blast
qed

lemma map_sum_Inr: "map_sum id f x = Inr y \<longleftrightarrow> (\<exists>z. x = Inr z \<and> f z = y)"
  by (cases x) auto

lemma map_sum_error: "map_sum g id x = Inr y \<longleftrightarrow> x = Inr y"
  by (cases x) auto

definition seal_texts :: "kb_env \<Rightarrow> event_row list \<Rightarrow> bytes set" where
  "seal_texts env rows = {utf8_bytes c | row p q c. row \<in> set rows \<and> ke_parse env (ev_payload_json row) = Inr p \<and>
    ke_parse env (ev_provenance_json row) = Inr q \<and>
    ke_canon env (envelope_value (ev_kind row) (ev_actor row) (ev_scope row) p q) = Inr c}"

lemma seal_texts_mono: "set rows \<subseteq> set rows' \<Longrightarrow> seal_texts env rows \<subseteq> seal_texts env rows'"
  unfolding seal_texts_def by blast

lemma row_cleanE:
  assumes "row_clean env row" "row \<in> set rows"
  obtains p q c where "ke_canon env p = Inr (ev_payload_json row)" "ke_canon env q = Inr (ev_provenance_json row)"
    "ke_canon env (envelope_value (ev_kind row) (ev_actor row) (ev_scope row) p q) = Inr c" "ke_blake3 env (utf8_bytes c) = ev_hash row"
    "utf8_bytes c \<in> seal_texts env rows"
  using assms unfolding row_clean_def seal_texts_def by (force simp: map_sum_Inr split: sum.splits)

lemma clean_same_content:
  assumes laws: "jcs_laws env norm" and inj: "inj_on (ke_blake3 env) (seal_texts env [row', row])"
    and row: "row_sealed env row" and hash: "ev_hash row' = ev_hash row"
  shows "row_clean env row' \<longleftrightarrow> same_content row' row"
proof
  assume "same_content row' row"
  then have "row_sealed env row'" using row hash unfolding row_sealed_def same_content_def by simp
  then show "row_clean env row'" by (rule sealed_clean [OF laws])
next
  assume "row_clean env row'"
  then obtain p' q' c' where c': "ke_canon env p' = Inr (ev_payload_json row')" "ke_canon env q' = Inr (ev_provenance_json row')"
    "ke_canon env (envelope_value (ev_kind row') (ev_actor row') (ev_scope row') p' q') = Inr c'" "ke_blake3 env (utf8_bytes c') = ev_hash row'"
    "utf8_bytes c' \<in> seal_texts env [row', row]"
    by (rule row_cleanE [where rows = "[row', row]"]) simp_all
  from sealed_clean [OF laws row] obtain p q c where c: "ke_canon env p = Inr (ev_payload_json row)" "ke_canon env q = Inr (ev_provenance_json row)"
    "ke_canon env (envelope_value (ev_kind row) (ev_actor row) (ev_scope row) p q) = Inr c" "ke_blake3 env (utf8_bytes c) = ev_hash row"
    "utf8_bytes c \<in> seal_texts env [row', row]"
    by (rule row_cleanE [where rows = "[row', row]"]) simp_all
  have "ke_blake3 env (utf8_bytes c') = ke_blake3 env (utf8_bytes c)" using c'(4) c(4) hash by simp
  then have "c' = c" using inj c'(5) c(5) utf8_inj by (meson inj_onD)
  then have "norm (envelope_value (ev_kind row') (ev_actor row') (ev_scope row') p' q') =
      norm (envelope_value (ev_kind row) (ev_actor row) (ev_scope row) p q)"
    using laws c'(3) c(3) unfolding jcs_laws_def by (metis sum.inject(2))
  from envelope_norm_inj [OF laws this]
  have eq: "ev_kind row' = ev_kind row" "ev_actor row' = ev_actor row" "ev_scope row' = ev_scope row"
    "norm p' = norm p" "norm q' = norm q" by simp_all
  have "ke_canon env p' = ke_canon env p" "ke_canon env q' = ke_canon env q"
    using laws eq(4,5) unfolding jcs_laws_def by metis+
  then show "same_content row' row" using eq c c' by (simp add: same_content_def)
qed

section \<open>Properties of verification\<close>

text \<open>C21: An honest ledger verifies: in every state reached by proposals, audits and synchronisations the
  report counts every event and lists no mismatch, no field that is not canonical and no failure.\<close>

theorem ledger_verifies:
  assumes "reachable kb_init (kb_step env) s" and "jcs_laws env norm"
  shows "verify env (ks_ledger s) = empty_report\<lparr>vr_events_checked := length (lg_events (ks_ledger s))\<rparr>"
proof -
  have "\<forall>row \<in> set (lg_events (ks_ledger s)). row_sealed env row"
    using kb.reachable_inv [OF assms(1)] by (simp add: kb_ok_def ledger_ok_def)
  then have "clean (verify env (ks_ledger s))" using sealed_clean [OF assms(2)] by (simp add: verify_clean)
  moreover have "vr_events_checked (verify env (ks_ledger s)) = length (lg_events (ks_ledger s))"
    by (simp add: verify_def verify_rows_checked empty_report_def)
  ultimately show ?thesis by (cases "verify env (ks_ledger s)") (simp add: clean_def empty_report_def)
qed

lemma tampering_clean:
  assumes laws: "jcs_laws env norm" and inj: "inj_on (ke_blake3 env) (seal_texts env (rows @ events))"
    and sealed: "\<forall>row \<in> set events. row_sealed env row" and rows: "map ev_hash rows = map ev_hash events"
  shows "(\<forall>row \<in> set rows. row_clean env row) \<longleftrightarrow> list_all2 same_content rows events"
  using inj sealed rows
proof (induction events arbitrary: rows)
  case (Cons row events)
  then obtain row' rows' where r: "rows = row' # rows'" "ev_hash row' = ev_hash row" "map ev_hash rows' = map ev_hash events"
    by (cases rows) auto
  have "inj_on (ke_blake3 env) (seal_texts env [row', row])" "inj_on (ke_blake3 env) (seal_texts env (rows' @ events))"
    by (rule inj_on_subset [OF Cons.prems(1) seal_texts_mono]; use r(1) in auto)+
  then show ?case using Cons.IH [of rows'] Cons.prems(2) r clean_same_content [OF laws, of row' row] by simp
qed simp

text \<open>C19: Verification detects tampering: if someone changes the rows of a ledger without changing the
  stored hashes, the report is clean exactly if kind, actor, scope, payload and provenance of every
  row are what was proposed (no two of the texts that are hashed for these rows collide). The identifier and the time stamp
  are not under the seal.\<close>

theorem verify_detects_tampering:
  assumes "reachable kb_init (kb_step env) s" and "jcs_laws env norm" and "inj_on (ke_blake3 env) (seal_texts env (rows @ lg_events (ks_ledger s)))"
    and "map ev_hash rows = map ev_hash (lg_events (ks_ledger s))"
  shows "clean (verify env ((ks_ledger s)\<lparr>lg_events := rows\<rparr>)) \<longleftrightarrow> list_all2 same_content rows (lg_events (ks_ledger s))"
proof -
  have "\<forall>row \<in> set (lg_events (ks_ledger s)). row_sealed env row"
    using kb.reachable_inv [OF assms(1)] by (simp add: kb_ok_def ledger_ok_def)
  then show ?thesis using tampering_clean [OF assms(2,3) _ assms(4)] by (simp add: verify_clean)
qed

section \<open>Repeated events\<close>

lemma prepare_row_hash:
  assumes "prepare_row env d lg = Inr row"
  shows "\<exists>c. ke_canon env (envelope_value (sd_kind d) (sd_actor d) (delta_scope d) (sd_payload d) (provenance_value (sd_provenance d))) = Inr c
    \<and> ev_hash row = ke_blake3 env (utf8_bytes c)"
  using assms by (auto simp: prepare_row_def res_bind_eq_Inr canonicalize_value_def map_sum_error Let_def)

lemma propose_again:
  assumes "snd (propose env d lg) = Inr i" "set (lg_events (fst (propose env d lg))) \<subseteq> set (lg_events lg')"
  shows "\<exists>e. propose env d lg' = (lg'\<lparr>lg_ticks := Suc (lg_ticks lg')\<rparr>, Inl e)"
proof (cases rule: propose_cases [of env d lg'])
  case (added row')
  from assms(1) obtain row where row: "prepare_row env d lg = Inr row"
    "lg_events (fst (propose env d lg)) = lg_events lg @ [row]"
    by (cases rule: propose_cases [of env d lg]) auto
  have "ev_hash row' = ev_hash row"
    using prepare_row_hash [OF row(1)] prepare_row_hash [OF added(1)] by auto
  moreover have "row \<in> set (lg_events lg')" using assms(2) row(2) by auto
  ultimately show ?thesis using added(2) by auto
qed blast

text \<open>C39: A repeated audit is lost: once a capability decision is in the ledger, the same decision of the
  same trace, taken at another time, is refused by every later ledger, since the time is not part of
  what is hashed; the ledger stays as it is and the failure is only logged.\<close>

theorem repeated_audit_lost:
  assumes "persist_cap_audit env r lg = (lg1, Inr ())" and "set (lg_events lg1) \<subseteq> set (lg_events lg2)"
  shows "lg_events (kb_record_cap_audit env (r\<lparr>ca_ts_ms := t\<rparr>) lg2) = lg_events lg2 \<and>
    (\<exists>e. snd (persist_cap_audit env (r\<lparr>ca_ts_ms := t\<rparr>) lg2) = Inl e)"
proof -
  have same: "audit_delta env (r\<lparr>ca_ts_ms := t\<rparr>) = audit_delta env r" by (simp add: audit_delta_def cap_audit_payload_def)
  obtain i where "snd (propose env (audit_delta env r) lg) = Inr i" "fst (propose env (audit_delta env r) lg) = lg1"
    using assms(1) by (cases "propose env (audit_delta env r) lg") (auto simp: persist_cap_audit_def map_sum_Inr)
  from propose_again [OF this(1)] this(2) assms(2) obtain e where
    "propose env (audit_delta env r) lg2 = (lg2\<lparr>lg_ticks := Suc (lg_ticks lg2)\<rparr>, Inl e)" by blast
  then show ?thesis by (simp add: kb_record_cap_audit_def persist_cap_audit_def same)
qed

section \<open>Witnesses\<close>

theorem ledger_verifies_witness:
  "verify demo_kb_env (ks_ledger demo_kb) = empty_report\<lparr>vr_events_checked := length (lg_events (ks_ledger demo_kb))\<rparr>"
  by (rule ledger_verifies [OF demo_kb_reachable demo_jcs])

theorem verify_detects_tampering_witness:
  "\<not> clean (verify demo_kb_env ((ks_ledger demo_kb)\<lparr>lg_events := map (ev_actor_update (\<lambda>_. ''agent:b'')) (lg_events (ks_ledger demo_kb))\<rparr>))"
proof -
  let ?rows = "map (ev_actor_update (\<lambda>_. ''agent:b'')) (lg_events (ks_ledger demo_kb))"
  have "clean (verify demo_kb_env ((ks_ledger demo_kb)\<lparr>lg_events := ?rows\<rparr>)) \<longleftrightarrow> list_all2 same_content ?rows (lg_events (ks_ledger demo_kb))"
    by (rule verify_detects_tampering [OF demo_kb_reachable demo_jcs]) (simp_all add: demo_kb_env_def)
  moreover have "map ev_actor (lg_events (ks_ledger demo_kb)) = [''agent:a'']" by code_simp
  then obtain row where "lg_events (ks_ledger demo_kb) = [row]" "ev_actor row = ''agent:a''" by (auto simp: map_eq_Cons_conv)
  ultimately show ?thesis by (simp add: same_content_def)
qed

definition audit_env :: kb_env where
  "audit_env = demo_kb_env\<lparr>ke_schema_errors := (\<lambda>_ _. []), ke_canon := (\<lambda>_. Inr ''c'')\<rparr>"

definition demo_audit :: cap_audit where
  "demo_audit = cap_audit_new id 1 2 3 ''net.http'' ''http_request'' ''evil.org'' [] Deny ''cap_missing'' Warn"

theorem repeated_audit_lost_witness:
  "lg_events (kb_record_cap_audit audit_env (demo_audit\<lparr>ca_ts_ms := 9\<rparr>) (fst (persist_cap_audit audit_env demo_audit ledger_new))) =
     lg_events (fst (persist_cap_audit audit_env demo_audit ledger_new)) \<and>
   (\<exists>e. snd (persist_cap_audit audit_env (demo_audit\<lparr>ca_ts_ms := 9\<rparr>) (fst (persist_cap_audit audit_env demo_audit ledger_new))) = Inl e)"
proof (rule repeated_audit_lost)
  have "snd (persist_cap_audit audit_env demo_audit ledger_new) = Inr ()" by code_simp
  then show "persist_cap_audit audit_env demo_audit ledger_new = (fst (persist_cap_audit audit_env demo_audit ledger_new), Inr ())"
    by (simp add: prod_eq_iff)
qed simp

end
