(* ===== verification/Kb_Privacy.thy ===== *)
theory Kb_Privacy
  imports Kb_Props
begin

text \<open>
  What the redaction of the knowledge base hides in columns named after addresses and in payloads, and
  where it does not; the history of an entity.
\<close>

section \<open>Queries\<close>



















definition demo_redactor :: redactor where
  "demo_redactor = redactor_new id (\<lambda>bs. replicate 6 (if even (length bs) then CHR ''A'' else CHR ''B'')) default_redaction_config"

definition one_cell :: "string \<Rightarrow> sql_value \<Rightarrow> statement" where
  "one_cell name v = \<lparr>st_readonly = True, st_columns = [name], st_rows = [[v]]\<rparr>"


text \<open>Redaction looks at the names of the columns: under any other name, an alias of the query
  included, an address is returned as it is and the row is not marked, whatever the configuration.\<close>

theorem column_alias_bypasses_redaction:
  assumes "\<not> column_carries_email name" and "to_ascii_lowercase name \<noteq> ''kind''" and "to_ascii_lowercase name \<noteq> ''payload_json''"
  shows "query_with_ctx env rd ctx (Inr (one_cell name (SqlText email))) =
    Inr \<lparr>qr_columns = [name], qr_rows = [JObject [(name, JString email)]], qr_masked_rows = [False]\<rparr>"
  using assms
  by (simp add: query_with_ctx_def one_cell_def collect_event_rows_def collect_row_def column_index_def collect_cell_def
    collect_payload_def mask_column_value_def Let_def List.map_filter_simps)

theorem column_alias_bypasses_redaction_witness:
  "should_mask demo_redactor (default_context demo_redactor) \<and>
   query_with_ctx demo_kb_env demo_redactor (default_context demo_redactor) (Inr (one_cell ''address'' (SqlText ''jo@acme.com''))) =
    Inr \<lparr>qr_columns = [''address''], qr_rows = [JObject [(''address'', JString ''jo@acme.com'')]], qr_masked_rows = [False]\<rparr>"
proof
  show "should_mask demo_redactor (default_context demo_redactor)" by code_simp
  show "query_with_ctx demo_kb_env demo_redactor (default_context demo_redactor) (Inr (one_cell ''address'' (SqlText ''jo@acme.com''))) =
    Inr \<lparr>qr_columns = [''address''], qr_rows = [JObject [(''address'', JString ''jo@acme.com'')]], qr_masked_rows = [False]\<rparr>"
    by (rule column_alias_bypasses_redaction) (code_simp, code_simp, code_simp)
qed

definition pseudonym :: "redactor \<Rightarrow> redaction_context \<Rightarrow> string \<Rightarrow> string" where
  "pseudonym rd ctx s = fst (mask_email_string rd ctx s)"

text \<open>The pseudonym of an address depends on the columns of the query: selecting the payload of a
  contact event alone masks the address once, selecting its kind as well masks the pseudonym again,
  so the two results do not join.\<close>

theorem kind_column_changes_pseudonym:
  assumes "ke_parse env raw = Inr (JObject [(''email'', JString a)])" and "\<not> rx_drop_masked_rows ctx"
  shows "map_sum id qr_rows (query_with_ctx env rd ctx (Inr (one_cell ''payload_json'' (SqlText raw)))) =
      Inr [JObject [(''payload_json'', JString (ke_show env (JObject [(''email'', JString (pseudonym rd ctx a))])))]]
    \<and> map_sum id qr_rows (query_with_ctx env rd ctx (Inr \<lparr>st_readonly = True, st_columns = [''kind'', ''payload_json''],
        st_rows = [[SqlText ''contact.upserted'', SqlText raw]]\<rparr>)) =
      Inr [JObject [(''kind'', JString ''contact.upserted''),
        (''payload_json'', JString (ke_show env (JObject [(''email'', JString (pseudonym rd ctx (pseudonym rd ctx a)))])))]]"
proof -
  have idx: "column_index ''kind'' [''payload_json''] = None" "column_index ''payload_json'' [''payload_json''] = Some 0"
    "column_index ''kind'' [''kind'', ''payload_json''] = Some 0" "column_index ''payload_json'' [''kind'', ''payload_json''] = Some 1"
    by code_simp+
  have fields: "pii_fields_for_kind ''contact.upserted'' = Some [''email'']" by code_simp
  note defs = query_with_ctx_def collect_event_rows_def collect_row_def collect_cell_def collect_payload_def pseudonym_def
    mask_payload_generic_def mask_payload_for_kind_def mask_field_def fields Let_def List.map_filter_simps split_def
  show ?thesis using assms by (simp add: one_cell_def idx defs)
qed

definition mail_env :: kb_env where
  "mail_env = demo_kb_env\<lparr>ke_parse := (\<lambda>_. Inr (JObject [(''email'', JString ''jo@acme.com'')])),
     ke_show := (\<lambda>v. case json_get v ''email'' of Some (JString s) \<Rightarrow> s | _ \<Rightarrow> [])\<rparr>"

theorem kind_column_changes_pseudonym_witness:
  "map_sum id qr_rows (query_with_ctx mail_env demo_redactor (default_context demo_redactor) (Inr (one_cell ''payload_json'' (SqlText ''m'')))) =
      Inr [JObject [(''payload_json'', JString ''jaaaaaa@acme.com'')]]
    \<and> map_sum id qr_rows (query_with_ctx mail_env demo_redactor (default_context demo_redactor) (Inr \<lparr>st_readonly = True, st_columns = [''kind'', ''payload_json''],
        st_rows = [[SqlText ''contact.upserted'', SqlText ''m'']]\<rparr>)) =
      Inr [JObject [(''kind'', JString ''contact.upserted''), (''payload_json'', JString ''jbbbbbb@acme.com'')]]"
proof -
  have "ke_parse mail_env ''m'' = Inr (JObject [(''email'', JString ''jo@acme.com'')])" "\<not> rx_drop_masked_rows (default_context demo_redactor)"
    by (simp_all add: mail_env_def default_context_def context_masked_def demo_redactor_def redactor_new_def default_redaction_config_def)
  moreover have "\<And>x. ke_show mail_env (JObject [(''email'', JString x)]) = x" by (simp add: mail_env_def)
  moreover have "pseudonym demo_redactor (default_context demo_redactor) ''jo@acme.com'' = ''jaaaaaa@acme.com''"
    "pseudonym demo_redactor (default_context demo_redactor) ''jaaaaaa@acme.com'' = ''jbbbbbb@acme.com''" by code_simp+
  ultimately show ?thesis using kind_column_changes_pseudonym [of mail_env "''m''" "''jo@acme.com''" "default_context demo_redactor" demo_redactor]
    by simp
qed

section \<open>The history of an entity\<close>

text \<open>The entities an event is about: the keys its handler records.\<close>

definition entity_keys :: "kb_env \<Rightarrow> pending_event \<Rightarrow> string list" where
  "entity_keys env e =
    (let str = (\<lambda>f. get_trimmed (pe_payload e) f); opt = (\<lambda>p x. case x of Some s \<Rightarrow> [p @ s] | None \<Rightarrow> []);
         trace = opt ''run:'' (get_trimmed (pe_provenance e) ''trace_id'')
     in if pe_kind e = ''contact.upserted'' then
          opt ''contact:'' (derive_contact_key env (map_option normalize_email (get_str (pe_payload e) ''email'')) (str ''name'') (str ''org''))
        else if pe_kind e = ''artifact.created'' then opt ''artifact:'' (derive_artifact_key env (str ''sha256'') (str ''path''))
        else if pe_kind e = ''run.started'' \<or> pe_kind e = ''run.finished'' then trace
        else if pe_kind e = ''node.finished'' then
          opt ''run:'' (str ''trace_id'') @ opt ''opening:'' (str ''opening_id'') @
          (case (str ''trace_id'', str ''node_id'') of (Some t, Some n) \<Rightarrow> [''node:'' @ t @ ''#'' @ n] | _ \<Rightarrow> [])
        else if pe_kind e = ''run.trace'' then trace
        else if pe_kind e = ''email.sent'' then
          (case Option.bind (json_get (pe_payload e) ''artifact_id'') json_as_i64 of
             Some i \<Rightarrow> [''artifact:event:'' @ (if i < 0 then ''-'' else []) @ decimal (nat \<bar>i\<bar>)] | None \<Rightarrow> [])
        else [])"

lemma history_record [simp]: "set (vw_history (record_history k i vw)) = insert (k, i) (set (vw_history vw))"
  by (simp add: record_history_def)

lemma apply_event_history:
  assumes app: "apply_event env e vw = Inr vw'"
  shows "set (vw_history vw') = set (vw_history vw) \<union> (\<lambda>k. (k, pe_id e)) ` set (entity_keys env e)"
proof -
  let ?k = "pe_kind e" and ?goal = "\<lambda>ks. set (vw_history vw') = set (vw_history vw) \<union> (\<lambda>k. (k, pe_id e)) ` set ks"
  consider (contact) "?k = ''contact.upserted''" | (artifact) "?k = ''artifact.created''"
    | (run) "?k = ''run.started'' \<or> ?k = ''run.finished''" | (finished) "?k = ''node.finished''"
    | (trace) "?k = ''run.trace''" | (email) "?k = ''email.sent''"
    | (other) "?k \<notin> {''contact.upserted'', ''artifact.created'', ''run.started'', ''run.finished'', ''node.finished'', ''run.trace'', ''email.sent''}"
    by blast
  then show ?thesis
  proof cases
    case contact
    then have "apply_contact_event env e vw = Inr vw'" using app by (simp add: apply_event_def)
    then show ?thesis by (auto simp: apply_contact_event_def entity_keys_def contact Let_def res_bind_eq_Inr)
  next
    case artifact
    then have "apply_artifact_event env e vw = Inr vw'" using app by (simp add: apply_event_def)
    then show ?thesis by (auto simp: apply_artifact_event_def entity_keys_def artifact Let_def res_bind_eq_Inr)
  next
    case run
    then have "apply_run_event e vw = Inr vw'" using app by (auto simp: apply_event_def)
    moreover have "entity_keys env e = (case get_trimmed (pe_provenance e) ''trace_id'' of Some s \<Rightarrow> [''run:'' @ s] | None \<Rightarrow> [])"
      using run by (auto simp: entity_keys_def Let_def)
    ultimately show ?thesis by (auto simp: apply_run_event_def Let_def res_bind_eq_Inr)
  next
    case finished
    then have "apply_node_finished_event e vw = Inr vw'" using app by (simp add: apply_event_def)
    then show ?thesis by (auto simp: apply_node_finished_event_def entity_keys_def finished Let_def res_bind_eq_Inr)
  next
    case trace
    then have "apply_run_trace_event env e vw = Inr vw'" using app by (simp add: apply_event_def)
    then show ?thesis by (auto simp: apply_run_trace_event_def entity_keys_def trace Let_def res_bind_eq_Inr)
  next
    case email
    then have "apply_email_event e vw = Inr vw'" using app by (simp add: apply_event_def)
    then show ?thesis
      by (cases "Option.bind (json_get (pe_payload e) ''artifact_id'') json_as_i64") (auto simp: apply_email_event_def entity_keys_def email)
  next
    case other
    then have "vw' = vw" "entity_keys env e = []" using app by (simp_all add: apply_event_def entity_keys_def Let_def)
    then show ?thesis by simp
  qed
qed

definition mentions :: "kb_env \<Rightarrow> string list \<Rightarrow> event_row \<Rightarrow> bool" where
  "mentions env keys row \<longleftrightarrow>
    (case read_pending env row of Inr e \<Rightarrow> \<exists>k \<in> set keys. k \<in> set (entity_keys env e) | Inl _ \<Rightarrow> False)"

lemma vreplay_history:
  assumes "view_replay env rows vw = Inr vw'"
  shows "(k, i) \<in> set (vw_history vw') \<longleftrightarrow>
    (k, i) \<in> set (vw_history vw) \<or> (\<exists>row \<in> set rows. ev_id row = i \<and> mentions env [k] row)"
  using assms
proof (induction rows arbitrary: vw)
  case Nil
  then show ?case by (simp add: view_replay_def)
next
  case (Cons row rows)
  then obtain e vw1 where e: "read_pending env row = Inr e" "apply_event env e vw = Inr vw1" "view_replay env rows vw1 = Inr vw'"
    by (auto simp: view_replay_def res_bind_eq_Inr)
  have "ev_id row = pe_id e" using read_pending_id [OF e(1)] by simp
  then show ?case using Cons.IH [OF e(3)] apply_event_history [OF e(2)] e(1) by (auto simp: mentions_def)
qed

lemma mentions_Un: "mentions env keys row \<longleftrightarrow> (\<exists>k \<in> set keys. mentions env [k] row)"
  by (auto simp: mentions_def split: sum.split)

lemma remdups_adj_sorted: "sorted (xs :: int list) \<Longrightarrow> sorted (remdups_adj xs) \<and> distinct (remdups_adj xs)"
  by (induction xs rule: remdups_adj.induct) auto

lemma load_event_id: "i \<in> ev_id ` set (lg_events lg) \<Longrightarrow> \<exists>r. load_event env lg i = Some r \<and> er_id r = i"
proof (cases "find (\<lambda>e. ev_id e = i) (lg_events lg)")
  case (Some e)
  then have "ev_id e = i" by (auto simp: find_Some_iff)
  then show ?thesis by (simp add: load_event_def Some)
qed (auto simp: find_None_iff)

lemma load_all_events: "set xs \<subseteq> ev_id ` set (lg_events lg) \<Longrightarrow> map er_id (List.map_filter (load_event env lg) xs) = xs"
proof (induction xs)
  case (Cons i xs)
  then obtain r where "load_event env lg i = Some r" "er_id r = i" using load_event_id by (metis insert_subset list.set(2))
  then show ?case using Cons by (simp add: List.map_filter_simps)
qed (simp add: List.map_filter_simps)

lemma redact_record_id [simp]: "er_id (redact_record rd ctx r) = er_id r"
  by (simp add: redact_record_def split: prod.split)

text \<open>C22: \<open>why\<close> explains exactly: once the views are up to date, asking why for a key lists the events
  that are about it (or about one of the entities a bare key may stand for), all of them, in the
  order of the ledger and each once.\<close>

theorem why_lists_history:
  assumes "reachable kb_init (kb_step env) s" and "vw_watermark (ks_views s) = int (length (lg_events (ks_ledger s)))"
    and "\<not> rx_drop_masked_rows ctx"
  shows "map er_id (why_with_ctx env rd ctx key s) =
    map ev_id (filter (mentions env (entity_key_candidates key)) (lg_events (ks_ledger s)))"
proof -
  let ?events = "lg_events (ks_ledger s)" and ?keys = "entity_key_candidates key"
  have ok: "ledger_ok env (ks_ledger s)" "views_ok env s" using kb.reachable_inv [OF assms(1)] by (simp_all add: kb_ok_def)
  have rep: "view_replay env ?events views_new = Inr ((ks_views s)\<lparr>vw_watermark := 0\<rparr>)"
    using ok(2) assms(2) unfolding views_ok_def by auto
  have hist: "(k, i) \<in> set (vw_history (ks_views s)) \<longleftrightarrow> (\<exists>row \<in> set ?events. ev_id row = i \<and> mentions env [k] row)" for k i
    using vreplay_history [OF rep, of k i] by (simp add: views_new_def)
  have ids: "map ev_id ?events = map int [1..<Suc (length ?events)]" using ok(1) by (simp add: ledger_ok_def)
  have dist: "distinct (map ev_id ?events)" unfolding ids by (simp add: distinct_map inj_on_def del: upt_Suc)
  have srt: "sorted (map ev_id ?events)" unfolding ids by (simp add: sorted_map sorted_wrt_map strict_sorted_iff del: upt_Suc)
  define found where "found = concat (map (history_ids (ks_views s)) ?keys)"
  have set_found: "set found = ev_id ` set (filter (mentions env ?keys) ?events)"
    using hist by (auto simp: found_def history_ids_def mentions_Un [of env ?keys]) (force | fastforce)+
  have "remdups_adj (sort found) = map ev_id (filter (mentions env ?keys) ?events)"
  proof (rule sorted_distinct_set_unique)
    show "distinct (map ev_id (filter (mentions env ?keys) ?events))" using dist by (rule distinct_map_filter)
    show "sorted (map ev_id (filter (mentions env ?keys) ?events))" using srt by (rule sorted_filter)
    show "distinct (remdups_adj (sort found))" "sorted (remdups_adj (sort found))"
      by (simp_all add: remdups_adj_sorted)
    show "set (remdups_adj (sort found)) = set (map ev_id (filter (mentions env ?keys) ?events))" by (simp add: set_found)
  qed
  moreover have "map er_id (List.map_filter (load_event env (ks_ledger s)) (map ev_id (filter (mentions env ?keys) ?events))) =
      map ev_id (filter (mentions env ?keys) ?events)"
    by (rule load_all_events) auto
  ultimately show ?thesis
    using assms(3) by (simp add: why_with_ctx_def Let_def found_def [symmetric] o_def)
qed


theorem why_lists_history_witness:
  "\<exists>s. vw_watermark (ks_views s) = 1 \<and> map er_id (why_with_ctx demo_kb_env demo_redactor (default_context demo_redactor) ''run:t'' s) = [1]"
proof -
  let ?s = "fst (sync demo_kb_env (with_batch_size 1) demo_kb)"
  have r: "reachable kb_init (kb_step demo_kb_env) ?s" by (rule reachable.move [OF demo_kb_reachable kb_step.step_sync])
  have w: "vw_watermark (ks_views ?s) = 1" "length (lg_events (ks_ledger ?s)) = 1"
    "map ev_id (filter (mentions demo_kb_env (entity_key_candidates ''run:t'')) (lg_events (ks_ledger ?s))) = [1]" by code_simp+
  have "\<not> rx_drop_masked_rows (default_context demo_redactor)" by code_simp
  from why_lists_history [OF r _ this, where key = "''run:t''" and rd = demo_redactor] w show ?thesis by auto
qed

end
