(* ===== verification/Router.thy ===== *)
theory Router
  imports Rust_Num
begin

text \<open>
  The classifier that decides whether a prompt goes to the shell or to an agent
  (\<open>crates/router/src/classifier.rs\<close>, \<open>casefold.rs\<close>, \<open>builtins.rs\<close>) and the command \<open>rlp route\<close>
  that calls it (\<open>crates/rlp/src/main.rs\<close>). Searches that ignore case work on UTF-8 bytes as in the
  source. The engine of regular expressions is the parameter \<open>is_match\<close>.
\<close>

section \<open>Case folding\<close>

definition byte_lower :: "u8 \<Rightarrow> u8" where
  "byte_lower b = (if 65 \<le> unat b \<and> unat b \<le> 90 then b + 32 else b)"

definition ascii_eq_nocase :: "bytes \<Rightarrow> bytes \<Rightarrow> bool" where
  "ascii_eq_nocase a b \<longleftrightarrow> map byte_lower a = map byte_lower b"

text \<open>The loop over the indices of the haystack; the argument is what is left of it.\<close>

fun search_nocase :: "bytes \<Rightarrow> bytes \<Rightarrow> bool" where
  "search_nocase needle [] = False"
| "search_nocase needle (b # bs) =
    (if length (b # bs) < length needle then False
     else if byte_lower b \<noteq> hd needle then search_nocase needle bs
     else if ascii_eq_nocase (take (length needle) (b # bs)) needle then True
     else search_nocase needle bs)"

definition ascii_contains_nocase :: "string \<Rightarrow> string \<Rightarrow> bool" where
  "ascii_contains_nocase haystack needle_lower =
    (let needle_bytes = utf8_bytes needle_lower; hbytes = utf8_bytes haystack
     in if needle_bytes = [] then False
        else if length hbytes < length needle_bytes then False
        else search_nocase needle_bytes hbytes)"

text \<open>\<open>CiString\<close>: a folded name, compared without regard to case.\<close>

definition ci_string :: "string \<Rightarrow> string" where
  "ci_string value = to_ascii_lowercase value"

definition ci_eq_str :: "string \<Rightarrow> string \<Rightarrow> bool" where
  "ci_eq_str ci other = ascii_eq_nocase (utf8_bytes ci) (utf8_bytes other)"

section \<open>Configuration and state\<close>

datatype route = Shell | Agent

record classification =
  cl_route :: route
  cl_rule :: string
  cl_features :: "string list"
  cl_reason :: string
  cl_blocked :: bool

definition is_shell :: "classification \<Rightarrow> bool" where
  "is_shell c \<longleftrightarrow> cl_route c = Shell"

record prompt_pattern =
  pt_raw :: string
  pt_lower :: string

definition prompt_pattern_new :: "string \<Rightarrow> prompt_pattern" where
  "prompt_pattern_new s = \<lparr>pt_raw = s, pt_lower = to_ascii_lowercase s\<rparr>"

definition prompt_pattern_matches :: "prompt_pattern \<Rightarrow> string \<Rightarrow> bool" where
  "prompt_pattern_matches p prompt \<longleftrightarrow> pt_lower p \<noteq> [] \<and> ascii_contains_nocase prompt (pt_lower p)"

record router_config =
  rcf_fastpath_shell :: bool
  rcf_default_opening :: string
  rcf_allowlist :: "string list"
  rcf_denylist :: "string list"
  rcf_known_commands :: "string list"

record prompt_router =
  pr_fastpath_shell :: bool
  pr_default_opening :: string
  pr_allowlist :: "prompt_pattern list"
  pr_denylist :: "prompt_pattern list"
  pr_known_commands :: "string set"

definition BUILTIN_COMMANDS :: "string list" where
  "BUILTIN_COMMANDS = [
    ''alias'', ''bg'', ''break'', ''builtin'', ''cd'', ''command'', ''continue'', ''dirs'', ''echo'',
    ''eval'', ''exec'', ''exit'', ''export'', ''false'', ''fg'', ''getopts'', ''hash'', ''help'',
    ''history'', ''jobs'', ''kill'', ''local'', ''pwd'', ''read'', ''readonly'', ''return'', ''set'',
    ''shift'', ''source'', ''test'', ''times'', ''trap'', ''true'', ''type'', ''ulimit'', ''umask'',
    ''unalias'', ''wait'', ''awk'', ''apt'', ''apt-get'', ''bash'', ''brew'', ''cat'', ''chmod'', ''chown'',
    ''chgrp'', ''cksum'', ''cmp'', ''cp'', ''curl'', ''cut'', ''date'', ''dd'', ''df'', ''dig'', ''du'',
    ''env'', ''find'', ''free'', ''gcc'', ''clang'', ''git'', ''go'', ''grep'', ''gunzip'', ''gzip'',
    ''head'', ''hostname'', ''ifconfig'', ''ip'', ''jq'', ''dnf'', ''yum'', ''kubectl'', ''killall'',
    ''less'', ''ln'', ''ls'', ''make'', ''man'', ''mkdir'', ''mv'', ''nano'', ''nc'', ''netstat'', ''ninja'',
    ''npm'', ''node'', ''nslookup'', ''openssl'', ''ping'', ''ps'', ''python'', ''python3'', ''perl'',
    ''pip'', ''pip3'', ''pwdx'', ''rm'', ''rmdir'', ''rsync'', ''rustc'', ''cargo'', ''scp'', ''sed'',
    ''sleep'', ''sort'', ''ssh'', ''ssh-keygen'', ''stat'', ''sudo'', ''service'', ''systemctl'', ''tail'',
    ''tar'', ''tee'', ''top'', ''touch'', ''tr'', ''traceroute'', ''uname'', ''uniq'', ''uptime'', ''wc'',
    ''wget'', ''which'', ''whoami'', ''xargs'', ''zip'']"

text \<open>\<open>Router::with_commands\<close>; \<open>Router::from_config\<close> passes the commands found on the search path.\<close>

definition with_commands :: "router_config \<Rightarrow> string list \<Rightarrow> prompt_router" where
  "with_commands config extra_commands =
    \<lparr>pr_fastpath_shell = rcf_fastpath_shell config,
     pr_default_opening = rcf_default_opening config,
     pr_allowlist = map prompt_pattern_new (rcf_allowlist config),
     pr_denylist = map prompt_pattern_new (rcf_denylist config),
     pr_known_commands = set (map ci_string BUILTIN_COMMANDS) \<union> set (map ci_string (rcf_known_commands config)) \<union>
       set (map ci_string extra_commands)\<rparr>"

text \<open>\<open>path_commands\<close>: the names in the readable directories of the search path; \<open>read_dir\<close> lists the
  names that are valid text, and an unset variable gives none.\<close>

definition path_commands :: "string list option \<Rightarrow> (string \<Rightarrow> string list option) \<Rightarrow> string list" where
  "path_commands path_dirs read_dir =
    (case path_dirs of
       None \<Rightarrow> []
     | Some dirs \<Rightarrow> map to_ascii_lowercase (concat (map (\<lambda>d. case read_dir d of Some names \<Rightarrow> names | None \<Rightarrow> []) dirs)))"

definition contains_command :: "prompt_router \<Rightarrow> string \<Rightarrow> bool" where
  "contains_command r token \<longleftrightarrow> (\<exists>c \<in> pr_known_commands r. ci_eq_str c token)"

section \<open>Tokens\<close>

definition is_delimiter :: "char \<Rightarrow> bool" where
  "is_delimiter c \<longleftrightarrow> is_whitespace c \<or> c \<in> set ''|&;<>''"

definition is_wrapper :: "char \<Rightarrow> bool" where
  "is_wrapper c \<longleftrightarrow> c \<in> {CHR 0x27, CHR 0x22, CHR 0x60} \<or> c \<in> set ''(){}[],:''"

definition trim_token :: "string \<Rightarrow> string option" where
  "trim_token token =
    (let t = rev (dropWhile is_wrapper (rev (dropWhile is_wrapper token))) in if t = [] then None else Some t)"

lemma after_token_shorter:
  assumes "dropWhile is_delimiter s \<noteq> []"
  shows "length (drop 1 (dropWhile (\<lambda>c. \<not> is_delimiter c) (dropWhile is_delimiter s))) < length s"
proof -
  let ?rest = "dropWhile is_delimiter s"
  have "\<not> is_delimiter (hd ?rest)" using assms hd_dropWhile by blast
  then have "length (dropWhile (\<lambda>c. \<not> is_delimiter c) ?rest) < length ?rest"
    using assms by (cases ?rest) (simp_all add: length_dropWhile_le le_imp_less_Suc)
  moreover have "length ?rest \<le> length s" by (rule length_dropWhile_le)
  ultimately show ?thesis by simp
qed

text \<open>\<open>TokenIter::next\<close>: the state is the text from the position on, the value the token and the new
  state. A token that is empty after trimming is passed over.\<close>

function next_token :: "string \<Rightarrow> (string \<times> string) option" where
  "next_token s =
    (let rest = dropWhile is_delimiter s
     in if rest = [] then None
        else
          (let slice = takeWhile (\<lambda>c. \<not> is_delimiter c) rest;
               after = drop 1 (dropWhile (\<lambda>c. \<not> is_delimiter c) rest)
           in case trim_token slice of
                Some token \<Rightarrow> Some (token, after)
              | None \<Rightarrow> next_token after))"
  by auto
termination
  by (relation "measure length") (use after_token_shorter in auto)

declare next_token.simps [simp del]

lemma next_token_None: "dropWhile is_delimiter s = [] \<Longrightarrow> next_token s = None"
  by (subst next_token.simps) simp

lemma next_token_step:
  assumes "dropWhile is_delimiter s = rest" "rest \<noteq> []"
  shows "next_token s =
    (case trim_token (takeWhile (\<lambda>c. \<not> is_delimiter c) rest) of
       Some token \<Rightarrow> Some (token, drop 1 (dropWhile (\<lambda>c. \<not> is_delimiter c) rest))
     | None \<Rightarrow> next_token (drop 1 (dropWhile (\<lambda>c. \<not> is_delimiter c) rest)))"
  using assms by (subst next_token.simps) (simp only: Let_def if_False)

lemma next_token_shorter: "next_token s = Some (token, after) \<Longrightarrow> length after < length s"
proof (induction s rule: length_induct)
  case (1 s)
  let ?rest = "dropWhile is_delimiter s"
  show ?case
  proof (cases "?rest = []")
    case True
    then show ?thesis using 1(2) by (simp only: next_token_None option.distinct)
  next
    case False
    let ?after = "drop 1 (dropWhile (\<lambda>c. \<not> is_delimiter c) ?rest)"
    have short: "length ?after < length s" by (rule after_token_shorter [OF False])
    show ?thesis
    proof (cases "trim_token (takeWhile (\<lambda>c. \<not> is_delimiter c) ?rest)")
      case None
      then have "next_token ?after = Some (token, after)" using 1(2) next_token_step [OF refl False] by simp
      then have "length after < length ?after" using 1(1) short by blast
      then show ?thesis using short by (rule less_trans)
    next
      case (Some t)
      then have "after = ?after" using 1(2) next_token_step [OF refl False] by simp
      then show ?thesis using short by simp
    qed
  qed
qed

function token_candidates :: "string \<Rightarrow> string list" where
  "token_candidates s = (case next_token s of None \<Rightarrow> [] | Some (token, after) \<Rightarrow> token # token_candidates after)"
  by auto
termination
  by (relation "measure length") (use next_token_shorter in auto)

declare token_candidates.simps [simp del]

section \<open>Classification\<close>

text \<open>The source of the regular expression of a simple command.\<close>

definition SIMPLE_COMMAND :: string where
  "SIMPLE_COMMAND = ''^[A-Za-z0-9_'' @ [CHR 0x5C] @ ''-./]+(?:'' @ [CHR 0x5C] @ ''s+.+)?$''"

definition POSIX_TOKENS :: "(string \<times> string) list" where
  "POSIX_TOKENS = [(''&&'', ''token:&&''), (''||'', ''token:||''), (''|'', ''token:|''),
     (''>'', ''token:>''), (''<'', ''token:<''), ('';'', ''token:;'')]"

definition push_feature :: "string \<Rightarrow> string list \<Rightarrow> string list" where
  "push_feature feature features = (if feature \<in> set features then features else features @ [feature])"

definition posix_features :: "string \<Rightarrow> string list \<Rightarrow> bool \<times> string list" where
  "posix_features trimmed features =
    fold (\<lambda>(needle, feature) (detected, features).
        if str_contains trimmed needle then (True, push_feature feature features) else (detected, features))
      POSIX_TOKENS (False, features)"

definition is_path_token :: "string \<Rightarrow> bool" where
  "is_path_token token \<longleftrightarrow> starts_with ''./'' token \<or> starts_with ''../'' token \<or> (starts_with ''/'' token \<and> 1 < length token)"

record token_scan =
  tsn_known :: bool
  tsn_first :: bool
  tsn_hits :: "string list"
  tsn_features :: "string list"

definition scan_token :: "prompt_router \<Rightarrow> nat \<times> string \<Rightarrow> token_scan \<Rightarrow> token_scan" where
  "scan_token r it sc =
    (case it of (idx, token) \<Rightarrow>
      let is_path = is_path_token token
      in if is_path \<or> contains_command r token then
           (let lower_token = to_ascii_lowercase token;
                sc = sc\<lparr>tsn_known := True, tsn_first := (tsn_first sc \<or> idx = 0)\<rparr>
            in if lower_token \<in> set (tsn_hits sc) then sc
               else sc\<lparr>tsn_hits := tsn_hits sc @ [lower_token],
                       tsn_features := push_feature ((if is_path then ''path:'' else ''cmd:'') @ lower_token) (tsn_features sc)\<rparr>)
         else sc)"

definition scan_tokens :: "prompt_router \<Rightarrow> string \<Rightarrow> string list \<Rightarrow> token_scan" where
  "scan_tokens r trimmed features =
    (let tokens = token_candidates trimmed
     in fold (scan_token r) (zip [0..<length tokens] tokens)
          \<lparr>tsn_known = False, tsn_first = False, tsn_hits = [], tsn_features = features\<rparr>)"

definition classify_heuristic :: "(string \<Rightarrow> string \<Rightarrow> bool) \<Rightarrow> prompt_router \<Rightarrow> string \<Rightarrow> classification" where
  "classify_heuristic is_match r trimmed =
    (let (token_detected, features) = posix_features trimmed [];
         matches_simple = is_match SIMPLE_COMMAND trimmed;
         features = (if matches_simple then push_feature ''pattern:simple_command'' features else features);
         sc = scan_tokens r trimmed features
     in if tsn_known sc \<and> (token_detected \<or> (matches_simple \<and> tsn_first sc)) then
          \<lparr>cl_route = Shell,
           cl_rule = (if token_detected then ''posix_token+known_command'' else ''simple_command+known_command''),
           cl_features = tsn_features sc,
           cl_reason = (if token_detected then ''matched POSIX token(s) with command(s): '' else ''matched simple command: '')
             @ join_str '', '' (tsn_hits sc),
           cl_blocked = False\<rparr>
        else
          \<lparr>cl_route = Agent, cl_rule = ''fallback:opening'', cl_features = tsn_features sc,
           cl_reason = (if tsn_known sc then ''command-like tokens present but missing routing heuristics; using opening ''
              else ''no known command detected; routing to opening '') @ quoted (pr_default_opening r),
           cl_blocked = False\<rparr>)"

definition overridden :: "string \<Rightarrow> string \<Rightarrow> bool \<Rightarrow> prompt_pattern \<Rightarrow> classification" where
  "overridden rule list_name blocked p =
    \<lparr>cl_route = Shell, cl_rule = rule, cl_features = [''pattern:'' @ pt_raw p],
     cl_reason = ''prompt matched router.'' @ list_name @ '' pattern '' @ quoted (pt_raw p), cl_blocked = blocked\<rparr>"

definition matches_pattern :: "prompt_pattern list \<Rightarrow> string \<Rightarrow> prompt_pattern option" where
  "matches_pattern patterns prompt = find (\<lambda>p. prompt_pattern_matches p prompt) patterns"

definition classify :: "(string \<Rightarrow> string \<Rightarrow> bool) \<Rightarrow> prompt_router \<Rightarrow> string \<Rightarrow> classification" where
  "classify is_match r prompt =
    (let trimmed = trim prompt
     in case matches_pattern (pr_denylist r) trimmed of
          Some p \<Rightarrow> overridden ''override:denylist'' ''denylist'' True p
        | None \<Rightarrow>
            (case matches_pattern (pr_allowlist r) trimmed of
               Some p \<Rightarrow> overridden ''override:allowlist'' ''allowlist'' False p
             | None \<Rightarrow>
                 if trimmed = [] then
                   \<lparr>cl_route = Agent, cl_rule = ''fallback:empty'', cl_features = [],
                    cl_reason = ''empty prompt; routing to opening '' @ quoted (pr_default_opening r), cl_blocked = False\<rparr>
                 else if \<not> pr_fastpath_shell r then
                   \<lparr>cl_route = Agent, cl_rule = ''fastpath_disabled'', cl_features = [''config:fastpath_shell=false''],
                    cl_reason = ''router.fastpath_shell disabled; routing to opening '' @ quoted (pr_default_opening r),
                    cl_blocked = False\<rparr>
                 else classify_heuristic is_match r trimmed))"

section \<open>The command \<open>rlp route\<close>\<close>

text \<open>The errors of the CLI that the command can end with.\<close>

datatype cli_error = InvalidParams string | CliCore string | CliIo string | ShellIntegration string

record route_args =
  ra_prompt :: "string option"
  ra_read_stdin :: bool
  ra_timeout_ms :: "u64 option"

record route_payload =
  rp_version :: u32
  rp_route :: route
  rp_rule :: string
  rp_blocked :: bool

definition ROUTE_PAYLOAD_VERSION :: u32 where "ROUTE_PAYLOAD_VERSION = 1"
definition ROUTE_EXIT_CODE_SHELL :: int where "ROUTE_EXIT_CODE_SHELL = 10"
definition ROUTE_EXIT_CODE_AGENT :: int where "ROUTE_EXIT_CODE_AGENT = 11"
definition ROUTE_EXIT_CODE_TIMEOUT :: int where "ROUTE_EXIT_CODE_TIMEOUT = 12"
definition ROUTE_DEFAULT_TIMEOUT_MS :: u64 where "ROUTE_DEFAULT_TIMEOUT_MS = 200"

definition route_payload_from :: "classification \<Rightarrow> route_payload" where
  "route_payload_from c =
    \<lparr>rp_version = ROUTE_PAYLOAD_VERSION, rp_route = cl_route c, rp_rule = cl_rule c, rp_blocked = cl_blocked c\<rparr>"

text \<open>What the command meets: standard input, the variable \<open>RUNLOOP_ROUTER_TIMEOUT_MS\<close>, the
  configuration, the search path, and whether the classification is done within a time limit.\<close>

record route_world =
  rw_stdin :: "string + string"
  rw_timeout_var :: "string option"
  rw_config :: "string + router_config"
  rw_path :: "string list option"
  rw_read_dir :: "string \<Rightarrow> string list option"
  rw_in_time :: "u64 \<Rightarrow> bool"
  rw_is_match :: "string \<Rightarrow> string \<Rightarrow> bool"

definition resolve_route_timeout :: "u64 option \<Rightarrow> string option \<Rightarrow> cli_error + u64" where
  "resolve_route_timeout cli_value env_val =
    (case cli_value of
       Some ms \<Rightarrow> Inr ms
     | None \<Rightarrow>
         (case env_val of
            None \<Rightarrow> Inr ROUTE_DEFAULT_TIMEOUT_MS
          | Some s \<Rightarrow>
              (case parse_nat_lt (2 ^ 64) s of
                 Some n \<Rightarrow> Inr (of_nat n)
               | None \<Rightarrow> Inl (InvalidParams (''RUNLOOP_ROUTER_TIMEOUT_MS must be an integer, got '' @ quoted s)))))"

text \<open>The line ends that a prompt from standard input loses.\<close>

definition drop_newlines :: "string \<Rightarrow> string" where
  "drop_newlines s = rev (dropWhile (\<lambda>c. c = CHR 0x0A \<or> c = CHR 0x0D) (rev s))"

definition route_prompt :: "route_world \<Rightarrow> route_args \<Rightarrow> cli_error + string" where
  "route_prompt w args =
    (if ra_read_stdin args \<and> ra_prompt args \<noteq> None then
       Inl (InvalidParams ''provide either PROMPT argument or --stdin, not both'')
     else if ra_read_stdin args then map_sum CliIo drop_newlines (rw_stdin w)
     else ok_or (InvalidParams ''rlp route requires a prompt argument or --stdin'') (ra_prompt args))"

text \<open>The value is the payload that is printed, if any, and the exit code.\<close>

definition handle_route :: "route_world \<Rightarrow> route_args \<Rightarrow> cli_error + (route_payload option \<times> int)" where
  "handle_route w args =
    res_bind (route_prompt w args) (\<lambda>prompt.
    res_bind (resolve_route_timeout (ra_timeout_ms args) (rw_timeout_var w)) (\<lambda>timeout_ms.
    if \<not> rw_in_time w timeout_ms then Inr (None, ROUTE_EXIT_CODE_TIMEOUT)
    else
      res_bind (map_sum CliCore id (rw_config w)) (\<lambda>config.
      let classification = classify (rw_is_match w) (with_commands config (path_commands (rw_path w) (rw_read_dir w))) prompt;
          exit_code = (case cl_route classification of Shell \<Rightarrow> ROUTE_EXIT_CODE_SHELL | Agent \<Rightarrow> ROUTE_EXIT_CODE_AGENT)
      in Inr (Some (route_payload_from classification), exit_code))))"

end
