(* ===== verification/Router_Props.thy ===== *)
theory Router_Props
  imports Router
begin

text \<open>
  Properties of the classifier: its byte-wise search is the search on folded text, its token iterator
  is a split with a trim, and the route and the block are characterised by the configuration and the
  prompt; what the exit code of \<open>rlp route\<close> tells a shell.
\<close>

section \<open>The search that ignores case\<close>

lemma byte_lower_of_nat:
  assumes "n < 256"
  shows "byte_lower (of_nat n) = (if 65 \<le> n \<and> n \<le> 90 then of_nat (n + 32) else of_nat n)"
  using assms by (simp add: byte_lower_def unat_of_nat)

lemma byte_lower_utf8: "map byte_lower (utf8_bytes s) = utf8_bytes (to_ascii_lowercase s)"
proof (induction s)
  case (Cons c s)
  have n: "(of_char c :: nat) < 256" by (rule nat_of_char_less_256)
  have hi: "byte_lower (of_nat m) = of_nat m" if "128 \<le> m" "m < 256" for m
    using that by (simp add: byte_lower_of_nat)
  show ?case
  proof (cases "(of_char c :: nat) < 128")
    case True
    then show ?thesis using Cons.IH
      by (simp add: byte_lower_of_nat to_ascii_lowercase_def of_char_ascii_lower is_ascii_upper_def Let_def)
  next
    case False
    then have c: "ascii_lower c = c" by (simp add: ascii_lower_def is_ascii_upper_def Let_def)
    have "192 + of_char c div 64 < (256 :: nat)" "128 + of_char c mod (64 :: nat) < 256" using n by linarith+
    then have "byte_lower (of_nat (192 + of_char c div 64)) = of_nat (192 + of_char c div 64)"
      "byte_lower (of_nat (128 + of_char c mod 64)) = of_nat (128 + of_char c mod 64)" using hi [of "192 + of_char c div 64"] hi [of "128 + of_char c mod 64"] by (simp_all del: of_nat_add)
    then show ?thesis using False Cons.IH by (simp add: to_ascii_lowercase_def c del: of_nat_add)
  qed
qed (simp add: to_ascii_lowercase_def)

lemma search_nocase_iff:
  assumes "needle \<noteq> []" "map byte_lower needle = needle"
  shows "search_nocase needle h \<longleftrightarrow> (\<exists>l r. map byte_lower h = l @ needle @ r)"
proof (induction h)
  case (Cons b bs)
  have split: "(\<exists>l r. map byte_lower (b # bs) = l @ needle @ r) \<longleftrightarrow>
      (\<exists>r. map byte_lower (b # bs) = needle @ r) \<or> (\<exists>l r. map byte_lower bs = l @ needle @ r)"
    by (metis (no_types, lifting) append_Cons append_Nil list.inject list.simps(9) neq_Nil_conv)
  have pre: "(\<exists>r. map byte_lower (b # bs) = needle @ r) \<longleftrightarrow>
      length needle \<le> length (b # bs) \<and> ascii_eq_nocase (take (length needle) (b # bs)) needle"
    unfolding ascii_eq_nocase_def assms(2) take_map [symmetric]
    by (metis append_eq_conv_conj append_take_drop_id length_append length_map le_add1)
  have short: "\<not> (\<exists>l r. map byte_lower (b # bs) = l @ needle @ r)" if "length (b # bs) < length needle"
  proof
    assume "\<exists>l r. map byte_lower (b # bs) = l @ needle @ r"
    then obtain l r where "length (map byte_lower (b # bs)) = length (l @ needle @ r)" by metis
    with that show False by simp
  qed
  have first: "\<not> ascii_eq_nocase (take (length needle) (b # bs)) needle" if "byte_lower b \<noteq> hd needle"
    using that assms by (cases needle) (auto simp: ascii_eq_nocase_def)
  show ?case
  proof (cases "length (b # bs) < length needle")
    case True
    then show ?thesis using short by simp
  next
    case False
    then show ?thesis using Cons.IH first split pre by (simp only: search_nocase.simps if_False) auto
  qed
qed (use assms in auto)

lemma utf8_Nil_iff [simp]: "utf8_bytes s = [] \<longleftrightarrow> s = []"
  by (cases s) simp_all

lemma ascii_contains_iff:
  "ascii_contains_nocase s (to_ascii_lowercase p) \<longleftrightarrow> p \<noteq> [] \<and> str_contains (to_ascii_lowercase s) (to_ascii_lowercase p)"
proof (cases "p = []")
  case True
  then show ?thesis by (simp add: ascii_contains_nocase_def)
next
  case False
  let ?p = "to_ascii_lowercase p" and ?s = "to_ascii_lowercase s"
  have p: "?p \<noteq> []" using False by simp
  have "search_nocase (utf8_bytes ?p) (utf8_bytes s) \<longleftrightarrow> (\<exists>l r. utf8_bytes ?s = l @ utf8_bytes ?p @ r)"
    using search_nocase_iff [of "utf8_bytes ?p" "utf8_bytes s"] p by (simp add: byte_lower_utf8)
  also have "\<dots> \<longleftrightarrow> str_contains ?s ?p"
    unfolding str_contains_iff using utf8_occurs [OF p, of ?s] by (metis utf8_append)
  finally have search: "search_nocase (utf8_bytes ?p) (utf8_bytes s) \<longleftrightarrow> str_contains ?s ?p" .
  have "length (utf8_bytes s) = length (utf8_bytes ?s)" using byte_lower_utf8 [of s] by (metis length_map)
  then have "\<not> str_contains ?s ?p" if "length (utf8_bytes s) < length (utf8_bytes ?p)"
    using that by (auto simp: str_contains_iff)
  then show ?thesis using search p False by (auto simp: ascii_contains_nocase_def Let_def)
qed

lemma ci_eq_str_iff: "ci_eq_str (ci_string a) b \<longleftrightarrow> to_ascii_lowercase a = to_ascii_lowercase b"
  unfolding ci_eq_str_def ci_string_def ascii_eq_nocase_def byte_lower_utf8
  by (metis to_ascii_lowercase_idem utf8_decode_bytes option.inject)

lemma pattern_matches_iff:
  "prompt_pattern_matches (prompt_pattern_new p) s \<longleftrightarrow> p \<noteq> [] \<and> str_contains (to_ascii_lowercase s) (to_ascii_lowercase p)"
  by (auto simp: prompt_pattern_matches_def prompt_pattern_new_def ascii_contains_iff)

lemma matches_pattern_iff:
  "matches_pattern (map prompt_pattern_new ps) s = None \<longleftrightarrow>
    \<not> (\<exists>p \<in> set ps. p \<noteq> [] \<and> str_contains (to_ascii_lowercase s) (to_ascii_lowercase p))"
  by (auto simp: matches_pattern_def find_None_iff pattern_matches_iff)

section \<open>Tokens are the trimmed parts between delimiters\<close>

definition tokens_of :: "string \<Rightarrow> string list" where
  "tokens_of s = List.map_filter trim_token (split_where is_delimiter s)"

lemma trim_token_Nil [simp]: "trim_token [] = None"
  by (simp add: trim_token_def)

lemma tokens_of_delimiter: "is_delimiter c \<Longrightarrow> tokens_of (c # s) = tokens_of s"
  by (simp add: tokens_of_def List.map_filter_simps)

lemma tokens_of_drop: "tokens_of (dropWhile is_delimiter s) = tokens_of s"
  by (induction s) (simp_all add: tokens_of_delimiter)

lemma tokens_of_run:
  assumes "\<forall>c \<in> set a. \<not> is_delimiter c" "s = [] \<or> is_delimiter (hd s)"
  shows "tokens_of (a @ s) = (case trim_token a of None \<Rightarrow> [] | Some t \<Rightarrow> [t]) @ tokens_of (drop 1 s)"
proof (cases s)
  case Nil
  then show ?thesis using split_where_run [OF assms(1), of "[]"]
    by (simp add: tokens_of_def List.map_filter_simps split: option.split)
next
  case (Cons d s')
  then have "split_where is_delimiter (a @ s) = a # split_where is_delimiter s'"
    using split_where_run [OF assms(1), of s] assms(2) by simp
  then show ?thesis using Cons by (simp add: tokens_of_def List.map_filter_simps split: option.split)
qed

lemma next_token_tokens: "tokens_of s = (case next_token s of None \<Rightarrow> [] | Some (t, after) \<Rightarrow> t # tokens_of after)"
proof (induction s rule: length_induct)
  case (1 s)
  let ?rest = "dropWhile is_delimiter s"
  show ?case
  proof (cases "?rest = []")
    case True
    then show ?thesis using tokens_of_drop [of s]
      by (simp only: next_token_None option.case) (simp add: tokens_of_def List.map_filter_simps)
  next
    case False
    let ?slice = "takeWhile (\<lambda>c. \<not> is_delimiter c) ?rest" and ?left = "dropWhile (\<lambda>c. \<not> is_delimiter c) ?rest"
    have IH: "tokens_of (drop 1 ?left) = (case next_token (drop 1 ?left) of None \<Rightarrow> [] | Some (t, after) \<Rightarrow> t # tokens_of after)"
      using 1 after_token_shorter [OF False] by blast
    have "?left = [] \<or> is_delimiter (hd ?left)" using hd_dropWhile [of "\<lambda>c. \<not> is_delimiter c" ?rest] by blast
    then have "tokens_of (?slice @ ?left) = (case trim_token ?slice of None \<Rightarrow> [] | Some t \<Rightarrow> [t]) @ tokens_of (drop 1 ?left)"
      by (intro tokens_of_run) (auto dest: set_takeWhileD)
    then have "tokens_of s = (case trim_token ?slice of None \<Rightarrow> [] | Some t \<Rightarrow> [t]) @ tokens_of (drop 1 ?left)"
      by (simp only: takeWhile_dropWhile_id tokens_of_drop)
    then show ?thesis using next_token_step [OF refl False] IH by (cases "trim_token ?slice") simp_all
  qed
qed

lemma token_candidates_eq: "token_candidates s = tokens_of s"
proof (induction s rule: token_candidates.induct)
  case (1 s)
  then show ?case
    by (subst token_candidates.simps) (subst next_token_tokens, auto split: option.split)
qed

section \<open>The heuristic\<close>

definition is_command :: "router_config \<Rightarrow> string list \<Rightarrow> string \<Rightarrow> bool" where
  "is_command config extra t \<longleftrightarrow>
    is_path_token t \<or> to_ascii_lowercase t \<in> to_ascii_lowercase ` (set BUILTIN_COMMANDS \<union> set (rcf_known_commands config) \<union> set extra)"

lemma contains_command_iff:
  "is_path_token t \<or> contains_command (with_commands config extra) t \<longleftrightarrow> is_command config extra t"
proof -
  have "(\<exists>c \<in> ci_string ` S. ci_eq_str c t) \<longleftrightarrow> to_ascii_lowercase t \<in> to_ascii_lowercase ` S" for S
    by (simp add: ci_eq_str_iff image_iff eq_commute)
  moreover have "pr_known_commands (with_commands config extra) = ci_string ` (set BUILTIN_COMMANDS \<union> set (rcf_known_commands config) \<union> set extra)"
    by (simp add: with_commands_def image_Un)
  ultimately show ?thesis by (simp only: contains_command_def is_command_def)
qed

lemma push_feature_set [simp]: "set (push_feature f fs) = insert f (set fs)"
  by (auto simp: push_feature_def)

lemma posix_detected: "fst (posix_features s fs) \<longleftrightarrow> (\<exists>op \<in> {''&&'', ''|'', ''>'', ''<'', '';''}. str_contains s op)"
proof -
  have "str_contains s ''||'' \<Longrightarrow> str_contains s ''|''"
    by (auto simp: str_contains_iff)
  then show ?thesis by (auto simp: posix_features_def POSIX_TOKENS_def)
qed

lemma scan_token_flags:
  "tsn_known (scan_token r (i, t) sc) \<longleftrightarrow> tsn_known sc \<or> is_path_token t \<or> contains_command r t"
  "tsn_first (scan_token r (i, t) sc) \<longleftrightarrow> tsn_first sc \<or> (i = 0 \<and> (is_path_token t \<or> contains_command r t))"
  by (simp_all add: scan_token_def Let_def)

lemma scan_fold_flags:
  "tsn_known (fold (scan_token r) its sc) \<longleftrightarrow> tsn_known sc \<or> (\<exists>(i, t) \<in> set its. is_path_token t \<or> contains_command r t)"
  "tsn_first (fold (scan_token r) its sc) \<longleftrightarrow> tsn_first sc \<or> (\<exists>(i, t) \<in> set its. i = 0 \<and> (is_path_token t \<or> contains_command r t))"
  by (induction its arbitrary: sc) (auto simp: scan_token_flags)

lemma zip_upt: "set (zip [0..<length ts] ts) = (\<lambda>i. (i, ts ! i)) ` {..<length ts}"
proof -
  have "zip [0..<length ts] ts = map (\<lambda>i. (i, ts ! i)) [0..<length ts]" by (rule nth_equalityI) simp_all
  then show ?thesis by (simp add: atLeast0LessThan)
qed

lemma scan_tokens_flags:
  fixes config extra
  defines "r \<equiv> with_commands config extra"
  shows "tsn_known (scan_tokens r s fs) \<longleftrightarrow> (\<exists>t \<in> set (tokens_of s). is_command config extra t)"
    "tsn_first (scan_tokens r s fs) \<longleftrightarrow> tokens_of s \<noteq> [] \<and> is_command config extra (hd (tokens_of s))"
proof -
  have known: "(\<exists>(i, t) \<in> set (zip [0..<length ts] ts). P t) \<longleftrightarrow> (\<exists>t \<in> set ts. P t)" for ts :: "string list" and P
    unfolding zip_upt by (auto simp: in_set_conv_nth Bex_def)
  have first: "(\<exists>(i, t) \<in> set (zip [0..<length ts] ts). i = 0 \<and> P t) \<longleftrightarrow> ts \<noteq> [] \<and> P (hd ts)" for ts :: "string list" and P
    unfolding zip_upt by (auto simp: hd_conv_nth)
  show "tsn_known (scan_tokens r s fs) \<longleftrightarrow> (\<exists>t \<in> set (tokens_of s). is_command config extra t)"
    by (simp add: scan_tokens_def Let_def scan_fold_flags token_candidates_eq known r_def contains_command_iff)
  show "tsn_first (scan_tokens r s fs) \<longleftrightarrow> tokens_of s \<noteq> [] \<and> is_command config extra (hd (tokens_of s))"
    by (simp add: scan_tokens_def Let_def scan_fold_flags token_candidates_eq first r_def contains_command_iff)
qed

section \<open>Properties of the router\<close>

definition listed :: "string list \<Rightarrow> string \<Rightarrow> bool" where
  "listed ps s \<longleftrightarrow> (\<exists>p \<in> set ps. p \<noteq> [] \<and> str_contains (to_ascii_lowercase s) (to_ascii_lowercase p))"

lemma classify_cases:
  fixes config extra
  defines "r \<equiv> with_commands config extra"
  obtains (denied) p where "listed (rcf_denylist config) (trim prompt)"
      "classify m r prompt = overridden ''override:denylist'' ''denylist'' True p"
  | (allowed) p where "\<not> listed (rcf_denylist config) (trim prompt)" "listed (rcf_allowlist config) (trim prompt)"
      "classify m r prompt = overridden ''override:allowlist'' ''allowlist'' False p"
  | (other) "\<not> listed (rcf_denylist config) (trim prompt)" "\<not> listed (rcf_allowlist config) (trim prompt)"
      "trim prompt = [] \<or> \<not> rcf_fastpath_shell config" "\<not> is_shell (classify m r prompt)" "\<not> cl_blocked (classify m r prompt)"
  | (heuristic) "\<not> listed (rcf_denylist config) (trim prompt)" "\<not> listed (rcf_allowlist config) (trim prompt)"
      "trim prompt \<noteq> []" "rcf_fastpath_shell config" "classify m r prompt = classify_heuristic m r (trim prompt)"
proof -
  have lists: "pr_denylist r = map prompt_pattern_new (rcf_denylist config)" "pr_allowlist r = map prompt_pattern_new (rcf_allowlist config)"
    "pr_fastpath_shell r = rcf_fastpath_shell config" by (simp_all add: r_def with_commands_def)
  have deny: "matches_pattern (pr_denylist r) (trim prompt) = None \<longleftrightarrow> \<not> listed (rcf_denylist config) (trim prompt)"
    and allow: "matches_pattern (pr_allowlist r) (trim prompt) = None \<longleftrightarrow> \<not> listed (rcf_allowlist config) (trim prompt)"
    unfolding lists matches_pattern_iff listed_def by simp_all
  show ?thesis
  proof (cases "matches_pattern (pr_denylist r) (trim prompt)")
    case (Some p)
    with deny have "listed (rcf_denylist config) (trim prompt)" by simp
    with Some show ?thesis by (intro denied) (simp_all add: classify_def)
  next
    case d: None
    with deny have nd: "\<not> listed (rcf_denylist config) (trim prompt)" by simp
    show ?thesis
    proof (cases "matches_pattern (pr_allowlist r) (trim prompt)")
      case (Some p)
      with allow have "listed (rcf_allowlist config) (trim prompt)" by simp
      with nd Some d show ?thesis by (intro allowed) (simp_all add: classify_def)
    next
      case None
      with allow have na: "\<not> listed (rcf_allowlist config) (trim prompt)" by simp
      show ?thesis
      proof (cases "trim prompt = [] \<or> \<not> rcf_fastpath_shell config")
        case True
        then show ?thesis using nd na d None by (intro other) (auto simp: classify_def Let_def lists is_shell_def)
      next
        case False
        then show ?thesis using nd na d None by (intro heuristic) (auto simp: classify_def Let_def lists)
      qed
    qed
  qed
qed

text \<open>A prompt is blocked exactly if a non-empty entry of the deny list occurs in it, ignoring the case of
  ASCII letters; it is then routed by that rule alone, whatever the allow list, the fast path and the
  heuristics say.\<close>

theorem prompt_blocked_iff:
  "cl_blocked (classify is_match (with_commands config extra) prompt) \<longleftrightarrow>
    (\<exists>p \<in> set (rcf_denylist config). p \<noteq> [] \<and> str_contains (to_ascii_lowercase (trim prompt)) (to_ascii_lowercase p))"
  unfolding listed_def [symmetric]
  by (cases rule: classify_cases [where config = config and extra = extra and prompt = prompt and m = is_match])
    (simp_all add: overridden_def classify_heuristic_def Let_def split_def)

text \<open>C23: The route of a prompt, characterised without the iterator, the flags and the byte-wise searches of
  the code: it goes to the shell exactly if an entry of one of the lists occurs in it, or if the fast
  path is on and one of its tokens (the parts between delimiters, stripped of brackets and quotes)
  is a command and it has a shell operator or is a simple command that starts with that token.\<close>

theorem routes_to_shell_iff:
  "cl_route (classify is_match (with_commands config extra) prompt) = Shell \<longleftrightarrow>
    listed (rcf_denylist config) (trim prompt) \<or> listed (rcf_allowlist config) (trim prompt) \<or>
    rcf_fastpath_shell config \<and> trim prompt \<noteq> [] \<and> (\<exists>t \<in> set (tokens_of (trim prompt)). is_command config extra t) \<and>
    ((\<exists>op \<in> {''&&'', ''|'', ''>'', ''<'', '';''}. str_contains (trim prompt) op) \<or>
     is_match SIMPLE_COMMAND (trim prompt) \<and> is_command config extra (hd (tokens_of (trim prompt))))"
proof (cases rule: classify_cases [where config = config and extra = extra and prompt = prompt and m = is_match])
  case heuristic
  have "cl_route (classify_heuristic is_match (with_commands config extra) (trim prompt)) = Shell \<longleftrightarrow>
      (\<exists>t \<in> set (tokens_of (trim prompt)). is_command config extra t) \<and>
      (fst (posix_features (trim prompt) []) \<or>
       is_match SIMPLE_COMMAND (trim prompt) \<and> tokens_of (trim prompt) \<noteq> [] \<and> is_command config extra (hd (tokens_of (trim prompt))))"
    by (simp add: classify_heuristic_def Let_def split_def scan_tokens_flags)
  then show ?thesis using heuristic unfolding posix_detected by auto
qed (auto simp: overridden_def is_shell_def)

text \<open>C40: The exit code of \<open>rlp route\<close> does not tell a blocked prompt from a command for the shell: whenever the
  classification is done in time, a prompt on the deny list ends with the code 10, on which the
  snippets of the shells execute the line; only the printed payload says that it is blocked.\<close>

theorem blocked_prompt_exits_as_shell:
  assumes "route_prompt w args = Inr prompt" and "resolve_route_timeout (ra_timeout_ms args) (rw_timeout_var w) = Inr ms"
    and "rw_in_time w ms" and "rw_config w = Inr config" and "listed (rcf_denylist config) (trim prompt)"
  shows "\<exists>payload. handle_route w args = Inr (Some payload, 10) \<and> rp_blocked payload \<and> rp_route payload = Shell"
proof -
  let ?c = "classify (rw_is_match w) (with_commands config (path_commands (rw_path w) (rw_read_dir w))) prompt"
  obtain p where "?c = overridden ''override:denylist'' ''denylist'' True p"
    by (cases rule: classify_cases [where config = config and extra = "path_commands (rw_path w) (rw_read_dir w)" and prompt = prompt and m = "rw_is_match w"])
      (use assms(5) in auto)
  then show ?thesis using assms
    by (simp add: handle_route_def route_payload_from_def overridden_def ROUTE_EXIT_CODE_SHELL_def)
qed

definition default_router_config :: router_config where
  "default_router_config = \<lparr>rcf_fastpath_shell = True, rcf_default_opening = ''compose_email'', rcf_allowlist = [],
     rcf_denylist = [''rm -rf /''], rcf_known_commands = []\<rparr>"

definition demo_route_world :: route_world where
  "demo_route_world = \<lparr>rw_stdin = Inr (''rm -rf /'' @ [CHR 0x0A]), rw_timeout_var = None, rw_config = Inr default_router_config,
     rw_path = None, rw_read_dir = (\<lambda>_. None), rw_in_time = (\<lambda>_. True), rw_is_match = (\<lambda>_ _. True)\<rparr>"

theorem blocked_prompt_exits_as_shell_witness:
  "\<exists>payload. handle_route demo_route_world \<lparr>ra_prompt = None, ra_read_stdin = True, ra_timeout_ms = None\<rparr> = Inr (Some payload, 10)
     \<and> rp_blocked payload \<and> rp_route payload = Shell"
proof (rule blocked_prompt_exits_as_shell)
  show "route_prompt demo_route_world \<lparr>ra_prompt = None, ra_read_stdin = True, ra_timeout_ms = None\<rparr> = Inr ''rm -rf /''"
    by (simp add: route_prompt_def demo_route_world_def drop_newlines_def)
  show "resolve_route_timeout (ra_timeout_ms \<lparr>ra_prompt = None, ra_read_stdin = True, ra_timeout_ms = None\<rparr>) (rw_timeout_var demo_route_world) = Inr 200"
    by (simp add: resolve_route_timeout_def demo_route_world_def ROUTE_DEFAULT_TIMEOUT_MS_def)
  show "listed (rcf_denylist default_router_config) (trim ''rm -rf /'')" by code_simp
qed (simp_all add: demo_route_world_def)

end
