(* ===== verification/Shell_Block.thy ===== *)
theory Shell_Block
  imports Rust_Str
begin

text \<open>
  The integration of the shell (\<open>crates/rlp/src/shell.rs\<close>): \<open>rlp shell enable\<close> puts a marked block into the
  start-up file of a shell, \<open>rlp shell disable\<close> takes it out. The files are a map from paths to
  contents; the home, the working directory, the resolution of links, the clock and the failures of
  calls are the record \<open>shell_world\<close>. A call that fails leaves the files as they are, but a failed
  write may leave other contents behind.
\<close>

section \<open>Files and paths\<close>

text \<open>The contents of a file: a text, or bytes that are not UTF-8.\<close>

datatype content = Text string | Raw bytes

type_synonym files = "string \<Rightarrow> content option"

record shell_world =
  sw_home :: "string option"
  sw_cwd :: "string option"
  sw_shell :: "string option"
  sw_canon :: "files \<Rightarrow> string \<Rightarrow> string option"
  sw_exists :: "files \<Rightarrow> string \<Rightarrow> bool"
  sw_readable :: "string \<Rightarrow> bool"
  sw_mkdir_fault :: "string \<Rightarrow> string option"
  sw_copy_fault :: "string \<Rightarrow> string \<Rightarrow> string option"
  sw_write_fault :: "string \<Rightarrow> (string \<times> content option) option"
  sw_seconds :: string

definition path_components :: "string \<Rightarrow> string list" where
  "path_components p = filter (\<lambda>c. c \<noteq> [] \<and> c \<noteq> ''.'') (split_char (CHR ''/'') p)"

definition path_file_name :: "string \<Rightarrow> string option" where
  "path_file_name p = (case rev (path_components p) of [] \<Rightarrow> None | c # _ \<Rightarrow> if c = ''..'' then None else Some c)"

definition path_parent :: "string \<Rightarrow> string option" where
  "path_parent p =
    (if path_components p = [] then None
     else Some ((if starts_with ''/'' p then ''/'' else []) @ join_char (CHR ''/'') (butlast (path_components p))))"

definition with_file_name :: "string \<Rightarrow> string \<Rightarrow> string" where
  "with_file_name p name =
    path_join (case path_file_name p of Some _ \<Rightarrow> the (path_parent p) | None \<Rightarrow> p) name"

definition read_text :: "shell_world \<Rightarrow> files \<Rightarrow> string \<Rightarrow> string option" where
  "read_text w fs p =
    (if sw_readable w p then (case fs p of Some (Text s) \<Rightarrow> Some s | _ \<Rightarrow> None) else None)"

section \<open>Text primitives\<close>

definition trim_end_blank :: "string \<Rightarrow> string" where
  "trim_end_blank s = rev (dropWhile (\<lambda>c. c = CHR 0x0A \<or> c = CHR '' '') (rev s))"

definition ends_with_char :: "char list \<Rightarrow> string \<Rightarrow> bool" where
  "ends_with_char cs s \<longleftrightarrow> s \<noteq> [] \<and> last s \<in> set cs"

text \<open>\<open>str::lines\<close>: the parts between line feeds, without a last empty one and without a carriage return at the end.\<close>

definition str_lines :: "string \<Rightarrow> string list" where
  "str_lines s =
    (let parts = split_char (CHR 0x0A) s;
         parts = (if last parts = [] then butlast parts else parts)
     in map (\<lambda>p. if p \<noteq> [] \<and> last p = CHR 0x0D then butlast p else p) parts)"

function trim_start_matches :: "string \<Rightarrow> string \<Rightarrow> string" where
  "trim_start_matches p s =
    (if p = [] then s
     else case strip_prefix p s of Some r \<Rightarrow> trim_start_matches p r | None \<Rightarrow> s)"
  by auto
termination
  by (relation "measure (\<lambda>(p, s). length s)") (auto simp: strip_prefix_iff)

declare trim_start_matches.simps [simp del]

text \<open>\<open>str::replace\<close>, from left to right and without overlaps, for a needle that is not empty.\<close>

function str_replace :: "string \<Rightarrow> string \<Rightarrow> string \<Rightarrow> string" where
  "str_replace needle by s =
    (if needle = [] then s
     else case split_once needle s of
            None \<Rightarrow> s
          | Some (l, r) \<Rightarrow> l @ by @ str_replace needle by r)"
  by auto
termination
  by (relation "measure (\<lambda>(n, b, s). length s)") (auto dest!: split_once_Some)

declare str_replace.simps [simp del]

definition single_quote :: "string \<Rightarrow> string" where
  "single_quote v =
    [CHR 0x27] @ concat (map (\<lambda>c. if c = CHR 0x27 then [CHR 0x27, CHR 0x5C, CHR 0x27, CHR 0x27] else [c]) v) @ [CHR 0x27]"

definition unquote_single :: "string \<Rightarrow> string" where
  "unquote_single v =
    str_replace [CHR 0x27, CHR 0x5C, CHR 0x27, CHR 0x27] [CHR 0x27]
      (rev (dropWhile (\<lambda>c. c = CHR 0x27) (rev (dropWhile (\<lambda>c. c = CHR 0x27) v))))"

section \<open>Requests and results\<close>

datatype shell_flavor = Zsh | Bash

datatype shell_cli_flavor = CliZsh | CliBash | CliAuto

datatype shell_error = MissingHome | SnippetNotFound string | MissingOpening string | ShellIo string

datatype shell_action = Added | Updated | Removed | AlreadyPresent | NotFound

record shell_edit_result =
  se_rc_path :: string
  se_snippet_path :: "string option"
  se_opening_path :: "string option"
  se_block_preview :: "string option"
  se_action :: shell_action
  se_dry_run :: bool
  se_notes :: "string list"

record enable_request =
  eq_flavor :: shell_flavor
  eq_rc_path :: "string option"
  eq_snippet_override :: "string option"
  eq_opening_path :: "string option"
  eq_dry_run :: bool

record disable_request =
  dq_flavor :: shell_flavor
  dq_rc_path :: "string option"
  dq_dry_run :: bool

definition detect_shell_from_env :: "shell_world \<Rightarrow> shell_flavor" where
  "detect_shell_from_env w =
    (if str_contains (case sw_shell w of Some s \<Rightarrow> s | None \<Rightarrow> []) ''bash'' then Bash else Zsh)"

fun resolve_flavor :: "shell_world \<Rightarrow> shell_cli_flavor \<Rightarrow> shell_flavor" where
  "resolve_flavor w CliZsh = Zsh"
| "resolve_flavor w CliBash = Bash"
| "resolve_flavor w CliAuto = detect_shell_from_env w"

fun snippet_name :: "shell_flavor \<Rightarrow> string" where
  "snippet_name Zsh = ''runloop.zsh''"
| "snippet_name Bash = ''runloop.bash''"

fun markers :: "shell_flavor \<Rightarrow> string \<times> string" where
  "markers Zsh = (''# >>> runloop shell (zsh) >>>'', ''# <<< runloop shell (zsh) <<<'')"
| "markers Bash = (''# >>> runloop shell (bash) >>>'', ''# <<< runloop shell (bash) <<<'')"

section \<open>Resolving paths\<close>

definition expand_path :: "shell_world \<Rightarrow> string \<Rightarrow> shell_error + string" where
  "expand_path w path =
    (case strip_prefix ''~'' path of
       None \<Rightarrow> Inr path
     | Some stripped \<Rightarrow>
         res_bind (ok_or MissingHome (sw_home w)) (\<lambda>home.
         if stripped = [] then Inr home
         else case strip_prefix ''/'' stripped of
                Some rest \<Rightarrow> if rest = [] then Inr home else Inr (path_join home rest)
              | None \<Rightarrow> Inr path))"

definition resolve_rc_path :: "shell_world \<Rightarrow> shell_flavor \<Rightarrow> string option \<Rightarrow> shell_error + string" where
  "resolve_rc_path w flavor override =
    (case override of
       Some path \<Rightarrow> expand_path w path
     | None \<Rightarrow>
         res_bind (ok_or MissingHome (sw_home w)) (\<lambda>home.
         Inr (path_join home (case flavor of Zsh \<Rightarrow> ''.zshrc'' | Bash \<Rightarrow> ''.bashrc''))))"

definition default_snippet_candidates :: "shell_world \<Rightarrow> shell_flavor \<Rightarrow> string list" where
  "default_snippet_candidates w flavor =
    map (\<lambda>d. path_join d (snippet_name flavor))
      ([''/usr/share/runloop/shell'', ''/usr/local/share/runloop/shell'', ''/opt/homebrew/share/runloop/shell''] @
       (case sw_home w of Some home \<Rightarrow> [path_join home ''.runloop/shell''] | None \<Rightarrow> []))"

fun first_canonical :: "shell_world \<Rightarrow> files \<Rightarrow> string list \<Rightarrow> string option" where
  "first_canonical w fs [] = None"
| "first_canonical w fs (c # cs) = (case sw_canon w fs c of Some p \<Rightarrow> Some p | None \<Rightarrow> first_canonical w fs cs)"

definition resolve_snippet_path :: "shell_world \<Rightarrow> files \<Rightarrow> shell_flavor \<Rightarrow> string option \<Rightarrow> shell_error + string" where
  "resolve_snippet_path w fs flavor override =
    (case override of
       Some path \<Rightarrow>
         res_bind (expand_path w path) (\<lambda>expanded. ok_or (SnippetNotFound expanded) (sw_canon w fs expanded))
     | None \<Rightarrow>
         (let candidates = default_snippet_candidates w flavor @
            (case sw_cwd w of Some cwd \<Rightarrow> [path_join (path_join (path_join cwd ''packaging'') ''shell'') (snippet_name flavor)] | None \<Rightarrow> [])
          in ok_or (SnippetNotFound (join_str '', '' candidates)) (first_canonical w fs candidates)))"

definition default_opening_source :: "shell_world \<Rightarrow> files \<Rightarrow> string option" where
  "default_opening_source w fs =
    first_canonical w fs
      ([''/usr/share/runloop/openings/router-default.yaml'', ''/usr/local/share/runloop/openings/router-default.yaml'',
        ''/opt/homebrew/share/runloop/openings/router-default.yaml''] @
       (case sw_cwd w of
          Some cwd \<Rightarrow> [path_join (path_join (path_join cwd ''packaging'') ''openings'') ''router-default.yaml''] | None \<Rightarrow> []))"

definition ensure_parent_dir :: "shell_world \<Rightarrow> string \<Rightarrow> string option" where
  "ensure_parent_dir w p = Option.bind (path_parent p) (sw_mkdir_fault w)"

text \<open>\<open>fs::copy\<close> and \<open>fs::write\<close>: the files afterwards and the error, if any.\<close>

definition fs_copy :: "shell_world \<Rightarrow> string \<Rightarrow> string \<Rightarrow> files \<Rightarrow> files \<times> string option" where
  "fs_copy w source dest fs =
    (case sw_copy_fault w source dest of
       Some err \<Rightarrow> (fs, Some err)
     | None \<Rightarrow> (case fs source of None \<Rightarrow> (fs, Some ''entity not found'') | Some c \<Rightarrow> (fs(dest \<mapsto> c), None)))"

definition fs_write :: "shell_world \<Rightarrow> string \<Rightarrow> string \<Rightarrow> files \<Rightarrow> files \<times> (shell_error + unit)" where
  "fs_write w p s fs =
    (case sw_write_fault w p of
       Some (err, left) \<Rightarrow> (fs(p := left), Inl (ShellIo err))
     | None \<Rightarrow> (fs(p \<mapsto> Text s), Inr ()))"

definition USER_OPENING_DEFAULT :: string where
  "USER_OPENING_DEFAULT = ''.runloop/openings/router-default.yaml''"

text \<open>The files, and the opening with the notes that were added.\<close>

definition resolve_opening_path ::
  "shell_world \<Rightarrow> string option \<Rightarrow> bool \<Rightarrow> files \<Rightarrow> files \<times> (shell_error + string option \<times> string list)" where
  "resolve_opening_path w explicit allow_create fs =
    (case explicit of
       Some path \<Rightarrow>
         (fs, res_bind (expand_path w path) (\<lambda>expanded.
              if \<not> sw_exists w fs expanded then Inl (MissingOpening expanded)
              else res_bind (ok_or (MissingOpening expanded) (sw_canon w fs expanded)) (\<lambda>c. Inr (Some c, []))))
     | None \<Rightarrow>
         (case sw_home w of
            None \<Rightarrow> (fs, Inl MissingHome)
          | Some home \<Rightarrow>
              (let user_default = path_join home USER_OPENING_DEFAULT
               in if sw_exists w fs user_default then
                    (fs, res_bind (ok_or (MissingOpening user_default) (sw_canon w fs user_default)) (\<lambda>c.
                         Inr (Some c, [''using existing router-default opening at '' @ c])))
                  else
                    (case default_opening_source w fs of
                       None \<Rightarrow> (fs, Inr (None, [''router-default opening not found; RUNLOOP_ROUTER_OPENING_PATH will not be set'']))
                     | Some source \<Rightarrow>
                         if \<not> allow_create then
                           (fs, Inr (Some user_default, [''would copy router-default opening from '' @ source @ '' to '' @ user_default]))
                         else
                           (case ensure_parent_dir w user_default of
                              Some err \<Rightarrow>
                                (fs, Inr (None, [''failed to create '' @ user_default @ '': '' @ err @ ''; RUNLOOP_ROUTER_OPENING_PATH not set'']))
                            | None \<Rightarrow>
                                (case fs_copy w source user_default fs of
                                   (fs, Some err) \<Rightarrow>
                                     (fs, Inr (None, [''failed to copy '' @ source @ '' to '' @ user_default @ '': '' @ err @
                                        ''; RUNLOOP_ROUTER_OPENING_PATH not set'']))
                                 | (fs, None) \<Rightarrow>
                                     (fs, res_bind (ok_or (MissingOpening user_default) (sw_canon w fs user_default)) (\<lambda>c.
                                          Inr (Some c, [''copied router-default opening to '' @ c])))))))))"

section \<open>The block\<close>

definition build_block :: "shell_flavor \<Rightarrow> string \<Rightarrow> string option \<Rightarrow> string" where
  "build_block flavor snippet_path opening =
    fst (markers flavor) @ [CHR 0x0A] @
    (case opening of
       Some path \<Rightarrow> ''export RUNLOOP_ROUTER_OPENING_PATH='' @ single_quote path @ [CHR 0x0A] | None \<Rightarrow> []) @
    ''source '' @ single_quote snippet_path @ [CHR 0x0A] @ snd (markers flavor) @ [CHR 0x0A]"

text \<open>\<open>locate_block\<close>: the text before the block, the block and the text after it, in place of the two indices.\<close>

definition locate_block :: "string \<Rightarrow> string \<Rightarrow> string \<Rightarrow> (string \<times> string \<times> string) option" where
  "locate_block contents start end_marker =
    (case split_once start contents of
       None \<Rightarrow> None
     | Some (before, after_start) \<Rightarrow>
         (case split_once end_marker (start @ after_start) of
            None \<Rightarrow> None
          | Some (body, after_end) \<Rightarrow>
              (case after_end of
                 CHR 0x0A # tail \<Rightarrow> Some (before, body @ end_marker @ [CHR 0x0A], tail)
               | _ \<Rightarrow> Some (before, body @ end_marker, after_end))))"

definition blocks_equivalent :: "string \<Rightarrow> string \<Rightarrow> bool" where
  "blocks_equivalent existing desired \<longleftrightarrow> trim_end_blank existing = trim_end_blank desired"

definition normalize_path :: "shell_world \<Rightarrow> files \<Rightarrow> string \<Rightarrow> string" where
  "normalize_path w fs p = (case sw_canon w fs p of Some c \<Rightarrow> c | None \<Rightarrow> p)"

definition line_path :: "shell_world \<Rightarrow> files \<Rightarrow> string \<Rightarrow> string option" where
  "line_path w fs v =
    (case expand_path w (unquote_single v) of Inr p \<Rightarrow> Some (normalize_path w fs p) | Inl _ \<Rightarrow> None)"

text \<open>The loop over the lines; \<open>None\<close> is the early return.\<close>

fun parse_block_lines ::
  "shell_world \<Rightarrow> files \<Rightarrow> string list \<Rightarrow> string option \<times> string option \<Rightarrow> (string option \<times> string option) option" where
  "parse_block_lines w fs [] acc = Some acc"
| "parse_block_lines w fs (l # ls) (opening, snippet) =
    (let trimmed = trim l
     in if starts_with ''export RUNLOOP_ROUTER_OPENING_PATH='' trimmed then
          (case split_once ''='' trimmed of
             None \<Rightarrow> None
           | Some (_, val) \<Rightarrow>
               (case line_path w fs (trim val) of None \<Rightarrow> None | Some p \<Rightarrow> parse_block_lines w fs ls (Some p, snippet)))
        else if starts_with ''source '' trimmed then
          (case line_path w fs (trim (trim_start_matches ''source '' trimmed)) of
             None \<Rightarrow> None | Some p \<Rightarrow> parse_block_lines w fs ls (opening, Some p))
        else parse_block_lines w fs ls (opening, snippet))"

definition parse_block_paths :: "shell_world \<Rightarrow> files \<Rightarrow> string \<Rightarrow> (string option \<times> string) option" where
  "parse_block_paths w fs block =
    (case parse_block_lines w fs (str_lines block) (None, None) of
       Some (opening, Some snippet) \<Rightarrow> Some (opening, snippet)
     | _ \<Rightarrow> None)"

definition blocks_semantically_equivalent ::
  "shell_world \<Rightarrow> files \<Rightarrow> string \<Rightarrow> string \<Rightarrow> string option \<Rightarrow> bool" where
  "blocks_semantically_equivalent w fs existing desired_snippet desired_opening =
    (case parse_block_paths w fs existing of
       None \<Rightarrow> False
     | Some (existing_opening, existing_snippet) \<Rightarrow>
         if normalize_path w fs existing_snippet \<noteq> normalize_path w fs desired_snippet then False
         else (case (existing_opening, desired_opening) of
                 (None, None) \<Rightarrow> True
               | (Some e, Some d) \<Rightarrow> normalize_path w fs e = normalize_path w fs d
               | _ \<Rightarrow> False))"

section \<open>Enabling and disabling\<close>

definition backup_file :: "shell_world \<Rightarrow> string \<Rightarrow> files \<Rightarrow> files \<times> (shell_error + string option)" where
  "backup_file w p fs =
    (if \<not> sw_exists w fs p then (fs, Inr None)
     else
       let name = (case path_file_name p of Some n \<Rightarrow> n | None \<Rightarrow> ''rc'');
           backup = with_file_name p (name @ ''.runloop.bak.'' @ sw_seconds w)
       in case fs_copy w p backup fs of
            (fs, Some err) \<Rightarrow> (fs, Inl (ShellIo err))
          | (fs, None) \<Rightarrow> (fs, Inr (Some backup)))"

definition replaced_contents :: "string \<Rightarrow> string \<Rightarrow> string \<Rightarrow> string" where
  "replaced_contents before block tail =
    (let s = before;
         s = (if \<not> ends_with_char [CHR 0x0A, CHR 0x0D] s \<and> s \<noteq> [] then s @ [CHR 0x0A] else s);
         s = s @ block;
         s = (if \<not> ends_with_char [CHR 0x0A] s then s @ [CHR 0x0A] else s);
         s = (if tail \<noteq> [] \<and> \<not> ends_with_char [CHR 0x0A] s then s @ [CHR 0x0A] else s)
     in s @ tail)"

definition added_contents :: "string \<Rightarrow> string \<Rightarrow> string" where
  "added_contents contents block =
    (let s = contents;
         s = (if s \<noteq> [] \<and> \<not> ends_with_char [CHR 0x0A] s then s @ [CHR 0x0A] else s);
         s = (if s \<noteq> [] then s @ [CHR 0x0A] else s);
         s = s @ block
     in if \<not> ends_with_char [CHR 0x0A] s then s @ [CHR 0x0A] else s)"

definition disabled_contents :: "string \<Rightarrow> string \<Rightarrow> string" where
  "disabled_contents before tail =
    (let final = trim_end_blank (before @ tail) in if final \<noteq> [] then final @ [CHR 0x0A] else final)"

text \<open>Back up the start-up file and write it, after making its directory.\<close>

definition save_rc :: "shell_world \<Rightarrow> string \<Rightarrow> string \<Rightarrow> files \<Rightarrow> files \<times> (shell_error + unit)" where
  "save_rc w rc s fs =
    (case backup_file w rc fs of
       (fs, Inl e) \<Rightarrow> (fs, Inl e)
     | (fs, Inr _) \<Rightarrow> fs_write w rc s fs)"

definition enable_rc ::
  "shell_world \<Rightarrow> enable_request \<Rightarrow> string \<Rightarrow> string \<Rightarrow> string option \<Rightarrow> string list \<Rightarrow> string \<Rightarrow> files \<Rightarrow>
    files \<times> (shell_error + shell_edit_result)" where
  "enable_rc w req rc snippet opening notes contents fs =
    (let block = build_block (eq_flavor req) snippet opening;
         result = (\<lambda>action dry note. \<lparr>se_rc_path = rc, se_snippet_path = Some snippet, se_opening_path = opening,
            se_block_preview = Some block, se_action = action, se_dry_run = dry, se_notes = notes @ [note]\<rparr>);
         write = (\<lambda>s r. case ensure_parent_dir w rc of
             Some err \<Rightarrow> (fs, Inl (ShellIo err))
           | None \<Rightarrow> (case save_rc w rc s fs of (fs, Inl e) \<Rightarrow> (fs, Inl e) | (fs, Inr _) \<Rightarrow> (fs, Inr r)))
     in case locate_block contents (fst (markers (eq_flavor req))) (snd (markers (eq_flavor req))) of
          Some (before, existing, tail) \<Rightarrow>
            if blocks_semantically_equivalent w fs existing snippet opening \<or> blocks_equivalent existing block then
              (fs, Inr (result AlreadyPresent (eq_dry_run req) (''runloop shell block already present in '' @ rc)))
            else if eq_dry_run req then
              (fs, Inr (result Updated True ''dry-run: existing block would be replaced''))
            else write (replaced_contents before block tail) (result Updated False ''replaced existing runloop shell block'')
        | None \<Rightarrow>
            if eq_dry_run req then (fs, Inr (result Added True ''dry-run: no changes applied''))
            else write (added_contents contents block)
              (result Added False (''added runloop shell block referencing '' @ snippet)))"

definition enable :: "shell_world \<Rightarrow> enable_request \<Rightarrow> files \<Rightarrow> files \<times> (shell_error + shell_edit_result)" where
  "enable w req fs =
    (case res_bind (resolve_rc_path w (eq_flavor req) (eq_rc_path req)) (\<lambda>rc.
          res_bind (resolve_snippet_path w fs (eq_flavor req) (eq_snippet_override req)) (\<lambda>snippet. Inr (rc, snippet))) of
       Inl e \<Rightarrow> (fs, Inl e)
     | Inr (rc, snippet) \<Rightarrow>
         (let contents = (case read_text w fs rc of Some s \<Rightarrow> s | None \<Rightarrow> [])
          in case resolve_opening_path w (eq_opening_path req) (\<not> eq_dry_run req) fs of
               (fs, Inl e) \<Rightarrow> (fs, Inl e)
             | (fs, Inr (opening, notes)) \<Rightarrow> enable_rc w req rc snippet opening notes contents fs))"

definition disable :: "shell_world \<Rightarrow> disable_request \<Rightarrow> files \<Rightarrow> files \<times> (shell_error + shell_edit_result)" where
  "disable w req fs =
    (case resolve_rc_path w (dq_flavor req) (dq_rc_path req) of
       Inl e \<Rightarrow> (fs, Inl e)
     | Inr rc \<Rightarrow>
         (let contents = (case read_text w fs rc of Some s \<Rightarrow> s | None \<Rightarrow> []);
              result = (\<lambda>action dry note. \<lparr>se_rc_path = rc, se_snippet_path = None, se_opening_path = None,
                se_block_preview = None, se_action = action, se_dry_run = dry, se_notes = [note]\<rparr>)
          in if contents = [] then
               (fs, Inr (result NotFound (dq_dry_run req) ''rc file empty or missing; nothing to disable''))
             else
               (case locate_block contents (fst (markers (dq_flavor req))) (snd (markers (dq_flavor req))) of
                  Some (before, _, tail) \<Rightarrow>
                    if dq_dry_run req then (fs, Inr (result Removed True ''dry-run: block would be removed''))
                    else
                      (case save_rc w rc (disabled_contents before tail) fs of
                         (fs, Inl e) \<Rightarrow> (fs, Inl e)
                       | (fs, Inr _) \<Rightarrow> (fs, Inr (result Removed False ''removed runloop shell block'')))
                | None \<Rightarrow> (fs, Inr (result NotFound (dq_dry_run req) ''runloop shell block not found'')))))"

end
