(* ===== verification/Shell_Props.thy ===== *)
theory Shell_Props
  imports Shell_Block
begin

text \<open>
  Properties of the shell integration: what a start-up file holds after its block was put in, replaced
  and taken out, that a dry run changes no file, and two ways in which the user's text is lost.
\<close>

section \<open>Occurrences of a marker\<close>

lemma contains_cases:
  assumes "a @ b = l @ n @ r" "n \<noteq> []"
  obtains (left) x where "a = l @ n @ x" | (right) x where "b = x @ n @ r" "l = a @ x"
  | (across) u v where "a = l @ u" "n = u @ v" "u \<noteq> []" "v \<noteq> []"
proof -
  from assms(1) consider x where "a = l @ x" "x @ b = n @ r" | x where "l = a @ x" "b = x @ n @ r"
    by (auto simp: append_eq_append_conv2)
  then show ?thesis
  proof cases
    case 1
    from 1(2) consider y where "x = n @ y" | y where "n = x @ y" "b = y @ r" by (auto simp: append_eq_append_conv2)
    then show ?thesis
    proof cases
      case (1 y)
      then show ?thesis using left \<open>a = l @ x\<close> by simp
    next
      case (2 y)
      show ?thesis
      proof (cases "x = []")
        case True
        then show ?thesis using right [of "[]"] 2 \<open>a = l @ x\<close> by simp
      next
        case x: False
        show ?thesis
        proof (cases "y = []")
          case True
          then show ?thesis using left [of "[]"] 2 \<open>a = l @ x\<close> by simp
        next
          case False
          then show ?thesis using across [of x y] 2 x \<open>a = l @ x\<close> by simp
        qed
      qed
    qed
  next
    case 2
    then show ?thesis using right by simp
  qed
qed

lemma contains_append_last:
  assumes "n \<noteq> []" "a = [] \<or> last a \<notin> set n"
  shows "str_contains (a @ b) n \<longleftrightarrow> str_contains a n \<or> str_contains b n"
proof
  assume "str_contains (a @ b) n"
  then obtain l r where "a @ b = l @ n @ r" by (auto simp: str_contains_iff)
  from this assms(1) show "str_contains a n \<or> str_contains b n"
  proof (cases rule: contains_cases)
    case (across u v)
    then have "a \<noteq> []" "last a \<in> set n" by auto
    then show ?thesis using assms(2) by simp
  qed (auto simp: str_contains_iff)
next
  show "str_contains a n \<or> str_contains b n \<Longrightarrow> str_contains (a @ b) n"
    by (auto simp: str_contains_iff) (metis append_assoc)+
qed

lemma contains_append_hd:
  assumes "n \<noteq> []" "hd n \<notin> set a"
  shows "str_contains (a @ b) n \<longleftrightarrow> str_contains b n"
proof
  assume "str_contains (a @ b) n"
  then obtain l r where "a @ b = l @ n @ r" by (auto simp: str_contains_iff)
  from this assms(1) show "str_contains b n"
  proof (cases rule: contains_cases)
    case (left x)
    then show ?thesis using assms by (cases n) auto
  next
    case (across u v)
    then show ?thesis using assms by (cases u) auto
  qed (auto simp: str_contains_iff)
next
  show "str_contains b n \<Longrightarrow> str_contains (a @ b) n" by (auto simp: str_contains_iff) (metis append_assoc)
qed

lemma split_once_after:
  assumes "n \<noteq> []" "a = [] \<or> last a \<notin> set n" "\<not> str_contains a n"
  shows "split_once n (a @ n @ b) = Some (a, b)"
proof -
  obtain l r where s: "split_once n (a @ n @ b) = Some (l, r)"
    using split_once_None_iff [of n "a @ n @ b"] by (cases "split_once n (a @ n @ b)") auto
  have eq: "a @ n @ b = l @ n @ r" by (rule split_once_Some [OF s])
  have "length l \<le> length a" by (rule split_once_shortest [OF s refl])
  from eq assms(1) show ?thesis
  proof (cases rule: contains_cases)
    case (left x)
    then show ?thesis using assms(3) by (auto simp: str_contains_iff)
  next
    case (right x)
    then have "l = a" using \<open>length l \<le> length a\<close> by simp
    then show ?thesis using s eq by simp
  next
    case (across u v)
    then have "a \<noteq> []" "last a \<in> set n" by auto
    then show ?thesis using assms(2) by simp
  qed
qed

section \<open>The markers and the block\<close>

lemma marker_facts:
  "fst (markers f) \<noteq> []" "snd (markers f) \<noteq> []"
  "CHR 0x0A \<notin> set (fst (markers f))" "CHR 0x0D \<notin> set (fst (markers f))" "CHR 0x0A \<notin> set (snd (markers f))"
  "\<not> str_contains (fst (markers f)) (snd (markers f))" "hd (snd (markers f)) = CHR ''#''"
  by (cases f; simp add: str_contains_def)+

definition block_body :: "shell_flavor \<Rightarrow> string \<Rightarrow> string option \<Rightarrow> string" where
  "block_body f snippet opening =
    fst (markers f) @ [CHR 0x0A] @
    (case opening of
       Some path \<Rightarrow> ''export RUNLOOP_ROUTER_OPENING_PATH='' @ single_quote path @ [CHR 0x0A] | None \<Rightarrow> []) @
    ''source '' @ single_quote snippet @ [CHR 0x0A]"

lemma build_block_body: "build_block f snippet opening = block_body f snippet opening @ snd (markers f) @ [CHR 0x0A]"
  by (simp add: build_block_def block_body_def)

definition marker_free :: "shell_flavor \<Rightarrow> string \<Rightarrow> bool" where
  "marker_free f path \<longleftrightarrow> \<not> str_contains (single_quote path) (snd (markers f))"

lemma line_contains:
  assumes "n \<noteq> []" "CHR 0x0A \<notin> set n"
  shows "str_contains (a @ [CHR 0x0A] @ b) n \<longleftrightarrow> str_contains a n \<or> str_contains b n"
proof -
  have nl: "\<not> str_contains [CHR 0x0A] n"
    using assms by (auto simp: str_contains_iff Cons_eq_append_conv)
  have "str_contains ((a @ [CHR 0x0A]) @ b) n \<longleftrightarrow> str_contains (a @ [CHR 0x0A]) n \<or> str_contains b n"
    by (rule contains_append_last) (use assms in auto)
  moreover have "str_contains (a @ [CHR 0x0A]) n \<longleftrightarrow> str_contains a n"
  proof
    assume "str_contains (a @ [CHR 0x0A]) n"
    then obtain l r where "a @ [CHR 0x0A] = l @ n @ r" by (auto simp: str_contains_iff)
    from this assms(1) show "str_contains a n"
    proof (cases rule: contains_cases)
      case (right x)
      then show ?thesis using nl by (auto simp: str_contains_iff)
    next
      case (across u v)
      have "v = [CHR 0x0A]" using \<open>a @ [CHR 0x0A] = l @ n @ r\<close> across by (auto simp: Cons_eq_append_conv append_eq_Cons_conv)
      then show ?thesis using across assms(2) by simp
    qed (auto simp: str_contains_iff)
  next
    assume "str_contains a n"
    then obtain l r where "a @ [CHR 0x0A] = l @ n @ (r @ [CHR 0x0A])" by (auto simp: str_contains_iff)
    then show "str_contains (a @ [CHR 0x0A]) n" unfolding str_contains_iff by blast
  qed
  ultimately show ?thesis by simp
qed

lemma body_contains_no_end:
  assumes "marker_free f snippet" "\<And>p. opening = Some p \<Longrightarrow> marker_free f p"
  shows "\<not> str_contains (block_body f snippet opening) (snd (markers f))"
proof -
  note n = marker_facts(2,5) [of f]
  have word: "str_contains (''source '' @ s) (snd (markers f)) \<longleftrightarrow> str_contains s (snd (markers f))"
    "str_contains (''export RUNLOOP_ROUTER_OPENING_PATH='' @ s) (snd (markers f)) \<longleftrightarrow> str_contains s (snd (markers f))" for s
    by (rule contains_append_hd; use marker_facts [of f] in simp)+
  have "\<not> str_contains [] (snd (markers f))" using n(1) by (simp add: str_contains_iff)
  then have source: "\<not> str_contains (''source '' @ single_quote snippet @ [CHR 0x0A]) (snd (markers f))"
    using line_contains [OF n, of "''source '' @ single_quote snippet" "[]"] word(1) assms(1) by (simp add: marker_free_def)
  have "\<not> str_contains ((case opening of
       Some path \<Rightarrow> ''export RUNLOOP_ROUTER_OPENING_PATH='' @ single_quote path @ [CHR 0x0A] | None \<Rightarrow> []) @
    ''source '' @ single_quote snippet @ [CHR 0x0A]) (snd (markers f))"
  proof (cases "opening")
    case None
    then show ?thesis using source by simp
  next
    case (Some p)
    then show ?thesis
      using line_contains [OF n, of "''export RUNLOOP_ROUTER_OPENING_PATH='' @ single_quote p" "''source '' @ single_quote snippet @ [CHR 0x0A]"]
        source word(2) assms(2) by (simp add: marker_free_def)
  qed
  then show ?thesis unfolding block_body_def using line_contains [OF n] marker_facts(6) by blast
qed

text \<open>A block that starts a line is found, if no marker comes before.\<close>

lemma locate_built:
  assumes "marker_free f snippet" "\<And>p. opening = Some p \<Longrightarrow> marker_free f p"
    and "a = [] \<or> last a \<in> {CHR 0x0A, CHR 0x0D}" "\<not> str_contains a (fst (markers f))"
  shows "locate_block (a @ build_block f snippet opening @ tail) (fst (markers f)) (snd (markers f)) =
    Some (a, build_block f snippet opening, tail)"
proof -
  let ?s = "fst (markers f)" and ?e = "snd (markers f)" and ?body = "block_body f snippet opening"
  obtain rest where body: "?body = ?s @ rest" by (simp add: block_body_def)
  have "a = [] \<or> last a \<notin> set ?s" using assms(3) marker_facts(3,4) [of f] by auto
  then have "split_once ?s (a @ ?s @ rest @ ?e @ [CHR 0x0A] @ tail) = Some (a, rest @ ?e @ [CHR 0x0A] @ tail)"
    using marker_facts(1) assms(4) by (intro split_once_after) simp_all
  moreover have "split_once ?e (?body @ ?e @ [CHR 0x0A] @ tail) = Some (?body, [CHR 0x0A] @ tail)"
    by (rule split_once_after) (use marker_facts(2,5) body_contains_no_end [OF assms(1,2)] in \<open>auto simp: block_body_def\<close>)
  ultimately show ?thesis by (simp add: locate_block_def build_block_body body)
qed

section \<open>What enabling and disabling write\<close>

lemma save_rc_writes: "save_rc w rc s fs = (fs1, Inr u) \<Longrightarrow> fs1 rc = Some (Text s)"
  by (auto simp: save_rc_def fs_write_def split: prod.splits sum.splits option.splits)

definition rc_contents :: "shell_world \<Rightarrow> files \<Rightarrow> string \<Rightarrow> string" where
  "rc_contents w fs rc = (case read_text w fs rc of Some s \<Rightarrow> s | None \<Rightarrow> [])"

definition block_of :: "enable_request \<Rightarrow> shell_edit_result \<Rightarrow> string" where
  "block_of req res = build_block (eq_flavor req) (the (se_snippet_path res)) (se_opening_path res)"

lemma enable_rc_result:
  assumes "enable_rc w req rc snippet opening notes contents fs = (fs1, Inr res)" "\<not> eq_dry_run req"
  shows "se_rc_path res = rc \<and> se_snippet_path res = Some snippet \<and> se_opening_path res = opening \<and>
    (case locate_block contents (fst (markers (eq_flavor req))) (snd (markers (eq_flavor req))) of
       None \<Rightarrow> se_action res = Added \<and> fs1 rc = Some (Text (added_contents contents (block_of req res)))
     | Some (before, existing, tail) \<Rightarrow>
         if blocks_semantically_equivalent w fs existing snippet opening \<or> blocks_equivalent existing (block_of req res)
         then se_action res = AlreadyPresent \<and> fs1 = fs
         else se_action res = Updated \<and> fs1 rc = Some (Text (replaced_contents before (block_of req res) tail)))"
proof (cases "locate_block contents (fst (markers (eq_flavor req))) (snd (markers (eq_flavor req)))")
  case None
  then show ?thesis using assms
    by (auto simp: enable_rc_def Let_def block_of_def dest: save_rc_writes split: option.splits prod.splits sum.splits)
next
  case (Some t)
  then obtain before existing tail where "locate_block contents (fst (markers (eq_flavor req))) (snd (markers (eq_flavor req))) = Some (before, existing, tail)"
    by (cases t) auto
  then show ?thesis using assms
    by (auto simp: enable_rc_def Let_def block_of_def dest: save_rc_writes split: option.splits prod.splits sum.splits if_splits)
qed

lemma enable_result:
  assumes "enable w req fs = (fs1, Inr res)" "\<not> eq_dry_run req"
  obtains fs0 nts where
    "resolve_rc_path w (eq_flavor req) (eq_rc_path req) = Inr (se_rc_path res)"
    "enable_rc w req (se_rc_path res) (the (se_snippet_path res)) (se_opening_path res) nts (rc_contents w fs (se_rc_path res)) fs0 = (fs1, Inr res)"
    "resolve_opening_path w (eq_opening_path req) True fs = (fs0, Inr (se_opening_path res, nts))"
proof -
  obtain rc snippet where rc: "resolve_rc_path w (eq_flavor req) (eq_rc_path req) = Inr rc"
    "resolve_snippet_path w fs (eq_flavor req) (eq_snippet_override req) = Inr snippet"
    using assms(1) by (auto simp: enable_def res_bind_def split: sum.splits)
  obtain fs0 opn nts where o: "resolve_opening_path w (eq_opening_path req) True fs = (fs0, Inr (opn, nts))"
    "enable_rc w req rc snippet opn nts (rc_contents w fs rc) fs0 = (fs1, Inr res)"
    using assms rc by (auto simp: enable_def rc_contents_def split: prod.splits sum.splits)
  with enable_rc_result [OF o(2) assms(2)] rc(1) that show ?thesis by auto
qed

lemma enable_outcome:
  assumes "enable w req fs = (fs1, Inr res)" "\<not> eq_dry_run req"
  shows "case locate_block (rc_contents w fs (se_rc_path res)) (fst (markers (eq_flavor req))) (snd (markers (eq_flavor req))) of
       None \<Rightarrow> se_action res = Added \<and> fs1 (se_rc_path res) = Some (Text (added_contents (rc_contents w fs (se_rc_path res)) (block_of req res)))
     | Some (before, existing, tail) \<Rightarrow> se_action res = AlreadyPresent \<or>
         (se_action res = Updated \<and> fs1 (se_rc_path res) = Some (Text (replaced_contents before (block_of req res) tail)))"
proof -
  obtain fs0 nts where
    e: "enable_rc w req (se_rc_path res) (the (se_snippet_path res)) (se_opening_path res) nts (rc_contents w fs (se_rc_path res)) fs0 = (fs1, Inr res)"
    using assms by (rule enable_result) blast
  show ?thesis using enable_rc_result [OF e assms(2)] by (auto split: option.splits prod.splits if_splits)
qed

lemma disable_outcome:
  assumes "disable w req fs = (fs1, Inr res)" "\<not> dq_dry_run req"
  shows "resolve_rc_path w (dq_flavor req) (dq_rc_path req) = Inr (se_rc_path res)"
    "case locate_block (rc_contents w fs (se_rc_path res)) (fst (markers (dq_flavor req))) (snd (markers (dq_flavor req))) of
       None \<Rightarrow> se_action res = NotFound \<and> fs1 = fs
     | Some (before, existing, tail) \<Rightarrow> rc_contents w fs (se_rc_path res) \<noteq> [] \<longrightarrow>
         se_action res = Removed \<and> fs1 (se_rc_path res) = Some (Text (disabled_contents before tail))"
proof -
  obtain rc where rc: "resolve_rc_path w (dq_flavor req) (dq_rc_path req) = Inr rc"
    using assms(1) by (auto simp: disable_def split: sum.splits)
  have se: "se_rc_path res = rc" using assms rc
    by (auto simp: disable_def Let_def split: option.splits prod.splits sum.splits if_splits)
  then show "resolve_rc_path w (dq_flavor req) (dq_rc_path req) = Inr (se_rc_path res)" using rc by simp
  have "split_once (fst (markers (dq_flavor req))) [] = None" using marker_facts(1) by simp
  then have empty: "locate_block [] (fst (markers (dq_flavor req))) (snd (markers (dq_flavor req))) = None"
    by (simp add: locate_block_def)
  show "case locate_block (rc_contents w fs (se_rc_path res)) (fst (markers (dq_flavor req))) (snd (markers (dq_flavor req))) of
       None \<Rightarrow> se_action res = NotFound \<and> fs1 = fs
     | Some (before, existing, tail) \<Rightarrow> rc_contents w fs (se_rc_path res) \<noteq> [] \<longrightarrow>
         se_action res = Removed \<and> fs1 (se_rc_path res) = Some (Text (disabled_contents before tail))"
    unfolding se using assms rc empty
    by (auto simp: disable_def Let_def rc_contents_def [symmetric] dest: save_rc_writes split: option.splits prod.splits sum.splits if_splits)
qed

section \<open>The text of the user\<close>

definition tidy :: "string \<Rightarrow> string" where
  "tidy s = (if trim_end_blank s = [] then [] else trim_end_blank s @ [CHR 0x0A])"

lemma block_ends: "ends_with_char [CHR 0x0A] (s @ build_block f snippet opn)"
  by (simp add: ends_with_char_def build_block_def)

definition separator :: "string \<Rightarrow> string" where
  "separator c = (if c = [] then [] else if last c = CHR 0x0A then [CHR 0x0A] else [CHR 0x0A, CHR 0x0A])"

lemma added_block: "added_contents c (build_block f snippet opn) = (c @ separator c) @ build_block f snippet opn"
  using block_ends [of _ f snippet opn]
  by (auto simp: added_contents_def separator_def ends_with_char_def Let_def)

lemma replaced_block:
  "replaced_contents a (build_block f snippet opn) tail =
    (a @ (if a = [] \<or> last a \<in> {CHR 0x0A, CHR 0x0D} then [] else [CHR 0x0A])) @ build_block f snippet opn @ tail"
  using block_ends [of _ f snippet opn]
  by (auto simp: replaced_contents_def ends_with_char_def Let_def)

lemma locate_parts:
  assumes "locate_block c (fst (markers f)) (snd (markers f)) = Some (before, existing, tail)"
  shows "c = before @ existing @ tail \<and> \<not> str_contains before (fst (markers f))"
proof -
  obtain r where s: "split_once (fst (markers f)) c = Some (before, r)"
    and e: "before @ existing @ tail = before @ fst (markers f) @ r"
    using assms by (auto simp: locate_block_def dest!: split_once_Some split: option.splits list.splits char.splits bool.splits)
  show ?thesis using split_once_Some [OF s] e split_once_first [OF s marker_facts(1)] by (simp add: str_contains_def)
qed

lemma trim_end_blank_append: "set b \<subseteq> {CHR 0x0A, CHR '' ''} \<Longrightarrow> trim_end_blank (a @ b) = trim_end_blank a"
  unfolding trim_end_blank_def rev_append by (subst dropWhile_append2) auto

text \<open>C27: Taking the block out undoes putting it in: if a start-up file without a start marker gets the block and then
  loses it, its text is what it was, up to line feeds and spaces at its end. Paths are the ones that
  do not hold the end marker themselves.\<close>

theorem disable_undoes_enable:
  assumes "enable w req fs = (fs1, Inr res)" and "disable w dreq fs1 = (fs2, Inr res2)" and "\<not> eq_dry_run req"
    and "dreq = \<lparr>dq_flavor = eq_flavor req, dq_rc_path = eq_rc_path req, dq_dry_run = False\<rparr>"
    and "read_text w fs (se_rc_path res) = Some c" and "\<not> str_contains c (fst (markers (eq_flavor req)))"
    and "marker_free (eq_flavor req) (the (se_snippet_path res))" and "\<And>p. se_opening_path res = Some p \<Longrightarrow> marker_free (eq_flavor req) p"
  shows "se_action res = Added \<and> se_action res2 = Removed \<and> fs2 (se_rc_path res) = Some (Text (tidy c))"
proof -
  let ?f = "eq_flavor req" and ?rc = "se_rc_path res"
  have rc: "resolve_rc_path w ?f (eq_rc_path req) = Inr ?rc" using assms(1,3) by (rule enable_result) blast
  have c: "rc_contents w fs ?rc = c" by (simp add: rc_contents_def assms(5))
  have "split_once (fst (markers ?f)) c = None" using assms(6) unfolding str_contains_def by blast
  then have added: "se_action res = Added" "fs1 ?rc = Some (Text ((c @ separator c) @ block_of req res))"
    using enable_outcome [OF assms(1,3)] unfolding c by (simp_all add: locate_block_def block_of_def added_block)
  have "\<not> dq_dry_run dreq" by (simp add: assms(4))
  note dis = disable_outcome [OF assms(2) this]
  have same: "se_rc_path res2 = ?rc" using dis(1) rc assms(4) by simp
  have "sw_readable w ?rc" using assms(5) by (simp add: read_text_def split: if_splits)
  then have c1: "rc_contents w fs1 ?rc = (c @ separator c) @ block_of req res @ []"
    using added(2) by (simp add: rc_contents_def read_text_def)
  have "\<not> str_contains (c @ separator c) (fst (markers ?f))"
  proof -
    have "\<not> str_contains [] (fst (markers ?f))" using marker_facts(1) [of ?f] by (simp add: str_contains_iff)
    then show ?thesis using assms(6) line_contains [OF marker_facts(1,3), of c "[]" ?f] line_contains [OF marker_facts(1,3), of "c @ [CHR 0x0A]" "[]" ?f]
      by (simp add: separator_def)
  qed
  moreover have "c @ separator c = [] \<or> last (c @ separator c) \<in> {CHR 0x0A, CHR 0x0D}" by (simp add: separator_def)
  ultimately have "locate_block (rc_contents w fs1 ?rc) (fst (markers ?f)) (snd (markers ?f)) = Some (c @ separator c, block_of req res, [])"
    unfolding c1 block_of_def using assms(7,8) by (intro locate_built)
  moreover have "rc_contents w fs1 ?rc \<noteq> []" by (simp add: c1 block_of_def build_block_def)
  ultimately have "se_action res2 = Removed \<and> fs2 ?rc = Some (Text (disabled_contents (c @ separator c) []))"
    using dis(2) same assms(4) by simp
  moreover have "trim_end_blank (c @ separator c) = trim_end_blank c" by (rule trim_end_blank_append) (simp add: separator_def)
  ultimately show ?thesis using added(1) by (simp add: disabled_contents_def tidy_def Let_def)
qed

text \<open>Enabling keeps the text of the user: when it writes the start-up file, everything that was in it
  before and after the located block, or all of it when there is none, is in the new text in the same
  order, and nothing is added but line feeds and the block.\<close>

theorem enable_keeps_text:
  assumes "enable w req fs = (fs1, Inr res)" and "\<not> eq_dry_run req" and "read_text w fs (se_rc_path res) = Some c"
    and "se_action res \<noteq> AlreadyPresent"
  shows "\<exists>before existing tail gap. c = before @ existing @ tail \<and> set gap \<subseteq> {CHR 0x0A} \<and>
    fs1 (se_rc_path res) = Some (Text (before @ gap @ block_of req res @ tail)) \<and>
    (existing = [] \<or> locate_block c (fst (markers (eq_flavor req))) (snd (markers (eq_flavor req))) = Some (before, existing, tail))"
proof (cases "locate_block c (fst (markers (eq_flavor req))) (snd (markers (eq_flavor req)))")
  case None
  then have "fs1 (se_rc_path res) = Some (Text (c @ separator c @ block_of req res @ []))"
    using enable_outcome [OF assms(1,2)] by (simp add: rc_contents_def assms(3) block_of_def added_block)
  moreover have "set (separator c) \<subseteq> {CHR 0x0A}" by (simp add: separator_def)
  ultimately show ?thesis by (intro exI [of _ c] exI [of _ "[]"] exI [of _ "[]"] exI [of _ "separator c"]) simp
next
  case (Some t)
  then obtain before existing tail where l: "locate_block c (fst (markers (eq_flavor req))) (snd (markers (eq_flavor req))) = Some (before, existing, tail)"
    by (cases t) auto
  let ?gap = "if before = [] \<or> last before \<in> {CHR 0x0A, CHR 0x0D} then [] else [CHR 0x0A]"
  have "fs1 (se_rc_path res) = Some (Text (before @ ?gap @ block_of req res @ tail))"
    using enable_outcome [OF assms(1,2)] assms(4) l by (simp add: rc_contents_def assms(3) block_of_def replaced_block)
  then show ?thesis using locate_parts [OF l] l
    by (intro exI [of _ before] exI [of _ existing] exI [of _ tail] exI [of _ ?gap]) simp
qed

lemma separated:
  assumes "\<not> str_contains a (fst (markers f))"
  shows "\<not> str_contains (a @ separator a) (fst (markers f))" "\<not> str_contains (a @ [CHR 0x0A]) (fst (markers f))"
proof -
  have "\<not> str_contains [] (fst (markers f))" using marker_facts(1) [of f] by (simp add: str_contains_iff)
  then show "\<not> str_contains (a @ separator a) (fst (markers f))" "\<not> str_contains (a @ [CHR 0x0A]) (fst (markers f))"
    using assms line_contains [OF marker_facts(1,3), of a "[]" f] line_contains [OF marker_facts(1,3), of "a @ [CHR 0x0A]" "[]" f]
    by (simp_all add: separator_def)
qed

lemma enable_writes_block:
  assumes "enable w req fs = (fs1, Inr res)" "\<not> eq_dry_run req" "sw_readable w (se_rc_path res)"
    "se_action res = Updated \<or> se_action res = Added \<and> \<not> str_contains (rc_contents w fs (se_rc_path res)) (fst (markers (eq_flavor req)))"
    "marker_free (eq_flavor req) (the (se_snippet_path res))" "\<And>p. se_opening_path res = Some p \<Longrightarrow> marker_free (eq_flavor req) p"
  shows "\<exists>pre tail. locate_block (rc_contents w fs1 (se_rc_path res)) (fst (markers (eq_flavor req))) (snd (markers (eq_flavor req))) =
    Some (pre, block_of req res, tail)"
proof -
  let ?f = "eq_flavor req" and ?rc = "se_rc_path res" and ?c = "rc_contents w fs (se_rc_path res)"
  have "\<exists>pre tail. fs1 ?rc = Some (Text (pre @ block_of req res @ tail)) \<and>
      (pre = [] \<or> last pre \<in> {CHR 0x0A, CHR 0x0D}) \<and> \<not> str_contains pre (fst (markers ?f))"
  proof (cases "locate_block ?c (fst (markers ?f)) (snd (markers ?f))")
    case None
    then have "fs1 ?rc = Some (Text ((?c @ separator ?c) @ block_of req res @ []))" "se_action res = Added"
      using enable_outcome [OF assms(1,2)] by (simp_all add: block_of_def added_block)
    moreover have "?c @ separator ?c = [] \<or> last (?c @ separator ?c) \<in> {CHR 0x0A, CHR 0x0D}" by (simp add: separator_def)
    ultimately show ?thesis using separated(1) assms(4) shell_action.distinct by metis
  next
    case (Some t)
    then obtain before existing tail where l: "locate_block ?c (fst (markers ?f)) (snd (markers ?f)) = Some (before, existing, tail)"
      by (cases t) auto
    have "se_action res = Updated" "fs1 ?rc = Some (Text (replaced_contents before (block_of req res) tail))"
      using enable_outcome [OF assms(1,2)] l assms(4) by auto
    then show ?thesis using locate_parts [OF l] separated(2) [of before ?f] marker_facts(1) [of ?f]
      by (intro exI [of _ "before @ (if before = [] \<or> last before \<in> {CHR 0x0A, CHR 0x0D} then [] else [CHR 0x0A])"] exI [of _ tail])
        (simp add: block_of_def replaced_block)
  qed
  then obtain pre tail where p: "fs1 ?rc = Some (Text (pre @ block_of req res @ tail))"
    "pre = [] \<or> last pre \<in> {CHR 0x0A, CHR 0x0D}" "\<not> str_contains pre (fst (markers ?f))" by blast
  have "rc_contents w fs1 ?rc = pre @ block_of req res @ tail" by (simp add: rc_contents_def read_text_def assms(3) p(1))
  then show ?thesis using locate_built [OF assms(5,6) p(2,3), where tail = tail] unfolding block_of_def by auto
qed

text \<open>Enabling twice is enabling once: after a block was written, the same request, whose paths resolve as
  before, finds it present and changes no file.\<close>

theorem enable_idempotent:
  assumes "enable w req fs = (fs1, Inr res)" and "\<not> eq_dry_run req" and "sw_readable w (se_rc_path res)"
    and "se_action res = Updated \<or> se_action res = Added \<and> \<not> str_contains (rc_contents w fs (se_rc_path res)) (fst (markers (eq_flavor req)))"
    and "marker_free (eq_flavor req) (the (se_snippet_path res))" and "\<And>p. se_opening_path res = Some p \<Longrightarrow> marker_free (eq_flavor req) p"
    and "resolve_snippet_path w fs1 (eq_flavor req) (eq_snippet_override req) = Inr (the (se_snippet_path res))"
    and "resolve_opening_path w (eq_opening_path req) True fs1 = (fs1, Inr (se_opening_path res, nts))"
  shows "\<exists>res2. enable w req fs1 = (fs1, Inr res2) \<and> se_action res2 = AlreadyPresent"
proof -
  obtain pre tail where l: "locate_block (rc_contents w fs1 (se_rc_path res)) (fst (markers (eq_flavor req))) (snd (markers (eq_flavor req))) =
    Some (pre, block_of req res, tail)" using enable_writes_block [OF assms(1-6)] by blast
  have "resolve_rc_path w (eq_flavor req) (eq_rc_path req) = Inr (se_rc_path res)"
    using assms(1,2) by (rule enable_result) blast
  then show ?thesis using assms(2,7,8) l
    by (simp add: enable_def enable_rc_def rc_contents_def Let_def block_of_def blocks_equivalent_def)
qed

text \<open>A dry run changes no file, whatever it finds.\<close>

theorem dry_run_changes_nothing:
  "fst (enable w (req\<lparr>eq_dry_run := True\<rparr>) fs) = fs \<and> fst (disable w (dreq\<lparr>dq_dry_run := True\<rparr>) fs) = fs"
proof
  have o: "fst (resolve_opening_path w p False fs) = fs" for p
    by (simp add: resolve_opening_path_def Let_def split: option.split)
  have e: "fst (enable_rc w (req\<lparr>eq_dry_run := True\<rparr>) rc snippet opn nts c fs') = fs'" for rc snippet opn nts c fs'
    by (auto simp: enable_rc_def Let_def split: option.split)
  show "fst (enable w (req\<lparr>eq_dry_run := True\<rparr>) fs) = fs"
    using o [of "eq_opening_path req"] e by (auto simp: enable_def split: sum.split prod.split)
  show "fst (disable w (dreq\<lparr>dq_dry_run := True\<rparr>) fs) = fs"
    by (auto simp: disable_def Let_def split: sum.split option.split prod.split)
qed

section \<open>Lost text\<close>

text \<open>A start-up file that is not UTF-8, or cannot be read, is taken for an empty one: enabling replaces all of
  it by the block (only the backup keeps the text).\<close>

theorem unreadable_rc_overwritten:
  assumes "enable w req fs = (fs1, Inr res)" and "\<not> eq_dry_run req" and "read_text w fs (se_rc_path res) = None"
  shows "se_action res = Added \<and> fs1 (se_rc_path res) = Some (Text (block_of req res))"
proof -
  have "locate_block [] (fst (markers (eq_flavor req))) (snd (markers (eq_flavor req))) = None"
    using marker_facts(1) by (simp add: locate_block_def)
  then show ?thesis using enable_outcome [OF assms(1,2)]
    by (simp add: rc_contents_def assms(3) block_of_def added_block separator_def)
qed

text \<open>A start marker without an end marker, as a user leaves it who deletes the block by hand, makes the two
  commands lose text: enabling adds a second block, and disabling then removes everything from the
  stale marker to the end of the new block.\<close>

theorem stale_marker_loses_text:
  assumes "enable w req fs = (fs1, Inr res)" and "disable w dreq fs1 = (fs2, Inr res2)" and "\<not> eq_dry_run req"
    and "dreq = \<lparr>dq_flavor = eq_flavor req, dq_rc_path = eq_rc_path req, dq_dry_run = False\<rparr>"
    and "read_text w fs (se_rc_path res) = Some (a @ fst (markers (eq_flavor req)) @ x)"
    and "a = [] \<or> last a = CHR 0x0A" and "\<not> str_contains a (fst (markers (eq_flavor req)))"
    and "\<not> str_contains (fst (markers (eq_flavor req)) @ x) (snd (markers (eq_flavor req)))"
    and "marker_free (eq_flavor req) (the (se_snippet_path res))" and "\<And>p. se_opening_path res = Some p \<Longrightarrow> marker_free (eq_flavor req) p"
  shows "fs2 (se_rc_path res) = Some (Text (tidy a))"
proof -
  let ?f = "eq_flavor req" and ?rc = "se_rc_path res"
  let ?s = "fst (markers ?f)" and ?e = "snd (markers ?f)" and ?c = "a @ fst (markers ?f) @ x"
  let ?body = "block_body ?f (the (se_snippet_path res)) (se_opening_path res)"
  have rc: "resolve_rc_path w ?f (eq_rc_path req) = Inr ?rc" using assms(1,3) by (rule enable_result) blast
  have c: "rc_contents w fs ?rc = ?c" by (simp add: rc_contents_def assms(5))
  have last: "a = [] \<or> last a \<notin> set ?s" using assms(6) marker_facts(3) [of ?f] by auto
  then have first: "split_once ?s (a @ ?s @ y) = Some (a, y)" for y
    using split_once_after marker_facts(1) assms(7) by blast
  have "split_once ?e (?s @ x) = None" using assms(8) unfolding str_contains_def by blast
  then have "locate_block ?c ?s ?e = None" by (simp add: locate_block_def first)
  then have "fs1 ?rc = Some (Text ((?c @ separator ?c) @ block_of req res))"
    using enable_outcome [OF assms(1,3)] unfolding c by (simp add: block_of_def added_block)
  moreover have "sw_readable w ?rc" using assms(5) by (simp add: read_text_def split: if_splits)
  ultimately have c1: "rc_contents w fs1 ?rc = a @ ?s @ (x @ separator ?c) @ block_of req res"
    by (simp add: rc_contents_def read_text_def)
  have "separator ?c = butlast (separator ?c) @ [CHR 0x0A] \<and> (butlast (separator ?c) = [] \<or> butlast (separator ?c) = [CHR 0x0A])"
    using marker_facts(1) [of ?f] by (simp add: separator_def)
  then obtain gap where gap: "separator ?c = gap @ [CHR 0x0A]" "gap = [] \<or> gap = [CHR 0x0A]" by blast
  have "\<not> str_contains ((?s @ x) @ gap) ?e"
    using gap(2) assms(8) line_contains [OF marker_facts(2,5), of "?s @ x" "[]" ?f] marker_facts(2) [of ?f]
    by (auto simp: str_contains_iff)
  then have "\<not> str_contains (((?s @ x) @ gap) @ [CHR 0x0A] @ ?body) ?e"
    using line_contains [OF marker_facts(2,5)] body_contains_no_end [OF assms(9,10)] by blast
  moreover have "last ((((?s @ x) @ gap) @ [CHR 0x0A]) @ ?body) \<notin> set ?e"
    using marker_facts(5) [of ?f] by (simp add: block_body_def)
  ultimately have "split_once ?e ((((?s @ x) @ gap) @ [CHR 0x0A] @ ?body) @ ?e @ [CHR 0x0A]) =
      Some (((?s @ x) @ gap) @ [CHR 0x0A] @ ?body, [CHR 0x0A])"
    by (intro split_once_after [OF marker_facts(2)]) simp_all
  then have "locate_block (rc_contents w fs1 ?rc) ?s ?e =
      Some (a, (((?s @ x) @ gap) @ [CHR 0x0A] @ ?body) @ ?e @ [CHR 0x0A], [])"
    using first [of "x @ gap @ [CHR 0x0A] @ ?body @ ?e @ [CHR 0x0A]"]
    by (simp add: locate_block_def c1 gap(1) block_of_def build_block_body)
  moreover have "rc_contents w fs1 ?rc \<noteq> []" using marker_facts(1) [of ?f] by (simp add: c1)
  moreover have "\<not> dq_dry_run dreq" by (simp add: assms(4))
  note dis = disable_outcome [OF assms(2) this]
  moreover have "se_rc_path res2 = ?rc" using dis(1) rc assms(4) by simp
  ultimately show ?thesis by (simp add: disabled_contents_def tidy_def Let_def assms(4))
qed

section \<open>Witnesses\<close>

definition demo_sw :: shell_world where
  "demo_sw = \<lparr>sw_home = Some ''/h'', sw_cwd = None, sw_shell = None, sw_canon = (\<lambda>_ p. Some p), sw_exists = (\<lambda>fs p. fs p \<noteq> None),
     sw_readable = (\<lambda>_. True), sw_mkdir_fault = (\<lambda>_. None), sw_copy_fault = (\<lambda>_ _. None), sw_write_fault = (\<lambda>_. None), sw_seconds = ''1''\<rparr>"

definition demo_enable :: enable_request where
  "demo_enable = \<lparr>eq_flavor = Zsh, eq_rc_path = None, eq_snippet_override = Some ''/s'', eq_opening_path = Some ''/o'', eq_dry_run = False\<rparr>"

definition demo_disable :: disable_request where
  "demo_disable = \<lparr>dq_flavor = Zsh, dq_rc_path = None, dq_dry_run = False\<rparr>"

definition demo_files :: "content \<Rightarrow> files" where
  "demo_files c = (\<lambda>p. if p = ''/h/.zshrc'' then Some c else if p = ''/o'' then Some (Text ''y'') else None)"

definition demo_result :: "content \<Rightarrow> shell_edit_result" where
  "demo_result c = (case snd (enable demo_sw demo_enable (demo_files c)) of Inr r \<Rightarrow> r)"

lemma demo_located:
  "locate_block ''x'' (fst (markers Zsh)) (snd (markers Zsh)) = None"
  "locate_block (''x'' @ [CHR 0x0A] @ fst (markers Zsh) @ [CHR 0x0A] @ ''y'') (fst (markers Zsh)) (snd (markers Zsh)) = None"
  "locate_block [] (fst (markers Zsh)) (snd (markers Zsh)) = None"
  by code_simp+

lemma demo_paths:
  "path_join ''/h'' ''.zshrc'' = ''/h/.zshrc''" "path_parent ''/h/.zshrc'' = Some ''/h''" "path_file_name ''/h/.zshrc'' = Some ''.zshrc''"
  by code_simp+

lemma demo_saves:
  obtains fs1 where "save_rc demo_sw ''/h/.zshrc'' s fs = (fs1, Inr ())"
proof -
  have "snd (save_rc demo_sw ''/h/.zshrc'' s fs) = Inr ()"
    by (auto simp: save_rc_def backup_file_def fs_copy_def fs_write_def demo_sw_def Let_def split: option.split)
  with that show ?thesis by (metis prod.collapse)
qed

lemma demo_runs:
  fixes c :: content
  assumes "case c of Text s \<Rightarrow> locate_block s (fst (markers Zsh)) (snd (markers Zsh)) = None | Raw _ \<Rightarrow> True"
  shows "enable demo_sw demo_enable (demo_files c) = (fst (enable demo_sw demo_enable (demo_files c)), Inr (demo_result c)) \<and>
    se_rc_path (demo_result c) = ''/h/.zshrc'' \<and> se_snippet_path (demo_result c) = Some ''/s'' \<and> se_opening_path (demo_result c) = Some ''/o''"
proof -
  have rc: "resolve_rc_path demo_sw Zsh None = Inr ''/h/.zshrc''" by (simp add: resolve_rc_path_def demo_sw_def demo_paths)
  have sn: "resolve_snippet_path demo_sw fs Zsh (Some ''/s'') = Inr ''/s''" for fs
    by (simp add: resolve_snippet_path_def expand_path_def demo_sw_def)
  have op: "resolve_opening_path demo_sw (Some ''/o'') True (demo_files c) = (demo_files c, Inr (Some ''/o'', []))"
    by (simp add: resolve_opening_path_def expand_path_def demo_sw_def demo_files_def)
  have loc: "locate_block (rc_contents demo_sw (demo_files c) ''/h/.zshrc'') (fst (markers Zsh)) (snd (markers Zsh)) = None"
    using assms demo_located(3) by (cases c) (simp_all add: rc_contents_def read_text_def demo_sw_def demo_files_def)
  obtain fs2 where saved: "save_rc demo_sw ''/h/.zshrc''
      (added_contents (rc_contents demo_sw (demo_files c) ''/h/.zshrc'') (build_block Zsh ''/s'' (Some ''/o''))) (demo_files c) = (fs2, Inr ())"
    by (rule demo_saves)
  have mk: "sw_mkdir_fault demo_sw p = None" for p by (simp add: demo_sw_def)
  have "\<exists>fs1. enable demo_sw demo_enable (demo_files c) = (fs1, Inr \<lparr>se_rc_path = ''/h/.zshrc'', se_snippet_path = Some ''/s'',
      se_opening_path = Some ''/o'', se_block_preview = Some (build_block Zsh ''/s'' (Some ''/o'')), se_action = Added, se_dry_run = False,
      se_notes = [] @ [''added runloop shell block referencing /s'']\<rparr>)"
    using rc sn op loc saved
    by (simp add: enable_def enable_rc_def demo_enable_def rc_contents_def [symmetric] Let_def ensure_parent_dir_def demo_paths mk)
  then show ?thesis by (auto simp: demo_result_def)
qed

lemma demo_marker_free: "marker_free Zsh ''/s''" "marker_free Zsh ''/o''"
  by code_simp+

lemma demo_disables:
  "\<exists>fs2 res2. disable demo_sw demo_disable fs = (fs2, Inr res2)"
proof -
  have rc: "resolve_rc_path demo_sw Zsh None = Inr ''/h/.zshrc''" by (simp add: resolve_rc_path_def demo_sw_def demo_paths)
  show ?thesis
  proof (cases "locate_block (rc_contents demo_sw fs ''/h/.zshrc'') (fst (markers Zsh)) (snd (markers Zsh))")
    case None
    then show ?thesis using rc by (simp add: disable_def demo_disable_def Let_def rc_contents_def [symmetric])
  next
    case (Some t)
    obtain before existing tail where t: "t = (before, existing, tail)" by (cases t) auto
    obtain fs1 where "save_rc demo_sw ''/h/.zshrc'' (disabled_contents before tail) fs = (fs1, Inr ())" by (rule demo_saves)
    then show ?thesis using rc Some t by (simp add: disable_def demo_disable_def Let_def rc_contents_def [symmetric])
  qed
qed

theorem disable_undoes_enable_witness:
  "fst (disable demo_sw demo_disable (fst (enable demo_sw demo_enable (demo_files (Text ''x''))))) ''/h/.zshrc'' = Some (Text (''x'' @ [CHR 0x0A]))"
proof -
  let ?fs1 = "fst (enable demo_sw demo_enable (demo_files (Text ''x'')))" and ?res = "demo_result (Text ''x'')"
  have en: "enable demo_sw demo_enable (demo_files (Text ''x'')) = (?fs1, Inr ?res)" "se_rc_path ?res = ''/h/.zshrc''"
    "se_snippet_path ?res = Some ''/s''" "se_opening_path ?res = Some ''/o''"
    using demo_runs [of "Text ''x''"] demo_located(1) by simp_all
  obtain fs2 res2 where dis: "disable demo_sw demo_disable ?fs1 = (fs2, Inr res2)" using demo_disables by blast
  have "fs2 (se_rc_path ?res) = Some (Text (tidy ''x''))"
  proof (rule disable_undoes_enable [OF en(1) dis, THEN conjunct2, THEN conjunct2])
    show "read_text demo_sw (demo_files (Text ''x'')) (se_rc_path ?res) = Some ''x''"
      by (simp add: en(2) read_text_def demo_sw_def demo_files_def)
    show "\<not> str_contains ''x'' (fst (markers (eq_flavor demo_enable)))" by code_simp
    show "marker_free (eq_flavor demo_enable) (the (se_snippet_path ?res))" unfolding en using demo_marker_free by (simp add: demo_enable_def)
    show "marker_free (eq_flavor demo_enable) p" if "se_opening_path ?res = Some p" for p
      using demo_marker_free that unfolding en by (auto simp: demo_enable_def)
  qed (simp_all add: demo_enable_def demo_disable_def)
  moreover have "tidy ''x'' = ''x'' @ [CHR 0x0A]" by code_simp
  ultimately show ?thesis by (simp add: dis en(2))
qed

theorem enable_keeps_text_witness:
  "\<exists>before existing tail gap. ''x'' = before @ existing @ tail \<and> set gap \<subseteq> {CHR 0x0A} \<and>
    fst (enable demo_sw demo_enable (demo_files (Text ''x''))) ''/h/.zshrc'' =
      Some (Text (before @ gap @ block_of demo_enable (demo_result (Text ''x'')) @ tail))"
proof -
  let ?fs1 = "fst (enable demo_sw demo_enable (demo_files (Text ''x'')))" and ?res = "demo_result (Text ''x'')"
  have en: "enable demo_sw demo_enable (demo_files (Text ''x'')) = (?fs1, Inr ?res)" "se_rc_path ?res = ''/h/.zshrc''"
    using demo_runs [of "Text ''x''"] demo_located(1) by simp_all
  have rd: "read_text demo_sw (demo_files (Text ''x'')) (se_rc_path ?res) = Some ''x''"
    by (simp add: en(2) read_text_def demo_sw_def demo_files_def)
  have nd: "\<not> eq_dry_run demo_enable" by (simp add: demo_enable_def)
  have "se_action ?res = Added"
    using enable_outcome [OF en(1) nd] demo_located(1) by (simp add: rc_contents_def rd demo_enable_def)
  then have "se_action ?res \<noteq> AlreadyPresent" by simp
  from enable_keeps_text [OF en(1) nd rd this] show ?thesis unfolding en(2) by blast
qed

theorem enable_idempotent_witness:
  "\<exists>res2. enable demo_sw demo_enable (fst (enable demo_sw demo_enable (demo_files (Text ''x'')))) =
    (fst (enable demo_sw demo_enable (demo_files (Text ''x''))), Inr res2) \<and> se_action res2 = AlreadyPresent"
proof -
  let ?fs1 = "fst (enable demo_sw demo_enable (demo_files (Text ''x'')))" and ?res = "demo_result (Text ''x'')"
  have en: "enable demo_sw demo_enable (demo_files (Text ''x'')) = (?fs1, Inr ?res)" "se_rc_path ?res = ''/h/.zshrc''"
    "se_snippet_path ?res = Some ''/s''" "se_opening_path ?res = Some ''/o''"
    using demo_runs [of "Text ''x''"] demo_located(1) by simp_all
  have nd: "\<not> eq_dry_run demo_enable" by (simp add: demo_enable_def)
  have x: "rc_contents demo_sw (demo_files (Text ''x'')) ''/h/.zshrc'' = ''x''"
    by (simp add: rc_contents_def read_text_def demo_sw_def demo_files_def)
  have fs1: "?fs1 ''/o'' = Some (Text ''y'')" by code_simp
  show ?thesis
  proof (rule enable_idempotent [OF en(1) nd])
    show "sw_readable demo_sw (se_rc_path ?res)" by (simp add: demo_sw_def)
    have "\<not> str_contains ''x'' (fst (markers Zsh))" by code_simp
    moreover have "se_action ?res = Added"
      using enable_outcome [OF en(1) nd] demo_located(1) by (simp add: en(2) x demo_enable_def)
    ultimately show "se_action ?res = Updated \<or> se_action ?res = Added \<and>
        \<not> str_contains (rc_contents demo_sw (demo_files (Text ''x'')) (se_rc_path ?res)) (fst (markers (eq_flavor demo_enable)))"
      by (simp add: en(2) x demo_enable_def)
    show "marker_free (eq_flavor demo_enable) (the (se_snippet_path ?res))" unfolding en using demo_marker_free by (simp add: demo_enable_def)
    show "marker_free (eq_flavor demo_enable) p" if "se_opening_path ?res = Some p" for p
      using demo_marker_free that unfolding en by (auto simp: demo_enable_def)
    show "resolve_snippet_path demo_sw ?fs1 (eq_flavor demo_enable) (eq_snippet_override demo_enable) = Inr (the (se_snippet_path ?res))"
      by (simp add: en resolve_snippet_path_def expand_path_def demo_sw_def demo_enable_def)
    show "resolve_opening_path demo_sw (eq_opening_path demo_enable) True ?fs1 = (?fs1, Inr (se_opening_path ?res, []))"
      using fs1 by (simp add: en resolve_opening_path_def expand_path_def demo_enable_def) (simp add: demo_sw_def)
  qed
qed

theorem unreadable_rc_overwritten_witness:
  "fst (enable demo_sw demo_enable (demo_files (Raw [0xFF]))) ''/h/.zshrc'' = Some (Text (block_of demo_enable (demo_result (Raw [0xFF]))))"
proof -
  let ?fs1 = "fst (enable demo_sw demo_enable (demo_files (Raw [0xFF])))" and ?res = "demo_result (Raw [0xFF])"
  have en: "enable demo_sw demo_enable (demo_files (Raw [0xFF])) = (?fs1, Inr ?res)" "se_rc_path ?res = ''/h/.zshrc''"
    using demo_runs [of "Raw [0xFF]"] by simp_all
  have "se_action ?res = Added \<and> ?fs1 (se_rc_path ?res) = Some (Text (block_of demo_enable ?res))"
    by (rule unreadable_rc_overwritten [OF en(1)]) (simp_all add: demo_enable_def en(2) read_text_def demo_files_def)
  then show ?thesis by (simp add: en(2))
qed

theorem stale_marker_loses_text_witness:
  "fst (disable demo_sw demo_disable (fst (enable demo_sw demo_enable
      (demo_files (Text (''x'' @ [CHR 0x0A] @ fst (markers Zsh) @ [CHR 0x0A] @ ''y'')))))) ''/h/.zshrc'' = Some (Text (''x'' @ [CHR 0x0A]))"
proof -
  let ?c = "''x'' @ [CHR 0x0A] @ fst (markers Zsh) @ [CHR 0x0A] @ ''y''"
  let ?fs1 = "fst (enable demo_sw demo_enable (demo_files (Text ?c)))" and ?res = "demo_result (Text ?c)"
  have en: "enable demo_sw demo_enable (demo_files (Text ?c)) = (?fs1, Inr ?res)" "se_rc_path ?res = ''/h/.zshrc''"
    "se_snippet_path ?res = Some ''/s''" "se_opening_path ?res = Some ''/o''"
    using demo_runs [of "Text ?c"] demo_located(2) by simp_all
  obtain fs2 res2 where dis: "disable demo_sw demo_disable ?fs1 = (fs2, Inr res2)" using demo_disables by blast
  have "fs2 (se_rc_path ?res) = Some (Text (tidy (''x'' @ [CHR 0x0A])))"
  proof (rule stale_marker_loses_text [OF en(1) dis])
    show "read_text demo_sw (demo_files (Text ?c)) (se_rc_path ?res) = Some ((''x'' @ [CHR 0x0A]) @ fst (markers (eq_flavor demo_enable)) @ [CHR 0x0A] @ ''y'')"
      unfolding en(2) by (simp add: read_text_def demo_sw_def demo_files_def demo_enable_def)
    show "\<not> str_contains (''x'' @ [CHR 0x0A]) (fst (markers (eq_flavor demo_enable)))" by code_simp
    show "\<not> str_contains (fst (markers (eq_flavor demo_enable)) @ [CHR 0x0A] @ ''y'') (snd (markers (eq_flavor demo_enable)))" by code_simp
    show "marker_free (eq_flavor demo_enable) (the (se_snippet_path ?res))" unfolding en using demo_marker_free by (simp add: demo_enable_def)
    show "marker_free (eq_flavor demo_enable) p" if "se_opening_path ?res = Some p" for p
      using demo_marker_free that unfolding en by (auto simp: demo_enable_def)
  qed (simp_all add: demo_enable_def demo_disable_def)
  moreover have "tidy (''x'' @ [CHR 0x0A]) = ''x'' @ [CHR 0x0A]" by code_simp
  ultimately show ?thesis unfolding dis en(2) by simp
qed

end
