(* ===== verification/Agents_Common.thy ===== *)
theory Agents_Common
  imports Kb_Query Model_Broker
begin

text \<open>
  What the native agents share (\<open>crates/agents/common/src/lib.rs\<close>): their context, errors and data, and
  the operations on the knowledge base. An operation takes the state and returns the new one with an
  error or a value; \<open>None\<close> is a call that never returns or a panic. The SQL engine, the broker, the
  operator, the files and the random identifiers are fields of \<open>agent_world\<close>; what an operation does to
  the world besides the knowledge base is appended to a log.
\<close>

section \<open>Data\<close>

datatype agent_error =
    AgentKb kb_error
  | AgentModel broker_error
  | AgentIo string
  | AgentSerialization string
  | ConfirmationUnavailable
  | ConfirmationDeclined
  | AgentInvalidInput string
  | AgentOther string

record resolved_contact =
  rct_contact_id :: string
  rct_name :: string
  rct_email :: string
  rct_org :: "string option"
  rct_confidence :: f32
  rct_last_event_id :: "int option"

record context_snippet =
  cs_title :: string
  cs_excerpt :: string
  cs_event_id :: int

record context_bundle =
  cb_topic :: string
  cb_snippets :: "context_snippet list"

record draft_artifact =
  da_artifact_id :: int
  da_path :: string
  da_sha256 :: string
  da_body_md :: string
  da_rationale :: string
  da_citations :: "int list"
  da_word_count :: nat

record review_notes =
  rvn_summary :: string
  rvn_suggestions :: "string list"

record review =
  rv_ok :: bool
  rv_notes :: review_notes

record mail_result =
  ml_status :: string
  ml_recipients :: "string list"
  ml_artifact_id :: int
  ml_message_id :: string
  ml_delivered_at_ms :: u64

record action_proposal =
  ap_id :: string
  ap_trace_id :: u128
  ap_opening_id :: u128
  ap_agent :: u128
  ap_summary :: string
  ap_recipients :: "string list"
  ap_artifact_path :: string

record action_decision =
  ad_approved :: bool
  ad_rationale :: "string option"

definition decision_approved :: "string option \<Rightarrow> action_decision" where
  "decision_approved r = \<lparr>ad_approved = True, ad_rationale = r\<rparr>"

definition decision_rejected :: "string option \<Rightarrow> action_decision" where
  "decision_rejected r = \<lparr>ad_approved = False, ad_rationale = r\<rparr>"

section \<open>World, state and context\<close>

record agent_world =
  ag_kb :: kb_env
  ag_redactor :: redactor
  ag_views_sql :: "views \<Rightarrow> string \<Rightarrow> string + statement"
  ag_events_sql :: "event_row list \<Rightarrow> string \<Rightarrow> string + statement"
  ag_complete :: "nat \<Rightarrow> model_request \<Rightarrow> broker_error + model_output"
  ag_operator :: "nat \<Rightarrow> action_proposal \<Rightarrow> agent_error + action_decision"
  ag_mkdir_fault :: "string \<Rightarrow> string option"
  ag_write_fault :: "string \<Rightarrow> string option"
  ag_uuid :: "nat \<Rightarrow> string"
  ag_new_id :: "nat \<Rightarrow> u128"
  ag_sha256 :: "bytes \<Rightarrow> bytes"

datatype agent_effect =
    Asked action_proposal "agent_error + action_decision"
  | WroteFile string string
  | Printed string

record agent_state =
  as_kb :: kb_state
  as_ticks :: nat
  as_log :: "agent_effect list"

text \<open>A provider of confirmations: the one the program was started with, or a decision taken before.\<close>

datatype confirmation_provider = Operator | PreApproved action_decision

record agent_context =
  ac_has_broker :: bool
  ac_workdir :: string
  ac_trace_id :: u128
  ac_opening_id :: u128
  ac_agent_id :: u128
  ac_confirmation :: "confirmation_provider option"

type_synonym ('e, 'a) world_op = "agent_state \<Rightarrow> (agent_state \<times> ('e + 'a)) option"
type_synonym 'a agent_op = "(agent_error, 'a) world_op"

definition areturn :: "'a \<Rightarrow> ('e, 'a) world_op" where
  "areturn a s = Some (s, Inr a)"

definition afail :: "'e \<Rightarrow> ('e, 'a) world_op" where
  "afail e s = Some (s, Inl e)"

definition abind :: "('e, 'a) world_op \<Rightarrow> ('a \<Rightarrow> ('e, 'b) world_op) \<Rightarrow> ('e, 'b) world_op" where
  "abind m f s =
    (case m s of
       None \<Rightarrow> None
     | Some (s, Inl e) \<Rightarrow> Some (s, Inl e)
     | Some (s, Inr a) \<Rightarrow> f a s)"

definition of_result :: "'e + 'a \<Rightarrow> ('e, 'a) world_op" where
  "of_result r s = Some (s, r)"

definition alog :: "agent_effect \<Rightarrow> ('e, unit) world_op" where
  "alog x s = Some (s\<lparr>as_log := as_log s @ [x]\<rparr>, Inr ())"

text \<open>A number that no two calls share: it stands for the moment at which the world is asked.\<close>

definition atick :: "('e, nat) world_op" where
  "atick s = Some (s\<lparr>as_ticks := Suc (as_ticks s)\<rparr>, Inr (as_ticks s))"

section \<open>Operations of the context\<close>

definition ensure_views :: "agent_world \<Rightarrow> unit agent_op" where
  "ensure_views w s =
    (case catch_up (ag_kb w) DEFAULT_BATCH (as_kb s) of
       None \<Rightarrow> None
     | Some (kb, r) \<Rightarrow> Some (s\<lparr>as_kb := kb\<rparr>, map_sum AgentKb id r))"

definition kb_propose :: "agent_world \<Rightarrow> state_delta \<Rightarrow> int agent_op" where
  "kb_propose w d s =
    (case propose (ag_kb w) d (ks_ledger (as_kb s)) of
       (lg, r) \<Rightarrow> Some (s\<lparr>as_kb := (as_kb s)\<lparr>ks_ledger := lg\<rparr>\<rparr>, map_sum AgentKb id r))"

definition propose_event :: "agent_world \<Rightarrow> agent_context \<Rightarrow> string \<Rightarrow> json \<Rightarrow> string option \<Rightarrow> int agent_op" where
  "propose_event w ctx kind payload rationale =
    abind (kb_propose w
      \<lparr>sd_kind = kind, sd_actor = agent_label (ag_kb w) (ac_agent_id ctx), sd_scope = Some ''user'', sd_payload = payload,
       sd_provenance = \<lparr>pv_trace_id = trace_label (ag_kb w) (ac_trace_id ctx), pv_opening_id = opening_label (ag_kb w) (ac_opening_id ctx),
         pv_agent_id = agent_label (ag_kb w) (ac_agent_id ctx), pv_inputs_hash = None, pv_rationale = rationale\<rparr>\<rparr>)
      (\<lambda>i. abind (ensure_views w) (\<lambda>_. areturn i))"

definition complete_model :: "agent_world \<Rightarrow> agent_context \<Rightarrow> model_request \<Rightarrow> model_output agent_op" where
  "complete_model w ctx req =
    (if ac_has_broker ctx then abind atick (\<lambda>n. of_result (map_sum AgentModel id (ag_complete w n req)))
     else afail (AgentOther ''model broker unavailable for this invocation''))"

definition artifacts_dir :: "agent_context \<Rightarrow> string" where
  "artifacts_dir ctx = path_join (ac_workdir ctx) ''artifacts''"

definition confirm :: "agent_world \<Rightarrow> confirmation_provider \<Rightarrow> action_proposal \<Rightarrow> action_decision agent_op" where
  "confirm w provider proposal =
    (case provider of
       PreApproved d \<Rightarrow> areturn d
     | Operator \<Rightarrow> abind atick (\<lambda>n.
         let answer = ag_operator w n proposal in abind (alog (Asked proposal answer)) (\<lambda>_. of_result answer)))"

definition write_file :: "agent_world \<Rightarrow> string \<Rightarrow> string \<Rightarrow> string \<Rightarrow> unit agent_op" where
  "write_file w dir path text_body =
    (case ag_mkdir_fault w dir of
       Some err \<Rightarrow> afail (AgentIo err)
     | None \<Rightarrow> (case ag_write_fault w path of
         Some err \<Rightarrow> afail (AgentIo err)
       | None \<Rightarrow> alog (WroteFile path text_body)))"

definition kb_query :: "agent_world \<Rightarrow> string \<Rightarrow> redaction_context \<Rightarrow> json list agent_op" where
  "kb_query w sql rx s =
    Some (s, map_sum AgentKb qr_rows (query_with_ctx (ag_kb w) (ag_redactor w) rx (ag_views_sql w (ks_views (as_kb s)) sql)))"

definition kb_query_events :: "agent_world \<Rightarrow> string \<Rightarrow> json list agent_op" where
  "kb_query_events w sql s =
    Some (s, map_sum AgentKb qr_rows (query_events (ag_kb w) (ag_redactor w) (ag_events_sql w) sql (as_kb s)))"

section \<open>Floats and numbers in payloads\<close>

definition f32_magnitude :: "f32 \<Rightarrow> nat" where "f32_magnitude f = unat f mod 2 ^ 31"
definition f32_sign :: "f32 \<Rightarrow> bool" where "f32_sign f = (2 ^ 31 \<le> unat f)"
definition f32_infinity :: nat where "f32_infinity = 255 * 2 ^ 23"
definition f32_is_nan :: "f32 \<Rightarrow> bool" where "f32_is_nan f = (f32_infinity < f32_magnitude f)"

definition f32_fraction :: "f32 \<Rightarrow> nat \<times> nat" where
  "f32_fraction f =
    (let x = f32_magnitude f div 2 ^ 23; frac = f32_magnitude f mod 2 ^ 23;
         sig = (if x = 0 then frac else 2 ^ 23 + frac); e = int (max x 1) - 150
     in (sig * 2 ^ nat e, 2 ^ nat (- e)))"

definition f32_to_f64 :: "f32 \<Rightarrow> f64" where
  "f32_to_f64 f =
    (if f32_is_nan f then f64_make (f32_sign f) (f64_infinity + 2 ^ 51 + (f32_magnitude f mod 2 ^ 22) * 2 ^ 29)
     else if f32_magnitude f = f32_infinity then f64_make (f32_sign f) f64_infinity
     else case f32_fraction f of (a, b) \<Rightarrow> f64_make (f32_sign f) (round_ratio 52 1023 a b))"

text \<open>The sum of two floats: exact, then rounded once; a sum of exactly zero is positive unless both are negative.\<close>

definition f32_add :: "f32 \<Rightarrow> f32 \<Rightarrow> f32" where
  "f32_add a b =
    (if f32_is_nan a \<or> f32_is_nan b then 0x7FC00000
     else if f32_magnitude a = f32_infinity then
       (if f32_magnitude b = f32_infinity \<and> f32_sign a \<noteq> f32_sign b then 0x7FC00000 else a)
     else if f32_magnitude b = f32_infinity then b
     else
       (case (f32_fraction a, f32_fraction b) of
          ((na, da), (nb, db)) \<Rightarrow>
            let x = (if f32_sign a then - int (na * db) else int (na * db)) + (if f32_sign b then - int (nb * da) else int (nb * da));
                neg = (if x = 0 then f32_sign a \<and> f32_sign b else x < 0)
            in of_nat ((if neg then 2 ^ 31 else 0) + round_ratio 23 127 (nat \<bar>x\<bar>) (da * db))))"

definition f32_lt :: "f32 \<Rightarrow> f32 \<Rightarrow> bool" where
  "f32_lt a b = f64_lt (f32_to_f64 a) (f32_to_f64 b)"

text \<open>\<open>f32::min\<close>: the other number if one is a NaN.\<close>

definition f32_min :: "f32 \<Rightarrow> f32 \<Rightarrow> f32" where
  "f32_min a b = (if f32_is_nan a then b else if f32_is_nan b then a else if f32_lt b a then b else a)"

definition json_int :: "int \<Rightarrow> json" where
  "json_int i = JNumber (if 0 \<le> i then PosInt (word_of_int i) else NegInt (word_of_int i))"

definition json_f32 :: "f32 \<Rightarrow> json" where
  "json_f32 f = (if f32_magnitude f < f32_infinity then JNumber (Float (f32_to_f64 f)) else JNull)"

definition contact_payload :: "resolved_contact \<Rightarrow> f32 \<Rightarrow> json" where
  "contact_payload c trust =
    JObject ([(''name'', JString (rct_name c)), (''email'', JString (rct_email c)), (''trust'', json_f32 trust), (''evidence'', JArray [])] @
      (case rct_org c of Some org \<Rightarrow> [(''org'', JString org)] | None \<Rightarrow> []))"

end
