(* ===== verification/Agents_Native.thy ===== *)
theory Agents_Native
  imports Agents_Common
begin

text \<open>
  The native agents (\<open>crates/agents/contact_resolver\<close>, \<open>context_gatherer\<close>, \<open>writer\<close>, \<open>critic\<close>, \<open>mailer\<close>).
  The ellipsis of the excerpts is not a code point below 256 and is the argument \<open>dots\<close>.
\<close>

section \<open>Contact resolver\<close>

definition single_quoted :: "string \<Rightarrow> string" where
  "single_quoted s = [CHR 0x27] @ s @ [CHR 0x27]"

definition double_quotes :: "string \<Rightarrow> string" where
  "double_quotes s = concat (map (\<lambda>c. if c = CHR 0x27 then [CHR 0x27, CHR 0x27] else [c]) s)"

definition escape_like :: "string \<Rightarrow> string" where
  "escape_like input = double_quotes input"

definition contact_pattern :: "string \<Rightarrow> string" where
  "contact_pattern qry = ''%'' @ escape_like (to_ascii_lowercase qry) @ ''%''"

definition contact_sql :: "string \<Rightarrow> string" where
  "contact_sql pattern =
    ''SELECT contact_key, name, email, org, trust, source_event FROM contacts WHERE lower(name) LIKE '' @ single_quoted pattern @
    '' OR lower(email) LIKE '' @ single_quoted pattern @ '' ORDER BY trust DESC, source_event DESC LIMIT 5''"

definition score_contact :: "resolved_contact \<Rightarrow> string \<Rightarrow> f32" where
  "score_contact c qry =
    (if to_ascii_lowercase (rct_email c) = to_ascii_lowercase (trim qry) then f32_add (rct_confidence c) 0x3E99999A
     else if str_contains (to_ascii_lowercase (rct_name c)) (to_ascii_lowercase qry) then f32_add (rct_confidence c) 0x3DCCCCCD
     else rct_confidence c)"

definition row_to_contact :: "json \<Rightarrow> resolved_contact option" where
  "row_to_contact row =
    Option.bind (Option.bind (json_get row ''contact_key'') json_as_str) (\<lambda>key.
      let name = (case Option.bind (json_get row ''name'') json_as_str of Some n \<Rightarrow> n | None \<Rightarrow> ''unknown'');
          email = (case Option.bind (json_get row ''email'') json_as_str of Some e \<Rightarrow> e | None \<Rightarrow> []);
          trust = f64_to_f32 (case Option.bind (json_get row ''trust'') json_as_f64 of Some t \<Rightarrow> t | None \<Rightarrow> 0x3FE0000000000000)
      in if email = [] then None
         else Some \<lparr>rct_contact_id = ''contact:'' @ key, rct_name = name, rct_email = email,
           rct_org = Option.bind (json_get row ''org'') json_as_str, rct_confidence = f32_min trust 0x3F800000,
           rct_last_event_id = Option.bind (json_get row ''source_event'') json_as_i64\<rparr>)"

definition better_contact :: "string \<Rightarrow> json \<Rightarrow> resolved_contact option \<times> f32 \<Rightarrow> resolved_contact option \<times> f32" where
  "better_contact qry row acc =
    (case row_to_contact row of
       None \<Rightarrow> acc
     | Some c \<Rightarrow> let score = score_contact c qry in if f32_lt (snd acc) score then (Some c, score) else acc)"

definition best_contact :: "string \<Rightarrow> json list \<Rightarrow> resolved_contact option" where
  "best_contact qry rows = fst (fold (better_contact qry) rows (None, 0))"

definition lookup_contact :: "agent_world \<Rightarrow> string \<Rightarrow> resolved_contact option agent_op" where
  "lookup_contact w qry =
    (if qry = [] then areturn None
     else abind (kb_query w (contact_sql (contact_pattern qry)) (privileged_context (ag_redactor w) True))
            (\<lambda>rows. areturn (best_contact qry rows)))"

definition slug :: "string \<Rightarrow> string" where
  "slug input =
    (let s = map ascii_lower (filter (\<lambda>c. is_ascii_alphanumeric c \<or> c = CHR ''-'') input)
     in rev (dropWhile (\<lambda>c. c = CHR ''-'') (rev (dropWhile (\<lambda>c. c = CHR ''-'') s))))"

definition capitalize_words :: "string \<Rightarrow> string" where
  "capitalize_words input =
    join_str '' '' (map (\<lambda>word. case word of [] \<Rightarrow> [] | c # cs \<Rightarrow> ascii_upper c # cs) (split_whitespace input))"

definition create_stub_contact :: "agent_world \<Rightarrow> agent_context \<Rightarrow> string \<Rightarrow> resolved_contact agent_op" where
  "create_stub_contact w ctx qry =
    (let (name, email) = (if CHR 0x40 \<in> set qry then (''Unknown'', normalize_email qry)
                          else (capitalize_words qry, slug qry @ ''@unknown.local''))
     in abind (of_result (ok_or (AgentInvalidInput ''unable to derive contact key'') (derive_contact_key (ag_kb w) (Some email) (Some name) None)))
          (\<lambda>contact_key.
            let contact = \<lparr>rct_contact_id = ''contact:'' @ contact_key, rct_name = name, rct_email = email, rct_org = None,
              rct_confidence = 0x3ECCCCCD, rct_last_event_id = None\<rparr>
            in abind (propose_event w ctx ''contact.upserted'' (contact_payload contact 0x3E4CCCCD)
                  (Some (''stub created for query '' @ quoted qry)))
                (\<lambda>_. areturn contact)))"

text \<open>\<open>resolve\<close> of the contact resolver.\<close>

definition resolve_contact :: "agent_world \<Rightarrow> agent_context \<Rightarrow> string \<Rightarrow> resolved_contact agent_op" where
  "resolve_contact w ctx recipient_query =
    abind (ensure_views w) (\<lambda>_.
    abind (lookup_contact w (trim recipient_query)) (\<lambda>found.
    case found of
      Some c \<Rightarrow> areturn c
    | None \<Rightarrow> create_stub_contact w ctx (trim recipient_query)))"

section \<open>Context gatherer\<close>

record context_request =
  cr_topic :: string
  cr_contact :: "resolved_contact option"

definition normalize_like_pattern :: "string \<Rightarrow> string" where
  "normalize_like_pattern input =
    concat (map (\<lambda>c. let c = ascii_lower c in
       if c = CHR 0x27 then [CHR 0x27, CHR 0x27]
       else if c = CHR 0x5C then [CHR 0x5C, CHR 0x5C]
       else if c = CHR ''%'' then [CHR 0x5C, CHR ''%'']
       else if c = CHR ''_'' then [CHR 0x5C, CHR ''_'']
       else [c]) input)"

definition payload_like_clause :: "string \<Rightarrow> string" where
  "payload_like_clause term =
    ''LOWER(payload_json) LIKE '' @ single_quoted (''%'' @ normalize_like_pattern term @ ''%'') @ '' ESCAPE '' @ single_quoted [CHR 0x5C]"

definition snippet_clauses :: "context_request \<Rightarrow> string list" where
  "snippet_clauses req =
    (case cr_contact req of
       Some c \<Rightarrow> (if rct_email c \<noteq> [] then [payload_like_clause (rct_email c)] else []) @
                 (if rct_name c \<noteq> [] then [payload_like_clause (rct_name c)] else [])
     | None \<Rightarrow> []) @
    (if cr_topic req \<noteq> [] then [payload_like_clause (cr_topic req)] else [])"

definition snippet_sql :: "context_request \<Rightarrow> string" where
  "snippet_sql req =
    ''SELECT id, kind, payload_json FROM events WHERE '' @
    (if snippet_clauses req = [] then ''1=1'' else join_str '' OR '' (snippet_clauses req)) @ '' ORDER BY id DESC LIMIT 5''"

text \<open>A slice of a text by byte offsets; \<open>None\<close> is the panic at an offset inside a character.\<close>

definition byte_slice :: "string \<Rightarrow> nat \<Rightarrow> nat \<Rightarrow> string option" where
  "byte_slice s start stop = utf8_decode (drop start (take stop (utf8_bytes s)))"

definition summarise_payload :: "string \<Rightarrow> string \<Rightarrow> string \<Rightarrow> string option" where
  "summarise_payload dots payload topic =
    (if length (utf8_bytes payload) \<le> 120 then Some payload
     else if topic = [] then Some (take 117 payload @ dots)
     else case split_once (to_ascii_lowercase topic) (to_ascii_lowercase payload) of
            Some (before, _) \<Rightarrow>
              (let idx = length (utf8_bytes before);
                   start = idx - 30;
                   stop = min (idx + length (utf8_bytes topic) + 30) (length (utf8_bytes payload))
               in map_option (\<lambda>s. dots @ s @ dots) (byte_slice payload start stop))
          | None \<Rightarrow> Some (take 117 payload @ dots))"

text \<open>The outer \<open>None\<close> is a panic, the inner one a row that is left out.\<close>

definition row_to_snippet :: "string \<Rightarrow> json \<Rightarrow> string \<Rightarrow> context_snippet option option" where
  "row_to_snippet dots row topic =
    (case (Option.bind (json_get row ''id'') json_as_i64, Option.bind (json_get row ''kind'') json_as_str,
           Option.bind (json_get row ''payload_json'') json_as_str) of
       (Some i, Some kind, Some payload) \<Rightarrow>
         map_option (\<lambda>excerpt. Some \<lparr>cs_title = kind @ '' event'', cs_excerpt = excerpt, cs_event_id = i\<rparr>)
           (summarise_payload dots payload topic)
     | _ \<Rightarrow> Some None)"

fun rows_to_snippets :: "string \<Rightarrow> string \<Rightarrow> json list \<Rightarrow> context_snippet list option" where
  "rows_to_snippets dots topic [] = Some []"
| "rows_to_snippets dots topic (row # rows) =
    (case row_to_snippet dots row topic of
       None \<Rightarrow> None
     | Some x \<Rightarrow> map_option ((@) (case x of Some s \<Rightarrow> [s] | None \<Rightarrow> [])) (rows_to_snippets dots topic rows))"

definition collect_snippets :: "agent_world \<Rightarrow> string \<Rightarrow> context_request \<Rightarrow> context_snippet list agent_op" where
  "collect_snippets w dots req =
    abind (kb_query_events w (snippet_sql req)) (\<lambda>rows s.
      case rows_to_snippets dots (cr_topic req) rows of None \<Rightarrow> None | Some snippets \<Rightarrow> Some (s, Inr snippets))"

definition events_table_exists :: "agent_world \<Rightarrow> agent_state \<Rightarrow> bool" where
  "events_table_exists w s =
    (case query_events (ag_kb w) (ag_redactor w) (ag_events_sql w)
        (''SELECT name FROM sqlite_master WHERE type='' @ single_quoted ''table'' @ '' AND name='' @ single_quoted ''events'' @ '' LIMIT 1'') (as_kb s) of
       Inl _ \<Rightarrow> False
     | Inr res \<Rightarrow> qr_rows res \<noteq> [])"

definition fallback_snippet :: "context_request \<Rightarrow> context_snippet" where
  "fallback_snippet req =
    \<lparr>cs_title = ''No prior events for '' @ (case cr_contact req of Some c \<Rightarrow> rct_name c | None \<Rightarrow> ''recipient''),
     cs_excerpt = ''No recorded artifacts mention '' @ [CHR 0x22] @ cr_topic req @ [CHR 0x22] @ '' yet. Consider adding recent notes.'',
     cs_event_id = 0\<rparr>"

definition gather :: "agent_world \<Rightarrow> string \<Rightarrow> context_request \<Rightarrow> context_bundle agent_op" where
  "gather w dots req s =
    (if \<not> events_table_exists w s then Some (s, Inr \<lparr>cb_topic = cr_topic req, cb_snippets = [fallback_snippet req]\<rparr>)
     else abind (ensure_views w) (\<lambda>_.
          abind (collect_snippets w dots req) (\<lambda>snippets.
          areturn \<lparr>cb_topic = cr_topic req, cb_snippets = (if snippets = [] then [fallback_snippet req] else snippets)\<rparr>)) s)"

section \<open>Writer\<close>

record draft_request =
  dr_recipient :: resolved_contact
  dr_topic :: string
  dr_context :: context_bundle
  dr_tone :: "string option"
  dr_length_hint :: "(u32 \<times> u32) option"
  dr_model :: "string option"
  dr_max_words :: "nat option"

definition newline :: string where "newline = [CHR 0x0A]"

definition render_prompt :: "draft_request \<Rightarrow> string" where
  "render_prompt req =
    ''Write an email to '' @ rct_name (dr_recipient req) @ '' ('' @ rct_email (dr_recipient req) @ '') about '' @
    [CHR 0x22] @ dr_topic req @ [CHR 0x22] @ ''. Tone: '' @ (case dr_tone req of Some t \<Rightarrow> t | None \<Rightarrow> ''neutral-friendly'') @ ''.'' @
    (case dr_length_hint req of
       Some (lo, hi) \<Rightarrow> '' Target length: '' @ decimal (unat lo) @ ''-'' @ decimal (unat hi) @ '' words.''
     | None \<Rightarrow> '' Target length: under 180 words.'') @
    (if cb_snippets (dr_context req) = [] then []
     else newline @ ''Context bullets:'' @ newline @
       concat (map (\<lambda>s. ''- '' @ cs_excerpt s @ newline) (cb_snippets (dr_context req))))"

definition fallback_text :: "draft_request \<Rightarrow> string" where
  "fallback_text req =
    ''Hi '' @ rct_name (dr_recipient req) @ '','' @ newline @ newline @
    ''I wanted to follow up about '' @ to_lowercase (dr_topic req) @ ''. '' @
    (case cb_snippets (dr_context req) of s # _ \<Rightarrow> ''Recently, '' @ cs_excerpt s @ ''. '' | [] \<Rightarrow> []) @
    ''This is a quick follow up to keep us aligned on next steps and timelines. '' @
    ''Let me know if you have any questions or if you'd like to chat more.'' @ newline @ newline @ ''Best,'' @ newline @ ''Runloop'' @ newline"

definition word_count :: "string \<Rightarrow> nat" where
  "word_count body = length (split_whitespace body)"

definition trim_to_words :: "string \<Rightarrow> nat \<Rightarrow> string" where
  "trim_to_words body limit = join_str '' '' (take limit (split_whitespace body))"

definition draft_model_request :: "agent_context \<Rightarrow> draft_request \<Rightarrow> model_request" where
  "draft_model_request ctx req =
    \<lparr>mr_trace_id = ac_trace_id ctx, mr_model = (case dr_model req of Some m \<Rightarrow> m | None \<Rightarrow> ''null:compose''),
     mr_prompt = render_prompt req, mr_role_system = None, mr_params = None, mr_budget_tokens = Some 4000,
     mr_timeout_ms = Some 10000, mr_cache_ttl_ms = Some 60000, mr_cache_key = None, mr_stream = False, mr_extras = None\<rparr>"

text \<open>The text of the completion, or of the template when the model fails or echoes the prompt.\<close>

definition completion_text :: "agent_world \<Rightarrow> agent_context \<Rightarrow> draft_request \<Rightarrow> string agent_op" where
  "completion_text w ctx req s =
    (case complete_model w ctx (draft_model_request ctx req) s of
       None \<Rightarrow> None
     | Some (s, Inl e) \<Rightarrow> Some (s, Inr (fallback_text req))
     | Some (s, Inr out) \<Rightarrow>
         Some (s, Inr (if trim (mo_text out) = trim (render_prompt req) then fallback_text req else mo_text out)))"

definition draft_payload :: "agent_world \<Rightarrow> string \<Rightarrow> string \<Rightarrow> string \<Rightarrow> int list \<Rightarrow> json" where
  "draft_payload w path body recipient_name citations =
    JObject [(''kind'', JString ''draft_email.md''), (''path'', JString path),
      (''sha256'', JString (to_hex (ag_sha256 w (utf8_bytes body)))),
      (''summary'', JString (''Draft email to '' @ recipient_name)), (''citations'', JArray (map json_int citations))]"

definition persist_artifact ::
  "agent_world \<Rightarrow> agent_context \<Rightarrow> resolved_contact \<Rightarrow> string \<Rightarrow> string \<Rightarrow> int list \<Rightarrow> draft_artifact agent_op" where
  "persist_artifact w ctx recipient body rationale citations =
    abind atick (\<lambda>n.
      let drafts_dir = path_join (artifacts_dir ctx) ''drafts'';
          path = path_join drafts_dir (''draft-'' @ ag_uuid w n @ ''.md'')
      in abind (write_file w drafts_dir path body) (\<lambda>_.
         abind (propose_event w ctx ''artifact.created'' (draft_payload w path body (rct_name recipient) citations) (Some rationale)) (\<lambda>event_id.
         areturn \<lparr>da_artifact_id = event_id, da_path = path, da_sha256 = to_hex (ag_sha256 w (utf8_bytes body)), da_body_md = body,
           da_rationale = rationale, da_citations = citations, da_word_count = word_count body\<rparr>)))"

definition draft :: "agent_world \<Rightarrow> agent_context \<Rightarrow> draft_request \<Rightarrow> draft_artifact agent_op" where
  "draft w ctx req =
    abind (completion_text w ctx req) (\<lambda>completion.
      let body = trim completion;
          limit = (case dr_max_words req of Some n \<Rightarrow> n | None \<Rightarrow> 180);
          body = (if limit < word_count body then trim_to_words body limit else body)
      in persist_artifact w ctx (dr_recipient req) body
           (''draft generated for '' @ rct_name (dr_recipient req) @ '' about '' @ dr_topic req)
           (map cs_event_id (cb_snippets (dr_context req))))"

section \<open>Critic\<close>

definition MIN_WORDS :: nat where "MIN_WORDS = 10"
definition MAX_WORDS :: nat where "MAX_WORDS = 180"

definition effective_word_count :: "string \<Rightarrow> nat \<Rightarrow> nat" where
  "effective_word_count body reported = (if 0 < reported then reported else length (split_whitespace body))"

definition has_thank_you :: "string \<Rightarrow> bool" where
  "has_thank_you body =
    (let body_lower = to_ascii_lowercase body
     in str_contains body_lower ''thanks'' \<or> str_contains body_lower ''thank you'' \<or> str_contains body_lower ''thank-you'')"

definition critique :: "draft_artifact \<Rightarrow> review" where
  "critique d =
    (let count = effective_word_count (da_body_md d) (da_word_count d);
         blocking = (count < MIN_WORDS \<or> MAX_WORDS < count);
         suggestions =
           (if count < MIN_WORDS then [''Add more detail so the draft reaches at least '' @ decimal MIN_WORDS @ '' words (currently '' @ decimal count @ '').''] else []) @
           (if MAX_WORDS < count then [''Trim the draft to at most '' @ decimal MAX_WORDS @ '' words (currently '' @ decimal count @ '').''] else []) @
           (if \<not> has_thank_you (da_body_md d) then [''Consider closing with a courteous thank-you.''] else []);
         summary = (if blocking then ''Draft needs attention.''
           else if suggestions = [] then ''Draft looks good.'' else ''Draft looks good with minor polish.'')
     in \<lparr>rv_ok = \<not> blocking, rv_notes = \<lparr>rvn_summary = summary, rvn_suggestions = suggestions\<rparr>\<rparr>)"

section \<open>Mailer\<close>

record draft_data =
  dd_artifact_id :: int
  dd_path :: string
  dd_body_preview :: string

record mail_request =
  mq_draft :: draft_data
  mq_contact :: resolved_contact
  mq_review :: review
  mq_topic :: string

text \<open>\<open>i64\<close> as text.\<close>

definition show_int :: "int \<Rightarrow> string" where
  "show_int i = (if i < 0 then ''-'' @ decimal (nat (- i)) else decimal (nat i))"

definition mail_proposal :: "agent_context \<Rightarrow> mail_request \<Rightarrow> action_proposal" where
  "mail_proposal ctx req =
    \<lparr>ap_id = ''mail:'' @ show_int (dd_artifact_id (mq_draft req)), ap_trace_id = ac_trace_id ctx, ap_opening_id = ac_opening_id ctx,
     ap_agent = ac_agent_id ctx,
     ap_summary = ''Send draft '' @ quoted (mq_topic req) @ '' to '' @ rct_email (mq_contact req),
     ap_recipients = [rct_email (mq_contact req)], ap_artifact_path = dd_path (mq_draft req)\<rparr>"

fun print_all :: "string list \<Rightarrow> unit agent_op" where
  "print_all [] = areturn ()"
| "print_all (l # ls) = abind (alog (Printed l)) (\<lambda>_. print_all ls)"

definition mail_payload :: "mail_request \<Rightarrow> json" where
  "mail_payload req =
    JObject [(''to'', JArray [JString (rct_email (mq_contact req))]), (''subject'', JString (mq_topic req)),
      (''artifact_id'', json_int (dd_artifact_id (mq_draft req))),
      (''message_id'', JString (''dryrun-'' @ show_int (dd_artifact_id (mq_draft req)))), (''delivered_at_ms'', json_int 0)]"

text \<open>\<open>send\<close> of the mailer.\<close>

definition send_mail :: "agent_world \<Rightarrow> agent_context \<Rightarrow> mail_request \<Rightarrow> mail_result agent_op" where
  "send_mail w ctx req =
    (if \<not> rv_ok (mq_review req) then afail (AgentInvalidInput ''draft not approved by critic'')
     else
       abind (of_result (ok_or ConfirmationUnavailable (ac_confirmation ctx))) (\<lambda>provider.
       abind (confirm w provider (mail_proposal ctx req)) (\<lambda>decision.
       if \<not> ad_approved decision then afail ConfirmationDeclined
       else
         abind (print_all [''--- Dry-run mailer output ---'', ''To: '' @ rct_email (mq_contact req), ''Subject: '' @ mq_topic req,
           dd_body_preview (mq_draft req), ''-----------------------------'']) (\<lambda>_.
         abind (propose_event w ctx ''email.sent'' (mail_payload req)
             (case ad_rationale decision of Some r \<Rightarrow> Some r | None \<Rightarrow> Some ''mailer dry-run'')) (\<lambda>_.
         areturn \<lparr>ml_status = ''dry-run'', ml_recipients = [rct_email (mq_contact req)], ml_artifact_id = dd_artifact_id (mq_draft req),
           ml_message_id = ''dryrun-'' @ show_int (dd_artifact_id (mq_draft req)), ml_delivered_at_ms = 0\<rparr>)))))"

end
