(* ===== verification/Agents_Text.thy ===== *)
theory Agents_Text
  imports Agents_Native
begin

text \<open>
  The texts of the native agents: the SQL literals they build, the drafts of the writer before the
  critic, and the excerpts of the context gatherer.
\<close>

section \<open>Literals and patterns\<close>

text \<open>How SQL reads a text literal from behind its opening quote: its value and what follows.\<close>

fun sql_literal :: "string \<Rightarrow> (string \<times> string) option" where
  "sql_literal [] = None"
| "sql_literal (c # cs) =
     (if c = CHR 0x27
      then (case cs of
              d # ds \<Rightarrow> if d = CHR 0x27 then map_option (apfst ((#) c)) (sql_literal ds) else Some ([], cs)
            | [] \<Rightarrow> Some ([], []))
      else map_option (apfst ((#) c)) (sql_literal cs))"

lemma sql_literal_doubled:
  "hd rest \<noteq> CHR 0x27 \<Longrightarrow> sql_literal (double_quotes s @ CHR 0x27 # rest) = Some (s, rest)"
proof (induction s)
  case Nil
  then show ?case by (cases rest) (auto simp: double_quotes_def)
next
  case (Cons c s)
  then show ?case by (auto simp: double_quotes_def)
qed

lemma sql_literal_plain: "c \<noteq> CHR 0x27 \<Longrightarrow> sql_literal (c # s) = map_option (apfst ((#) c)) (sql_literal s)"
  by simp

text \<open>The pattern inside the literal: the wildcards and the escape are escaped.\<close>

definition like_escape :: "string \<Rightarrow> string" where
  "like_escape term = concat (map (\<lambda>c. let c = ascii_lower c in
     if c = CHR 0x5C \<or> c = CHR ''%'' \<or> c = CHR ''_'' then [CHR 0x5C, c] else [c]) term)"

lemma normalize_is_doubled: "normalize_like_pattern t = double_quotes (like_escape t)"
  by (induction t) (auto simp: normalize_like_pattern_def double_quotes_def like_escape_def Let_def)

lemma double_quotes_append: "double_quotes (s @ t) = double_quotes s @ double_quotes t"
  by (simp add: double_quotes_def)

lemma sql_like_percent:
  assumes "esc \<noteq> Some CHR ''%''"
  shows "sql_like esc (CHR ''%'' # ps) t \<longleftrightarrow> (\<exists>l r. t = l @ r \<and> sql_like esc ps r)"
proof (induction t)
  case (Cons c t)
  then show ?case using assms by (auto simp: Cons_eq_append_conv)
qed (use assms in simp)

lemma sql_like_end: "sql_like (Some CHR 0x5C) ''%'' t" "sql_like None ''%'' t"
  by (simp_all add: sql_like_percent del: sql_like.simps(2))

lemma lower_wildcards: "ascii_lower CHR ''%'' = CHR ''%''" "ascii_lower CHR ''_'' = CHR ''_''"
  by code_simp+

lemma sql_like_escaped:
  "sql_like (Some CHR 0x5C) (like_escape s @ ps) t \<longleftrightarrow>
     (\<exists>l r. t = l @ r \<and> to_ascii_lowercase l = to_ascii_lowercase s \<and> sql_like (Some CHR 0x5C) ps r)"
proof (induction s arbitrary: t)
  case (Cons c s)
  have step: "sql_like (Some CHR 0x5C) (like_escape (c # s) @ ps) t \<longleftrightarrow>
      (case t of [] \<Rightarrow> False | d # ds \<Rightarrow> ascii_lower c = ascii_lower d \<and> sql_like (Some CHR 0x5C) (like_escape s @ ps) ds)"
    by (auto simp: like_escape_def Let_def lower_wildcards split: list.split)
  have split: "(\<exists>l r. d # ds = l @ r \<and> map ascii_lower l = map ascii_lower (c # s) \<and> Q r) \<longleftrightarrow>
      ascii_lower c = ascii_lower d \<and> (\<exists>l r. ds = l @ r \<and> map ascii_lower l = map ascii_lower s \<and> Q r)" for d ds Q
  proof
    assume "ascii_lower c = ascii_lower d \<and> (\<exists>l r. ds = l @ r \<and> map ascii_lower l = map ascii_lower s \<and> Q r)"
    then obtain l r where "d # ds = (d # l) @ r" "map ascii_lower (d # l) = map ascii_lower (c # s)" "Q r" by auto
    then show "\<exists>l r. d # ds = l @ r \<and> map ascii_lower l = map ascii_lower (c # s) \<and> Q r" by blast
  next
    assume "\<exists>l r. d # ds = l @ r \<and> map ascii_lower l = map ascii_lower (c # s) \<and> Q r"
    then obtain zs r where "ds = zs @ r" "Q r" "ascii_lower d = ascii_lower c" "map ascii_lower zs = map ascii_lower s"
      by (auto simp: map_eq_Cons_conv)
    then show "ascii_lower c = ascii_lower d \<and> (\<exists>l r. ds = l @ r \<and> map ascii_lower l = map ascii_lower s \<and> Q r)"
      by (intro conjI exI [of _ zs] exI [of _ r]) simp_all
  qed
  show ?case unfolding step
    by (cases t) (simp_all only: Cons.IH to_ascii_lowercase_def split list.case, simp)
qed (simp add: like_escape_def to_ascii_lowercase_def)

text \<open>C24: 
  A clause of the context gatherer is one literal, whatever the term: the term does not reach the SQL. It
  matches exactly the payloads that contain the term, ignoring ASCII case; wildcards in it have no effect.
\<close>

theorem payload_clause_exact:
  "\<exists>body pattern. payload_like_clause term = ''LOWER(payload_json) LIKE '' @ CHR 0x27 # body \<and>
     sql_literal body = Some (pattern, '' ESCAPE '' @ single_quoted [CHR 0x5C]) \<and>
     (\<forall>payload. sql_like (Some CHR 0x5C) pattern (to_ascii_lowercase payload) \<longleftrightarrow>
        str_contains (to_ascii_lowercase payload) (to_ascii_lowercase term))"
proof (intro exI conjI allI)
  let ?rest = "'' ESCAPE '' @ single_quoted [CHR 0x5C]"
  let ?pattern = "''%'' @ like_escape term @ ''%''"
  show "payload_like_clause term = ''LOWER(payload_json) LIKE '' @ CHR 0x27 # (double_quotes ?pattern @ CHR 0x27 # ?rest)"
    by (simp add: payload_like_clause_def single_quoted_def normalize_is_doubled double_quotes_def)
  show "sql_literal (double_quotes ?pattern @ CHR 0x27 # ?rest) = Some (?pattern, ?rest)"
    by (rule sql_literal_doubled) simp
  fix payload
  have "sql_like (Some CHR 0x5C) ?pattern (to_ascii_lowercase payload) \<longleftrightarrow>
      (\<exists>l m r. to_ascii_lowercase payload = l @ m @ r \<and> to_ascii_lowercase m = to_ascii_lowercase term)"
    by (auto simp: sql_like_percent sql_like_escaped sql_like_end simp del: sql_like.simps)
  also have "\<dots> \<longleftrightarrow> str_contains (to_ascii_lowercase payload) (to_ascii_lowercase term)"
    unfolding str_contains_iff
    by (metis to_ascii_lowercase_append to_ascii_lowercase_idem append_eq_append_conv length_to_ascii_lowercase)
  finally show "sql_like (Some CHR 0x5C) ?pattern (to_ascii_lowercase payload) \<longleftrightarrow>
      str_contains (to_ascii_lowercase payload) (to_ascii_lowercase term)" .
qed

text \<open>
  A query of the contact resolver reaches the SQL as literals too, but the wildcards in it work: the
  query \<open>%\<close> is answered with any contact, \<open>_\<close> with any contact that has a name.
\<close>

theorem contact_wildcards_match_all:
  "(\<exists>body rest. contact_sql (contact_pattern qry) =
      ''SELECT contact_key, name, email, org, trust, source_event FROM contacts WHERE lower(name) LIKE '' @ CHR 0x27 # body \<and>
      sql_literal body = Some (''%'' @ to_ascii_lowercase qry @ ''%'', rest)) \<and>
   sql_like None (''%'' @ to_ascii_lowercase ''%'' @ ''%'') name \<and>
   (sql_like None (''%'' @ to_ascii_lowercase ''_'' @ ''%'') name \<longleftrightarrow> name \<noteq> [])"
proof (intro conjI exI)
  let ?pattern = "''%'' @ to_ascii_lowercase qry @ ''%''"
  let ?rest = "'' OR lower(email) LIKE '' @ single_quoted (contact_pattern qry) @ '' ORDER BY trust DESC, source_event DESC LIMIT 5''"
  have p: "contact_pattern qry = double_quotes ?pattern"
    by (simp add: contact_pattern_def escape_like_def double_quotes_def)
  then show "contact_sql (contact_pattern qry) =
      ''SELECT contact_key, name, email, org, trust, source_event FROM contacts WHERE lower(name) LIKE '' @
      CHR 0x27 # (double_quotes ?pattern @ CHR 0x27 # ?rest)"
    by (simp add: contact_sql_def single_quoted_def)
  show "sql_literal (double_quotes ?pattern @ CHR 0x27 # ?rest) = Some (?pattern, ?rest)"
    by (rule sql_literal_doubled) simp
  have lower: "to_ascii_lowercase ''%'' = ''%''" "to_ascii_lowercase ''_'' = ''_''" by code_simp+
  show "sql_like None (''%'' @ to_ascii_lowercase ''%'' @ ''%'') name"
    unfolding lower by (simp add: sql_like_percent sql_like_end del: sql_like.simps) blast
  have one: "sql_like None ''_%'' r \<longleftrightarrow> r \<noteq> []" for r
    by (cases r) (simp_all add: sql_like_end(2) [unfolded append.simps] del: sql_like.simps(2) add: sql_like.simps(2) [of None "CHR ''_''"])
  show "sql_like None (''%'' @ to_ascii_lowercase ''_'' @ ''%'') name \<longleftrightarrow> name \<noteq> []"
    unfolding lower by (auto simp: sql_like_percent one simp del: sql_like.simps)
qed

section \<open>Excerpts\<close>

text \<open>The excerpt is cut by bytes: a cut inside a character is a panic.\<close>

theorem summarise_payload_panics:
  "summarise_payload dots (replicate 40 (CHR 0xE9) @ ''ax'' @ replicate 60 (CHR ''b'')) ''x'' = None"
proof -
  have "summarise_payload [] (replicate 40 (CHR 0xE9) @ ''ax'' @ replicate 60 (CHR ''b'')) ''x'' = None" by code_simp
  then show ?thesis by (auto simp: summarise_payload_def Let_def split: if_splits option.splits prod.splits)
qed

section \<open>Drafts before the critic\<close>

lemma words_space: "is_whitespace d \<Longrightarrow> split_whitespace (a @ d # s) = split_whitespace a @ split_whitespace s"
  by (simp add: split_whitespace_def split_where_cons)

lemma words_Nil [simp]: "split_whitespace [] = []"
  by (simp add: split_whitespace_def)

lemma words_end: "\<forall>c \<in> set ws. is_whitespace c \<Longrightarrow> split_whitespace (s @ ws) = split_whitespace s"
proof (induction ws arbitrary: s)
  case (Cons d ws)
  then show ?case using words_space [of d s ws] Cons.IH [of "[]"] by simp
qed simp

lemma words_start: "split_whitespace (dropWhile is_whitespace s) = split_whitespace s"
proof (induction s)
  case (Cons d s)
  then show ?case using words_space [of d "[]" s] by simp
qed simp

lemma words_trim: "split_whitespace (trim s) = split_whitespace s"
proof -
  have "split_whitespace (trim_end r) = split_whitespace r" for r
  proof -
    have "r = rev (dropWhile is_whitespace (rev r)) @ rev (takeWhile is_whitespace (rev r))"
      by (simp flip: rev_append)
    moreover have "\<forall>c \<in> set (rev (takeWhile is_whitespace (rev r))). is_whitespace c"
      using set_takeWhileD by fastforce
    ultimately show ?thesis unfolding trim_end_def by (metis words_end)
  qed
  then show ?thesis using words_start [of s] by (simp add: trim_def trim_start_def)
qed

lemma words_trim_to_words: "split_whitespace (trim_to_words body limit) = take limit (split_whitespace body)"
  unfolding trim_to_words_def by (rule split_whitespace_join) (rule set_take_subset)

definition word_limit :: "draft_request \<Rightarrow> nat" where
  "word_limit req = (case dr_max_words req of Some n \<Rightarrow> n | None \<Rightarrow> 180)"

text \<open>What the model answers, unless it is absent, fails or gives the prompt back.\<close>

definition model_answer :: "agent_world \<Rightarrow> agent_context \<Rightarrow> draft_request \<Rightarrow> agent_state \<Rightarrow> string option" where
  "model_answer w ctx req s =
    (if \<not> ac_has_broker ctx then None
     else case ag_complete w (as_ticks s) (draft_model_request ctx req) of
       Inl err \<Rightarrow> None
     | Inr out \<Rightarrow> if trim (mo_text out) = trim (render_prompt req) then None else Some (mo_text out))"

lemma completion_text_answer:
  "\<exists>u. completion_text w ctx req s = Some (u, Inr (case model_answer w ctx req s of Some text \<Rightarrow> text | None \<Rightarrow> fallback_text req))"
  by (auto simp: completion_text_def complete_model_def model_answer_def abind_def atick_def of_result_def afail_def
      split: sum.split)

lemma draft_InrD:
  assumes "draft w ctx req s = Some (t, Inr d)"
  shows "da_word_count d = length (split_whitespace (da_body_md d))"
    "split_whitespace (da_body_md d) =
       take (word_limit req) (split_whitespace (case model_answer w ctx req s of Some text \<Rightarrow> text | None \<Rightarrow> fallback_text req))"
proof -
  let ?c = "case model_answer w ctx req s of Some text \<Rightarrow> text | None \<Rightarrow> fallback_text req"
  obtain u where c: "completion_text w ctx req s = Some (u, Inr ?c)"
    using completion_text_answer by blast
  let ?body = "if word_limit req < word_count (trim ?c) then trim_to_words (trim ?c) (word_limit req) else trim ?c"
  have "persist_artifact w ctx (dr_recipient req) ?body
      (''draft generated for '' @ rct_name (dr_recipient req) @ '' about '' @ dr_topic req)
      (map cs_event_id (cb_snippets (dr_context req))) u = Some (t, Inr d)"
    using assms unfolding draft_def abind_def c word_limit_def by (simp only: Let_def option.case prod.case sum.case)
  then have b: "da_body_md d = ?body" "da_word_count d = word_count ?body"
    by (auto simp: persist_artifact_def abind_def areturn_def Let_def split: option.splits prod.splits sum.splits)
  then show "da_word_count d = length (split_whitespace (da_body_md d))" by (simp add: word_count_def)
  show "split_whitespace (da_body_md d) = take (word_limit req) (split_whitespace ?c)"
    unfolding b(1) by (simp add: words_trim_to_words words_trim word_count_def)
qed

lemma critique_ok: "da_word_count d = length (split_whitespace (da_body_md d)) \<Longrightarrow>
  rv_ok (critique d) \<longleftrightarrow> 10 \<le> length (split_whitespace (da_body_md d)) \<and> length (split_whitespace (da_body_md d)) \<le> 180"
  by (auto simp: critique_def effective_word_count_def Let_def MIN_WORDS_def MAX_WORDS_def)

definition closing_text :: string where
  "closing_text = ''is a quick follow up to keep us aligned on next steps and timelines. '' @
    ''Let me know if you have any questions or if you'd like to chat more.'' @ newline @ newline @ ''Best,'' @ newline @ ''Runloop'' @ newline"

lemma fallback_words: "10 \<le> length (split_whitespace (fallback_text req))"
proof -
  obtain front where "fallback_text req = front @ CHR '' '' # closing_text"
  proof
    show "fallback_text req = (''Hi '' @ rct_name (dr_recipient req) @ '','' @ newline @ newline @
      ''I wanted to follow up about '' @ to_lowercase (dr_topic req) @ ''. '' @
      (case cb_snippets (dr_context req) of s # _ \<Rightarrow> ''Recently, '' @ cs_excerpt s @ ''. '' | [] \<Rightarrow> []) @ ''This'') @ CHR '' '' # closing_text"
      by (simp only: fallback_text_def closing_text_def append_assoc append_Cons append_Nil)
  qed
  moreover have "length (split_whitespace closing_text) = 31" by code_simp
  moreover have "is_whitespace CHR '' ''" by code_simp
  ultimately show ?thesis by (simp add: words_space)
qed

text \<open>C25: 
  The words of a draft are the first ones, up to the limit of the request (180 if it has none), of the answer of
  the model, or of the template if there is no model, it fails, or it gives the prompt back. The critic accepts
  the draft exactly if it has 10 to 180 words; so it accepts the template, whatever the recipient, topic
  and context, for every limit in that range.
\<close>

theorem written_draft_review:
  assumes "draft w ctx req s = Some (t, Inr d)"
  shows "split_whitespace (da_body_md d) = take (case dr_max_words req of Some n \<Rightarrow> n | None \<Rightarrow> 180)
       (split_whitespace (case model_answer w ctx req s of Some text \<Rightarrow> text | None \<Rightarrow> fallback_text req))
    \<and> (rv_ok (critique d) \<longleftrightarrow> 10 \<le> length (split_whitespace (da_body_md d)) \<and> length (split_whitespace (da_body_md d)) \<le> 180)
    \<and> (model_answer w ctx req s = None \<longrightarrow>
         (case dr_max_words req of Some n \<Rightarrow> 10 \<le> n \<and> n \<le> 180 | None \<Rightarrow> True) \<longrightarrow> rv_ok (critique d))"
proof -
  note d = draft_InrD [OF assms]
  have "rv_ok (critique d)" if "model_answer w ctx req s = None" "10 \<le> word_limit req" "word_limit req \<le> 180"
    unfolding critique_ok [OF d(1)] d(2) using that fallback_words [of req] by simp
  then show ?thesis using d critique_ok [OF d(1)] by (simp add: word_limit_def split: option.splits)
qed

definition demo_writer_world :: agent_world where
  "demo_writer_world = \<lparr>
     ag_kb = \<lparr>ke_schema_errors = (\<lambda>_ _. []), ke_canon = (\<lambda>_. Inr ''c''),
       ke_parse = (\<lambda>_. Inr (JObject [(''kind'', JString ''k''), (''path'', JString ''p''), (''sha256'', JString ''h'')])), ke_show = (\<lambda>_. ''{}''),
       ke_blake3 = (\<lambda>_. []), ke_uuid = (\<lambda>_. ''u''), ke_now = (\<lambda>_. 0), ke_fault = (\<lambda>_. None)\<rparr>,
     ag_redactor = redactor_new (\<lambda>_. []) (\<lambda>_. []) default_redaction_config,
     ag_views_sql = (\<lambda>_ _. Inl []), ag_events_sql = (\<lambda>_ _. Inl []), ag_complete = (\<lambda>_ _. Inl StreamingUnsupported),
     ag_operator = (\<lambda>_ _. Inl ConfirmationUnavailable), ag_mkdir_fault = (\<lambda>_. None), ag_write_fault = (\<lambda>_. None),
     ag_uuid = (\<lambda>_. ''u''), ag_new_id = (\<lambda>_. 0), ag_sha256 = (\<lambda>_. [])\<rparr>"

definition demo_writer_context :: agent_context where
  "demo_writer_context = \<lparr>ac_has_broker = True, ac_workdir = ''w'', ac_trace_id = 1, ac_opening_id = 2, ac_agent_id = 3, ac_confirmation = None\<rparr>"

definition demo_draft_request :: draft_request where
  "demo_draft_request = \<lparr>
     dr_recipient = \<lparr>rct_contact_id = ''contact:a'', rct_name = ''A'', rct_email = ''a@b.c'', rct_org = None, rct_confidence = 0, rct_last_event_id = None\<rparr>,
     dr_topic = ''t'', dr_context = \<lparr>cb_topic = ''t'', cb_snippets = []\<rparr>, dr_tone = None, dr_length_hint = None, dr_model = None, dr_max_words = None\<rparr>"

definition demo_proposed :: kb_state where
  "demo_proposed = kb_new\<lparr>ks_ledger := fst (propose (ag_kb demo_writer_world)
     \<lparr>sd_kind = ''artifact.created'', sd_actor = ''agent:u'', sd_scope = Some ''user'',
      sd_payload = draft_payload demo_writer_world ''w/artifacts/drafts/draft-u.md'' (trim (fallback_text demo_draft_request)) ''A'' [],
      sd_provenance = \<lparr>pv_trace_id = ''trace:u'', pv_opening_id = ''opening:u'', pv_agent_id = ''agent:u'', pv_inputs_hash = None,
        pv_rationale = Some ''draft generated for A about t''\<rparr>\<rparr> (ks_ledger kb_new))\<rparr>"

lemma demo_sync:
  "case sync (ag_kb demo_writer_world) DEFAULT_BATCH demo_proposed of
     (s, Inr b) \<Rightarrow> b \<and> (case sync (ag_kb demo_writer_world) DEFAULT_BATCH s of (_, Inr b) \<Rightarrow> \<not> b | _ \<Rightarrow> False) | _ \<Rightarrow> False"
  by code_simp

lemma demo_catch_up: "\<exists>kb. catch_up (ag_kb demo_writer_world) DEFAULT_BATCH demo_proposed = Some (kb, Inr ())"
proof -
  obtain s1 s2 where "sync (ag_kb demo_writer_world) DEFAULT_BATCH demo_proposed = (s1, Inr True)"
      "sync (ag_kb demo_writer_world) DEFAULT_BATCH s1 = (s2, Inr False)"
    using demo_sync by (auto split: prod.splits sum.splits)
  then have "catch_up (ag_kb demo_writer_world) DEFAULT_BATCH demo_proposed = Some (s2, Inr ())"
    by (subst catch_up.simps, simp, subst catch_up.simps, simp)
  then show ?thesis ..
qed

lemma demo_texts:
  "word_count (trim (fallback_text demo_draft_request)) \<le> 180"
  "path_join ''w/artifacts/drafts'' ''draft-u.md'' = ''w/artifacts/drafts/draft-u.md''"
  "path_join (path_join ''w'' ''artifacts'') ''drafts'' = ''w/artifacts/drafts''"
  by code_simp+

lemma demo_drafted:
  "case propose (ag_kb demo_writer_world)
     \<lparr>sd_kind = ''artifact.created'', sd_actor = ''agent:u'', sd_scope = Some ''user'',
      sd_payload = draft_payload demo_writer_world ''w/artifacts/drafts/draft-u.md'' (trim (fallback_text demo_draft_request)) ''A'' [],
      sd_provenance = \<lparr>pv_trace_id = ''trace:u'', pv_opening_id = ''opening:u'', pv_agent_id = ''agent:u'', pv_inputs_hash = None,
        pv_rationale = Some ''draft generated for A about t''\<rparr>\<rparr> (ks_ledger kb_new) of (lg, Inr i) \<Rightarrow> True | _ \<Rightarrow> False"
  by code_simp

lemma demo_draft_returns:
  "\<exists>t d. draft demo_writer_world demo_writer_context demo_draft_request \<lparr>as_kb = kb_new, as_ticks = 0, as_log = []\<rparr> = Some (t, Inr d)"
proof -
  let ?body = "trim (fallback_text demo_draft_request)"
  let ?path = "''w/artifacts/drafts/draft-u.md''"
  obtain kb where kb: "catch_up (ag_kb demo_writer_world) DEFAULT_BATCH demo_proposed = Some (kb, Inr ())"
    using demo_catch_up by blast
  obtain lg i where p: "propose (ag_kb demo_writer_world)
     \<lparr>sd_kind = ''artifact.created'', sd_actor = ''agent:u'', sd_scope = Some ''user'',
      sd_payload = draft_payload demo_writer_world ?path ?body ''A'' [],
      sd_provenance = \<lparr>pv_trace_id = ''trace:u'', pv_opening_id = ''opening:u'', pv_agent_id = ''agent:u'', pv_inputs_hash = None,
        pv_rationale = Some ''draft generated for A about t''\<rparr>\<rparr> (ks_ledger kb_new) = (lg, Inr i)"
    using demo_drafted by (auto split: prod.splits sum.splits)
  have kb_eq: "kb_new\<lparr>ks_ledger := lg\<rparr> = demo_proposed" by (simp add: demo_proposed_def p)
  have labels: "agent_label (ag_kb demo_writer_world) x = ''agent:u''" "trace_label (ag_kb demo_writer_world) x = ''trace:u''"
    "opening_label (ag_kb demo_writer_world) x = ''opening:u''" for x
    by (simp_all add: agent_label_def trace_label_def opening_label_def demo_writer_world_def)
  have event: "\<exists>t. propose_event demo_writer_world demo_writer_context ''artifact.created''
      (draft_payload demo_writer_world ?path ?body ''A'' []) (Some ''draft generated for A about t'') u = Some (t, Inr i)"
    if "as_kb u = kb_new" for u
    using that kb by (simp add: propose_event_def abind_def kb_propose_def ensure_views_def areturn_def labels p kb_eq)
  have body: "completion_text demo_writer_world demo_writer_context demo_draft_request u =
      Some (u\<lparr>as_ticks := Suc (as_ticks u)\<rparr>, Inr (fallback_text demo_draft_request))" for u
    by (simp add: completion_text_def complete_model_def abind_def atick_def of_result_def demo_writer_context_def demo_writer_world_def)
  have "\<exists>t d. persist_artifact demo_writer_world demo_writer_context (dr_recipient demo_draft_request) ?body
      ''draft generated for A about t'' [] \<lparr>as_kb = kb_new, as_ticks = Suc 0, as_log = []\<rparr> = Some (t, Inr d)"
  proof -
    have w: "ag_uuid demo_writer_world n = ''u''" "ag_mkdir_fault demo_writer_world x = None" "ag_write_fault demo_writer_world x = None"
      "artifacts_dir demo_writer_context = path_join ''w'' ''artifacts''" "rct_name (dr_recipient demo_draft_request) = ''A''" for n x
      by (simp_all add: demo_writer_world_def demo_writer_context_def artifacts_dir_def demo_draft_request_def)
    let ?u = "\<lparr>as_kb = kb_new, as_ticks = Suc (Suc 0), as_log = [WroteFile ?path ?body]\<rparr>"
    obtain t where "propose_event demo_writer_world demo_writer_context ''artifact.created''
        (draft_payload demo_writer_world ?path ?body ''A'' []) (Some ''draft generated for A about t'') ?u = Some (t, Inr i)"
      using event [of ?u] by auto
    then show ?thesis
      by (simp add: persist_artifact_def abind_def atick_def w Let_def write_file_def alog_def areturn_def demo_texts)
  qed
  moreover have "dr_max_words demo_draft_request = None" "cb_snippets (dr_context demo_draft_request) = []"
    "''draft generated for '' @ rct_name (dr_recipient demo_draft_request) @ '' about '' @ dr_topic demo_draft_request = ''draft generated for A about t''"
    by (simp_all add: demo_draft_request_def)
  ultimately show ?thesis using demo_texts(1)
    by (simp only: draft_def abind_def body Let_def option.case prod.case sum.case not_less [symmetric] if_False list.map simp_thms
        agent_state.simps One_nat_def)
qed

text \<open>A draft of the demo world, whose model fails.\<close>

theorem written_draft_review_witness:
  "\<exists>t d. draft demo_writer_world demo_writer_context demo_draft_request \<lparr>as_kb = kb_new, as_ticks = 0, as_log = []\<rparr> = Some (t, Inr d) \<and>
     split_whitespace (da_body_md d) = take 180 (split_whitespace (fallback_text demo_draft_request)) \<and> rv_ok (critique d)"
proof -
  let ?s = "\<lparr>as_kb = kb_new, as_ticks = 0, as_log = []\<rparr>"
  obtain t d where run: "draft demo_writer_world demo_writer_context demo_draft_request ?s = Some (t, Inr d)"
    using demo_draft_returns by blast
  have "model_answer demo_writer_world demo_writer_context demo_draft_request ?s = None" "dr_max_words demo_draft_request = None"
    by (simp_all add: model_answer_def demo_writer_world_def demo_draft_request_def)
  with written_draft_review [OF run] run show ?thesis by auto
qed

end
