(* ===== verification/Agent_Registry.thy ===== *)
theory Agent_Registry
  imports Opening_Exec Runtime_Caps "HOL-Library.Multiset"
begin

text \<open>
  Manifests and bundles of agents (\<open>crates/agent-registry/src/lib.rs\<close>, \<open>tools.rs\<close>, \<open>error.rs\<close>; the
  descriptors of \<open>crates/core/src/agents.rs\<close>). The file system, the TOML and JSON readers and the hash
  are the fields of \<open>reg_world\<close>. A path is its text; two paths are equal when their components are.
\<close>

section \<open>Paths\<close>

definition path_junk :: "string \<Rightarrow> bool" where
  "path_junk c = (c = [] \<or> c = ''.'')"

definition path_parts :: "string \<Rightarrow> string list" where
  "path_parts p = (if starts_with ''/'' p then tl (split_char CHR ''/'' p) else split_char CHR ''/'' p)"

text \<open>The parts up to the last component; a leading dot of a relative path is a component.\<close>

definition trim_parts :: "bool \<Rightarrow> string list \<Rightarrow> string list" where
  "trim_parts absolute parts =
    (let kept = rev (dropWhile path_junk (rev parts))
     in if kept = [] \<and> \<not> absolute \<and> parts \<noteq> [] \<and> hd parts = ''.'' then [''.''] else kept)"

definition path_parent_dir :: "string \<Rightarrow> string option" where
  "path_parent_dir p =
    (let absolute = starts_with ''/'' p; parts = trim_parts absolute (path_parts p)
     in if parts = [] then None
        else Some ((if absolute then ''/'' else []) @ join_str ''/'' (trim_parts absolute (butlast parts))))"

definition path_last_name :: "string \<Rightarrow> string option" where
  "path_last_name p =
    (let parts = trim_parts (starts_with ''/'' p) (path_parts p)
     in if parts = [] \<or> last parts = ''.'' \<or> last parts = ''..'' then None else Some (last parts))"

definition path_eq :: "string \<Rightarrow> string \<Rightarrow> bool" where
  "path_eq p q = (path_key p = path_key q)"

text \<open>\<open>Path::starts_with\<close> compares components.\<close>

definition path_starts_with :: "string \<Rightarrow> string \<Rightarrow> bool" where
  "path_starts_with p base =
    (fst (path_key p) = fst (path_key base) \<and> take (length (snd (path_key base))) (snd (path_key p)) = snd (path_key base))"

definition path_is_absolute :: "string \<Rightarrow> bool" where
  "path_is_absolute p = starts_with ''/'' p"

definition has_parent_dir :: "string \<Rightarrow> bool" where
  "has_parent_dir p = (''..'' \<in> set (snd (path_key p)))"

section \<open>Manifests\<close>

record entry_spec =
  es_path :: string
  es_blake3 :: string

record artifact_spec =
  as_path :: string
  as_blake3 :: string
  as_version :: "u32 option"

record agent_section =
  am_name :: string
  am_version :: string
  am_variant :: "string option"
  am_entry_native :: "entry_spec option"
  am_entry_wasm :: "entry_spec option"

record agent_ports =
  agp_inputs :: "string list"
  agp_outputs :: "string list"

text \<open>\<open>md_schemas\<close> is the section with its member \<open>with\<close>, \<open>md_artifacts\<close> the one with \<open>tools\<close>.\<close>

record manifest_doc =
  md_agent :: agent_section
  md_ports :: agent_ports
  md_schemas :: "json option option"
  md_entry_native :: "entry_spec option"
  md_entry_wasm :: "entry_spec option"
  md_caps :: "string option"
  md_artifacts :: "artifact_spec option option"

record agent_artifact_digest =
  aad_path :: string
  aad_blake3 :: string
  aad_version :: u32

record described_agent =
  dsc_reference :: agent_ref
  dsc_version :: string
  dsc_digest :: string
  dsc_schema :: "json option"
  dsc_ports :: agent_ports
  dsc_tools :: "agent_artifact_digest option"

record agent_binary =
  abn_path :: string
  abn_blake3 :: string

record agent_artifact =
  art_path :: string
  art_blake3 :: string
  art_version :: u32

record agent_bundle =
  bn_described :: described_agent
  bn_manifest_dir :: string
  bn_wasm_entry :: "agent_binary option"
  bn_native_entry :: "agent_binary option"
  bn_policy_path :: "string option"
  bn_tools :: "agent_artifact option"

record listed_agent =
  la_described :: described_agent
  la_manifest_path :: string

datatype registry_error =
    RegNotFound agent_ref
  | RegIoPath string string
  | RegIo string string
  | RegParse string string
  | RegMismatch agent_ref string
  | RegReference agent_ref string
  | RegSchema agent_ref string
  | RegArtifact agent_ref string
  | RegPath agent_ref string
  | RegTools "agent_ref option" string

text \<open>\<open>rw_read_dir\<close>: the names of the subdirectories (links are not followed), \<open>None\<close> for an unreadable directory.\<close>

record reg_world =
  rw_read :: "string \<Rightarrow> string + string"
  rw_read_bytes :: "string \<Rightarrow> string + bytes"
  rw_toml :: "string \<Rightarrow> string + manifest_doc"
  rw_is_file :: "string \<Rightarrow> bool"
  rw_is_dir :: "string \<Rightarrow> bool"
  rw_read_dir :: "string \<Rightarrow> string list option"
  rw_canonicalize :: "string \<Rightarrow> string option"
  rw_blake3 :: "bytes \<Rightarrow> bytes"

definition registry_error_text :: "registry_error \<Rightarrow> string" where
  "registry_error_text e =
    (case e of
       RegNotFound r \<Rightarrow> ''agent manifest not found for '' @ agent_ref_spec r
     | RegIoPath p s \<Rightarrow> p @ '': '' @ s
     | RegIo p s \<Rightarrow> ''failed to read manifest '' @ p @ '': '' @ s
     | RegParse p s \<Rightarrow> ''failed to parse manifest '' @ p @ '': '' @ s
     | RegMismatch r d \<Rightarrow> ''agent mismatch for '' @ agent_ref_spec r @ '': '' @ d
     | RegReference r d \<Rightarrow> ''invalid reference for '' @ agent_ref_spec r @ '': '' @ d
     | RegSchema r d \<Rightarrow> ''schema error for '' @ agent_ref_spec r @ '': '' @ d
     | RegArtifact r d \<Rightarrow> ''artifact error for '' @ agent_ref_spec r @ '': '' @ d
     | RegPath r d \<Rightarrow> ''path error for '' @ agent_ref_spec r @ '': '' @ d
     | RegTools r d \<Rightarrow> ''tools.json error: '' @ d)"

section \<open>References and where their manifests are searched\<close>

definition validate_reference_component :: "string \<Rightarrow> string \<Rightarrow> agent_ref \<Rightarrow> registry_error + unit" where
  "validate_reference_component label val reference =
    (case path_key val of
       (False, [c]) \<Rightarrow>
         if c = ''.'' \<or> c = ''..''
         then Inl (RegReference reference (label @ '' '' @ quoted val @ '' must be a single path segment''))
         else Inr ()
     | _ \<Rightarrow> Inl (RegReference reference (label @ '' '' @ quoted val @ '' must be a single path segment'')))"

definition validate_reference :: "agent_ref \<Rightarrow> registry_error + unit" where
  "validate_reference reference =
    res_bind (validate_reference_component ''agent name'' (ar_name reference) reference) (\<lambda>_.
      case ar_variant reference of
        Some variant \<Rightarrow> validate_reference_component ''agent variant'' variant reference
      | None \<Rightarrow> Inr ())"

definition candidate_roots :: "agent_ref \<Rightarrow> string list" where
  "candidate_roots reference =
    (case ar_variant reference of
       Some variant \<Rightarrow>
         if variant \<noteq> []
         then [ar_name reference @ ''@'' @ variant, path_join (ar_name reference) variant,
               path_join (path_join (ar_name reference) ''variants'') variant]
         else []
     | None \<Rightarrow> []) @ [ar_name reference]"

definition read_manifest :: "reg_world \<Rightarrow> string \<Rightarrow> registry_error + (string \<times> manifest_doc)" where
  "read_manifest w path =
    (case rw_read w path of
       Inl err \<Rightarrow> Inl (RegIo path err)
     | Inr raw \<Rightarrow> (case rw_toml w raw of Inl err \<Rightarrow> Inl (RegParse path err) | Inr doc \<Rightarrow> Inr (raw, doc)))"

text \<open>Errors of the manifest at the root of a search directory are passed over.\<close>

definition root_candidate :: "reg_world \<Rightarrow> string \<Rightarrow> string option" where
  "root_candidate w base =
    (if rw_is_file w base then (if path_last_name base = Some ''manifest.toml'' then Some base else None)
     else if rw_is_file w (path_join base ''manifest.toml'') then Some (path_join base ''manifest.toml'') else None)"

definition manifest_at_search_root :: "reg_world \<Rightarrow> string \<Rightarrow> agent_ref \<Rightarrow> string option" where
  "manifest_at_search_root w base reference =
    (case root_candidate w base of
       None \<Rightarrow> None
     | Some candidate \<Rightarrow>
         (case read_manifest w candidate of
            Inl _ \<Rightarrow> None
          | Inr (raw, doc) \<Rightarrow>
              if am_name (md_agent doc) \<noteq> ar_name reference then None
              else if ar_variant reference \<noteq> None \<and> am_variant (md_agent doc) \<noteq> ar_variant reference then None
              else Some candidate))"

definition find_in_base :: "reg_world \<Rightarrow> agent_ref \<Rightarrow> string \<Rightarrow> string option" where
  "find_in_base w reference base =
    (case manifest_at_search_root w base reference of
       Some candidate \<Rightarrow> Some candidate
     | None \<Rightarrow>
         if rw_is_file w base then None
         else find (rw_is_file w) (map (\<lambda>rel. path_join (path_join base rel) ''manifest.toml'') (candidate_roots reference)))"

fun find_in_dirs :: "reg_world \<Rightarrow> agent_ref \<Rightarrow> string list \<Rightarrow> registry_error + string" where
  "find_in_dirs w reference [] = Inl (RegNotFound reference)"
| "find_in_dirs w reference (base # dirs) =
     (case find_in_base w reference base of Some p \<Rightarrow> Inr p | None \<Rightarrow> find_in_dirs w reference dirs)"

definition find_manifest :: "reg_world \<Rightarrow> string list \<Rightarrow> agent_ref \<Rightarrow> registry_error + string" where
  "find_manifest w dirs reference = res_bind (validate_reference reference) (\<lambda>_. find_in_dirs w reference dirs)"

text \<open>\<open>AgentRegistry::new\<close>: the directories in order, each once, without the empty path.\<close>

fun registry_dirs_from :: "(bool \<times> string list) list \<Rightarrow> string list \<Rightarrow> string list" where
  "registry_dirs_from seen [] = []"
| "registry_dirs_from seen (d # ds) =
     (if d = [] \<or> path_key d \<in> set seen then registry_dirs_from seen ds else d # registry_dirs_from (path_key d # seen) ds)"

definition registry_new :: "string list \<Rightarrow> string list" where
  "registry_new dirs = registry_dirs_from [] dirs"

section \<open>Descriptions and bundles\<close>

definition agent_digest :: "reg_world \<Rightarrow> string \<Rightarrow> string" where
  "agent_digest w raw = to_hex (rw_blake3 w (utf8_bytes raw))"

definition tools_digest :: "agent_ref \<Rightarrow> manifest_doc \<Rightarrow> registry_error + agent_artifact_digest option" where
  "tools_digest reference doc =
    (case Option.bind (md_artifacts doc) id of
       None \<Rightarrow> Inr None
     | Some spec \<Rightarrow>
         let version = (case as_version spec of Some v \<Rightarrow> v | None \<Rightarrow> 1)
         in if version \<noteq> 1
            then Inl (RegArtifact reference (''unsupported tools.json version '' @ decimal (unat version) @ '' (supported: 1)''))
            else Inr (Some \<lparr>aad_path = as_path spec, aad_blake3 = as_blake3 spec, aad_version = version\<rparr>))"

definition build_described :: "reg_world \<Rightarrow> agent_ref \<Rightarrow> manifest_doc \<Rightarrow> string \<Rightarrow> registry_error + (manifest_doc \<times> described_agent)" where
  "build_described w reference doc raw =
    (let a = md_agent doc in
     if am_name a \<noteq> ar_name reference
     then Inl (RegMismatch reference (''manifest declares agent '' @ quoted (am_name a)))
     else case (ar_variant reference, am_variant a) of
       (Some rv, Some mv) \<Rightarrow>
         if mv \<noteq> rv then Inl (RegMismatch reference (''variant mismatch (manifest '' @ mv @ '', requested '' @ rv @ '')''))
         else res_bind (tools_digest reference doc) (\<lambda>tools.
           Inr (doc, \<lparr>dsc_reference = \<lparr>ar_name = am_name a, ar_variant = Some rv\<rparr>, dsc_version = am_version a, dsc_digest = agent_digest w raw,
             dsc_schema = Option.bind (md_schemas doc) id, dsc_ports = md_ports doc, dsc_tools = tools\<rparr>))
     | (rv, mv) \<Rightarrow> res_bind (tools_digest reference doc) (\<lambda>tools.
           Inr (doc, \<lparr>dsc_reference = \<lparr>ar_name = am_name a, ar_variant = (case rv of Some v \<Rightarrow> Some v | None \<Rightarrow> mv)\<rparr>,
             dsc_version = am_version a, dsc_digest = agent_digest w raw,
             dsc_schema = Option.bind (md_schemas doc) id, dsc_ports = md_ports doc, dsc_tools = tools\<rparr>)))"

definition load_manifest :: "reg_world \<Rightarrow> agent_ref \<Rightarrow> string \<Rightarrow> registry_error + (manifest_doc \<times> described_agent)" where
  "load_manifest w reference path = res_bind (read_manifest w path) (\<lambda>(raw, doc). build_described w reference doc raw)"

definition resolve_bundle_path :: "reg_world \<Rightarrow> string \<Rightarrow> string \<Rightarrow> agent_ref \<Rightarrow> string \<Rightarrow> registry_error + string" where
  "resolve_bundle_path w manifest_dir raw reference label =
    (if trim raw = [] then Inl (RegPath reference (label @ '' path is empty''))
     else if path_is_absolute raw then Inl (RegPath reference (label @ '' path must be relative: '' @ raw))
     else if has_parent_dir raw then Inl (RegPath reference (label @ '' path must not contain '' @ quoted ''..'' @ '': '' @ raw))
     else
       let resolved = path_join manifest_dir raw
       in case (rw_canonicalize w manifest_dir, rw_canonicalize w resolved) of
            (Some base_canon, Some resolved_canon) \<Rightarrow>
              if \<not> path_starts_with resolved_canon base_canon
              then Inl (RegPath reference (label @ '' path escapes bundle root: '' @ raw))
              else Inr resolved
          | _ \<Rightarrow> Inr resolved)"

definition transpose_result :: "('a \<Rightarrow> 'e + 'b) \<Rightarrow> 'a option \<Rightarrow> 'e + 'b option" where
  "transpose_result f x = (case x of None \<Rightarrow> Inr None | Some a \<Rightarrow> map_sum id Some (f a))"

definition binary_from_entry :: "reg_world \<Rightarrow> string \<Rightarrow> agent_ref \<Rightarrow> string \<Rightarrow> entry_spec \<Rightarrow> registry_error + agent_binary" where
  "binary_from_entry w base reference label entry =
    res_bind (resolve_bundle_path w base (es_path entry) reference label) (\<lambda>path.
      Inr \<lparr>abn_path = path, abn_blake3 = es_blake3 entry\<rparr>)"

definition artifact_from_entry :: "reg_world \<Rightarrow> string \<Rightarrow> agent_ref \<Rightarrow> string \<Rightarrow> artifact_spec \<Rightarrow> registry_error + agent_artifact" where
  "artifact_from_entry w base reference label entry =
    res_bind (resolve_bundle_path w base (as_path entry) reference label) (\<lambda>path.
      Inr \<lparr>art_path = path, art_blake3 = as_blake3 entry, art_version = (case as_version entry of Some v \<Rightarrow> v | None \<Rightarrow> 1)\<rparr>)"

definition or_option :: "'a option \<Rightarrow> 'a option \<Rightarrow> 'a option" where
  "or_option a b = (case a of None \<Rightarrow> b | Some x \<Rightarrow> Some x)"

definition describe :: "reg_world \<Rightarrow> string list \<Rightarrow> agent_ref \<Rightarrow> registry_error + described_agent" where
  "describe w dirs reference =
    res_bind (find_manifest w dirs reference) (\<lambda>path. map_sum id snd (load_manifest w reference path))"

definition load_bundle :: "reg_world \<Rightarrow> string list \<Rightarrow> agent_ref \<Rightarrow> registry_error + agent_bundle" where
  "load_bundle w dirs reference =
    res_bind (find_manifest w dirs reference) (\<lambda>path.
    let dir = (case path_parent_dir path of Some d \<Rightarrow> d | None \<Rightarrow> ''.'') in
    res_bind (load_manifest w reference path) (\<lambda>(doc, described).
    res_bind (transpose_result (binary_from_entry w dir reference ''entry_wasm'')
                (or_option (md_entry_wasm doc) (am_entry_wasm (md_agent doc)))) (\<lambda>wasm.
    res_bind (transpose_result (binary_from_entry w dir reference ''entry_native'')
                (or_option (md_entry_native doc) (am_entry_native (md_agent doc)))) (\<lambda>native.
    res_bind (transpose_result (\<lambda>file. resolve_bundle_path w dir file reference ''caps.file'') (md_caps doc)) (\<lambda>policy.
    res_bind (transpose_result (artifact_from_entry w dir reference ''artifacts.tools'') (Option.bind (md_artifacts doc) id)) (\<lambda>tools.
    Inr \<lparr>bn_described = described, bn_manifest_dir = dir, bn_wasm_entry = wasm, bn_native_entry = native,
         bn_policy_path = policy, bn_tools = tools\<rparr>))))))"

fun describe_many_from :: "reg_world \<Rightarrow> string list \<Rightarrow> agent_ref list \<Rightarrow> agent_ref list \<Rightarrow> registry_error + described_agent list" where
  "describe_many_from w dirs seen [] = Inr []"
| "describe_many_from w dirs seen (r # rs) =
     (if r \<in> set seen then describe_many_from w dirs seen rs
      else res_bind (describe w dirs r) (\<lambda>d. map_sum id ((#) d) (describe_many_from w dirs (r # seen) rs)))"

definition describe_many :: "reg_world \<Rightarrow> string list \<Rightarrow> agent_ref list \<Rightarrow> registry_error + described_agent list" where
  "describe_many w dirs references = describe_many_from w dirs [] references"

definition digests_from :: "described_agent list \<Rightarrow> (agent_ref \<times> string) list" where
  "digests_from described = map (\<lambda>a. (dsc_reference a, dsc_digest a)) described"

definition digest_file_hex :: "reg_world \<Rightarrow> string \<Rightarrow> registry_error + string" where
  "digest_file_hex w path =
    (case rw_read_bytes w path of Inl err \<Rightarrow> Inl (RegIoPath path err) | Inr bs \<Rightarrow> Inr (to_hex (rw_blake3 w bs)))"

section \<open>Discovery\<close>

text \<open>The number of directories within \<open>k\<close> levels.\<close>

fun dir_weight :: "reg_world \<Rightarrow> nat \<Rightarrow> string \<Rightarrow> nat" where
  "dir_weight w 0 dir = 1"
| "dir_weight w (Suc k) dir =
     Suc (sum_list (map (\<lambda>name. dir_weight w k (path_join dir name)) (case rw_read_dir w dir of Some names \<Rightarrow> names | None \<Rightarrow> [])))"

definition subdirectories :: "reg_world \<Rightarrow> string \<Rightarrow> string list" where
  "subdirectories w dir = (case rw_read_dir w dir of Some names \<Rightarrow> map (path_join dir) (sort names) | None \<Rightarrow> [])"

lemma sum_list_sort: "sum_list (map f (sort xs)) = (sum_list (map f xs) :: nat)"
proof -
  have "sum_list (map f ys) = sum_mset (image_mset f (mset ys))" for ys by (simp flip: sum_mset_sum_list)
  then show ?thesis by simp
qed

lemma subdirectories_weight:
  "sum_list (map (dir_weight w k) (subdirectories w dir)) < dir_weight w (Suc k) dir"
proof (cases "rw_read_dir w dir")
  case (Some names)
  have "sum_list (map (\<lambda>name. dir_weight w k (path_join dir name)) (sort names)) =
        sum_list (map (\<lambda>name. dir_weight w k (path_join dir name)) names)"
    by (simp add: sum_list_sort)
  then show ?thesis using Some by (simp add: subdirectories_def o_def)
qed (simp add: subdirectories_def)

function discover_loop :: "reg_world \<Rightarrow> (string \<times> nat) list \<Rightarrow> string list" where
  "discover_loop w [] = []"
| "discover_loop w ((dir, depth) # queue) =
     (let manifest = path_join dir ''manifest.toml'' in
      if rw_is_file w manifest then manifest # discover_loop w queue
      else if 3 \<le> depth then discover_loop w queue
      else discover_loop w (queue @ map (\<lambda>d. (d, Suc depth)) (subdirectories w dir)))"
  by pat_completeness auto
termination
proof (relation "measure (\<lambda>(w, queue). sum_list (map (\<lambda>(d, k). dir_weight w (3 - k) d) queue))", goal_cases)
  case (4 w dir depth queue manifest)
  then obtain k where k: "3 - depth = Suc k" "3 - Suc depth = k" by (metis Suc_diff_Suc not_le)
  then show ?case using subdirectories_weight [of w k dir] by (simp add: o_def)
next
  case (2 w dir depth queue manifest)
  then show ?case by (cases "3 - depth") auto
next
  case (3 w dir depth queue manifest)
  then show ?case by (cases "3 - depth") auto
qed simp

declare discover_loop.simps [simp del]

definition discover_manifest_paths :: "reg_world \<Rightarrow> string \<Rightarrow> string list" where
  "discover_manifest_paths w base =
    (if rw_is_file w base then (if path_last_name base = Some ''manifest.toml'' then [base] else [])
     else if \<not> rw_is_dir w base then []
     else discover_loop w [(base, 0)])"

fun list_paths :: "reg_world \<Rightarrow> agent_ref list \<Rightarrow> string list \<Rightarrow> registry_error + listed_agent list" where
  "list_paths w seen [] = Inr []"
| "list_paths w seen (path # paths) =
     res_bind (read_manifest w path) (\<lambda>(raw, doc).
     let reference = \<lparr>ar_name = am_name (md_agent doc), ar_variant = am_variant (md_agent doc)\<rparr> in
     res_bind (validate_reference reference) (\<lambda>_.
     if reference \<in> set seen then list_paths w seen paths
     else res_bind (build_described w reference doc raw) (\<lambda>(_, described).
       map_sum id ((#) \<lparr>la_described = described, la_manifest_path = path\<rparr>) (list_paths w (reference # seen) paths))))"

definition list_agents :: "reg_world \<Rightarrow> string list \<Rightarrow> registry_error + listed_agent list" where
  "list_agents w dirs =
    list_paths w [] (concat (map (discover_manifest_paths w) (filter (\<lambda>b. rw_is_dir w b \<or> rw_is_file w b) dirs)))"

section \<open>Tool documents\<close>

datatype transport =
    TransportExec string "string list"
  | TransportHttp string string "(string \<times> string) list"

record tool_entry =
  te_id :: string
  te_description :: string
  te_transport :: transport
  te_input_schema :: json
  te_result_schema :: json
  te_schema_refs :: json_map
  te_capabilities :: "string list"
  te_secrets :: "string list"
  te_budget :: "(u64 option \<times> f64 option) option"
  te_requires_confirmation :: bool
  te_observability :: "string list option"

record tools_doc =
  tld_version :: u32
  tld_tools :: "tool_entry list"

fun transport_validate :: "transport \<Rightarrow> string + unit" where
  "transport_validate (TransportExec cmd args) =
     (if trim cmd = [] then Inl ''exec transport requires a command'' else Inr ())"
| "transport_validate (TransportHttp meth url headers) =
     (if trim meth = [] then Inl ''http transport requires a method''
      else if trim url = [] then Inl ''http transport requires a url'' else Inr ())"

definition tool_validate :: "tool_entry \<Rightarrow> string + unit" where
  "tool_validate t =
    (if trim (te_id t) = [] then Inl ''tool id cannot be empty''
     else if trim (te_description t) = [] then Inl ''description cannot be empty''
     else transport_validate (te_transport t))"

fun validate_tools_from :: "nat \<Rightarrow> tool_entry list \<Rightarrow> string + unit" where
  "validate_tools_from i [] = Inr ()"
| "validate_tools_from i (t # ts) =
     (case tool_validate t of
        Inl detail \<Rightarrow> Inl (''tool #'' @ decimal i @ '': '' @ detail)
      | Inr _ \<Rightarrow> validate_tools_from (Suc i) ts)"

definition tools_validate :: "tools_doc \<Rightarrow> string + unit" where
  "tools_validate doc =
    (if tld_version doc \<noteq> 1
     then Inl (''unsupported tools.json version '' @ decimal (unat (tld_version doc)) @ '' (expected 1)'')
     else validate_tools_from 0 (tld_tools doc))"

definition load_tools :: "reg_world \<Rightarrow> (string \<Rightarrow> string + tools_doc) \<Rightarrow> string \<Rightarrow> registry_error + tools_doc" where
  "load_tools w parse path =
    (case rw_read w path of
       Inl err \<Rightarrow> Inl (RegIoPath path err)
     | Inr raw \<Rightarrow>
         (case parse raw of
            Inl err \<Rightarrow> Inl (RegTools None (''invalid JSON: '' @ err))
          | Inr doc \<Rightarrow> (case tools_validate doc of Inl detail \<Rightarrow> Inl (RegTools None detail) | Inr _ \<Rightarrow> Inr doc)))"

definition schema_property_names :: "json \<Rightarrow> string set" where
  "schema_property_names schema =
    (case schema of
       JObject m \<Rightarrow> (case map_of m ''properties'' of Some (JObject props) \<Rightarrow> set (map fst props) | _ \<Rightarrow> {})
     | _ \<Rightarrow> {})"

end
