(* ===== verification/Local_Exec.thy ===== *)
theory Local_Exec
  imports Agents_Native Agent_Registry Opening_Runner
begin

text \<open>
  The local executor (\<open>crates/executor-local/src/lib.rs\<close>): one node of an opening, run as a Wasm agent
  whose digest matches its manifest, or by the native agent of the same name. The Wasm runtime is a
  parameter: a spawn says what it leaves of the knowledge base and what every poll sees of the agent's
  output. Decoding of JSON into the data of the agents is a parameter too (\<open>wire\<close>).
\<close>

section \<open>Data\<close>

datatype run_error = RunExecutor string | RunTimeout string u64

record writer_output =
  wro_body_md :: string
  wro_rationale :: string
  wro_citations :: "int list"
  wro_word_count :: nat

record mailer_output =
  mlo_status :: string
  mlo_recipients :: "string list"
  mlo_message_id :: string
  mlo_delivered_at_ms :: u64

record agent_spec =
  sp_identity :: agent_ref
  sp_wasm :: string
  sp_policy_path :: string
  sp_argv :: "string list"
  sp_env :: "(string \<times> string) list"
  sp_cwd :: "string option"
  sp_stdout_capacity :: nat
  sp_stderr_capacity :: nat
  sp_ready_timeout_ms :: u64

text \<open>What round \<open>i\<close> of the polling sees: both outputs, and whether the deadline has passed.\<close>

type_synonym agent_polls = "nat \<Rightarrow> bytes \<times> bytes \<times> bool"

record wire =
  wi_contact :: "json \<Rightarrow> string + resolved_contact"
  wi_context :: "json \<Rightarrow> string + context_bundle"
  wi_draft :: "json \<Rightarrow> string + draft_artifact"
  wi_review :: "json \<Rightarrow> string + review"
  wi_string :: "json \<Rightarrow> string + string"
  wi_contact_text :: "string \<Rightarrow> string + resolved_contact"
  wi_context_text :: "string \<Rightarrow> string + context_bundle"
  wi_review_text :: "string \<Rightarrow> string + review"
  wi_writer_text :: "string \<Rightarrow> string + writer_output"
  wi_mailer_text :: "string \<Rightarrow> string + mailer_output"
  wi_json_text :: "string \<Rightarrow> string + json"
  wi_contact_bytes :: "resolved_contact \<Rightarrow> bytes"
  wi_base64 :: "bytes \<Rightarrow> string"
  wi_lossy :: "bytes \<Rightarrow> string"

record local_world =
  lx_agents :: agent_world
  lx_registry :: reg_world
  lx_dirs :: "string list"
  lx_wire :: wire
  lx_dots :: string
  lx_confirm_external :: bool
  lx_default_model :: string
  lx_workdir :: string
  lx_spawn :: "nat \<Rightarrow> agent_spec \<Rightarrow> kb_state \<Rightarrow> kb_state \<times> (string + agent_polls)"

record node_request =
  nq_node :: node
  nq_inputs :: ports
  nq_attempt :: u32
  nq_trace_id :: u128
  nq_opening_id :: u128
  nq_agent_id :: u128

type_synonym 'a exec_op = "(run_error, 'a) world_op"

section \<open>Errors\<close>

definition kb_error_text :: "kb_error \<Rightarrow> string" where
  "kb_error_text e =
    (case e of
       KbConfig s \<Rightarrow> ''configuration error: '' @ s
     | KbSqlite s \<Rightarrow> ''SQLite error: '' @ s
     | KbUnknownSchema s \<Rightarrow> ''schema not found for kind '' @ s
     | KbSchema s \<Rightarrow> ''payload validation failed: '' @ s
     | KbInvalidScope s \<Rightarrow> ''invalid scope '' @ quoted s
     | KbMissingEvidence i \<Rightarrow> ''referential integrity failed for evidence id '' @ show_int i
     | KbCanon s \<Rightarrow> ''canonicalization error: '' @ s
     | KbQueryNotReadOnly \<Rightarrow> ''query must be read-only'')"

definition broker_error_text :: "broker_error \<Rightarrow> string" where
  "broker_error_text e =
    (case e of
       StreamingUnsupported \<Rightarrow> ''streaming unsupported''
     | BudgetExceeded limit used \<Rightarrow> ''budget exceeded (limit='' @ decimal (unat limit) @ '', used='' @ decimal (unat used) @ '')''
     | BrokerTimeout ms \<Rightarrow> ''timeout after '' @ decimal (unat ms) @ ''ms''
     | ProviderFault code message \<Rightarrow> ''provider fault: '' @ code @ '' '' @ message
     | InvalidRequest reason \<Rightarrow> ''invalid request: '' @ reason
     | broker_error.Cancelled \<Rightarrow> ''cancelled''
     | OutputTooLarge cap \<Rightarrow> ''output too large (cap='' @ decimal cap @ '')'')"

definition agent_error_text :: "agent_error \<Rightarrow> string" where
  "agent_error_text e =
    (case e of
       AgentKb err \<Rightarrow> ''knowledge base error: '' @ kb_error_text err
     | AgentModel err \<Rightarrow> ''model broker error: '' @ broker_error_text err
     | AgentIo s \<Rightarrow> ''io error: '' @ s
     | AgentSerialization s \<Rightarrow> ''serialization error: '' @ s
     | ConfirmationUnavailable \<Rightarrow> ''confirmation provider unavailable''
     | ConfirmationDeclined \<Rightarrow> ''action was declined by the operator''
     | AgentInvalidInput s \<Rightarrow> ''invalid input: '' @ s
     | AgentOther s \<Rightarrow> s)"

text \<open>\<open>map_agent_error\<close>, and \<open>map_err\<close> on a whole operation.\<close>

definition map_agent_error :: "agent_error \<Rightarrow> run_error" where
  "map_agent_error e = RunExecutor (agent_error_text e)"

definition amap_err :: "('e \<Rightarrow> 'f) \<Rightarrow> ('e, 'a) world_op \<Rightarrow> ('f, 'a) world_op" where
  "amap_err f m s = map_option (\<lambda>(s, r). (s, map_sum f id r)) (m s)"

definition should_fallback :: "run_error \<Rightarrow> bool" where
  "should_fallback e =
    (case e of
       RunExecutor msg \<Rightarrow> str_contains msg ''missing wasm entry'' \<or> str_contains msg ''No such file or directory''
     | RunTimeout _ _ \<Rightarrow> False)"

section \<open>Data as JSON\<close>

definition json_nat :: "nat \<Rightarrow> json" where "json_nat n = JNumber (PosInt (of_nat n))"

definition contact_json :: "resolved_contact \<Rightarrow> json" where
  "contact_json c =
    JObject ([(''contact_id'', JString (rct_contact_id c)), (''name'', JString (rct_name c)), (''email'', JString (rct_email c)),
      (''org'', case rct_org c of Some v \<Rightarrow> JString v | None \<Rightarrow> JNull), (''confidence'', json_f32 (rct_confidence c))] @
      (case rct_last_event_id c of Some i \<Rightarrow> [(''last_event_id'', json_int i)] | None \<Rightarrow> []))"

definition snippet_json :: "context_snippet \<Rightarrow> json" where
  "snippet_json s = JObject [(''title'', JString (cs_title s)), (''excerpt'', JString (cs_excerpt s)), (''event_id'', json_int (cs_event_id s))]"

definition context_json :: "context_bundle \<Rightarrow> json" where
  "context_json b = JObject [(''topic'', JString (cb_topic b)), (''snippets'', JArray (map snippet_json (cb_snippets b)))]"

definition draft_json :: "draft_artifact \<Rightarrow> json" where
  "draft_json d =
    JObject [(''artifact_id'', json_int (da_artifact_id d)), (''path'', JString (da_path d)), (''sha256'', JString (da_sha256 d)),
      (''body_md'', JString (da_body_md d)), (''rationale'', JString (da_rationale d)),
      (''citations'', JArray (map json_int (da_citations d))), (''word_count'', json_nat (da_word_count d))]"

definition minimal_draft_json :: "draft_artifact \<Rightarrow> json" where
  "minimal_draft_json d =
    JObject [(''body_md'', JString (da_body_md d)), (''word_count'', json_nat (da_word_count d)), (''artifact_id'', json_int (da_artifact_id d))]"

definition review_json :: "review \<Rightarrow> json" where
  "review_json r =
    JObject [(''ok'', JBool (rv_ok r)), (''notes'', JObject [(''summary'', JString (rvn_summary (rv_notes r))),
      (''suggestions'', JArray (map JString (rvn_suggestions (rv_notes r))))])]"

definition mail_result_json :: "mail_result \<Rightarrow> json" where
  "mail_result_json m =
    JObject [(''status'', JString (ml_status m)), (''recipients'', JArray (map JString (ml_recipients m))),
      (''artifact_id'', json_int (ml_artifact_id m)), (''message_id'', JString (ml_message_id m)),
      (''delivered_at_ms'', JNumber (PosInt (ml_delivered_at_ms m)))]"

definition stringify_input :: "local_world \<Rightarrow> json \<Rightarrow> string" where
  "stringify_input w v = (case v of JString s \<Rightarrow> s | other \<Rightarrow> ke_show (ag_kb (lx_agents w)) other)"

definition encode_arg :: "local_world \<Rightarrow> json \<Rightarrow> string" where
  "encode_arg w v = wi_base64 (lx_wire w) (utf8_bytes (ke_show (ag_kb (lx_agents w)) v))"

definition encode_contact :: "local_world \<Rightarrow> resolved_contact \<Rightarrow> string" where
  "encode_contact w c = wi_base64 (lx_wire w) (wi_contact_bytes (lx_wire w) c)"

text \<open>\<open>serde_json::from_str\<close> must accept the trimmed text.\<close>

definition try_parse_json :: "local_world \<Rightarrow> bytes \<Rightarrow> string option" where
  "try_parse_json w stdout =
    Option.bind (map_option trim (utf8_decode stdout)) (\<lambda>t.
      if t = [] then None else case wi_json_text (lx_wire w) t of Inl _ \<Rightarrow> None | Inr _ \<Rightarrow> Some t)"

section \<open>Inputs of a node\<close>

definition read_port :: "(json \<Rightarrow> string + 'a) \<Rightarrow> node_request \<Rightarrow> string \<Rightarrow> run_error + 'a option" where
  "read_port decode req port =
    (case map_of (nq_inputs req) port of
       Some (v # _) \<Rightarrow> map_sum (\<lambda>err. RunExecutor (''failed to decode port '' @ quoted port @ '': '' @ err)) Some (decode v)
     | _ \<Rightarrow> Inr None)"

definition require_port :: "string \<Rightarrow> (json \<Rightarrow> string + 'a) \<Rightarrow> node_request \<Rightarrow> string \<Rightarrow> run_error + 'a" where
  "require_port missing decode req port =
    res_bind (read_port decode req port) (\<lambda>v. ok_or (RunExecutor missing) v)"

definition node_param :: "local_world \<Rightarrow> node_request \<Rightarrow> string \<Rightarrow> run_error + string option" where
  "node_param w req key =
    (case map_of (nd_with (nq_node req)) key of
       None \<Rightarrow> Inr None
     | Some v \<Rightarrow> map_sum (\<lambda>err. RunExecutor (''invalid parameter '' @ quoted key @ '' for node '' @ nd_id (nq_node req) @ '': '' @ err))
                   Some (wi_string (lx_wire w) v))"

definition agent_timeout :: "node_request \<Rightarrow> u64" where
  "agent_timeout req = (case nd_timeout_ms (nq_node req) of Some ms \<Rightarrow> ms | None \<Rightarrow> 30000)"

definition reference_spec :: "agent_ref \<Rightarrow> string" where
  "reference_spec r = (case ar_variant r of None \<Rightarrow> ar_name r | Some variant \<Rightarrow> ar_name r @ ''@'' @ variant)"

definition exec_context_of :: "local_world \<Rightarrow> node_request \<Rightarrow> action_decision option \<Rightarrow> agent_context" where
  "exec_context_of w req confirmation =
    \<lparr>ac_has_broker = True, ac_workdir = lx_workdir w, ac_trace_id = nq_trace_id req, ac_opening_id = nq_opening_id req,
     ac_agent_id = nq_agent_id req,
     ac_confirmation = Some (case confirmation of Some d \<Rightarrow> PreApproved d | None \<Rightarrow> Operator)\<rparr>"

section \<open>Wasm agents\<close>

text \<open>A bundle whose Wasm file is missing or altered is treated as absent.\<close>

definition wasm_bundle :: "local_world \<Rightarrow> agent_ref \<Rightarrow> agent_bundle option" where
  "wasm_bundle w reference =
    (case load_bundle (lx_registry w) (lx_dirs w) reference of
       Inl _ \<Rightarrow> None
     | Inr b \<Rightarrow>
         (case bn_wasm_entry b of
            None \<Rightarrow> None
          | Some entry \<Rightarrow>
              if \<not> rw_is_file (lx_registry w) (abn_path entry) then None
              else case digest_file_hex (lx_registry w) (abn_path entry) of
                Inl _ \<Rightarrow> None
              | Inr digest \<Rightarrow> if digest \<noteq> abn_blake3 entry then None else Some b))"

definition require_wasm_bundle :: "local_world \<Rightarrow> agent_ref \<Rightarrow> run_error + agent_bundle" where
  "require_wasm_bundle w reference =
    (case load_bundle (lx_registry w) (lx_dirs w) reference of
       Inl err \<Rightarrow> Inl (RunExecutor (registry_error_text err))
     | Inr b \<Rightarrow>
         (case bn_wasm_entry b of
            None \<Rightarrow> Inl (RunExecutor (''agent '' @ quoted (reference_spec reference) @ '' is missing entry_wasm''))
          | Some entry \<Rightarrow>
              if \<not> rw_is_file (lx_registry w) (abn_path entry)
              then Inl (RunExecutor (''agent '' @ quoted (reference_spec reference) @ '' missing wasm binary at '' @ abn_path entry))
              else case digest_file_hex (lx_registry w) (abn_path entry) of
                Inl err \<Rightarrow> Inl (RunExecutor (abn_path entry @ '' digest check failed: '' @ registry_error_text err))
              | Inr digest \<Rightarrow>
                  if digest \<noteq> abn_blake3 entry
                  then Inl (RunExecutor (''agent '' @ quoted (reference_spec reference) @ '' wasm digest mismatch (expected '' @
                         abn_blake3 entry @ '', got '' @ digest @ '')''))
                  else Inr b))"

text \<open>The polling loop: the first JSON text on stdout, the first text on stderr, or the deadline.\<close>

partial_function (option) collect ::
  "local_world \<Rightarrow> agent_polls \<Rightarrow> agent_ref \<Rightarrow> string \<Rightarrow> u64 \<Rightarrow> nat \<Rightarrow> nat \<Rightarrow> nat \<Rightarrow> (run_error + string) option" where
  [code]: "collect w polls reference node_id timeout i last_stdout_len last_stderr_len =
    (case polls i of (stdout, stderr, expired) \<Rightarrow>
     case (if length stdout \<noteq> last_stdout_len then try_parse_json w stdout else None) of
       Some json_text \<Rightarrow> Some (Inr json_text)
     | None \<Rightarrow>
         let message = (if last_stderr_len < length stderr then trim (wi_lossy (lx_wire w) (drop last_stderr_len stderr)) else [])
         in if message \<noteq> [] then Some (Inl (RunExecutor (''agent '' @ reference_spec reference @ '' failed: '' @ message)))
            else if expired then Some (Inl (RunTimeout node_id timeout))
            else collect w polls reference node_id timeout (Suc i) (length stdout) (max last_stderr_len (length stderr)))"

definition spec_of :: "agent_ref \<Rightarrow> agent_bundle \<Rightarrow> agent_binary \<Rightarrow> string list \<Rightarrow> (string \<times> string) list \<Rightarrow> u64 \<Rightarrow> agent_spec" where
  "spec_of reference b entry args env timeout =
    \<lparr>sp_identity = reference, sp_wasm = abn_path entry,
     sp_policy_path = (case bn_policy_path b of Some p \<Rightarrow> p | None \<Rightarrow> path_join (bn_manifest_dir b) ''policy.caps''),
     sp_argv = args, sp_env = env, sp_cwd = Some (bn_manifest_dir b),
     sp_stdout_capacity = 256 * 1024, sp_stderr_capacity = 64 * 1024, sp_ready_timeout_ms = timeout\<rparr>"

definition spawn_and_collect ::
  "local_world \<Rightarrow> agent_ref \<Rightarrow> agent_bundle \<Rightarrow> string \<Rightarrow> string list \<Rightarrow> (string \<times> string) list \<Rightarrow> u64 \<Rightarrow> string exec_op" where
  "spawn_and_collect w reference b node_id args env timeout =
    abind (of_result (ok_or (RunExecutor ''agent missing wasm entry'') (bn_wasm_entry b))) (\<lambda>entry.
    abind atick (\<lambda>n s.
      case lx_spawn w n (spec_of reference b entry args env timeout) (as_kb s) of
        (kb, Inl err) \<Rightarrow> Some (s\<lparr>as_kb := kb\<rparr>, Inl (RunExecutor err))
      | (kb, Inr polls) \<Rightarrow>
          map_option (Pair (s\<lparr>as_kb := kb\<rparr>)) (collect w polls reference node_id timeout 0 0 0)))"

definition invoke_agent ::
  "local_world \<Rightarrow> (string \<Rightarrow> string + 'a) \<Rightarrow> agent_ref \<Rightarrow> agent_bundle \<Rightarrow> string \<Rightarrow> string list \<Rightarrow> (string \<times> string) list \<Rightarrow> u64 \<Rightarrow> 'a exec_op" where
  "invoke_agent w decode reference b node_id args env timeout =
    abind (spawn_and_collect w reference b node_id args env timeout) (\<lambda>output.
      of_result (map_sum (\<lambda>err. RunExecutor (''invalid '' @ agent_ref_spec reference @ '' output: '' @ err)) id (decode output)))"

text \<open>The \<open>match\<close> on an invocation: its value goes on, some errors fall back to the native agent.\<close>

definition with_fallback :: "'a exec_op \<Rightarrow> ('a \<Rightarrow> ports exec_op) \<Rightarrow> ports exec_op \<Rightarrow> ports exec_op" where
  "with_fallback m k native s =
    (case m s of
       None \<Rightarrow> None
     | Some (s, Inr a) \<Rightarrow> k a s
     | Some (s, Inl err) \<Rightarrow> if should_fallback err then native s else Some (s, Inl err))"

definition completed :: "(string \<times> json) list \<Rightarrow> ports exec_op" where
  "completed outs = areturn (fold (\<lambda>(port, v). push_port port v) outs [])"

section \<open>The native agents as nodes\<close>

definition native :: "'a agent_op \<Rightarrow> ('a \<Rightarrow> (string \<times> json) list) \<Rightarrow> ports exec_op" where
  "native m outs = abind (amap_err map_agent_error m) (\<lambda>a. completed (outs a))"

definition exec_contact_native :: "local_world \<Rightarrow> node_request \<Rightarrow> string \<Rightarrow> ports exec_op" where
  "exec_contact_native w req recipient_query =
    native (resolve_contact (lx_agents w) (exec_context_of w req None) recipient_query) (\<lambda>c. [(''out'', contact_json c)])"

definition exec_context_native :: "local_world \<Rightarrow> node_request \<Rightarrow> string \<Rightarrow> resolved_contact option \<Rightarrow> ports exec_op" where
  "exec_context_native w req topic contact =
    native (gather (lx_agents w) (lx_dots w) \<lparr>cr_topic = topic, cr_contact = contact\<rparr>) (\<lambda>b. [(''out'', context_json b)])"

definition exec_writer_native ::
  "local_world \<Rightarrow> node_request \<Rightarrow> resolved_contact \<Rightarrow> context_bundle \<Rightarrow> string \<Rightarrow> string \<Rightarrow> string option \<Rightarrow> ports exec_op" where
  "exec_writer_native w req recipient cbundle topic tone model =
    native (draft (lx_agents w) (exec_context_of w req None)
        \<lparr>dr_recipient = recipient, dr_topic = topic, dr_context = cbundle, dr_tone = Some tone, dr_length_hint = None,
         dr_model = model, dr_max_words = Some 180\<rparr>)
      (\<lambda>d. [(''out'', draft_json d)])"

definition review_outputs :: "review \<Rightarrow> (string \<times> json) list" where
  "review_outputs r = [(''ok'', JBool (rv_ok r)), (''review'', review_json r)]"

definition exec_critic_native :: "draft_artifact \<Rightarrow> ports exec_op" where
  "exec_critic_native d = completed (review_outputs (critique d))"

definition mail_outputs :: "mail_result \<Rightarrow> (string \<times> json) list" where
  "mail_outputs m = [(''ok'', JBool True), (''out'', mail_result_json m)]"

definition exec_mailer_native ::
  "local_world \<Rightarrow> node_request \<Rightarrow> draft_artifact \<Rightarrow> resolved_contact \<Rightarrow> review \<Rightarrow> string \<Rightarrow> action_decision option \<Rightarrow> ports exec_op" where
  "exec_mailer_native w req d contact rv topic confirmation =
    native (send_mail (lx_agents w) (exec_context_of w req confirmation)
        \<lparr>mq_draft = \<lparr>dd_artifact_id = da_artifact_id d, dd_path = da_path d, dd_body_preview = da_body_md d\<rparr>,
         mq_contact = contact, mq_review = rv, mq_topic = topic\<rparr>)
      mail_outputs"

section \<open>What the host records for a Wasm agent\<close>

definition node_provenance :: "local_world \<Rightarrow> node_request \<Rightarrow> string option \<Rightarrow> provenance" where
  "node_provenance w req rationale =
    (let env = ag_kb (lx_agents w) in
     \<lparr>pv_trace_id = trace_label env (nq_trace_id req), pv_opening_id = opening_label env (nq_opening_id req),
      pv_agent_id = ''agent:'' @ nd_id (nq_node req), pv_inputs_hash = None, pv_rationale = rationale\<rparr>)"

definition node_delta :: "local_world \<Rightarrow> node_request \<Rightarrow> string \<Rightarrow> json \<Rightarrow> string option \<Rightarrow> state_delta" where
  "node_delta w req kind payload rationale =
    \<lparr>sd_kind = kind, sd_actor = ''agent:'' @ nd_id (nq_node req), sd_scope = Some ''user'', sd_payload = payload,
     sd_provenance = node_provenance w req rationale\<rparr>"

definition kb_run_error :: "agent_error \<Rightarrow> run_error" where
  "kb_run_error e =
    RunExecutor (case e of AgentKb err \<Rightarrow> kb_error_text err | AgentIo s \<Rightarrow> ''filesystem error: '' @ s | other \<Rightarrow> agent_error_text other)"

definition persist_draft :: "local_world \<Rightarrow> node_request \<Rightarrow> resolved_contact \<Rightarrow> writer_output \<Rightarrow> draft_artifact exec_op" where
  "persist_draft w req recipient out =
    (let aw = lx_agents w; drafts_dir = path_join (path_join (lx_workdir w) ''artifacts'') ''drafts'' in
     abind atick (\<lambda>n.
     let path = path_join drafts_dir (''draft-'' @ ag_uuid aw n @ ''.md'');
         sha256 = to_hex (ag_sha256 aw (utf8_bytes (wro_body_md out))) in
     abind (amap_err kb_run_error (write_file aw drafts_dir path (wro_body_md out))) (\<lambda>_.
     abind (amap_err kb_run_error (kb_propose aw (node_delta w req ''artifact.created''
         (JObject [(''kind'', JString ''draft_email.md''), (''path'', JString path), (''sha256'', JString sha256),
           (''summary'', JString (''Draft email to '' @ rct_name recipient)),
           (''citations'', JArray (map json_int (wro_citations out)))])
         (Some (wro_rationale out))))) (\<lambda>event_id.
     areturn \<lparr>da_artifact_id = event_id, da_path = path, da_sha256 = sha256, da_body_md = wro_body_md out,
       da_rationale = wro_rationale out, da_citations = wro_citations out, da_word_count = wro_word_count out\<rparr>))))"

definition record_mail_event ::
  "local_world \<Rightarrow> node_request \<Rightarrow> draft_artifact \<Rightarrow> string \<Rightarrow> mailer_output \<Rightarrow> string option \<Rightarrow> mail_result exec_op" where
  "record_mail_event w req d topic mail rationale =
    abind (amap_err kb_run_error (kb_propose (lx_agents w) (node_delta w req ''email.sent''
        (JObject [(''to'', JArray (map JString (mlo_recipients mail))), (''subject'', JString topic),
          (''artifact_id'', json_int (da_artifact_id d))])
        rationale))) (\<lambda>_.
    areturn \<lparr>ml_status = mlo_status mail, ml_recipients = mlo_recipients mail, ml_artifact_id = da_artifact_id d,
      ml_message_id = mlo_message_id mail, ml_delivered_at_ms = mlo_delivered_at_ms mail\<rparr>)"

section \<open>Nodes\<close>

text \<open>\<open>recipient_query\<close> stands in for \<open>query\<close>; a value of it that is not a string counts as absent.\<close>

definition exec_contact :: "local_world \<Rightarrow> agent_ref \<Rightarrow> node_request \<Rightarrow> ports exec_op" where
  "exec_contact w reference req =
    abind (of_result (node_param w req ''query'')) (\<lambda>q.
    let recipient_query =
      (case q of
         Some v \<Rightarrow> v
       | None \<Rightarrow> (case node_param w req ''recipient_query'' of Inr (Some v) \<Rightarrow> v | _ \<Rightarrow> []))
    in if trim recipient_query = [] then afail (RunExecutor (''contact_resolver requires a '' @ quoted ''query''))
       else case wasm_bundle w reference of
         None \<Rightarrow> exec_contact_native w req recipient_query
       | Some b \<Rightarrow>
           with_fallback
             (invoke_agent w (wi_contact_text (lx_wire w)) reference b (nd_id (nq_node req))
               [reference_spec reference, ''--query'', recipient_query] [] (agent_timeout req))
             (\<lambda>c. completed [(''out'', contact_json c)])
             (exec_contact_native w req recipient_query))"

definition exec_context :: "local_world \<Rightarrow> agent_ref \<Rightarrow> node_request \<Rightarrow> ports exec_op" where
  "exec_context w reference req =
    abind (of_result (node_param w req ''topic'')) (\<lambda>t.
    let topic = (case t of Some v \<Rightarrow> v | None \<Rightarrow> ''general update'') in
    abind (of_result (read_port (wi_contact (lx_wire w)) req ''contact'')) (\<lambda>contact.
    case wasm_bundle w reference of
      None \<Rightarrow> exec_context_native w req topic contact
    | Some b \<Rightarrow>
        with_fallback
          (invoke_agent w (wi_context_text (lx_wire w)) reference b (nd_id (nq_node req))
            ([reference_spec reference, ''--topic'', topic] @
             (case contact of Some c \<Rightarrow> [''--contact-base64'', encode_contact w c] | None \<Rightarrow> [])) [] (agent_timeout req))
          (\<lambda>cb. completed [(''out'', context_json cb)])
          (exec_context_native w req topic contact)))"

definition exec_writer :: "local_world \<Rightarrow> agent_ref \<Rightarrow> node_request \<Rightarrow> ports exec_op" where
  "exec_writer w reference req =
    abind (of_result (require_port ''writer missing recipients input'' (wi_contact (lx_wire w)) req ''recipients'')) (\<lambda>recipient.
    abind (of_result (require_port ''writer missing context input'' (wi_context (lx_wire w)) req ''context'')) (\<lambda>cb.
    abind (of_result (node_param w req ''topic'')) (\<lambda>t.
    abind (of_result (node_param w req ''tone'')) (\<lambda>tn.
    abind (of_result (node_param w req ''model'')) (\<lambda>m.
    let topic = (case t of Some v \<Rightarrow> v | None \<Rightarrow> ''update'');
        tone = (case tn of Some v \<Rightarrow> v
          | None \<Rightarrow> (case map_of (nd_with (nq_node req)) ''tone'' of Some (JString v) \<Rightarrow> v | _ \<Rightarrow> ''neutral-friendly''));
        model = (case m of Some v \<Rightarrow> Some v | None \<Rightarrow> Some (lx_default_model w));
        native_run = exec_writer_native w req recipient cb topic tone model
    in case wasm_bundle w reference of
      None \<Rightarrow> native_run
    | Some b \<Rightarrow>
        with_fallback
          (invoke_agent w (wi_writer_text (lx_wire w)) reference b (nd_id (nq_node req))
            [reference_spec reference, ''--recipient-base64'', encode_contact w recipient, ''--topic'', topic, ''--tone'', tone,
             ''--context-base64'', encode_arg w (context_json cb)] [] (agent_timeout req))
          (\<lambda>out. abind (persist_draft w req recipient out) (\<lambda>d. completed [(''out'', draft_json d)]))
          native_run)))))"

definition exec_critic :: "local_world \<Rightarrow> agent_ref \<Rightarrow> node_request \<Rightarrow> ports exec_op" where
  "exec_critic w reference req =
    abind (of_result (require_port ''critic missing draft input'' (wi_draft (lx_wire w)) req ''in'')) (\<lambda>d.
    case wasm_bundle w reference of
      None \<Rightarrow> exec_critic_native d
    | Some b \<Rightarrow>
        with_fallback
          (invoke_agent w (wi_review_text (lx_wire w)) reference b (nd_id (nq_node req))
            [reference_spec reference, ''--draft-base64'', encode_arg w (minimal_draft_json d)] [] (agent_timeout req))
          (\<lambda>rv. completed (review_outputs rv))
          (exec_critic_native d))"

definition mail_question :: "node_request \<Rightarrow> u128 \<Rightarrow> draft_artifact \<Rightarrow> resolved_contact \<Rightarrow> action_proposal" where
  "mail_question req fresh d contact =
    \<lparr>ap_id = ''node:'' @ nd_id (nq_node req), ap_trace_id = nq_trace_id req, ap_opening_id = nq_opening_id req, ap_agent = fresh,
     ap_summary = ''Send draft email '' @ [CHR 0x22] @ da_rationale d @ [CHR 0x22],
     ap_recipients = [rct_email contact], ap_artifact_path = da_path d\<rparr>"

definition request_confirmation :: "local_world \<Rightarrow> node_request \<Rightarrow> draft_artifact \<Rightarrow> resolved_contact \<Rightarrow> action_decision option exec_op" where
  "request_confirmation w req d contact =
    (if lx_confirm_external w then
       abind atick (\<lambda>n.
       abind (amap_err (\<lambda>e. RunExecutor (agent_error_text e))
           (confirm (lx_agents w) Operator (mail_question req (ag_new_id (lx_agents w) n) d contact)))
         (\<lambda>decision. areturn (Some decision)))
     else areturn None)"

definition exec_mailer :: "local_world \<Rightarrow> agent_ref \<Rightarrow> node_request \<Rightarrow> ports exec_op" where
  "exec_mailer w reference req =
    abind (of_result (require_port ''mailer missing draft input'' (wi_draft (lx_wire w)) req ''draft'')) (\<lambda>d.
    abind (of_result (require_port ''mailer missing contact input'' (wi_contact (lx_wire w)) req ''contact'')) (\<lambda>contact.
    abind (of_result (require_port ''mailer missing review input'' (wi_review (lx_wire w)) req ''review'')) (\<lambda>rv.
    abind (of_result (node_param w req ''topic'')) (\<lambda>t.
    let topic = (case t of Some v \<Rightarrow> v | None \<Rightarrow> ''update'') in
    abind (request_confirmation w req d contact) (\<lambda>decision.
    let native_run = exec_mailer_native w req d contact rv topic decision in
    case wasm_bundle w reference of
      None \<Rightarrow> native_run
    | Some b \<Rightarrow>
        if (case decision of Some a \<Rightarrow> \<not> ad_approved a | None \<Rightarrow> False)
        then afail (RunExecutor ''send cancelled by operator'')
        else
          with_fallback
            (invoke_agent w (wi_mailer_text (lx_wire w)) reference b (nd_id (nq_node req))
              [reference_spec reference, ''--draft-base64'', encode_arg w (minimal_draft_json d),
               ''--contact-base64'', encode_contact w contact, ''--review-base64'', encode_arg w (review_json rv),
               ''--topic'', topic] [] (agent_timeout req))
            (\<lambda>mail. abind (record_mail_event w req d topic mail (Option.bind decision ad_rationale))
               (\<lambda>r. completed (mail_outputs r)))
            native_run)))))"

definition exec_system_tra :: "local_world \<Rightarrow> agent_ref \<Rightarrow> node_request \<Rightarrow> ports exec_op" where
  "exec_system_tra w reference req =
    (case map_of (nd_with (nq_node req)) ''input'' of
       None \<Rightarrow> afail (RunExecutor (''system_tra requires an '' @ quoted ''input''))
     | Some input \<Rightarrow>
         (case wasm_bundle w reference of
            None \<Rightarrow> afail (RunExecutor ''system_tra missing wasm entry'')
          | Some b \<Rightarrow>
              abind (invoke_agent w (wi_json_text (lx_wire w)) reference b (nd_id (nq_node req))
                  [reference_spec reference, ''--input'', stringify_input w input] [] (agent_timeout req))
                (\<lambda>output. completed [(''out'', output)])))"

definition declared_outputs :: "agent_bundle \<Rightarrow> json \<Rightarrow> (string \<times> json) list" where
  "declared_outputs b output =
    (let found = (case output of
         JObject m \<Rightarrow> concat (map (\<lambda>port. case map_of m port of Some v \<Rightarrow> [(port, v)] | None \<Rightarrow> [])
           (agp_outputs (dsc_ports (bn_described b))))
       | _ \<Rightarrow> [])
     in if found = [] then [(''out'', output)] else found)"

definition exec_generic :: "local_world \<Rightarrow> agent_ref \<Rightarrow> node_request \<Rightarrow> ports exec_op" where
  "exec_generic w reference req =
    abind (of_result (require_wasm_bundle w reference)) (\<lambda>b.
    abind (invoke_agent w (wi_json_text (lx_wire w)) reference b (nd_id (nq_node req))
        (reference_spec reference # concat (map (\<lambda>(key, v). [''--'' @ key, stringify_input w v]) (nd_with (nq_node req))))
        [(''RUNLOOP_NODE_INPUT'', ke_show (ag_kb (lx_agents w)) (JObject (nd_with (nq_node req))))] (agent_timeout req))
      (\<lambda>output. completed (declared_outputs b output)))"

definition exec_agent_node :: "local_world \<Rightarrow> agent_ref \<Rightarrow> node_request \<Rightarrow> ports exec_op" where
  "exec_agent_node w reference req =
    (if ar_name reference = ''contact_resolver'' then exec_contact w reference req
     else if ar_name reference = ''context_gatherer'' then exec_context w reference req
     else if ar_name reference = ''writer'' then exec_writer w reference req
     else if ar_name reference = ''critic'' then exec_critic w reference req
     else if ar_name reference = ''mailer'' then exec_mailer w reference req
     else if ar_name reference = ''system_tra'' then exec_system_tra w reference req
     else exec_generic w reference req)"

definition execute_node :: "local_world \<Rightarrow> node_request \<Rightarrow> ports exec_op" where
  "execute_node w req =
    (case nd_kind (nq_node req) of
       AgentNode reference \<Rightarrow> exec_agent_node w reference req
     | OpeningNode name \<Rightarrow> afail (RunExecutor (''nested opening '' @ quoted name @ '' unsupported in local executor'')))"

section \<open>Start\<close>

definition seed_delta :: state_delta where
  "seed_delta =
    \<lparr>sd_kind = ''contact.upserted'', sd_actor = ''agent:seed'', sd_scope = Some ''system'',
     sd_payload = JObject [(''name'', JString ''John Smith''), (''email'', JString ''john@acme.com''), (''org'', JString ''Acme''),
       (''trust'', JNumber (Float 0x3FECCCCCCCCCCCCD)), (''evidence'', JArray [])],
     sd_provenance = \<lparr>pv_trace_id = ''trace:seed'', pv_opening_id = ''opening:seed'', pv_agent_id = ''agent:seed-contact'',
       pv_inputs_hash = None, pv_rationale = Some ''seed contact for compose_email''\<rparr>\<rparr>"

definition seed_sql :: string where
  "seed_sql = ''SELECT contact_key FROM contacts WHERE email = '' @ quoted ''john@acme.com'' @ '' LIMIT 1''"

definition seed_contact :: "agent_world \<Rightarrow> unit agent_op" where
  "seed_contact w s =
    (case query (ag_kb w) (ag_redactor w) (ag_views_sql w) seed_sql (as_kb s) of
       Inl e \<Rightarrow> Some (s, Inl (AgentKb e))
     | Inr res \<Rightarrow>
         if qr_rows res \<noteq> [] then Some (s, Inr ())
         else abind (kb_propose w seed_delta) (\<lambda>_. ensure_views w) s)"

text \<open>\<open>build_executor\<close> once the knowledge base is open.\<close>

definition start_executor :: "agent_world \<Rightarrow> unit agent_op" where
  "start_executor w = abind (ensure_views w) (\<lambda>_. seed_contact w)"

end
