(* ===== verification/Agent_Registry_Props.thy ===== *)
theory Agent_Registry_Props
  imports Agent_Registry
begin

text \<open>
  What a reference and a manifest can reach: a manifest is found below a search directory, the files of
  a bundle below the directory of its manifest, and a description is of the agent that was asked for.
\<close>

section \<open>Components of joined paths\<close>

lemma split_char_append:
  "split_char d (a @ b) =
     butlast (split_char d a) @ (last (split_char d a) @ hd (split_char d b)) # tl (split_char d b)"
proof (induction a)
  case (Cons c a)
  obtain p ps where sa: "split_char d a = p # ps" by (cases "split_char d a") auto
  show ?case
  proof (cases ps)
    case Nil
    then show ?thesis using Cons sa by simp
  next
    case (Cons q qs)
    then show ?thesis using Cons.IH sa by simp
  qed
qed simp

lemma has_parent_dir_iff: "has_parent_dir p \<longleftrightarrow> ''..'' \<in> set (split_char CHR ''/'' p)"
  by (auto simp: has_parent_dir_def path_key_def Let_def)

lemma parent_dir_append:
  "''..'' \<in> set (split_char d (a @ b)) \<Longrightarrow>
   ''..'' \<in> set (split_char d a) \<or> ''..'' \<in> set (split_char d b) \<or> last (split_char d a) @ hd (split_char d b) = ''..''"
  by (auto simp: split_char_append dest: in_set_butlastD list.set_sel(2) [rotated])

lemma last_split_end: "a = [] \<or> last a = d \<Longrightarrow> last (split_char d a) = []"
  by (cases a rule: rev_cases) (auto simp: split_char_append)

lemma parent_dir_join:
  assumes "has_parent_dir (path_join a b)"
  shows "has_parent_dir a \<or> has_parent_dir b"
proof -
  have "''..'' \<in> set (split_char CHR ''/'' a)" if "last (split_char CHR ''/'' a) = ''..''"
    using that by (metis last_in_set split_char_nonempty)
  moreover have "''..'' \<in> set (split_char CHR ''/'' b)" if "hd (split_char CHR ''/'' b) = ''..''"
    using that by (metis list.set_sel(1) split_char_nonempty)
  ultimately show ?thesis
    using assms last_split_end [of a "CHR ''/''"]
    by (auto simp: path_join_def has_parent_dir_iff split: if_splits dest!: parent_dir_append)
qed

lemma absolute_join: "path_is_absolute (path_join a b) \<Longrightarrow> path_is_absolute a \<or> path_is_absolute b"
  by (cases a) (auto simp: path_join_def path_is_absolute_def starts_with_iff split: if_splits)

section \<open>References\<close>

lemma valid_component:
  assumes "validate_reference_component label v r = Inr u"
  shows "v \<noteq> []" "\<not> path_is_absolute v" "\<not> has_parent_dir v"
proof -
  obtain c where c: "path_key v = (False, [c])" "c \<noteq> ''.''" "c \<noteq> ''..''"
    using assms by (auto simp: validate_reference_component_def split: prod.splits bool.splits list.splits if_splits)
  then show "\<not> path_is_absolute v" by (auto simp: path_key_def path_is_absolute_def Let_def)
  show "\<not> has_parent_dir v" using c by (simp add: has_parent_dir_def)
  show "v \<noteq> []" using c by (auto simp: path_key_def Let_def)
qed

lemma at_sign_parent: "(x @ ''@'' @ y = ''..'') = False" by (auto simp: append_eq_Cons_conv)

lemma tagged_safe:
  assumes "\<not> has_parent_dir a" "\<not> has_parent_dir b"
  shows "\<not> has_parent_dir (a @ ''@'' @ b)"
proof
  assume "has_parent_dir (a @ ''@'' @ b)"
  moreover obtain p ps where "split_char CHR ''/'' b = p # ps" by (cases "split_char CHR ''/'' b") auto
  then have s: "split_char CHR ''/'' (''@'' @ b) = (CHR ''@'' # p) # ps" by simp
  ultimately show False
    using assms \<open>split_char CHR ''/'' b = p # ps\<close> at_sign_parent [of "last (split_char CHR ''/'' a)" p]
    by (auto simp: has_parent_dir_iff dest!: parent_dir_append)
qed

lemma candidate_root_safe:
  assumes v: "validate_reference r = Inr u" and root: "root \<in> set (candidate_roots r)"
  shows "\<not> path_is_absolute root \<and> \<not> has_parent_dir root"
proof -
  have n: "ar_name r \<noteq> []" "\<not> path_is_absolute (ar_name r)" "\<not> has_parent_dir (ar_name r)"
    using v valid_component [of "''agent name''" "ar_name r" r] by (auto simp: validate_reference_def res_bind_def split: sum.splits)
  have w: "\<not> path_is_absolute variant \<and> \<not> has_parent_dir variant" if "ar_variant r = Some variant" for variant
    using v that valid_component [of "''agent variant''" variant r] by (auto simp: validate_reference_def res_bind_def split: sum.splits)
  have "\<not> path_is_absolute ''variants''" "\<not> has_parent_dir ''variants''"
    by (simp_all add: path_is_absolute_def starts_with_iff has_parent_dir_iff)
  moreover have "\<not> path_is_absolute (ar_name r @ ''@'' @ variant)" for variant
    using n by (cases "ar_name r") (auto simp: path_is_absolute_def starts_with_iff)
  ultimately show ?thesis using root n w tagged_safe
    by (auto simp: candidate_roots_def split: option.splits if_splits dest!: parent_dir_join absolute_join)
qed

lemma find_in_base_below:
  assumes "validate_reference r = Inr u" "find_in_base w r base = Some p"
  shows "p = base \<or> p = path_join base ''manifest.toml'' \<or>
    (\<exists>root. p = path_join (path_join base root) ''manifest.toml'' \<and> \<not> path_is_absolute root \<and> \<not> has_parent_dir root)"
  using assms candidate_root_safe [OF assms(1)]
  by (auto simp: find_in_base_def manifest_at_search_root_def root_candidate_def find_Some_iff
      split: option.splits if_splits sum.splits prod.splits dest!: nth_mem)

lemma find_in_dirs_base: "find_in_dirs w r dirs = Inr p \<Longrightarrow> \<exists>base \<in> set dirs. find_in_base w r base = Some p"
  by (induction w r dirs rule: find_in_dirs.induct) (auto split: option.splits)

text \<open>C26: The manifest of a reference lies below a search directory: no name or variant leads out of it.\<close>

theorem found_manifest_below_base:
  assumes "find_manifest w dirs r = Inr p"
  shows "\<exists>base \<in> set dirs. p = base \<or> p = path_join base ''manifest.toml'' \<or>
    (\<exists>root. p = path_join (path_join base root) ''manifest.toml'' \<and> \<not> path_is_absolute root \<and> \<not> has_parent_dir root)"
  using assms find_in_dirs_base [of w r dirs p] find_in_base_below [of r _ w _ p]
  by (auto simp: find_manifest_def res_bind_def split: sum.splits)

section \<open>Bundles\<close>

text \<open>Below the directory: as a path, and with links resolved if both the directory and the file resolve.\<close>

definition within_bundle :: "reg_world \<Rightarrow> string \<Rightarrow> string \<Rightarrow> bool" where
  "within_bundle w dir path \<longleftrightarrow>
    (\<exists>raw. path = path_join dir raw \<and> trim raw \<noteq> [] \<and> \<not> path_is_absolute raw \<and> \<not> has_parent_dir raw) \<and>
    (\<forall>base_canon path_canon. rw_canonicalize w dir = Some base_canon \<longrightarrow> rw_canonicalize w path = Some path_canon \<longrightarrow>
       path_starts_with path_canon base_canon)"

definition bundle_paths :: "agent_bundle \<Rightarrow> string list" where
  "bundle_paths b =
    (case bn_wasm_entry b of Some e \<Rightarrow> [abn_path e] | None \<Rightarrow> []) @ (case bn_native_entry b of Some e \<Rightarrow> [abn_path e] | None \<Rightarrow> []) @
    (case bn_policy_path b of Some p \<Rightarrow> [p] | None \<Rightarrow> []) @ (case bn_tools b of Some t \<Rightarrow> [art_path t] | None \<Rightarrow> [])"

lemma resolve_contained: "resolve_bundle_path w dir raw r label = Inr path \<Longrightarrow> within_bundle w dir path"
  by (auto simp: resolve_bundle_path_def within_bundle_def Let_def split: if_splits option.splits)

lemma transpose_InrD: "transpose_result f x = Inr (Some y) \<Longrightarrow> \<exists>a. f a = Inr y"
  by (cases x) (auto simp: transpose_result_def map_sum_def split: sum.splits)

lemma binary_contained: "transpose_result (binary_from_entry w dir r label) x = Inr (Some e) \<Longrightarrow> within_bundle w dir (abn_path e)"
  by (auto dest!: transpose_InrD simp: binary_from_entry_def res_bind_def split: sum.splits) (rule resolve_contained, assumption)

lemma artifact_contained: "transpose_result (artifact_from_entry w dir r label) x = Inr (Some e) \<Longrightarrow> within_bundle w dir (art_path e)"
  by (auto dest!: transpose_InrD simp: artifact_from_entry_def res_bind_def split: sum.splits) (rule resolve_contained, assumption)

lemma policy_contained: "transpose_result (\<lambda>file. resolve_bundle_path w dir file r label) x = Inr (Some p) \<Longrightarrow> within_bundle w dir p"
  by (auto dest!: transpose_InrD intro: resolve_contained)

lemmas bundle_contained_intros = binary_contained artifact_contained policy_contained

lemma load_bundle_InrD:
  assumes "load_bundle w dirs r = Inr b"
  obtains path doc wasm native policy tools where
    "find_manifest w dirs r = Inr path" "load_manifest w r path = Inr (doc, bn_described b)"
    "bn_manifest_dir b = (case path_parent_dir path of Some d \<Rightarrow> d | None \<Rightarrow> ''.'')"
    "transpose_result (binary_from_entry w (bn_manifest_dir b) r ''entry_wasm'')
       (or_option (md_entry_wasm doc) (am_entry_wasm (md_agent doc))) = Inr (bn_wasm_entry b)"
    "transpose_result (binary_from_entry w (bn_manifest_dir b) r ''entry_native'')
       (or_option (md_entry_native doc) (am_entry_native (md_agent doc))) = Inr (bn_native_entry b)"
    "transpose_result (\<lambda>file. resolve_bundle_path w (bn_manifest_dir b) file r ''caps.file'') (md_caps doc) = Inr (bn_policy_path b)"
    "transpose_result (artifact_from_entry w (bn_manifest_dir b) r ''artifacts.tools'') (Option.bind (md_artifacts doc) id) = Inr (bn_tools b)"
  using assms by (auto simp: load_bundle_def res_bind_def Let_def split: sum.splits prod.splits)

text \<open>C13: 
  A bundle comes with the directory of the manifest that is found for the reference, and every file it
  names lies below it: the path is the directory joined with a non-blank, relative path without a parent component, and if
  both the directory and the file can be resolved, the canonical path of the file begins with that of the directory.
\<close>

theorem bundle_contained:
  assumes "load_bundle w dirs r = Inr b" "path \<in> set (bundle_paths b)"
  shows "\<exists>manifest raw. find_manifest w dirs r = Inr manifest
    \<and> bn_manifest_dir b = (case path_parent_dir manifest of Some d \<Rightarrow> d | None \<Rightarrow> ''.'')
    \<and> path = path_join (bn_manifest_dir b) raw \<and> trim raw \<noteq> [] \<and> \<not> path_is_absolute raw \<and> \<not> has_parent_dir raw
    \<and> (\<forall>base_canon path_canon. rw_canonicalize w (bn_manifest_dir b) = Some base_canon \<longrightarrow>
         rw_canonicalize w path = Some path_canon \<longrightarrow> path_starts_with path_canon base_canon)"
  using assms(1)
proof (rule load_bundle_InrD)
  fix manifest doc
  assume m: "find_manifest w dirs r = Inr manifest"
    and d: "bn_manifest_dir b = (case path_parent_dir manifest of Some d \<Rightarrow> d | None \<Rightarrow> ''.'')"
    and files: "transpose_result (binary_from_entry w (bn_manifest_dir b) r ''entry_wasm'')
       (or_option (md_entry_wasm doc) (am_entry_wasm (md_agent doc))) = Inr (bn_wasm_entry b)"
    "transpose_result (binary_from_entry w (bn_manifest_dir b) r ''entry_native'')
       (or_option (md_entry_native doc) (am_entry_native (md_agent doc))) = Inr (bn_native_entry b)"
    "transpose_result (\<lambda>file. resolve_bundle_path w (bn_manifest_dir b) file r ''caps.file'') (md_caps doc) = Inr (bn_policy_path b)"
    "transpose_result (artifact_from_entry w (bn_manifest_dir b) r ''artifacts.tools'') (Option.bind (md_artifacts doc) id) = Inr (bn_tools b)"
  have "within_bundle w (bn_manifest_dir b) path"
    using files assms(2) by (auto simp: bundle_paths_def split: option.splits intro: bundle_contained_intros)
  then show ?thesis unfolding within_bundle_def using m d by blast
qed

text \<open>
  The second part is void where the directory cannot be resolved: for a search directory that is a manifest
  itself, named without a directory, the parent is the empty path, and a link out of the bundle is accepted.
\<close>

lemma unresolved_directory_accepts_links:
  assumes "rw_canonicalize w [] = None" "trim raw \<noteq> []" "\<not> path_is_absolute raw" "\<not> has_parent_dir raw"
  shows "path_parent_dir ''manifest.toml'' = Some [] \<and> resolve_bundle_path w [] raw r label = Inr raw"
proof
  show "path_parent_dir ''manifest.toml'' = Some []" by code_simp
  show "resolve_bundle_path w [] raw r label = Inr raw"
    using assms by (simp add: resolve_bundle_path_def path_join_def split: option.split)
qed

section \<open>Descriptions\<close>

lemma map_sum_eq_Inr: "map_sum f g x = Inr y \<longleftrightarrow> (\<exists>a. x = Inr a \<and> y = g a)"
  by (cases x) auto

lemma build_described_InrD:
  assumes "build_described w r doc raw = Inr (doc', d)"
  shows "ar_name (dsc_reference d) = ar_name r" "am_name (md_agent doc) = ar_name r" "dsc_digest d = agent_digest w raw"
    "ar_variant (dsc_reference d) = or_option (ar_variant r) (am_variant (md_agent doc))"
  using assms
  by (auto simp: build_described_def Let_def res_bind_eq_Inr or_option_def split: if_splits option.splits)

text \<open>A description is of the agent that was asked for and carries the digest of the manifest it was read from.\<close>

theorem describe_requested:
  assumes "describe w dirs r = Inr d"
  shows "ar_name (dsc_reference d) = ar_name r \<and> (ar_variant r = None \<or> ar_variant (dsc_reference d) = ar_variant r) \<and>
    (\<exists>path raw. find_manifest w dirs r = Inr path \<and> rw_read w path = Inr raw \<and> dsc_digest d = agent_digest w raw)"
proof -
  obtain path doc raw doc' where d: "find_manifest w dirs r = Inr path" "read_manifest w path = Inr (raw, doc)"
      "build_described w r doc raw = Inr (doc', d)"
    using assms by (auto simp: describe_def load_manifest_def res_bind_eq_Inr map_sum_eq_Inr split: prod.splits)
  moreover have "rw_read w path = Inr raw" using d(2) by (auto simp: read_manifest_def split: sum.splits)
  ultimately show ?thesis using build_described_InrD [OF d(3)] by (auto simp: or_option_def split: option.splits)
qed

lemma list_paths_distinct:
  "list_paths w seen paths = Inr ls \<Longrightarrow>
   distinct (map (dsc_reference \<circ> la_described) ls) \<and> (dsc_reference \<circ> la_described) ` set ls \<inter> set seen = {}"
proof (induction w seen paths arbitrary: ls rule: list_paths.induct)
  case (2 w seen path paths)
  obtain raw doc u where m: "read_manifest w path = Inr (raw, doc)"
      "validate_reference \<lparr>ar_name = am_name (md_agent doc), ar_variant = am_variant (md_agent doc)\<rparr> = Inr u"
    using "2.prems" by (auto simp: res_bind_eq_Inr Let_def)
  let ?r = "\<lparr>ar_name = am_name (md_agent doc), ar_variant = am_variant (md_agent doc)\<rparr>"
  show ?case
  proof (cases "?r \<in> set seen")
    case True
    then show ?thesis using "2.prems" "2.IH"(1) [OF m(1) refl refl m(2) True] m by (simp add: Let_def)
  next
    case False
    obtain doc' d ls' where d: "build_described w ?r doc raw = Inr (doc', d)" "list_paths w (?r # seen) paths = Inr ls'"
        "ls = \<lparr>la_described = d, la_manifest_path = path\<rparr> # ls'"
      using "2.prems" m False by (auto simp: Let_def res_bind_eq_Inr map_sum_def split: sum.splits)
    have "dsc_reference d = ?r"
      using build_described_InrD [OF d(1)] by (cases "dsc_reference d") (auto simp: or_option_def split: option.splits)
    then show ?thesis using "2.IH"(2) [OF m(1) refl refl m(2) False d(1) refl d(2)] d(3) False by auto
  qed
qed simp

text \<open>A listing names every agent once.\<close>

theorem listing_distinct: "list_agents w dirs = Inr ls \<Longrightarrow> distinct (map (dsc_reference \<circ> la_described) ls)"
  using list_paths_distinct by (auto simp: list_agents_def)

section \<open>A registry with one bundle\<close>

definition demo_manifest :: manifest_doc where
  "demo_manifest = \<lparr>
     md_agent = \<lparr>am_name = ''mailer'', am_version = ''1'', am_variant = None, am_entry_native = None,
       am_entry_wasm = Some \<lparr>es_path = ''m.wasm'', es_blake3 = []\<rparr>\<rparr>,
     md_ports = \<lparr>agp_inputs = [], agp_outputs = []\<rparr>, md_schemas = None, md_entry_native = None, md_entry_wasm = None,
     md_caps = None, md_artifacts = None\<rparr>"

definition demo_registry :: reg_world where
  "demo_registry = \<lparr>
     rw_read = (\<lambda>_. Inr ''m''), rw_read_bytes = (\<lambda>_. Inr []), rw_toml = (\<lambda>_. Inr demo_manifest),
     rw_is_file = (\<lambda>p. p = ''d/mailer/manifest.toml'' \<or> p = ''d/mailer/m.wasm''), rw_is_dir = (\<lambda>_. False),
     rw_read_dir = (\<lambda>_. None), rw_canonicalize = (\<lambda>_. None), rw_blake3 = (\<lambda>_. [])\<rparr>"

definition demo_mail_ref :: agent_ref where
  "demo_mail_ref = \<lparr>ar_name = ''mailer'', ar_variant = None\<rparr>"

lemma demo_found: "find_manifest demo_registry [''d''] demo_mail_ref = Inr ''d/mailer/manifest.toml''"
  by code_simp

text \<open>The manifest of the demo registry.\<close>

theorem found_manifest_below_base_witness:
  "find_manifest demo_registry [''d''] demo_mail_ref = Inr ''d/mailer/manifest.toml'' \<and>
   (\<exists>base \<in> set [''d'']. ''d/mailer/manifest.toml'' = base \<or> ''d/mailer/manifest.toml'' = path_join base ''manifest.toml'' \<or>
    (\<exists>root. ''d/mailer/manifest.toml'' = path_join (path_join base root) ''manifest.toml'' \<and> \<not> path_is_absolute root \<and> \<not> has_parent_dir root))"
  by (rule conjI [OF demo_found found_manifest_below_base [OF demo_found]])

lemma demo_loaded:
  "case load_bundle demo_registry [''d''] demo_mail_ref of Inr b \<Rightarrow> bundle_paths b = [''d/mailer/m.wasm''] \<and> bn_manifest_dir b = ''d/mailer'' | _ \<Rightarrow> False"
  by code_simp

text \<open>Its bundle.\<close>

theorem bundle_contained_witness:
  "\<exists>b raw. load_bundle demo_registry [''d''] demo_mail_ref = Inr b \<and> ''d/mailer/m.wasm'' \<in> set (bundle_paths b) \<and>
     bn_manifest_dir b = ''d/mailer'' \<and> ''d/mailer/m.wasm'' = path_join ''d/mailer'' raw \<and> \<not> has_parent_dir raw"
proof -
  obtain b where b: "load_bundle demo_registry [''d''] demo_mail_ref = Inr b" "bundle_paths b = [''d/mailer/m.wasm'']" "bn_manifest_dir b = ''d/mailer''"
    using demo_loaded by (auto split: sum.splits)
  then have path: "''d/mailer/m.wasm'' \<in> set (bundle_paths b)" by simp
  from bundle_contained [OF b(1) path] b path show ?thesis by auto
qed

end
