(* ===== verification/Agents_Props.thy ===== *)
theory Agents_Props
  imports Local_Exec Agent_Registry_Props
begin

text \<open>
  What the executor promises of mail: none without the approval of the operator, who was asked about
  the draft and the contact that the node was given.
\<close>

section \<open>Relations kept by operations\<close>

lemma abind_eq_Some:
  "abind m f s = Some (t, r) \<longleftrightarrow>
     (\<exists>e. m s = Some (t, Inl e) \<and> r = Inl e) \<or> (\<exists>u a. m s = Some (u, Inr a) \<and> f a u = Some (t, r))"
  by (auto simp: abind_def split: option.split sum.split prod.split)

lemma amap_err_eq_Some: "amap_err f m s = Some (t, r) \<longleftrightarrow> (\<exists>r'. m s = Some (t, r') \<and> r = map_sum f id r')"
  by (auto simp: amap_err_def)

lemmas op_defs = areturn_def afail_def of_result_def alog_def atick_def

text \<open>Every way through the operation ends in a state that is related to the one it began in.\<close>

definition related_by :: "(agent_state \<Rightarrow> agent_state \<Rightarrow> bool) \<Rightarrow> ('e, 'a) world_op \<Rightarrow> bool" where
  "related_by R m \<longleftrightarrow> (\<forall>s t r. m s = Some (t, r) \<longrightarrow> R s t)"

locale kept =
  fixes R :: "agent_state \<Rightarrow> agent_state \<Rightarrow> bool"
  assumes R_refl: "R s s"
    and R_trans: "R s t \<Longrightarrow> R t u \<Longrightarrow> R s u"
    and R_tick: "R s (s\<lparr>as_ticks := n\<rparr>)"
begin

lemma keeps_pure: "related_by R (areturn a)" "related_by R (afail e)" "related_by R (of_result r)"
  by (simp_all add: related_by_def op_defs R_refl)

lemma keeps_tick: "related_by R atick"
  by (simp add: related_by_def atick_def R_tick)

lemma keeps_bind: "related_by R m \<Longrightarrow> (\<And>a. related_by R (f a)) \<Longrightarrow> related_by R (abind m f)"
  by (auto simp: related_by_def abind_eq_Some) (blast intro: R_trans)

lemma keeps_map_err: "related_by R m \<Longrightarrow> related_by R (amap_err f m)"
  by (auto simp: related_by_def amap_err_eq_Some)

lemma keeps_fallback:
  assumes "related_by R m" "\<And>a. related_by R (k a)" "related_by R n"
  shows "related_by R (with_fallback m k n)"
  using assms by (auto simp: related_by_def with_fallback_def split: option.splits sum.splits if_splits) (meson R_trans)+

lemma keeps_completed: "related_by R (completed outs)"
  by (simp add: completed_def keeps_pure)

lemma keeps_native: "related_by R m \<Longrightarrow> related_by R (native m outs)"
  unfolding native_def by (intro keeps_bind keeps_map_err keeps_completed)

end

text \<open>The knowledge base is as it was; the operator was not asked.\<close>

definition same_kb :: "agent_state \<Rightarrow> agent_state \<Rightarrow> bool" where
  "same_kb s t \<longleftrightarrow> as_kb t = as_kb s"

definition is_question :: "agent_effect \<Rightarrow> bool" where
  "is_question x = (case x of Asked _ _ \<Rightarrow> True | _ \<Rightarrow> False)"

definition questions :: "agent_state \<Rightarrow> agent_effect list" where
  "questions s = filter is_question (as_log s)"

definition not_asked :: "agent_state \<Rightarrow> agent_state \<Rightarrow> bool" where
  "not_asked s t \<longleftrightarrow> questions t = questions s"

interpretation kb: kept same_kb by unfold_locales (auto simp: same_kb_def)

interpretation ask: kept not_asked by unfold_locales (auto simp: not_asked_def questions_def)

lemma keeps_line: "related_by not_asked (alog (Printed l))"
  by (simp add: related_by_def alog_def not_asked_def questions_def is_question_def)

lemma keeps_kb_ops: "related_by not_asked (ensure_views w)" "related_by not_asked (kb_propose w d)"
  by (auto simp: related_by_def ensure_views_def kb_propose_def not_asked_def questions_def split: option.splits prod.splits)

lemma keeps_propose_event: "related_by not_asked (propose_event w ctx kind payload rationale)"
  unfolding propose_event_def by (intro ask.keeps_bind ask.keeps_pure keeps_kb_ops)

lemma keeps_invoke: "related_by not_asked (invoke_agent w decode reference b node_id args env timeout)"
proof -
  have "related_by not_asked (spawn_and_collect w reference b node_id args env timeout)"
    unfolding spawn_and_collect_def
  proof (intro ask.keeps_bind ask.keeps_pure ask.keeps_tick)
    fix entry n
    show "related_by not_asked (\<lambda>s. case lx_spawn w n (spec_of reference b entry args env timeout) (as_kb s) of
        (kb, Inl err) \<Rightarrow> Some (s\<lparr>as_kb := kb\<rparr>, Inl (RunExecutor err))
      | (kb, Inr polls) \<Rightarrow> map_option (Pair (s\<lparr>as_kb := kb\<rparr>)) (collect w polls reference node_id timeout 0 0 0))"
      by (auto simp: related_by_def not_asked_def questions_def split: prod.splits sum.splits)
  qed
  then show ?thesis unfolding invoke_agent_def by (intro ask.keeps_bind ask.keeps_pure)
qed

lemma keeps_record_mail: "related_by not_asked (record_mail_event w req d topic mail rationale)"
  unfolding record_mail_event_def by (intro ask.keeps_bind ask.keeps_map_err ask.keeps_pure keeps_kb_ops)

lemmas mail_keeps = ask.keeps_bind ask.keeps_pure ask.keeps_fallback ask.keeps_completed ask.keeps_native
  keeps_line keeps_propose_event keeps_invoke keeps_record_mail

section \<open>No mail without approval\<close>

lemma pre_approved_mail_keeps:
  assumes "ac_confirmation ctx = Some (PreApproved d)"
  shows "related_by not_asked (send_mail w ctx req)"
proof -
  have provider: "abind (of_result (ok_or ConfirmationUnavailable (ac_confirmation ctx))) f = f (PreApproved d)" for f :: "confirmation_provider \<Rightarrow> 'a agent_op"
    by (simp add: assms abind_def of_result_def fun_eq_iff)
  show ?thesis by (auto simp: send_mail_def provider confirm_def intro!: mail_keeps)
qed

lemma native_mail_keeps: "related_by not_asked (exec_mailer_native w req d contact rv topic (Some a))"
  unfolding exec_mailer_native_def
  by (intro mail_keeps pre_approved_mail_keeps) (simp add: exec_context_of_def)

lemma declined_mail:
  assumes "ac_confirmation ctx = Some (PreApproved a)" "\<not> ad_approved a"
  shows "\<exists>e. send_mail w ctx req s = Some (s, Inl e)"
  using assms by (auto simp: send_mail_def confirm_def abind_def op_defs)

lemma declined_native_mail:
  assumes "\<not> ad_approved a"
  shows "\<exists>e. exec_mailer_native w req d contact rv topic (Some a) s = Some (s, Inl e)"
proof -
  let ?req = "\<lparr>mq_draft = \<lparr>dd_artifact_id = da_artifact_id d, dd_path = da_path d, dd_body_preview = da_body_md d\<rparr>,
         mq_contact = contact, mq_review = rv, mq_topic = topic\<rparr>"
  obtain e where "send_mail (lx_agents w) (exec_context_of w req (Some a)) ?req s = Some (s, Inl e)"
    using declined_mail [OF _ assms, of "exec_context_of w req (Some a)" "lx_agents w" ?req s] by (auto simp: exec_context_of_def)
  then show ?thesis by (simp add: exec_mailer_native_def native_def abind_def amap_err_def)
qed

text \<open>The answer of the operator and what is left of the mailer after it.\<close>

definition mail_tail :: "local_world \<Rightarrow> agent_ref \<Rightarrow> node_request \<Rightarrow> draft_artifact \<Rightarrow> resolved_contact \<Rightarrow> review \<Rightarrow> string \<Rightarrow>
    action_decision option \<Rightarrow> ports exec_op" where
  "mail_tail w reference req d contact rv topic decision =
    (let native_run = exec_mailer_native w req d contact rv topic decision in
    case wasm_bundle w reference of
      None \<Rightarrow> native_run
    | Some b \<Rightarrow>
        if (case decision of Some a \<Rightarrow> \<not> ad_approved a | None \<Rightarrow> False)
        then afail (RunExecutor ''send cancelled by operator'')
        else
          with_fallback
            (invoke_agent w (wi_mailer_text (lx_wire w)) reference b (nd_id (nq_node req))
              [reference_spec reference, ''--draft-base64'', encode_arg w (minimal_draft_json d),
               ''--contact-base64'', encode_contact w contact, ''--review-base64'', encode_arg w (review_json rv),
               ''--topic'', topic] [] (agent_timeout req))
            (\<lambda>mail. abind (record_mail_event w req d topic mail (Option.bind decision ad_rationale))
               (\<lambda>r. completed (mail_outputs r)))
            native_run)"

lemma mail_tail_keeps: "related_by not_asked (mail_tail w reference req d contact rv topic (Some a))"
  by (auto simp: mail_tail_def Let_def split: option.split intro!: mail_keeps native_mail_keeps)

lemma mail_tail_declined:
  "\<not> ad_approved a \<Longrightarrow> \<exists>e. mail_tail w reference req d contact rv topic (Some a) s = Some (s, Inl e)"
  using declined_native_mail [of a w req d contact rv topic s]
  by (auto simp: mail_tail_def Let_def afail_def split: option.split)

lemma request_confirmation_eq:
  assumes "lx_confirm_external w"
  shows "request_confirmation w req d contact s =
    (let q = mail_question req (ag_new_id (lx_agents w) (as_ticks s)) d contact;
         answer = ag_operator (lx_agents w) (Suc (as_ticks s)) q
     in Some (s\<lparr>as_ticks := Suc (Suc (as_ticks s)), as_log := as_log s @ [Asked q answer]\<rparr>,
              map_sum (\<lambda>e. RunExecutor (agent_error_text e)) Some answer))"
  using assms
  by (cases "ag_operator (lx_agents w) (Suc (as_ticks s)) (mail_question req (ag_new_id (lx_agents w) (as_ticks s)) d contact)")
    (auto simp: request_confirmation_def confirm_def abind_def amap_err_def op_defs Let_def)

text \<open>The first value at a port of the node, decoded.\<close>

definition first_input :: "node_request \<Rightarrow> string \<Rightarrow> (json \<Rightarrow> string + 'a) \<Rightarrow> 'a \<Rightarrow> bool" where
  "first_input req port decode a \<longleftrightarrow> (\<exists>v vs. map_of (nq_inputs req) port = Some (v # vs) \<and> decode v = Inr a)"

lemma require_port_first: "require_port missing decode req port = Inr a \<Longrightarrow> first_input req port decode a"
  unfolding require_port_def read_port_def first_input_def ok_or_def res_bind_def
  by (auto split: option.splits list.splits sum.splits simp: map_sum_def)

text \<open>A mail node that completes reports the draft it was given.\<close>

definition yields :: "('a \<Rightarrow> bool) \<Rightarrow> ('e, 'a) world_op \<Rightarrow> bool" where
  "yields P m \<longleftrightarrow> (\<forall>s t a. m s = Some (t, Inr a) \<longrightarrow> P a)"

lemma yields_bind: "yields P m \<Longrightarrow> (\<And>a. P a \<Longrightarrow> yields Q (f a)) \<Longrightarrow> yields Q (abind m f)"
  unfolding yields_def abind_eq_Some by blast

lemma yields_any: "yields (\<lambda>_. True) m" by (simp add: yields_def)

lemma yields_map_err:
  assumes "yields P (m :: ('e, 'a) world_op)"
  shows "yields P (amap_err g m)"
proof -
  have "r = Inr a" if "Inr a = map_sum g id r" for r :: "'e + 'a" and a using that by (cases r) auto
  then show ?thesis using assms unfolding yields_def amap_err_eq_Some by blast
qed

lemma yields_pure: "P a \<Longrightarrow> yields P (areturn a)" "yields P (afail e)"
  by (simp_all add: yields_def op_defs)

lemma yields_fallback: "(\<And>a. yields P (k a)) \<Longrightarrow> yields P n \<Longrightarrow> yields P (with_fallback m k n)"
  by (auto simp: yields_def with_fallback_def split: option.splits sum.splits if_splits)

definition reports_artifact :: "draft_artifact \<Rightarrow> ports \<Rightarrow> bool" where
  "reports_artifact d outs \<longleftrightarrow> (\<exists>m. ml_artifact_id m = da_artifact_id d \<and> outs = [(''ok'', [JBool True]), (''out'', [mail_result_json m])])"

lemma yields_outputs: "ml_artifact_id m = da_artifact_id d \<Longrightarrow> yields (reports_artifact d) (completed (mail_outputs m))"
  unfolding completed_def by (rule yields_pure) (auto simp: reports_artifact_def mail_outputs_def push_port_def)

lemma mail_tail_reports: "yields (reports_artifact d) (mail_tail w reference req d contact rv topic decision)"
proof -
  have send: "yields (\<lambda>m. ml_artifact_id m = dd_artifact_id (mq_draft mreq)) (send_mail aw ctx mreq)" for aw ctx mreq
    by (auto simp: send_mail_def intro!: yields_pure yields_bind [OF yields_any])
  have native: "yields (reports_artifact d) (exec_mailer_native w req d contact rv topic decision)" for decision
    unfolding exec_mailer_native_def native_def
    by (rule yields_bind [OF yields_map_err [OF send]], rule yields_outputs) simp
  have recorded: "yields (\<lambda>m. ml_artifact_id m = da_artifact_id d) (record_mail_event w req d topic mail rationale)" for mail rationale
    unfolding record_mail_event_def by (intro yields_bind [OF yields_any] yields_pure) simp
  show ?thesis unfolding mail_tail_def Let_def
    by (auto split: option.split intro!: native yields_pure yields_fallback yields_bind [OF recorded] yields_outputs)
qed

text \<open>With confirmation on, the mailer fails on its inputs, or asks once and acts on the answer.\<close>

lemma exec_mailer_cases:
  assumes "lx_confirm_external w"
  obtains (input) e where "exec_mailer w reference req s = Some (s, Inl e)"
  | (asked) d contact rv topic u q answer where
      "first_input req ''draft'' (wi_draft (lx_wire w)) d" "first_input req ''contact'' (wi_contact (lx_wire w)) contact"
      "q = mail_question req (ag_new_id (lx_agents w) (as_ticks s)) d contact"
      "answer = ag_operator (lx_agents w) (Suc (as_ticks s)) q"
      "u = s\<lparr>as_ticks := Suc (Suc (as_ticks s)), as_log := as_log s @ [Asked q answer]\<rparr>"
      "exec_mailer w reference req s =
         (case answer of Inl e \<Rightarrow> Some (u, Inl (RunExecutor (agent_error_text e)))
          | Inr a \<Rightarrow> mail_tail w reference req d contact rv topic (Some a) u)"
proof -
  let ?d = "require_port ''mailer missing draft input'' (wi_draft (lx_wire w)) req ''draft''"
  let ?c = "require_port ''mailer missing contact input'' (wi_contact (lx_wire w)) req ''contact''"
  let ?v = "require_port ''mailer missing review input'' (wi_review (lx_wire w)) req ''review''"
  let ?t = "node_param w req ''topic''"
  show thesis
  proof (cases "\<exists>d c v t. ?d = Inr d \<and> ?c = Inr c \<and> ?v = Inr v \<and> ?t = Inr t")
    case False
    then have "\<exists>e. exec_mailer w reference req s = Some (s, Inl e)"
      by (cases ?d; cases ?c; cases ?v; cases ?t) (auto simp: exec_mailer_def abind_def of_result_def)
    then show thesis using input by blast
  next
    case True
    then obtain d c v t where in_ok: "?d = Inr d" "?c = Inr c" "?v = Inr v" "?t = Inr t" by blast
    let ?topic = "case t of Some v \<Rightarrow> v | None \<Rightarrow> ''update''"
    have "exec_mailer w reference req s =
        abind (request_confirmation w req d c) (mail_tail w reference req d c v ?topic) s"
      by (simp add: exec_mailer_def abind_def of_result_def in_ok mail_tail_def [abs_def] Let_def)
    then show thesis
      by (intro asked [OF require_port_first [OF in_ok(1)] require_port_first [OF in_ok(2)] refl refl refl, of v ?topic])
        (auto simp: abind_def request_confirmation_eq [OF assms] Let_def split: sum.split)
  qed
qed

text \<open>C11: 
  A mail node that completes has asked the operator exactly once, and the answer was an approval. The
  question names the node, the run, the rationale and the file of the draft it was given, and the address of
  the contact it was given; and the mail it reports is of that draft.
\<close>

theorem mail_needs_approval:
  assumes "lx_confirm_external w" "exec_mailer w reference req s = Some (t, Inr outs)"
  shows "\<exists>d contact q a.
    first_input req ''draft'' (wi_draft (lx_wire w)) d \<and> first_input req ''contact'' (wi_contact (lx_wire w)) contact
    \<and> questions t = questions s @ [Asked q (Inr a)] \<and> ad_approved a
    \<and> ap_id q = ''node:'' @ nd_id (nq_node req) \<and> ap_trace_id q = nq_trace_id req \<and> ap_opening_id q = nq_opening_id req
    \<and> ap_summary q = ''Send draft email '' @ [CHR 0x22] @ da_rationale d @ [CHR 0x22]
    \<and> ap_recipients q = [rct_email contact] \<and> ap_artifact_path q = da_path d \<and> reports_artifact d outs"
  using assms(1)
proof (cases rule: exec_mailer_cases [where reference = reference and req = req and s = s])
  case (input e)
  then show ?thesis using assms(2) by simp
next
  case (asked d contact rv topic u q answer)
  show ?thesis
  proof (cases answer)
    case (Inr a)
    have run: "mail_tail w reference req d contact rv topic (Some a) u = Some (t, Inr outs)" using asked(6) Inr assms(2) by simp
    then have "ad_approved a" using mail_tail_declined [of a w reference req d contact rv topic u] by auto
    moreover have "questions t = questions u"
      using mail_tail_keeps [of w reference req d contact rv topic a] run unfolding related_by_def not_asked_def by blast
    moreover have "questions u = questions s @ [Asked q answer]" by (simp add: asked(5) questions_def is_question_def)
    moreover have "reports_artifact d outs"
      using mail_tail_reports [of d w reference req contact rv topic "Some a"] run unfolding yields_def by blast
    ultimately show ?thesis using asked(1,2) Inr
      by (intro exI [of _ d] exI [of _ contact] exI [of _ q] exI [of _ a]) (simp add: asked(3) mail_question_def)
  qed (use asked(6) assms(2) in simp)
qed

text \<open>C12: 
  If the operator approves nothing, a mail node always ends with an error and leaves the knowledge base
  as it was: no agent has run and no mail is recorded.
\<close>

theorem no_approval_no_mail:
  assumes "lx_confirm_external w" "\<And>n p a. ag_operator (lx_agents w) n p = Inr a \<Longrightarrow> \<not> ad_approved a"
  shows "\<exists>t e. exec_mailer w reference req s = Some (t, Inl e) \<and> as_kb t = as_kb s"
  using assms(1)
proof (cases rule: exec_mailer_cases [where reference = reference and req = req and s = s])
  case (asked d contact rv topic u q answer)
  show ?thesis
  proof (cases answer)
    case (Inr a)
    then have "\<not> ad_approved a" using asked(4) assms(2) by metis
    from mail_tail_declined [OF this, of w reference req d contact rv topic u]
    show ?thesis by (auto simp: asked(5,6) Inr)
  qed (simp add: asked(5,6))
qed auto

section \<open>A mail node that runs\<close>

definition demo_agent_world :: agent_world where
  "demo_agent_world = \<lparr>
     ag_kb = \<lparr>ke_schema_errors = (\<lambda>_ _. []), ke_canon = (\<lambda>_. Inr ''c''), ke_parse = (\<lambda>_. Inl ''''), ke_show = (\<lambda>_. ''{}''),
       ke_blake3 = (\<lambda>_. []), ke_uuid = (\<lambda>_. ''u''), ke_now = (\<lambda>_. 0), ke_fault = (\<lambda>_. None)\<rparr>,
     ag_redactor = redactor_new (\<lambda>_. []) (\<lambda>_. []) default_redaction_config,
     ag_views_sql = (\<lambda>_ _. Inl ''''), ag_events_sql = (\<lambda>_ _. Inl ''''), ag_complete = (\<lambda>_ _. Inl StreamingUnsupported),
     ag_operator = (\<lambda>_ _. Inr (decision_approved None)), ag_mkdir_fault = (\<lambda>_. None), ag_write_fault = (\<lambda>_. None),
     ag_uuid = (\<lambda>_. ''u''), ag_new_id = (\<lambda>_. 0), ag_sha256 = (\<lambda>_. [])\<rparr>"

definition demo_contact :: resolved_contact where
  "demo_contact = \<lparr>rct_contact_id = ''contact:a'', rct_name = ''A'', rct_email = ''a@b.c'', rct_org = None, rct_confidence = 0, rct_last_event_id = None\<rparr>"

definition demo_draft :: draft_artifact where
  "demo_draft = \<lparr>da_artifact_id = 1, da_path = ''p'', da_sha256 = [], da_body_md = ''hi'', da_rationale = ''r'', da_citations = [], da_word_count = 1\<rparr>"

definition demo_review :: review where
  "demo_review = \<lparr>rv_ok = True, rv_notes = \<lparr>rvn_summary = [], rvn_suggestions = []\<rparr>\<rparr>"

definition demo_wire :: wire where
  "demo_wire = \<lparr>
     wi_contact = (\<lambda>_. Inr demo_contact), wi_context = (\<lambda>_. Inl []), wi_draft = (\<lambda>_. Inr demo_draft), wi_review = (\<lambda>_. Inr demo_review),
     wi_string = (\<lambda>_. Inl []), wi_contact_text = (\<lambda>_. Inl []), wi_context_text = (\<lambda>_. Inl []), wi_review_text = (\<lambda>_. Inl []),
     wi_writer_text = (\<lambda>_. Inl []),
     wi_mailer_text = (\<lambda>_. Inr \<lparr>mlo_status = ''sent'', mlo_recipients = [''a@b.c''], mlo_message_id = [], mlo_delivered_at_ms = 0\<rparr>),
     wi_json_text = (\<lambda>_. Inr JNull), wi_contact_bytes = (\<lambda>_. []), wi_base64 = (\<lambda>_. []), wi_lossy = (\<lambda>_. [])\<rparr>"

definition demo_local :: local_world where
  "demo_local = \<lparr>
     lx_agents = demo_agent_world, lx_registry = demo_registry, lx_dirs = [''d''], lx_wire = demo_wire, lx_dots = ''...'',
     lx_confirm_external = True, lx_default_model = ''m'', lx_workdir = ''w'',
     lx_spawn = (\<lambda>_ _ kb. (kb, Inr (\<lambda>i. ([0x31], [], False))))\<rparr>"

definition demo_mail_request :: node_request where
  "demo_mail_request = \<lparr>
     nq_node = \<lparr>nd_id = ''send'', nd_kind = AgentNode demo_mail_ref, nd_with = [], nd_schema_hints = None, nd_retry = default_retry,
       nd_timeout_ms = None, nd_budget_tokens = None, nd_tags = [], nd_location = \<lparr>loc_line = 1, loc_column = 1\<rparr>\<rparr>,
     nq_inputs = [(''draft'', [JNull]), (''contact'', [JNull]), (''review'', [JNull])], nq_attempt = 1,
     nq_trace_id = 1, nq_opening_id = 2, nq_agent_id = 3\<rparr>"

definition demo_start :: agent_state where
  "demo_start = \<lparr>as_kb = kb_new, as_ticks = 0, as_log = []\<rparr>"

lemma demo_bundle:
  "map_option bn_wasm_entry (wasm_bundle demo_local demo_mail_ref) = Some (Some \<lparr>abn_path = ''d/mailer/m.wasm'', abn_blake3 = []\<rparr>)"
  by code_simp

lemma demo_parse: "try_parse_json demo_local [0x31] = Some ''1''"
  by code_simp

lemma demo_collect: "collect demo_local (\<lambda>i. ([0x31], [], False)) r n t 0 0 0 = Some (Inr ''1'')"
  by (subst collect.simps) (simp add: demo_parse)

definition demo_mail_delta :: state_delta where
  "demo_mail_delta = node_delta demo_local demo_mail_request ''email.sent''
     (JObject [(''to'', JArray [JString ''a@b.c'']), (''subject'', JString ''update''), (''artifact_id'', json_int 1)]) None"

lemma demo_propose:
  "case propose (ag_kb demo_agent_world) demo_mail_delta (ks_ledger kb_new) of (lg, Inr i) \<Rightarrow> True | _ \<Rightarrow> False"
  by code_simp

lemma demo_inputs:
  "require_port missing (wi_draft (lx_wire demo_local)) demo_mail_request ''draft'' = Inr demo_draft"
  "require_port missing (wi_contact (lx_wire demo_local)) demo_mail_request ''contact'' = Inr demo_contact"
  "require_port missing (wi_review (lx_wire demo_local)) demo_mail_request ''review'' = Inr demo_review"
  "node_param demo_local demo_mail_request ''topic'' = Inr None"
  by (simp_all add: require_port_def read_port_def node_param_def demo_local_def demo_wire_def demo_mail_request_def)

lemma demo_confirm: "lx_confirm_external demo_local" "ag_operator demo_agent_world n q = Inr (decision_approved None)"
  "lx_agents demo_local = demo_agent_world" "lx_spawn demo_local n spec kb = (kb, Inr (\<lambda>i. ([0x31], [], False)))"
  "wi_mailer_text (lx_wire demo_local) x = Inr \<lparr>mlo_status = ''sent'', mlo_recipients = [''a@b.c''], mlo_message_id = [], mlo_delivered_at_ms = 0\<rparr>"
  by (simp_all add: demo_local_def demo_agent_world_def demo_wire_def)

lemma demo_mail_runs: "\<exists>t outs. exec_mailer demo_local demo_mail_ref demo_mail_request demo_start = Some (t, Inr outs)"
proof -
  obtain b entry where b: "wasm_bundle demo_local demo_mail_ref = Some b" "bn_wasm_entry b = Some entry"
    using demo_bundle by auto
  obtain lg i where p: "propose (ag_kb demo_agent_world) demo_mail_delta (ks_ledger kb_new) = (lg, Inr i)"
    using demo_propose by (auto split: prod.splits sum.splits)
  then have "kb_propose demo_agent_world demo_mail_delta u = Some (u\<lparr>as_kb := kb_new\<lparr>ks_ledger := lg\<rparr>\<rparr>, Inr i)"
    if "as_kb u = kb_new" for u using that by (simp add: kb_propose_def)
  then have rec: "record_mail_event demo_local demo_mail_request demo_draft ''update''
      \<lparr>mlo_status = ''sent'', mlo_recipients = [''a@b.c''], mlo_message_id = [], mlo_delivered_at_ms = 0\<rparr> None u =
    Some (u\<lparr>as_kb := kb_new\<lparr>ks_ledger := lg\<rparr>\<rparr>, Inr \<lparr>ml_status = ''sent'', ml_recipients = [''a@b.c''], ml_artifact_id = 1,
      ml_message_id = [], ml_delivered_at_ms = 0\<rparr>)" if "as_kb u = kb_new" for u
    using that by (simp add: record_mail_event_def demo_confirm demo_mail_delta_def demo_draft_def abind_def amap_err_def areturn_def)
  show ?thesis
    by (simp add: exec_mailer_def abind_def of_result_def demo_inputs request_confirmation_eq demo_confirm Let_def b decision_approved_def
        with_fallback_def invoke_agent_def spawn_and_collect_def atick_def demo_collect demo_start_def rec completed_def areturn_def)
qed

text \<open>The mail node of the demo world asks and completes.\<close>

theorem mail_needs_approval_witness:
  "\<exists>t outs q a. exec_mailer demo_local demo_mail_ref demo_mail_request demo_start = Some (t, Inr outs) \<and>
     questions t = [Asked q (Inr a)] \<and> ad_approved a \<and> ap_recipients q = [''a@b.c''] \<and> ap_artifact_path q = ''p'' \<and>
     reports_artifact demo_draft outs"
proof -
  obtain t outs where run: "exec_mailer demo_local demo_mail_ref demo_mail_request demo_start = Some (t, Inr outs)"
    using demo_mail_runs by blast
  have confirm: "lx_confirm_external demo_local" by (simp add: demo_local_def)
  have "d = demo_draft" if "first_input demo_mail_request ''draft'' (wi_draft (lx_wire demo_local)) d" for d
    using that by (auto simp: first_input_def demo_local_def demo_wire_def)
  moreover have "rct_email c = ''a@b.c''" if "first_input demo_mail_request ''contact'' (wi_contact (lx_wire demo_local)) c" for c
    using that by (auto simp: first_input_def demo_local_def demo_wire_def demo_contact_def)
  ultimately show ?thesis using mail_needs_approval [OF confirm run] run
    by (fastforce simp: questions_def demo_start_def demo_draft_def)
qed

text \<open>The same node with an operator who declines.\<close>

theorem no_approval_no_mail_witness:
  "\<exists>t e. exec_mailer (demo_local\<lparr>lx_agents := demo_agent_world\<lparr>ag_operator := \<lambda>_ _. Inr (decision_rejected None)\<rparr>\<rparr>) demo_mail_ref
     demo_mail_request demo_start = Some (t, Inl e) \<and> as_kb t = kb_new"
  using no_approval_no_mail [of "demo_local\<lparr>lx_agents := demo_agent_world\<lparr>ag_operator := \<lambda>_ _. Inr (decision_rejected None)\<rparr>\<rparr>"
      demo_mail_ref demo_mail_request demo_start]
  by (simp add: demo_local_def demo_agent_world_def decision_rejected_def demo_start_def)

end
