(* ===== verification/Search_Paths.thy ===== *)
theory Search_Paths
  imports Agent_Registry
begin

text \<open>
  Where agents and openings are searched (\<open>crates/registry/src/lib.rs\<close>). The environment, the home
  directory, the current directory, the files and the TOML reader are the fields of \<open>path_world\<close>.
\<close>

record path_world =
  pw_home :: "string option"
  pw_env :: "string \<Rightarrow> string option"
  pw_current_dir :: "string option"
  pw_is_file :: "string \<Rightarrow> bool"
  pw_is_dir :: "string \<Rightarrow> bool"
  pw_exists :: "string \<Rightarrow> bool"
  pw_read :: "string \<Rightarrow> string option"
  pw_toml :: "string \<Rightarrow> toml option"

record path_overrides =
  po_agents_dir :: "string option"
  po_openings_dir :: "string option"
  po_cwd :: "string option"
  po_workspace_root :: "string option"

record registry_paths =
  rp_agents :: "string list"
  rp_openings :: "string list"
  rp_demo_agents :: "string option"
  rp_info :: "string list"
  rp_warnings :: "string list"

section \<open>Expansion\<close>

definition push_unique :: "string list \<Rightarrow> string \<Rightarrow> string list" where
  "push_unique xs candidate = (if list_ex (\<lambda>p. path_eq p candidate) xs then xs else xs @ [candidate])"

definition expand_env_path :: "path_world \<Rightarrow> string \<Rightarrow> string" where
  "expand_env_path w raw =
    (case Option.bind (strip_prefix ''env:'' raw) (pw_env w) of Some v \<Rightarrow> v | None \<Rightarrow> raw)"

definition expand_str_path :: "path_world \<Rightarrow> string \<Rightarrow> string" where
  "expand_str_path w raw =
    (case pw_home w of
       Some home \<Rightarrow>
         if raw = ''~'' then home
         else (case strip_prefix ''~/'' raw of Some rest \<Rightarrow> path_join home rest | None \<Rightarrow> expand_env_path w raw)
     | None \<Rightarrow> expand_env_path w raw)"

definition default_demo_agents_dir :: string where
  "default_demo_agents_dir = ''/usr/lib/runloop/agents''"

section \<open>The workspace\<close>

definition toml_get :: "toml \<Rightarrow> string \<Rightarrow> toml option" where
  "toml_get v k = Option.bind (toml_as_table v) (\<lambda>t. map_of t k)"

definition manifest_table :: "path_world \<Rightarrow> string \<Rightarrow> toml option" where
  "manifest_table w manifest = Option.bind (Option.bind (pw_read w manifest) (pw_toml w)) (\<lambda>doc. toml_get doc ''workspace'')"

definition manifest_workspace_root :: "path_world \<Rightarrow> string \<Rightarrow> string option" where
  "manifest_workspace_root w manifest =
    (case manifest_table w manifest of
       None \<Rightarrow> None
     | Some ws \<Rightarrow>
         if toml_as_table ws \<noteq> None then path_parent_dir manifest
         else case toml_as_str ws of
           None \<Rightarrow> None
         | Some rel \<Rightarrow>
             let target = (case path_parent_dir manifest of Some p \<Rightarrow> path_join p rel | None \<Rightarrow> rel);
                 target_manifest = (if pw_is_dir w target then path_join target ''Cargo.toml'' else target)
             in if pw_is_file w target_manifest \<and>
                   (case manifest_table w target_manifest of Some v \<Rightarrow> toml_as_table v \<noteq> None | None \<Rightarrow> False)
                then path_parent_dir target_manifest else None)"

lemma length_join_str: "length (join_str d xs) = sum_list (map length xs) + length d * (length xs - 1)"
  by (induction d xs rule: join_str.induct) auto

lemma length_join_append: "length (join_str ''/'' xs) \<le> length (join_str ''/'' (xs @ ys))"
  by (simp add: length_join_str)

lemma rev_dropWhile_prefix: "\<exists>ys. xs = rev (dropWhile P (rev xs)) @ ys"
proof -
  have "xs = rev (takeWhile P (rev xs) @ dropWhile P (rev xs))" by simp
  then show ?thesis by (metis rev_append)
qed

lemma trim_parts_prefix: "\<exists>ys. xs = trim_parts absolute xs @ ys"
  using rev_dropWhile_prefix [of xs path_junk] by (cases xs) (auto simp: trim_parts_def Let_def)

lemma trim_parts_last: "trim_parts absolute xs \<noteq> [] \<Longrightarrow> last (trim_parts absolute xs) \<noteq> []"
  using hd_dropWhile [of path_junk "rev xs"] by (auto simp: trim_parts_def Let_def path_junk_def last_rev split: if_splits)

lemma length_parts: "(if starts_with ''/'' p then Suc else id) (length (join_str ''/'' (path_parts p))) = length p"
proof -
  have j: "join_str ''/'' (split_char CHR ''/'' q) = q" for q
  proof (induction q)
    case (Cons c q)
    then show ?case by (cases "split_char CHR ''/'' q"; cases "tl (split_char CHR ''/'' q)") auto
  qed simp
  show ?thesis using j [of p] j [of "tl p"] by (cases p) (auto simp: path_parts_def starts_with_iff)
qed

lemma path_parent_shorter:
  assumes "path_parent_dir p = Some q"
  shows "length q < length p"
proof -
  define absolute where "absolute = starts_with ''/'' p"
  define T where "T = trim_parts absolute (path_parts p)"
  have T: "T \<noteq> []" "q = (if absolute then ''/'' else []) @ join_str ''/'' (trim_parts absolute (butlast T))"
    using assms by (auto simp: path_parent_dir_def absolute_def T_def Let_def split: if_splits)
  obtain ys where ys: "butlast T = trim_parts absolute (butlast T) @ ys" using trim_parts_prefix by metis
  obtain zs where zs: "path_parts p = T @ zs" using trim_parts_prefix T_def by metis
  have "length (join_str ''/'' (trim_parts absolute (butlast T))) \<le> length (join_str ''/'' (butlast T))"
    by (subst (2) ys) (rule length_join_append)
  also have "\<dots> < length (join_str ''/'' T)"
  proof -
    obtain B x where "T = B @ [x]" using T(1) by (cases T rule: rev_cases) auto
    moreover have "last T \<noteq> []" using T(1) trim_parts_last by (simp add: T_def)
    then have "0 < length (last T)" by simp
    ultimately show ?thesis by (simp add: length_join_str del: length_greater_0_conv)
  qed
  also have "\<dots> \<le> length (join_str ''/'' (path_parts p))" unfolding zs by (rule length_join_append)
  finally show ?thesis using T(2) length_parts [of p] by (auto simp: absolute_def)
qed

text \<open>\<open>first\<close> is the first directory with a manifest that is not of a workspace.\<close>

function walk_from :: "path_world \<Rightarrow> string option \<Rightarrow> string \<Rightarrow> string option" where
  "walk_from w first dir =
    (let manifest = path_join dir ''Cargo.toml'';
         root = (if pw_is_file w manifest then manifest_workspace_root w manifest else None);
         first = (if pw_is_file w manifest \<and> first = None then Some dir else first)
     in case root of
          Some r \<Rightarrow> Some r
        | None \<Rightarrow> (case path_parent_dir dir of None \<Rightarrow> first | Some up \<Rightarrow> walk_from w first up))"
  by pat_completeness auto
termination by (relation "measure (\<lambda>(w, first, dir). length dir)") (simp_all only: wf_measure in_measure prod.case path_parent_shorter)

declare walk_from.simps [simp del]

definition walk_for_workspace_root :: "path_world \<Rightarrow> string option \<Rightarrow> string option" where
  "walk_for_workspace_root w cwd = Option.bind (or_option cwd (pw_current_dir w)) (walk_from w None)"

definition detect_workspace_root :: "path_world \<Rightarrow> string option \<Rightarrow> string option" where
  "detect_workspace_root w cwd =
    (case map_option (expand_str_path w) (pw_env w ''RUNLOOP_WORKSPACE_ROOT'') of
       Some candidate \<Rightarrow> if pw_is_dir w candidate then Some candidate else walk_for_workspace_root w cwd
     | None \<Rightarrow> walk_for_workspace_root w cwd)"

section \<open>Search paths and lookup\<close>

definition base_dirs :: "path_world \<Rightarrow> string option \<Rightarrow> string option \<Rightarrow> string list \<Rightarrow> string list" where
  "base_dirs w override ws entries =
    foldl (\<lambda>xs entry. push_unique xs (expand_str_path w entry))
      (case override of
         Some dir \<Rightarrow> push_unique [] (expand_str_path w dir)
       | None \<Rightarrow> (case ws of Some d \<Rightarrow> push_unique [] d | None \<Rightarrow> []))
      entries"

text \<open>\<open>resolve_paths\<close> for the search directories of the configuration.\<close>

definition resolve_registry_paths :: "path_world \<Rightarrow> string list \<Rightarrow> string list \<Rightarrow> path_overrides \<Rightarrow> registry_paths" where
  "resolve_registry_paths w agent_dirs opening_dirs ov =
    (let workspace = or_option (po_workspace_root ov) (detect_workspace_root w (po_cwd ov));
         agents = base_dirs w (po_agents_dir ov) (map_option (\<lambda>ws. path_join ws ''agents'') workspace) agent_dirs;
         openings = base_dirs w (po_openings_dir ov)
           (map_option (\<lambda>ws. path_join (path_join ws ''examples'') ''openings'') workspace) opening_dirs;
         missing_agents = list_all (\<lambda>d. \<not> pw_exists w d) agents;
         missing_openings = list_all (\<lambda>d. \<not> pw_exists w d) openings
     in \<lparr>rp_agents = (if missing_agents then push_unique agents default_demo_agents_dir else agents),
         rp_openings = openings,
         rp_demo_agents = (if missing_agents then Some default_demo_agents_dir else None),
         rp_info = (if missing_agents then [''no agent search dirs found; using demo bundles until custom bundles are added''] else []),
         rp_warnings = (if missing_openings
           then [''no opening search dirs exist; set --openings-dir or configure openings.search_dirs''] else [])\<rparr>)"

text \<open>\<open>extension\<close> of a file name: what follows its last dot, unless that is its first character.\<close>

definition path_extension :: "string \<Rightarrow> string option" where
  "path_extension p =
    Option.bind (path_last_name p) (\<lambda>name.
      let parts = split_char CHR ''.'' name
      in if length parts \<le> 1 \<or> (length parts = 2 \<and> hd parts = []) then None else Some (last parts))"

definition yaml_path :: "string \<Rightarrow> string" where
  "yaml_path p =
    (if path_last_name p = None then p
     else (if starts_with ''/'' p then ''/'' else []) @ join_str ''/'' (trim_parts (starts_with ''/'' p) (path_parts p)) @ ''.yaml'')"

definition opening_names :: "string \<Rightarrow> string list" where
  "opening_names name = (if path_extension name \<noteq> None then [name] else [yaml_path name, name])"

definition opening_candidates :: "path_world \<Rightarrow> string \<Rightarrow> string list \<Rightarrow> string list" where
  "opening_candidates w name dirs =
    concat (map (\<lambda>dir. map (path_join dir) (opening_names name)) (filter (pw_exists w) dirs))"

definition find_opening_path :: "path_world \<Rightarrow> string \<Rightarrow> string list \<Rightarrow> string + string" where
  "find_opening_path w name dirs =
    (if pw_is_file w name then Inr name
     else case find (pw_is_file w) (opening_candidates w name dirs) of
       Some p \<Rightarrow> Inr p
     | None \<Rightarrow> Inl (''opening '' @ quoted name @ '' not found (searched: '' @ join_str '', '' (opening_candidates w name dirs) @ '')''))"

section \<open>What is searched\<close>

lemma push_unique_distinct: "distinct (map path_key xs) \<Longrightarrow> distinct (map path_key (push_unique xs c))"
  by (auto simp: push_unique_def path_eq_def list_ex_iff)

lemma push_unique_keeps: "xs \<noteq> [] \<Longrightarrow> push_unique xs c \<noteq> [] \<and> hd (push_unique xs c) = hd xs"
  by (simp add: push_unique_def)

lemma push_all_distinct: "distinct (map path_key xs) \<Longrightarrow> distinct (map path_key (foldl (\<lambda>xs e. push_unique xs (f e)) xs es))"
  by (induction es arbitrary: xs) (auto intro: push_unique_distinct)

lemma push_all_keeps: "xs \<noteq> [] \<Longrightarrow> hd (foldl (\<lambda>xs e. push_unique xs (f e)) xs es) = hd xs \<and> foldl (\<lambda>xs e. push_unique xs (f e)) xs es \<noteq> []"
proof (induction es arbitrary: xs)
  case (Cons e es)
  then show ?case using push_unique_keeps [of xs "f e"] by simp
qed simp

lemma base_dirs_distinct: "distinct (map path_key (base_dirs w ov ws es))"
  unfolding base_dirs_def by (intro push_all_distinct) (auto split: option.splits simp: push_unique_def)

lemma base_dirs_override: "ov = Some d \<Longrightarrow> base_dirs w ov ws es \<noteq> [] \<and> hd (base_dirs w ov ws es) = expand_str_path w d"
  using push_all_keeps [of "[expand_str_path w d]" "expand_str_path w" es] by (simp add: base_dirs_def push_unique_def)

text \<open>There is always a directory to search for agents; no directory is searched twice; an override comes first.\<close>

theorem search_dirs_ok:
  "rp_agents (resolve_registry_paths w ads ods ov) \<noteq> [] \<and>
   distinct (map path_key (rp_agents (resolve_registry_paths w ads ods ov))) \<and>
   distinct (map path_key (rp_openings (resolve_registry_paths w ads ods ov))) \<and>
   (case po_agents_dir ov of
      Some d \<Rightarrow> hd (rp_agents (resolve_registry_paths w ads ods ov)) = expand_str_path w d
    | None \<Rightarrow> True)"
proof (intro conjI)
  show "rp_agents (resolve_registry_paths w ads ods ov) \<noteq> []"
    by (auto simp: resolve_registry_paths_def Let_def push_unique_def)
  show "distinct (map path_key (rp_agents (resolve_registry_paths w ads ods ov)))"
    "distinct (map path_key (rp_openings (resolve_registry_paths w ads ods ov)))"
    by (auto simp: resolve_registry_paths_def Let_def intro: push_unique_distinct base_dirs_distinct)
  show "case po_agents_dir ov of Some d \<Rightarrow> hd (rp_agents (resolve_registry_paths w ads ods ov)) = expand_str_path w d | None \<Rightarrow> True"
    using base_dirs_override push_unique_keeps
    by (auto simp: resolve_registry_paths_def Let_def split: option.split)
qed

end
