(* ===== verification/Monitor.thy ===== *)
theory Monitor
  imports Kb_Redact Rmp_Header Content_Types
begin

text \<open>
  The state of the terminal monitor (\<open>crates/agtop/src/state.rs\<close>): its keys, its events, the dialog that
  asks the operator and the decisions it publishes. \<open>now\<close> gives the clock at the successive moments at
  which it is read, \<open>show_json\<close> is \<open>Value::to_string\<close>; a bus handle is a number. Sent commands are a list;
  an object is listed in the order the code writes it.
\<close>

section \<open>State\<close>

datatype pane = PaneLog | PanePlan | PaneMetrics | PaneTrace

fun pane_next :: "pane \<Rightarrow> pane" where
  "pane_next PaneLog = PanePlan"
| "pane_next PanePlan = PaneMetrics"
| "pane_next PaneMetrics = PaneTrace"
| "pane_next PaneTrace = PaneLog"

fun pane_prev :: "pane \<Rightarrow> pane" where
  "pane_prev PaneLog = PaneTrace"
| "pane_prev PanePlan = PaneLog"
| "pane_prev PaneMetrics = PanePlan"
| "pane_prev PaneTrace = PaneMetrics"

datatype app_event =
    RunPayload json
  | MetricsPayload json "string option"
  | ActionRequest header json
  | BusConnected nat
  | AppError string

record log_entry =
  le_ts :: u64
  le_level :: string
  le_msg :: string
  le_node :: "string option"

record node_status =
  ns_id :: string
  ns_status :: string
  ns_attempt :: u32
  ns_duration :: u64
  ns_error_count :: u32
  ns_inputs :: "string list"
  ns_outputs :: "string list"

record trace_entry =
  tre_ts :: u64
  tre_msg :: string
  tre_kind :: string

type_synonym metric_group = "string \<rightharpoonup> string"

record confirm_modal =
  cm_header :: header
  cm_proposal :: json

record app_state =
  st_logs :: "log_entry list"
  st_plan :: "string \<rightharpoonup> node_status"
  st_metrics :: "string \<rightharpoonup> metric_group"
  st_trace :: "trace_entry list"
  st_last_updated :: "u64 option"

record app =
  ap_should_quit :: bool
  ap_active_pane :: pane
  ap_show_help :: bool
  ap_trace_label :: string
  ap_bus :: "nat option"
  ap_state :: app_state
  ap_confirm_modal :: "confirm_modal option"
  ap_filter_input :: "string option"
  ap_paused :: bool
  ap_buffered :: "app_event list"
  ap_connected :: bool
  ap_sent :: "(header \<times> json \<times> string) list"
  ap_next_msg :: u64
  ap_moments :: nat

record monitor_env =
  me_now :: "nat \<Rightarrow> u64"
  me_show_json :: "json \<Rightarrow> string"

definition app_new :: "string \<Rightarrow> bool \<Rightarrow> app" where
  "app_new trace connected =
    \<lparr>ap_should_quit = False, ap_active_pane = PanePlan, ap_show_help = False, ap_trace_label = trace, ap_bus = None,
     ap_state = \<lparr>st_logs = [], st_plan = Map.empty, st_metrics = Map.empty, st_trace = [], st_last_updated = None\<rparr>,
     ap_confirm_modal = None, ap_filter_input = None, ap_paused = False, ap_buffered = [], ap_connected = connected,
     ap_sent = [], ap_next_msg = 1, ap_moments = 0\<rparr>"

definition current_time :: "monitor_env \<Rightarrow> app \<Rightarrow> u64 \<times> app" where
  "current_time env a = (me_now env (ap_moments a), a\<lparr>ap_moments := Suc (ap_moments a)\<rparr>)"

section \<open>Numbers of metrics\<close>

fun pad_zeros :: "nat \<Rightarrow> string \<Rightarrow> string" where
  "pad_zeros n s = replicate (n - length s) (CHR ''0'') @ s"

text \<open>\<open>format!("{:.k}")\<close>: the exact value, rounded half to even.\<close>

definition fixed_decimal :: "nat \<Rightarrow> f64 \<Rightarrow> string" where
  "fixed_decimal k f =
    (case f64_fraction f of (a, b) \<Rightarrow>
       let q = div_half_even (a * 10 ^ k) b
       in (if f64_sign f then ''-'' else []) @ decimal (q div 10 ^ k) @
          (if k = 0 then [] else ''.'' @ pad_zeros k (decimal (q mod 10 ^ k))))"

text \<open>The distance to the integer part is below \<open>f64::EPSILON\<close>.\<close>

definition nearly_integral :: "f64 \<Rightarrow> bool" where
  "nearly_integral f = (case f64_fraction f of (a, b) \<Rightarrow> (a mod b) * 2 ^ 52 < b)"

definition to_metric_string :: "monitor_env \<Rightarrow> json \<Rightarrow> string" where
  "to_metric_string env v =
    (case json_as_f64 v of
       Some n \<Rightarrow> fixed_decimal (if nearly_integral n then 0 else 2) n
     | None \<Rightarrow> (case json_as_str v of Some s \<Rightarrow> s | None \<Rightarrow> me_show_json env v))"

section \<open>Events\<close>

definition json_as_object :: "json \<Rightarrow> json_map option" where
  "json_as_object v = (case v of JObject m \<Rightarrow> Some m | _ \<Rightarrow> None)"

definition json_as_u64 :: "json \<Rightarrow> u64 option" where
  "json_as_u64 v = (case v of JNumber n \<Rightarrow> number_as_u64 n | _ \<Rightarrow> None)"

definition member_str :: "json \<Rightarrow> string \<Rightarrow> string option" where
  "member_str v k = Option.bind (json_get v k) json_as_str"

definition string_items :: "json list \<Rightarrow> string list" where
  "string_items vs = concat (map (\<lambda>v. case json_as_str v of Some s \<Rightarrow> [s] | None \<Rightarrow> []) vs)"

definition push_log :: "log_entry \<Rightarrow> app \<Rightarrow> app" where
  "push_log e a = a\<lparr>ap_state := (ap_state a)\<lparr>st_logs := st_logs (ap_state a) @ [e]\<rparr>\<rparr>"

definition pending_node :: "string \<Rightarrow> node_status" where
  "pending_node i = \<lparr>ns_id = i, ns_status = ''pending'', ns_attempt = 0, ns_duration = 0, ns_error_count = 0, ns_inputs = [], ns_outputs = []\<rparr>"

definition update_node :: "string \<Rightarrow> string \<Rightarrow> json \<Rightarrow> node_status \<Rightarrow> node_status" where
  "update_node kind message meta n =
    (let n = n\<lparr>ns_status := (case member_str meta ''state'' of Some s \<Rightarrow> s | None \<Rightarrow> kind)\<rparr>;
         n = (case Option.bind (json_get meta ''attempt'') json_as_u64 of Some k \<Rightarrow> n\<lparr>ns_attempt := ucast k\<rparr> | None \<Rightarrow> n);
         n = (case Option.bind (json_get meta ''duration_ms'') json_as_u64 of Some d \<Rightarrow> n\<lparr>ns_duration := d\<rparr> | None \<Rightarrow> n);
         n = (if str_contains message ''failed'' then n\<lparr>ns_error_count := ns_error_count n + 1\<rparr> else n);
         n = (case Option.bind (json_get meta ''inputs'') json_as_array of Some vs \<Rightarrow> n\<lparr>ns_inputs := string_items vs\<rparr> | None \<Rightarrow> n)
     in (case Option.bind (json_get meta ''outputs'') json_as_array of Some vs \<Rightarrow> n\<lparr>ns_outputs := string_items vs\<rparr> | None \<Rightarrow> n))"

definition event_time :: "monitor_env \<Rightarrow> json \<Rightarrow> json \<Rightarrow> app \<Rightarrow> u64 \<times> app" where
  "event_time env payload meta a =
    (case Option.bind (json_get payload ''ts_ms'') json_as_u64 of
       Some t \<Rightarrow> (t, a)
     | None \<Rightarrow> (case Option.bind (json_get meta ''ts_ms'') json_as_u64 of Some t \<Rightarrow> (t, a) | None \<Rightarrow> current_time env a))"

definition process_run_event :: "monitor_env \<Rightarrow> json \<Rightarrow> app \<Rightarrow> app" where
  "process_run_event env payload a =
    (let kind = (case member_str payload ''kind'' of Some k \<Rightarrow> k | None \<Rightarrow> ''unknown'');
         meta = (case json_get payload ''meta'' of Some v \<Rightarrow> v | None \<Rightarrow> JObject [])
     in case event_time env payload meta a of (ts, a) \<Rightarrow>
     let a = a\<lparr>ap_state := (ap_state a)\<lparr>st_last_updated := Some ts\<rparr>\<rparr>;
         node = Option.bind (case json_get meta ''node_id'' of Some v \<Rightarrow> Some v | None \<Rightarrow> json_get meta ''node'') json_as_str;
         level = (case member_str payload ''level'' of Some l \<Rightarrow> l | None \<Rightarrow> ''info'');
         message = (case member_str payload ''message'' of Some l \<Rightarrow> l | None \<Rightarrow> [])
     in if kind \<in> {''log'', ''node.stdout'', ''node.stderr''} then
          push_log \<lparr>le_ts = ts, le_level = level, le_msg = message, le_node = node\<rparr> a
        else if kind \<in> {''plan'', ''status'', ''node.started'', ''node.finished'', ''run.finished''} then
          (case node of
             Some i \<Rightarrow>
               let entry = (case st_plan (ap_state a) i of Some n \<Rightarrow> n | None \<Rightarrow> pending_node i)
               in a\<lparr>ap_state := (ap_state a)\<lparr>st_plan := (st_plan (ap_state a))(i \<mapsto> update_node kind message meta entry)\<rparr>\<rparr>
           | None \<Rightarrow> push_log \<lparr>le_ts = ts, le_level = level, le_msg = message, le_node = None\<rparr> a)
        else if kind \<in> {''trace'', ''trace.line''} then
          a\<lparr>ap_state := (ap_state a)\<lparr>st_trace := st_trace (ap_state a) @ [\<lparr>tre_ts = ts, tre_msg = message, tre_kind = kind\<rparr>]\<rparr>\<rparr>
        else push_log \<lparr>le_ts = ts, le_level = level, le_msg = kind @ '': '' @ message, le_node = node\<rparr> a)"

definition insert_metrics :: "monitor_env \<Rightarrow> json_map \<Rightarrow> metric_group \<Rightarrow> metric_group" where
  "insert_metrics env m g = fold (\<lambda>(k, v) g. g(k \<mapsto> to_metric_string env v)) m g"

definition process_metrics :: "monitor_env \<Rightarrow> json \<Rightarrow> string option \<Rightarrow> app \<Rightarrow> app" where
  "process_metrics env payload source a =
    (let labels = (case Option.bind (json_get payload ''labels'') json_as_object of Some m \<Rightarrow> m | None \<Rightarrow> []);
         scope = (case member_str payload ''scope'' of Some s \<Rightarrow> s | None \<Rightarrow> ''system'');
         key = (case Option.bind (map_of labels ''agent_id'') json_as_str of
             Some s \<Rightarrow> s | None \<Rightarrow> (case source of Some s \<Rightarrow> s | None \<Rightarrow> scope));
         g = (case st_metrics (ap_state a) key of Some g \<Rightarrow> g | None \<Rightarrow> Map.empty);
         g = (case Option.bind (json_get payload ''gauges'') json_as_object of
             Some gauges \<Rightarrow>
               let g = insert_metrics env gauges g
               in (case map_of gauges ''bus_queue_depth_max'' of
                     Some depth \<Rightarrow> if g ''bus_queue_depth'' = None then g(''bus_queue_depth'' \<mapsto> to_metric_string env depth) else g
                   | None \<Rightarrow> g)
           | None \<Rightarrow> g);
         g = (case Option.bind (json_get payload ''counters'') json_as_object of Some m \<Rightarrow> insert_metrics env m g | None \<Rightarrow> g);
         g = (if json_get payload ''gauges'' = None \<and> json_get payload ''counters'' = None
              then (case json_as_object payload of Some m \<Rightarrow> insert_metrics env m g | None \<Rightarrow> g) else g)
     in a\<lparr>ap_state := (ap_state a)\<lparr>st_metrics := (st_metrics (ap_state a))(key \<mapsto> g)\<rparr>\<rparr>)"

definition process_event :: "monitor_env \<Rightarrow> app_event \<Rightarrow> app \<Rightarrow> app" where
  "process_event env e a =
    (case e of
       RunPayload payload \<Rightarrow> process_run_event env payload a
     | MetricsPayload payload source \<Rightarrow> process_metrics env payload source a
     | ActionRequest h payload \<Rightarrow> a\<lparr>ap_confirm_modal := Some \<lparr>cm_header = h, cm_proposal = payload\<rparr>\<rparr>
     | BusConnected bus \<Rightarrow> a\<lparr>ap_bus := Some bus\<rparr>
     | AppError err \<Rightarrow>
         (case current_time env a of (ts, a) \<Rightarrow>
            push_log \<lparr>le_ts = ts, le_level = ''ERROR'', le_msg = ''App Error: '' @ err, le_node = None\<rparr> a))"

text \<open>A paused monitor keeps every event but a new connection.\<close>

definition handle_event :: "monitor_env \<Rightarrow> app_event \<Rightarrow> app \<Rightarrow> app" where
  "handle_event env e a =
    (if ap_paused a then
       (case e of BusConnected _ \<Rightarrow> process_event env e a | _ \<Rightarrow> a\<lparr>ap_buffered := ap_buffered a @ [e]\<rparr>)
     else process_event env e a)"

text \<open>The buffer is taken from the front; processing adds nothing to it.\<close>

definition unpause :: "monitor_env \<Rightarrow> app \<Rightarrow> app" where
  "unpause env a = fold (process_event env) (ap_buffered a) (a\<lparr>ap_buffered := []\<rparr>)"

section \<open>Keys\<close>

datatype key_code = KeyEnter | KeyEsc | KeyChar char | KeyBackspace | KeyTab | KeyBackTab | KeyOther

record key_event =
  ke_code :: key_code
  ke_control :: bool

definition clear_pane :: "app \<Rightarrow> app" where
  "clear_pane a =
    (case ap_active_pane a of
       PaneLog \<Rightarrow> a\<lparr>ap_state := (ap_state a)\<lparr>st_logs := []\<rparr>\<rparr>
     | PanePlan \<Rightarrow> a
     | PaneTrace \<Rightarrow> a\<lparr>ap_state := (ap_state a)\<lparr>st_trace := []\<rparr>\<rparr>
     | PaneMetrics \<Rightarrow> a\<lparr>ap_state := (ap_state a)\<lparr>st_metrics := Map.empty\<rparr>\<rparr>)"

definition decision_payload :: "bool \<Rightarrow> confirm_modal \<Rightarrow> json" where
  "decision_payload approved modal =
    JObject [(''approved'', JBool approved),
      (''rationale'', JString (if approved then ''User approved via TUI'' else ''User rejected via TUI'')),
      (''proposal_id'', JString (decimal (unat (hdr_msg_id (cm_header modal)))))]"

definition decision_header :: "u64 \<Rightarrow> u64 \<Rightarrow> confirm_modal \<Rightarrow> header" where
  "decision_header created msg_id modal =
    default_header\<lparr>hdr_schema_id := CT_ACTION_DECISION, hdr_created_at_ms := created, hdr_ttl_ms := 30000,
      hdr_trace_id := hdr_trace_id (cm_header modal), hdr_msg_id := msg_id\<rparr>"

definition resolve_action :: "monitor_env \<Rightarrow> bool \<Rightarrow> app \<Rightarrow> app" where
  "resolve_action env approved a =
    (case ap_confirm_modal a of
       None \<Rightarrow> a
     | Some modal \<Rightarrow>
         let a = a\<lparr>ap_confirm_modal := None\<rparr>
         in if \<not> ap_connected a then a
            else case current_time env a of (created, a) \<Rightarrow>
              a\<lparr>ap_sent := ap_sent a @ [(decision_header created (ap_next_msg a) modal, decision_payload approved modal, ''action.decision'')],
                ap_next_msg := ap_next_msg a + 1\<rparr>)"

definition on_filter_key :: "key_code \<Rightarrow> string \<Rightarrow> app \<Rightarrow> app" where
  "on_filter_key k input a =
    (case k of
       KeyEnter \<Rightarrow> a\<lparr>ap_filter_input := None\<rparr>
     | KeyEsc \<Rightarrow> a\<lparr>ap_filter_input := None\<rparr>
     | KeyChar c \<Rightarrow> a\<lparr>ap_filter_input := Some (input @ [c])\<rparr>
     | KeyBackspace \<Rightarrow> a\<lparr>ap_filter_input := Some (butlast input)\<rparr>
     | _ \<Rightarrow> a)"

definition on_modal_key :: "monitor_env \<Rightarrow> key_code \<Rightarrow> app \<Rightarrow> app" where
  "on_modal_key env k a =
    (case k of KeyEnter \<Rightarrow> resolve_action env True a | KeyEsc \<Rightarrow> resolve_action env False a | _ \<Rightarrow> a)"

definition on_plain_key :: "monitor_env \<Rightarrow> key_event \<Rightarrow> app \<Rightarrow> app" where
  "on_plain_key env key a =
    (case ke_code key of
       KeyTab \<Rightarrow> a\<lparr>ap_active_pane := pane_next (ap_active_pane a)\<rparr>
     | KeyBackTab \<Rightarrow> a\<lparr>ap_active_pane := pane_prev (ap_active_pane a)\<rparr>
     | KeyChar c \<Rightarrow>
         if c = CHR ''q'' then a\<lparr>ap_should_quit := True\<rparr>
         else if c = CHR ''?'' then a\<lparr>ap_show_help := \<not> ap_show_help a\<rparr>
         else if c = CHR ''/'' then a\<lparr>ap_filter_input := Some []\<rparr>
         else if c = CHR ''.'' then
           (if ap_paused a then unpause env (a\<lparr>ap_paused := False\<rparr>) else a\<lparr>ap_paused := True\<rparr>)
         else if c = CHR ''!'' then clear_pane a
         else if c = CHR ''c'' \<and> ke_control key then a\<lparr>ap_should_quit := True\<rparr>
         else a
     | _ \<Rightarrow> a)"

definition on_key :: "monitor_env \<Rightarrow> key_event \<Rightarrow> app \<Rightarrow> app" where
  "on_key env key a =
    (case ap_filter_input a of
       Some input \<Rightarrow> on_filter_key (ke_code key) input a
     | None \<Rightarrow> if ap_confirm_modal a \<noteq> None then on_modal_key env (ke_code key) a else on_plain_key env key a)"

end
