(* ===== verification/Monitor_Props.thy ===== *)
theory Monitor_Props
  imports Monitor
begin

text \<open>
  What the monitor promises to the operator: a decision is Enter or Escape on the dialog that is shown and answers a
  request that was received before; a pause delays events and loses none. And what it does not: a second
  request takes the place of the first.
\<close>

section \<open>What events leave alone\<close>

text \<open>The part of the monitor that is not its display.\<close>

definition control ::
  "app \<Rightarrow> (header \<times> json \<times> string) list \<times> bool \<times> app_event list \<times> string option \<times> bool \<times> confirm_modal option" where
  "control a = (ap_sent a, ap_paused a, ap_buffered a, ap_filter_input a, ap_connected a, ap_confirm_modal a)"

lemma control_if: "control (if P then a else b) = (if P then control a else control b)"
  by simp

lemma control_updates [simp]:
  "control (a\<lparr>ap_state := st\<rparr>) = control a" "control (a\<lparr>ap_moments := n\<rparr>) = control a" "control (a\<lparr>ap_bus := bus\<rparr>) = control a"
  "control (push_log e a) = control a" "control (snd (current_time env a)) = control a"
  by (simp_all add: control_def push_log_def current_time_def)

lemma control_event_time: "control (snd (event_time env payload meta a)) = control a"
  by (simp add: event_time_def split: option.split)

lemma control_run_event: "control (process_run_event env payload a) = control a"
  by (simp add: process_run_event_def Let_def case_prod_beta option.case_eq_if control_if control_event_time)

lemma control_metrics: "control (process_metrics env payload source a) = control a"
  by (simp add: process_metrics_def Let_def)

lemma control_process_event:
  "control (process_event env e a) =
     (case e of ActionRequest h p \<Rightarrow> control (a\<lparr>ap_confirm_modal := Some \<lparr>cm_header = h, cm_proposal = p\<rparr>\<rparr>) | _ \<Rightarrow> control a)"
  by (simp add: process_event_def control_run_event control_metrics case_prod_beta split: app_event.split)

lemma process_event_keeps [simp]:
  "ap_sent (process_event env e a) = ap_sent a"
  "ap_paused (process_event env e a) = ap_paused a"
  "ap_buffered (process_event env e a) = ap_buffered a"
  "ap_filter_input (process_event env e a) = ap_filter_input a"
  "ap_connected (process_event env e a) = ap_connected a"
  and process_event_modal:
  "ap_confirm_modal (process_event env e a) =
     (case e of ActionRequest h p \<Rightarrow> Some \<lparr>cm_header = h, cm_proposal = p\<rparr> | _ \<Rightarrow> ap_confirm_modal a)"
  using control_process_event [of env e a] by (simp_all add: control_def split: app_event.splits)

lemma process_all_keeps [simp]:
  "ap_sent (fold (process_event env) es a) = ap_sent a"
  "ap_paused (fold (process_event env) es a) = ap_paused a"
  "ap_buffered (fold (process_event env) es a) = ap_buffered a"
  by (induction es arbitrary: a) simp_all

lemma handle_event_sent [simp]: "ap_sent (handle_event env e a) = ap_sent a"
  by (auto simp: handle_event_def split: app_event.split)

lemma unpause_keeps [simp]: "ap_sent (unpause env a) = ap_sent a" "ap_buffered (unpause env a) = []"
  by (simp_all add: unpause_def)

section \<open>Decisions\<close>

definition decision_of :: "monitor_env \<Rightarrow> app \<Rightarrow> bool \<Rightarrow> confirm_modal \<Rightarrow> header \<times> json \<times> string" where
  "decision_of env a approved m =
    (decision_header (me_now env (ap_moments a)) (ap_next_msg a) m, decision_payload approved m, ''action.decision'')"

lemma resolve_action_sent:
  "ap_sent (resolve_action env b a) =
    (case ap_confirm_modal a of
       Some m \<Rightarrow> if ap_connected a then ap_sent a @ [decision_of env a b m] else ap_sent a
     | None \<Rightarrow> ap_sent a)"
  by (simp add: resolve_action_def current_time_def decision_of_def Let_def split: option.split)

lemma plain_key_sent: "ap_sent (on_plain_key env k a) = ap_sent a"
  by (auto simp: on_plain_key_def clear_pane_def split: key_code.split pane.split)

lemma filter_key_sent: "ap_sent (on_filter_key c s a) = ap_sent a"
  by (auto simp: on_filter_key_def split: key_code.split)

text \<open>
  No event publishes a decision. A key publishes one exactly if the dialog is open, no filter is being
  typed, the monitor is connected and the key is Enter (approve) or Escape (reject); the decision is about
  the request that the dialog shows.
\<close>

theorem decision_needs_key:
  "ap_sent (handle_event env e a) = ap_sent a \<and>
   ap_sent (on_key env k a) =
     (case (ap_filter_input a, ap_confirm_modal a) of
        (None, Some m) \<Rightarrow>
          if \<not> ap_connected a then ap_sent a
          else if ke_code k = KeyEnter then ap_sent a @ [decision_of env a True m]
          else if ke_code k = KeyEsc then ap_sent a @ [decision_of env a False m]
          else ap_sent a
      | _ \<Rightarrow> ap_sent a)"
  by (auto simp: on_key_def on_modal_key_def plain_key_sent filter_key_sent resolve_action_sent split: option.split key_code.split)

section \<open>The monitor as a system of steps\<close>

text \<open>The second component is what happened so far: the keys pressed and the events received, in order.\<close>

datatype monitor_input = KeyPressed key_event | Received app_event

inductive monitor_step :: "monitor_env \<Rightarrow> app \<times> monitor_input list \<Rightarrow> app \<times> monitor_input list \<Rightarrow> bool" for env where
  step_key: "monitor_step env (a, is) (on_key env k a, is @ [KeyPressed k])"
| step_event: "monitor_step env (a, is) (handle_event env e a, is @ [Received e])"

inductive_cases monitor_stepE: "monitor_step env (a, is) t"

definition monitor_init :: "app \<times> monitor_input list \<Rightarrow> bool" where
  "monitor_init s \<longleftrightarrow> (\<exists>trace connected. s = (app_new trace connected, []))"

definition answers :: "monitor_input list \<Rightarrow> header \<times> json \<times> string \<Rightarrow> bool" where
  "answers is d \<longleftrightarrow> (\<exists>before k after h p. is = before @ KeyPressed k # after \<and> Received (ActionRequest h p) \<in> set before \<and>
     ke_code k \<in> {KeyEnter, KeyEsc} \<and> hdr_schema_id (fst d) = CT_ACTION_DECISION \<and> hdr_trace_id (fst d) = hdr_trace_id h \<and>
     fst (snd d) = JObject [(''approved'', JBool (ke_code k = KeyEnter)),
       (''rationale'', JString (if ke_code k = KeyEnter then ''User approved via TUI'' else ''User rejected via TUI'')),
       (''proposal_id'', JString (decimal (unat (hdr_msg_id h))))])"

definition monitor_ok :: "app \<times> monitor_input list \<Rightarrow> bool" where
  "monitor_ok s \<longleftrightarrow> (case s of (a, is) \<Rightarrow>
     (ap_paused a \<or> ap_buffered a = []) \<and> Received ` set (ap_buffered a) \<subseteq> set is \<and>
     (\<forall>m. ap_confirm_modal a = Some m \<longrightarrow> Received (ActionRequest (cm_header m) (cm_proposal m)) \<in> set is) \<and>
     (\<forall>d \<in> set (ap_sent a). answers is d))"

lemma answers_mono: "answers is d \<Longrightarrow> answers (is @ js) d"
  unfolding answers_def by (metis append.assoc append_Cons)

lemma monitor_ok_mono: "monitor_ok (a, is) \<Longrightarrow> monitor_ok (a, is @ js)"
  using answers_mono by (auto simp: monitor_ok_def)

lemma answers_modal:
  assumes "Received (ActionRequest (cm_header m) (cm_proposal m)) \<in> set is" "ke_code k \<in> {KeyEnter, KeyEsc}"
  shows "answers (is @ [KeyPressed k]) (decision_of env a (ke_code k = KeyEnter) m)"
  unfolding answers_def
  by (rule exI [of _ "is"], rule exI [of _ k], rule exI [of _ "[]"], rule exI [of _ "cm_header m"], rule exI [of _ "cm_proposal m"])
    (use assms in \<open>simp add: decision_of_def decision_header_def decision_payload_def\<close>)

lemma process_all_modal:
  assumes "ap_confirm_modal (fold (process_event env) es a) = Some m"
  shows "ap_confirm_modal a = Some m \<or> ActionRequest (cm_header m) (cm_proposal m) \<in> set es"
  using assms
proof (induction es arbitrary: a)
  case (Cons e es)
  from Cons.IH [of "process_event env e a"] Cons.prems show ?case
    by (auto simp: process_event_modal split: app_event.splits)
qed simp

lemma plain_key_ok:
  assumes "monitor_ok (a, is)"
  shows "monitor_ok (on_plain_key env k a, is)"
proof (cases "ke_code k = KeyChar (CHR ''.'') \<and> ap_paused a")
  case True
  then have "on_plain_key env k a = unpause env (a\<lparr>ap_paused := False\<rparr>)" by (simp add: on_plain_key_def)
  moreover have "Received (ActionRequest (cm_header m) (cm_proposal m)) \<in> set is"
    if "ap_confirm_modal (unpause env (a\<lparr>ap_paused := False\<rparr>)) = Some m" for m
    using process_all_modal [OF that [unfolded unpause_def]] assms by (auto simp: monitor_ok_def)
  ultimately show ?thesis using assms by (simp add: monitor_ok_def)
next
  case False
  then show ?thesis using assms
    by (cases "ke_code k") (auto simp: monitor_ok_def on_plain_key_def clear_pane_def split: pane.split)
qed

lemma filter_key_ok: "monitor_ok (a, is) \<Longrightarrow> monitor_ok (on_filter_key c s a, is)"
  by (cases c) (simp_all add: monitor_ok_def on_filter_key_def)

lemma resolve_action_rest:
  "ap_paused (resolve_action env b a) = ap_paused a" "ap_buffered (resolve_action env b a) = ap_buffered a"
  "ap_confirm_modal (resolve_action env b a) = None"
  by (simp_all add: resolve_action_def current_time_def Let_def split: option.split)

lemma modal_key_ok:
  assumes "monitor_ok (a, is)"
  shows "monitor_ok (on_modal_key env (ke_code k) a, is @ [KeyPressed k])"
proof (cases "ke_code k \<in> {KeyEnter, KeyEsc}")
  case True
  then have "on_modal_key env (ke_code k) a = resolve_action env (ke_code k = KeyEnter) a" by (auto simp: on_modal_key_def)
  then show ?thesis
    using monitor_ok_mono [OF assms, of "[KeyPressed k]"] answers_modal [OF _ True] assms
    by (simp add: monitor_ok_def resolve_action_rest resolve_action_sent split: option.split)
next
  case False
  then have "on_modal_key env (ke_code k) a = a" by (simp add: on_modal_key_def split: key_code.split)
  then show ?thesis using monitor_ok_mono [OF assms] by simp
qed

lemma key_ok: "monitor_ok (a, is) \<Longrightarrow> monitor_ok (on_key env k a, is @ [KeyPressed k])"
  by (simp add: on_key_def monitor_ok_mono filter_key_ok modal_key_ok plain_key_ok split: option.split)

lemma event_ok:
  assumes "monitor_ok (a, is)"
  shows "monitor_ok (handle_event env e a, is @ [Received e])"
  using monitor_ok_mono [OF assms, of "[Received e]"]
  by (auto simp: handle_event_def monitor_ok_def process_event_modal split: app_event.split)

interpretation mon: invariant monitor_init "monitor_step env" monitor_ok
proof
  fix s assume "monitor_init s"
  then show "monitor_ok s" by (auto simp: monitor_init_def monitor_ok_def app_new_def)
next
  fix s t assume "monitor_ok s" "monitor_step env s t"
  then show "monitor_ok t" by (cases s) (auto elim!: monitor_stepE intro: key_ok event_ok)
qed

text \<open>C32: 
  In every state that keys and events lead to, a decision that was published answers a request that was
  received, with its trace and message number, and was published by a key pressed after the request
  arrived: it says approved exactly if that key was Enter, rejected if it was Escape.
\<close>

theorem decisions_answer_requests:
  assumes "reachable monitor_init (monitor_step env) (a, is)" "d \<in> set (ap_sent a)"
  shows "\<exists>before k after h p. is = before @ KeyPressed k # after \<and> Received (ActionRequest h p) \<in> set before \<and>
    ke_code k \<in> {KeyEnter, KeyEsc} \<and> hdr_schema_id (fst d) = CT_ACTION_DECISION \<and> hdr_trace_id (fst d) = hdr_trace_id h \<and>
    fst (snd d) = JObject [(''approved'', JBool (ke_code k = KeyEnter)),
      (''rationale'', JString (if ke_code k = KeyEnter then ''User approved via TUI'' else ''User rejected via TUI'')),
      (''proposal_id'', JString (decimal (unat (hdr_msg_id h))))]"
  using mon.reachable_inv [OF assms(1)] assms(2) unfolding monitor_ok_def answers_def by blast

section \<open>Pauses\<close>

definition is_connection :: "app_event \<Rightarrow> bool" where
  "is_connection e = (case e of BusConnected _ \<Rightarrow> True | _ \<Rightarrow> False)"

lemma handle_paused:
  "ap_paused a \<Longrightarrow> list_all (\<lambda>e. \<not> is_connection e) es \<Longrightarrow>
   fold (handle_event env) es a = a\<lparr>ap_buffered := ap_buffered a @ es\<rparr>"
proof (induction es arbitrary: a)
  case (Cons e es)
  have "handle_event env e a = a\<lparr>ap_buffered := ap_buffered a @ [e]\<rparr>"
    using Cons.prems by (auto simp: handle_event_def is_connection_def split: app_event.splits)
  then show ?case using Cons by simp
qed simp

lemma handle_running: "\<not> ap_paused a \<Longrightarrow> fold (handle_event env) es a = fold (process_event env) es a"
  by (induction es arbitrary: a) (simp_all add: handle_event_def)

text \<open>Pausing, receiving events and going on leads to the state without the pause.\<close>

theorem pause_only_delays:
  assumes "ap_filter_input a = None" "ap_confirm_modal a = None" "\<not> ap_paused a" "ap_buffered a = []"
    and "list_all (\<lambda>e. \<not> is_connection e) es" "ke_code k = KeyChar (CHR ''.'')"
  shows "on_key env k (fold (handle_event env) es (on_key env k a)) = fold (handle_event env) es a"
proof -
  have key: "on_key env k b = on_plain_key env k b" if "ap_filter_input b = None" "ap_confirm_modal b = None" for b
    using that by (simp add: on_key_def)
  have same: "a\<lparr>ap_paused := False\<rparr> = a" "a\<lparr>ap_buffered := []\<rparr> = a" using assms(3,4) by (cases a; simp)+
  have "on_key env k a = a\<lparr>ap_paused := True\<rparr>" using assms by (simp add: key on_plain_key_def)
  moreover have "fold (handle_event env) es (a\<lparr>ap_paused := True\<rparr>) = a\<lparr>ap_paused := True, ap_buffered := es\<rparr>"
    using handle_paused [of "a\<lparr>ap_paused := True\<rparr>" es env] assms(4,5) by simp
  moreover have "on_key env k (a\<lparr>ap_paused := True, ap_buffered := es\<rparr>) = fold (process_event env) es a"
    using assms same by (cases a) (simp add: key on_plain_key_def unpause_def)
  ultimately show ?thesis using handle_running [of a env es] assms(3) by simp
qed

section \<open>A second request\<close>

text \<open>
  A request that arrives while the dialog is open takes its place: Enter then approves the second, and
  the first is never decided.
\<close>

theorem second_request_replaces_first:
  assumes "\<not> ap_paused a" "ap_filter_input a = None" "ap_connected a" "ke_code k = KeyEnter"
  shows "let b = handle_event env (ActionRequest h2 p2) (handle_event env (ActionRequest h1 p1) a); c = on_key env k b
    in ap_sent c = ap_sent a @ [decision_of env b True \<lparr>cm_header = h2, cm_proposal = p2\<rparr>] \<and> ap_confirm_modal c = None"
  using assms
  by (simp add: handle_event_def process_event_def on_key_def on_modal_key_def resolve_action_def current_time_def decision_of_def Let_def)

section \<open>Examples\<close>

definition demo_monitor_env :: monitor_env where
  "demo_monitor_env = \<lparr>me_now = (\<lambda>_. 7), me_show_json = (\<lambda>_. [])\<rparr>"

definition demo_key :: "key_code \<Rightarrow> key_event" where
  "demo_key c = \<lparr>ke_code = c, ke_control = False\<rparr>"

definition demo_request :: app_event where
  "demo_request = ActionRequest (default_header\<lparr>hdr_trace_id := 9, hdr_msg_id := 4\<rparr>) JNull"

text \<open>A request and Enter.\<close>

theorem decisions_answer_requests_witness:
  "map (fst \<circ> snd) (ap_sent (on_key demo_monitor_env (demo_key KeyEsc) (handle_event demo_monitor_env demo_request (app_new ''t'' True)))) =
    [JObject [(''approved'', JBool False), (''rationale'', JString ''User rejected via TUI''), (''proposal_id'', JString ''4'')]]"
proof -
  let ?a = "handle_event demo_monitor_env demo_request (app_new ''t'' True)"
  let ?b = "on_key demo_monitor_env (demo_key KeyEsc) ?a"
  have "reachable monitor_init (monitor_step demo_monitor_env) (app_new ''t'' True, [])"
    by (rule reachable.start) (auto simp: monitor_init_def)
  then have "reachable monitor_init (monitor_step demo_monitor_env) (?a, [] @ [Received demo_request])"
    by (rule reachable.move) (rule monitor_step.step_event)
  then have r: "reachable monitor_init (monitor_step demo_monitor_env) (?b, [Received demo_request] @ [KeyPressed (demo_key KeyEsc)])"
    unfolding append_Nil by (rule reachable.move) (rule monitor_step.step_key)
  have "length (ap_sent ?b) = 1"
    by (simp add: demo_key_def demo_request_def app_new_def handle_event_def process_event_def on_key_def on_modal_key_def
        resolve_action_def current_time_def)
  then obtain d where sent: "ap_sent ?b = [d]" by (auto simp: length_Suc_conv)
  then have "d \<in> set (ap_sent ?b)" by simp
  from decisions_answer_requests [OF r this] obtain before k after h p where
    split: "[Received demo_request, KeyPressed (demo_key KeyEsc)] = before @ KeyPressed k # after"
    and req: "Received (ActionRequest h p) \<in> set before"
    and d: "fst (snd d) = JObject [(''approved'', JBool (ke_code k = KeyEnter)),
      (''rationale'', JString (if ke_code k = KeyEnter then ''User approved via TUI'' else ''User rejected via TUI'')),
      (''proposal_id'', JString (decimal (unat (hdr_msg_id h))))]"
    by auto
  from split req have "before = [Received demo_request]" "k = demo_key KeyEsc" by (auto simp: Cons_eq_append_conv)
  then have "h = default_header\<lparr>hdr_trace_id := 9, hdr_msg_id := 4\<rparr>" "ke_code k = KeyEsc"
    using req by (simp_all add: demo_request_def demo_key_def)
  moreover have "decimal 4 = ''4''" by code_simp
  ultimately show ?thesis using d by (simp add: sent)
qed

text \<open>A pause during which a request arrives.\<close>

theorem pause_only_delays_witness:
  "on_key demo_monitor_env (demo_key (KeyChar (CHR ''.''))) (fold (handle_event demo_monitor_env) [demo_request]
     (on_key demo_monitor_env (demo_key (KeyChar (CHR ''.''))) (app_new ''t'' True))) =
   fold (handle_event demo_monitor_env) [demo_request] (app_new ''t'' True)"
  by (rule pause_only_delays) (simp_all add: app_new_def demo_request_def is_connection_def demo_key_def)

text \<open>Two requests and Enter.\<close>

theorem second_request_replaces_first_witness:
  "let b = handle_event demo_monitor_env (ActionRequest default_header JNull) (handle_event demo_monitor_env demo_request (app_new ''t'' True));
       c = on_key demo_monitor_env (demo_key KeyEnter) b
   in ap_sent c = [decision_of demo_monitor_env b True \<lparr>cm_header = default_header, cm_proposal = JNull\<rparr>] \<and> ap_confirm_modal c = None"
  using second_request_replaces_first [of "app_new ''t'' True" "demo_key KeyEnter" demo_monitor_env default_header JNull
      "default_header\<lparr>hdr_trace_id := 9, hdr_msg_id := 4\<rparr>" JNull]
  by (simp add: app_new_def demo_key_def demo_request_def Let_def)

end
