(* ===== verification/Spec2Isabelle.thy ===== *)
theory Spec2Isabelle
  imports Opening_System Runtime_Caps_Meet Bus_System Model_Broker_Props Runtime_Host_Secrecy Kb_Seal Kb_Privacy Router_Props Shell_Props Agents_Text Agents_Props Search_Paths Monitor_Props
begin

text \<open>
  Verification library of \<open>runloop\<close>, a runtime for agents compiled to WebAssembly.

  \<^bold>\<open>The program.\<close> An \<^emph>\<open>opening\<close> is a YAML document that describes a graph of agents; it is parsed and
  checked (\<open>crates/openings/src/parser.rs\<close>), executed node by node (\<open>runner.rs\<close>) and can be replayed
  (\<open>replay.rs\<close>). Agents talk over a bus (\<open>crates/bus\<close>) in frames of the RMP protocol (\<open>crates/rmp\<close>)
  whose payloads carry registered schemas (\<open>crates/core/src/content_types.rs\<close>). Each agent runs under
  capabilities (\<open>crates/runtime/src/caps.rs\<close>) that its hostcalls check (\<open>hostcalls.rs\<close>); the calls
  reach secrets (\<open>secrets.rs\<close>), child processes and the model broker (\<open>crates/model-broker\<close>).

  \<^bold>\<open>Shared theories.\<close> \<open>Prelude\<close>: machine integers, the error monad that models \<open>Result\<close>, LRU lists,
  step relations and the locale \<open>invariant\<close>. \<open>Rust_Str\<close>, \<open>Rust_Num\<close>: the string, UTF-8, integer and
  IEEE-754 primitives of the standard library that the sources use.

  \<^bold>\<open>Components.\<close>
  \<^item> \<open>Rmp_Header\<close>, \<open>Content_Types\<close>: header and frame codec, expiry; the schema registry and the envelope.
    Round trips, exact acceptance, and a bijection between schemas and types.
  \<^item> \<open>Opening_Values\<close>, \<open>Opening_Template\<close>, \<open>Opening_Locate\<close>, \<open>Opening_Ports\<close>, \<open>Opening_Graph\<close>,
    \<open>Opening_Parser\<close>: the parser, operation by operation, on the value tree of the YAML reader.
    Acceptance is characterised: graph checks are exact, templates vanish, nothing panics.
  \<^item> \<open>Opening_Exec\<close>, \<open>Opening_Runner\<close>, \<open>Opening_Runner_Inv\<close>, \<open>Opening_Replay\<close>, \<open>Opening_System\<close>: the run
    as a worklist loop with its invariant, the replay, and the properties of the two composed with
    the parser. The loop is total by a measure on unprocessed nodes, the attempts by their number.
  \<^item> \<open>Runtime_Caps\<close>, \<open>Runtime_Caps_Meet\<close>: policy parser, overrides and what capabilities permit; an
    override never widens.
  \<^item> \<open>Bus_Server\<close>, \<open>Bus_Props\<close>, \<open>Bus_Inv\<close>, \<open>Bus_System\<close>: the server of the bus with subscriptions,
    bounded queues, deduplication and drop notices, as functions on its state and as a step
    relation whose invariant holds in every reachable state.
  \<^item> \<open>Model_Broker\<close>, \<open>Model_Broker_Props\<close>: routes, budgets, cache and completion.
  \<^item> \<open>Runtime_Secrets\<close>: handles, providers and the cache in front of them.
  \<^item> \<open>Runtime_Ready\<close>: the readiness barrier, as functions and as interleaved atomic accesses.
  \<^item> \<open>Runtime_Audit\<close>, \<open>Runtime_Exec\<close>, \<open>Runtime_Host\<close>, \<open>Runtime_Host_Props\<close>: audit records and rings, child
    processes, and the hostcalls with guest memory and mailbox; any run of a guest is a step
    relation, and the locales \<open>host_invariant\<close> and \<open>guest_invariant\<close> give its invariants.
    \<open>Runtime_Host_Memory\<close>: what a call may write, its output buffers or, for the two calls that overrun
    them, as many bytes as it returns; \<open>Runtime_Host_Calls\<close>: mailbox, commands and captures;
    \<open>Runtime_Host_Secrecy\<close>: a simulation of hosts whose secrets differ, for guests that may not execute
    commands, and how a command tells them apart.
  \<^item> \<open>Kb_Redact\<close>, \<open>Kb_Ledger\<close>, \<open>Kb_Views\<close>, \<open>Kb_Query\<close>: the knowledge base (\<open>crates/kb\<close>): masking of
    addresses, the ledger of events with its seal, audits and run traces, the materialized views,
    queries, search and history. \<open>Kb_Props\<close>: its steps and invariant, the views as a replay of the
    ledger; \<open>Kb_Seal\<close>: what verification detects; \<open>Kb_Privacy\<close>: what a masked query reveals
    of addresses in the columns named after them and in payloads, and that other columns show them.
  \<^item> \<open>Router\<close>, \<open>Router_Props\<close>: the classifier of prompts (\<open>crates/router\<close>) and \<open>rlp route\<close>; the route as a
    function of the tokens and lists. \<open>Shell_Block\<close>, \<open>Shell_Props\<close>: the block that \<open>rlp shell\<close> keeps in
    a start-up file (\<open>crates/rlp/src/shell.rs\<close>), and what becomes of the text around it.
  \<^item> \<open>Agent_Registry\<close>, \<open>Agent_Registry_Props\<close>: manifests and bundles of agents (\<open>crates/agent-registry\<close>), which
    stay below their directories; \<open>Search_Paths\<close>: where agents and openings are searched
    (\<open>crates/registry\<close>). Discovery ends by the number of directories within its depth, the walk to the
    root of a workspace by the length of the path.
  \<^item> \<open>Agents_Common\<close>, \<open>Agents_Native\<close>: the native agents (\<open>crates/agents\<close>) as operations on the knowledge
    base with a log of what they print, write and ask; \<open>Agents_Text\<close>: their SQL, drafts and excerpts.
    \<open>Local_Exec\<close>: the executor that runs a node as a Wasm or native agent (\<open>crates/executor-local\<close>);
    \<open>Agents_Props\<close>: no mail without approval, by the locale \<open>kept\<close> of relations every operation keeps.
  \<^item> \<open>Monitor\<close>, \<open>Monitor_Props\<close>: the state of the terminal monitor (\<open>crates/agtop/src/state.rs\<close>) under keys
    and events, as a step relation: a published decision answers a request that was received, by the key
    pressed after it; a pause delays events only, and a second request replaces the first.

  \<^bold>\<open>Conventions.\<close> A \<open>string\<close> is a list of code points up to 255. An error is \<open>Inl\<close>, a value \<open>Inr\<close>; a panic
  or a call that never returns is \<open>None\<close>. Third-party code (YAML, TOML and MsgPack readers, hashes,
  LRU caches, URL parser) and the world (clocks, files, environment, processes, providers) are
  parameters of the definitions, with documented behaviour as named hypotheses. Loops that may not
  end are \<open>partial_function (option)\<close> and their termination is a theorem; no fuel is used.

  \<^bold>\<open>Not modelled.\<close> Thread scheduling and async executors (handlers run one at a time, the barrier
  excepted), the process-wide registry of bus paths and its IPC transport, the HTTP providers of
  the broker, WASI and the Wasm engine, the SQL engine (an answer to a query is a parameter) with
  migrations and backups, the instances of Wasm agents, the Wasm agents themselves, the other commands
  of the CLI, the interactive agent, the drawing and the collectors of the monitor, and the daemon.
\<close>

end
